(* ===== verification/Go_Prelude.thy ===== *)
theory Go_Prelude
  imports Main "HOL-Library.AList" "HOL-Library.Word"
begin

text \<open>
  Shared vocabulary of the development: the parts of the Go language and of its standard library
  that the services of \<^verbatim>\<open>src/services\<close> use in every component.

  \<^item> \<^emph>\<open>time.Time\<close> is \<open>gotime\<close>, an instant as a number of nanoseconds since the zero \<open>Time\<close>, so
    that \<open>IsZero\<close> is equality with 0, \<open>Before\<close>/\<open>After\<close>/\<open>Equal\<close> are the order on integers and
    \<open>UTC()\<close>, which changes the location and not the instant, is the identity.
    \<open>Sub\<close> saturates at the bounds of the 64-bit \<open>Duration\<close>.
  \<^item> a Go \<open>map\<close> is \<open>gomap\<close>, an association list read by \<open>mget\<close>, written by \<open>mput\<close> and \<open>mdel\<close>; its
    list order stands for the order in which \<open>range\<close> visits it.
  \<^item> \<open>math/big\<close>: \<open>big_set_string\<close> is \<open>SetString(s, 10)\<close>, \<open>big_string\<close> is \<open>String()\<close>, \<open>quo\<close> is
    \<open>Quo\<close>, with the round trip between text and number.
  \<^item> fallible code returns a sum: \<open>Inl\<close> the error, \<open>Inr\<close> the result; a method that also writes its
    receiver returns the pair of the outcome and the new state.
\<close>

named_theorems go_map \<comment> \<open>reading a map after a write\<close>
named_theorems canon \<comment> \<open>decimal text and the integer it denotes\<close>

section \<open>Results\<close>

fun isOK :: "'e + 'a \<Rightarrow> bool" where
  "isOK (Inl e) = False"
| "isOK (Inr x) = True"

lemma isOK_iff: "isOK r \<longleftrightarrow> (\<exists>x. r = Inr x)"
  by (cases r) auto

text \<open>Sequencing: \<open>if err != nil { return err }\<close> between two calls, and a guard that fails.\<close>

fun ebind :: "'e + 'a \<Rightarrow> ('a \<Rightarrow> 'e + 'b) \<Rightarrow> 'e + 'b" where
  "ebind (Inl e) f = Inl e"
| "ebind (Inr x) f = f x"

definition require :: "bool \<Rightarrow> 'e \<Rightarrow> 'e + unit" where
  "require b e = (if b then Inr () else Inl e)"

lemma ebind_Inr_iff [simp]: "ebind m f = Inr y \<longleftrightarrow> (\<exists>x. m = Inr x \<and> f x = Inr y)"
  by (cases m) auto

lemma ebind_Inl_iff: "ebind m f = Inl e \<longleftrightarrow> m = Inl e \<or> (\<exists>x. m = Inr x \<and> f x = Inl e)"
  by (cases m) auto

lemma ebind_cong [fundef_cong]:
  "m = m' \<Longrightarrow> (\<And>x. m' = Inr x \<Longrightarrow> f x = g x) \<Longrightarrow> ebind m f = ebind m' g"
  by (cases m') auto

lemma require_Inr_iff [simp]: "require b e = Inr u \<longleftrightarrow> b"
  by (simp add: require_def)

lemma require_Inl_iff [simp]: "require b e = Inl e' \<longleftrightarrow> \<not> b \<and> e' = e"
  by (auto simp: require_def)

lemma require_simps [simp]: "require True e = Inr ()" "require False e = Inl e"
  by (simp_all add: require_def)

definition the_default :: "'a \<Rightarrow> 'a option \<Rightarrow> 'a" where
  "the_default d x = (case x of None \<Rightarrow> d | Some y \<Rightarrow> y)"

lemma the_default_simps [simp]: "the_default d None = d" "the_default d (Some y) = y"
  by (simp_all add: the_default_def)

section \<open>Instants and durations\<close>

type_synonym gotime = int
type_synonym duration = int

definition max_duration :: duration where
  "max_duration = 2 ^ 63 - 1"

definition min_duration :: duration where
  "min_duration = - (2 ^ 63)"

definition time_sub :: "gotime \<Rightarrow> gotime \<Rightarrow> duration" where
  "time_sub t u = max min_duration (min max_duration (t - u))"

definition hour :: duration where
  "hour = 3600000000000"

lemma time_sub_le_iff:
  assumes "0 \<le> d" and "d < max_duration"
  shows "time_sub t u \<le> d \<longleftrightarrow> t - u \<le> d"
  using assms by (auto simp: time_sub_def max_duration_def min_duration_def)

section \<open>Maps\<close>

type_synonym ('k, 'v) gomap = "('k \<times> 'v) list"

definition mget :: "('k, 'v) gomap \<Rightarrow> 'k \<Rightarrow> 'v option" where
  "mget m k = map_of m k"

definition mput :: "'k \<Rightarrow> 'v \<Rightarrow> ('k, 'v) gomap \<Rightarrow> ('k, 'v) gomap" where
  "mput k v m = AList.update k v m"

definition mdel :: "'k \<Rightarrow> ('k, 'v) gomap \<Rightarrow> ('k, 'v) gomap" where
  "mdel k m = AList.delete k m"

definition mhas :: "('k, 'v) gomap \<Rightarrow> 'k \<Rightarrow> bool" where
  "mhas m k \<longleftrightarrow> mget m k \<noteq> None"

definition mkeys :: "('k, 'v) gomap \<Rightarrow> 'k list" where
  "mkeys m = map fst m"

text \<open>A map made by Go code holds each key once.\<close>

definition mwf :: "('k, 'v) gomap \<Rightarrow> bool" where
  "mwf m \<longleftrightarrow> distinct (map fst m)"

text \<open>The later map keeps every binding of the earlier one.\<close>

definition mext :: "('k, 'v) gomap \<Rightarrow> ('k, 'v) gomap \<Rightarrow> bool" where
  "mext m m' \<longleftrightarrow> (\<forall>k v. mget m k = Some v \<longrightarrow> mget m' k = Some v)"

lemma mget_Nil [simp, go_map]: "mget [] k = None"
  by (simp add: mget_def)

lemma mget_mput [simp, go_map]: "mget (mput k v m) j = (if j = k then Some v else mget m j)"
  by (simp add: mget_def mput_def update_conv')

lemma mget_mdel [simp, go_map]: "mget (mdel k m) j = (if j = k then None else mget m j)"
  by (simp add: mget_def mdel_def delete_conv')

lemma mhas_iff: "mhas m k \<longleftrightarrow> (\<exists>v. mget m k = Some v)"
  by (auto simp: mhas_def)

lemma mhas_Nil [simp]: "\<not> mhas [] k"
  by (simp add: mhas_def)

lemma mhas_mput [simp]: "mhas (mput k v m) j \<longleftrightarrow> j = k \<or> mhas m j"
  by (simp add: mhas_def)

lemma mput_Nil [simp]: "mput k v [] = [(k, v)]"
  by (simp add: mput_def)

lemma mput_Cons [simp]:
  "mput k v ((j, w) # m) = (if j = k then (k, v) # m else (j, w) # mput k v m)"
  by (simp add: mput_def)

lemma mget_Cons [simp]: "mget ((j, w) # m) k = (if k = j then Some w else mget m k)"
  by (simp add: mget_def)

lemma mhas_Cons [simp]: "mhas ((j, w) # m) k \<longleftrightarrow> k = j \<or> mhas m k"
  by (simp add: mhas_def)

lemma mwf_Nil [simp]: "mwf []"
  by (simp add: mwf_def)

lemma mwf_mput [simp]: "mwf m \<Longrightarrow> mwf (mput k v m)"
  by (simp add: mwf_def mput_def distinct_update)

lemma mget_mem: "mget m k = Some v \<Longrightarrow> (k, v) \<in> set m"
  by (simp add: mget_def map_of_SomeD)

lemma mem_mget: "mwf m \<Longrightarrow> (k, v) \<in> set m \<Longrightarrow> mget m k = Some v"
  by (simp add: mget_def mwf_def map_of_is_SomeI)

lemma mput_new: "mget m k = None \<Longrightarrow> mput k v m = m @ [(k, v)]"
  by (induction m) (auto split: if_splits)

lemma mget_append:
  "mget (m @ n) k = (case mget m k of Some v \<Rightarrow> Some v | None \<Rightarrow> mget n k)"
  by (simp add: mget_def map_add_def split: option.splits)

lemma mext_refl [simp, intro]: "mext m m"
  by (simp add: mext_def)

lemma mext_trans [trans]: "mext m n \<Longrightarrow> mext n p \<Longrightarrow> mext m p"
  by (simp add: mext_def)

lemma mextD: "mext m n \<Longrightarrow> mget m k = Some v \<Longrightarrow> mget n k = Some v"
  by (simp add: mext_def)

lemma mext_mput_new [intro]: "mget m k = None \<Longrightarrow> mext m (mput k v m)"
  by (auto simp: mext_def)

text \<open>A sum over the values of a map, and what a write does to it.\<close>

definition msum :: "('v \<Rightarrow> int) \<Rightarrow> ('k, 'v) gomap \<Rightarrow> int" where
  "msum f m = (\<Sum>(k, v)\<leftarrow>m. f v)"

lemma msum_Nil [simp]: "msum f [] = 0"
  by (simp add: msum_def)

lemma msum_Cons [simp]: "msum f ((k, v) # m) = f v + msum f m"
  by (simp add: msum_def)

lemma msum_mput:
  "msum f (mput k v m) = msum f m + f v - (case mget m k of Some w \<Rightarrow> f w | None \<Rightarrow> 0)"
  by (induction m) auto

end
