(* ===== verification/Transition.thy ===== *)
theory Transition
  imports Go_Prelude
begin

text \<open>
  Generic facts on the stateful components: what can be reached by a sequence of operations, an
  invariant that every operation keeps, and a relation between earlier and later states that every
  operation respects. Each component's state machine is an interpretation of these two locales.
\<close>

inductive reachable :: "('s \<Rightarrow> bool) \<Rightarrow> ('s \<Rightarrow> 's \<Rightarrow> bool) \<Rightarrow> 's \<Rightarrow> bool" for init step where
  reach_init: "init s \<Longrightarrow> reachable init step s"
| reach_step: "reachable init step s \<Longrightarrow> step s t \<Longrightarrow> reachable init step t"

locale kept_invariant =
  fixes init :: "'s \<Rightarrow> bool"
    and step :: "'s \<Rightarrow> 's \<Rightarrow> bool"
    and I :: "'s \<Rightarrow> bool"
  assumes init_inv: "init s \<Longrightarrow> I s"
    and step_inv: "I s \<Longrightarrow> step s t \<Longrightarrow> I t"
begin

lemma always: "reachable init step s \<Longrightarrow> I s"
  by (induction rule: reachable.induct) (auto intro: init_inv step_inv)

lemma steps_inv: "step\<^sup>*\<^sup>* s t \<Longrightarrow> I s \<Longrightarrow> I t"
  by (induction rule: rtranclp_induct) (auto intro: step_inv)

lemma reachable_steps: "step\<^sup>*\<^sup>* s t \<Longrightarrow> reachable init step s \<Longrightarrow> reachable init step t"
  by (induction rule: rtranclp_induct) (auto intro: reach_step)

end

text \<open>
  A relation that holds from every state to each of its later states, given an invariant: data that
  is only appended, a version that only grows, a flag that is never cleared.
\<close>

locale monotone_history = kept_invariant init step I
  for init :: "'s \<Rightarrow> bool" and step :: "'s \<Rightarrow> 's \<Rightarrow> bool" and I :: "'s \<Rightarrow> bool" +
  fixes R :: "'s \<Rightarrow> 's \<Rightarrow> bool"
  assumes R_refl: "R s s"
    and R_trans: "R s t \<Longrightarrow> R t u \<Longrightarrow> R s u"
    and R_step: "I s \<Longrightarrow> step s t \<Longrightarrow> R s t"
begin

lemma later: "step\<^sup>*\<^sup>* s t \<Longrightarrow> I s \<Longrightarrow> R s t"
proof (induction rule: rtranclp_induct)
  case base
  show ?case by (rule R_refl)
next
  case (step t u)
  then show ?case by (meson R_trans R_step steps_inv)
qed

lemma reachable_later: "step\<^sup>*\<^sup>* s t \<Longrightarrow> reachable init step s \<Longrightarrow> R s t"
  by (blast intro: later always)

end

end
