(* ===== verification/Big_Int.thy ===== *)
theory Big_Int
  imports Go_Prelude
begin

text \<open>
  The part of \<^verbatim>\<open>math/big\<close> the services use on amounts carried as decimal text: \<open>SetString\<close> in base
  10 (an optional sign and at least one digit, nothing else), \<open>String\<close>, \<open>Quo\<close>, \<open>FillBytes\<close> and
  \<open>SetBytes\<close>. The services accept an amount when it parses and, in most of them, when printing the
  parsed number gives the text back; \<open>canonical_iff\<close> shows that this test accepts exactly the texts
  that \<open>String\<close> produces.
\<close>

section \<open>Decimal text\<close>

definition is_digit :: "char \<Rightarrow> bool" where
  "is_digit c \<longleftrightarrow> 48 \<le> (of_char c :: nat) \<and> (of_char c :: nat) \<le> 57"

definition digit_val :: "char \<Rightarrow> nat" where
  "digit_val c = of_char c - 48"

definition digit_char :: "nat \<Rightarrow> char" where
  "digit_char d = ''0123456789'' ! d"

fun read_digits :: "nat \<Rightarrow> string \<Rightarrow> nat option" where
  "read_digits acc [] = Some acc"
| "read_digits acc (c # cs) =
     (if is_digit c then read_digits (10 * acc + digit_val c) cs else None)"

definition read_nat :: "string \<Rightarrow> nat option" where
  "read_nat s = (if s = [] then None else read_digits 0 s)"

definition big_set_string :: "string \<Rightarrow> int option" where
  "big_set_string s =
     (case s of
        [] \<Rightarrow> None
      | c # cs \<Rightarrow>
          if c = CHR ''-'' then map_option (\<lambda>n. - int n) (read_nat cs)
          else if c = CHR ''+'' then map_option int (read_nat cs)
          else map_option int (read_nat (c # cs)))"

fun show_nat :: "nat \<Rightarrow> string" where
  "show_nat n =
     (if n < 10 then [digit_char n] else show_nat (n div 10) @ [digit_char (n mod 10)])"

declare show_nat.simps [simp del]

definition big_string :: "int \<Rightarrow> string" where
  "big_string i = (if i < 0 then CHR ''-'' # show_nat (nat (- i)) else show_nat (nat i))"

section \<open>Round trip\<close>

lemma less_10_cases:
  "d < 10 \<longleftrightarrow> d \<in> {0, 1, 2, 3, 4, 5, 6, 7, 8, 9 :: nat}"
  by auto

lemma digit_char_digit [simp]: "d < 10 \<Longrightarrow> is_digit (digit_char d)"
  by (auto simp: less_10_cases is_digit_def digit_char_def)

lemma digit_val_char [simp]: "d < 10 \<Longrightarrow> digit_val (digit_char d) = d"
  by (auto simp: less_10_cases digit_val_def digit_char_def)

lemma digit_char_not_sign:
  "d < 10 \<Longrightarrow> digit_char d \<noteq> CHR ''-'' \<and> digit_char d \<noteq> CHR ''+''"
  by (auto simp: less_10_cases digit_char_def)

lemma read_digits_append:
  "read_digits acc (s @ t) =
     (case read_digits acc s of None \<Rightarrow> None | Some n \<Rightarrow> read_digits n t)"
  by (induction s arbitrary: acc) auto

lemma show_nat_nonempty [simp]: "show_nat n \<noteq> []"
  by (subst show_nat.simps) simp

lemma read_digits_show_nat: "read_digits 0 (show_nat n) = Some n"
proof (induction n rule: show_nat.induct)
  case (1 n)
  show ?case
  proof (cases "n < 10")
    case True
    then show ?thesis by (subst show_nat.simps) simp
  next
    case False
    with "1.IH" have "read_digits 0 (show_nat (n div 10)) = Some (n div 10)" by simp
    with False show ?thesis
      by (subst show_nat.simps) (simp add: read_digits_append)
  qed
qed

lemma hd_show_nat: "\<exists>d < 10. hd (show_nat n) = digit_char d"
proof (induction n rule: show_nat.induct)
  case (1 n)
  show ?case
  proof (cases "n < 10")
    case True
    then show ?thesis by (subst show_nat.simps) auto
  next
    case False
    with "1.IH" show ?thesis by (subst show_nat.simps) simp
  qed
qed

lemma show_nat_Cons:
  obtains c cs where "show_nat n = c # cs" and "c \<noteq> CHR ''-''" and "c \<noteq> CHR ''+''"
proof -
  from hd_show_nat [of n] obtain d where "d < 10" and d: "hd (show_nat n) = digit_char d"
    by blast
  then have "digit_char d \<noteq> CHR ''-'' \<and> digit_char d \<noteq> CHR ''+''"
    by (simp add: digit_char_not_sign)
  with d that show thesis
    by (metis list.collapse show_nat_nonempty)
qed

theorem big_set_string_string [simp, canon]: "big_set_string (big_string i) = Some i"
proof (cases "i < 0")
  case True
  then show ?thesis
    by (simp add: big_set_string_def big_string_def read_nat_def read_digits_show_nat)
next
  case False
  obtain c cs where "show_nat (nat i) = c # cs" "c \<noteq> CHR ''-''" "c \<noteq> CHR ''+''"
    by (rule show_nat_Cons)
  with False show ?thesis
    using read_digits_show_nat [of "nat i"]
    by (simp add: big_set_string_def big_string_def read_nat_def)
qed

corollary big_string_inject [simp]: "big_string i = big_string j \<longleftrightarrow> i = j"
  by (metis big_set_string_string option.inject)

lemma big_string_nonempty [simp]: "big_string i \<noteq> []"
  by (simp add: big_string_def)

definition canonical :: "string \<Rightarrow> int option" where
  "canonical s =
     (case big_set_string s of
        None \<Rightarrow> None
      | Some i \<Rightarrow> if big_string i = s then Some i else None)"

lemma canonical_iff [canon]: "canonical s = Some i \<longleftrightarrow> s = big_string i"
  by (auto simp: canonical_def split: option.splits)

lemma canonical_string [simp]: "canonical (big_string i) = Some i"
  by (simp add: canonical_iff)

lemma canonical_set_string: "canonical s = Some i \<Longrightarrow> big_set_string s = Some i"
  by (simp add: canonical_iff)

lemma big_string_0 [simp]: "big_string 0 = ''0''"
  by (simp add: big_string_def show_nat.simps digit_char_def)

lemma big_string_eq_0 [simp]: "big_string i = ''0'' \<longleftrightarrow> i = 0"
  by (metis big_string_0 big_string_inject)

text \<open>
  Evaluation of concrete amounts: \<open>simp add: big_eval\<close> prints a closed numeral. (The recursion of
  \<open>show_nat\<close> is guarded by a comparison of numerals, so unfolding it ends.)
\<close>

lemmas big_eval = big_string_def show_nat.simps digit_char_def
  big_set_string_def read_nat_def is_digit_def digit_val_def

section \<open>Division\<close>

text \<open>\<open>Quo\<close> truncates towards zero and panics on a zero divisor.\<close>

definition quo :: "int \<Rightarrow> int \<Rightarrow> int option" where
  "quo a b = (if b = 0 then None else Some (sgn a * sgn b * (\<bar>a\<bar> div \<bar>b\<bar>)))"

lemma quo_nonneg: "0 \<le> a \<Longrightarrow> 0 < b \<Longrightarrow> quo a b = Some (a div b)"
  by (cases "a = 0") (auto simp: quo_def sgn_if)

section \<open>Big-endian bytes\<close>

type_synonym byte = "8 word"

fun be_val :: "int \<Rightarrow> byte list \<Rightarrow> int" where
  "be_val acc [] = acc"
| "be_val acc (b # bs) = be_val (256 * acc + uint b) bs"

text \<open>\<open>SetBytes\<close> reads bytes as a big-endian natural number.\<close>

definition big_set_bytes :: "byte list \<Rightarrow> int" where
  "big_set_bytes bs = be_val 0 bs"

text \<open>\<open>FillBytes\<close> writes a number in a buffer of \<open>n\<close> bytes and panics when it does not fit.\<close>

fun be_bytes :: "nat \<Rightarrow> int \<Rightarrow> byte list" where
  "be_bytes 0 i = []"
| "be_bytes (Suc n) i = be_bytes n (i div 256) @ [word_of_int i]"

definition big_fill_bytes :: "nat \<Rightarrow> int \<Rightarrow> byte list option" where
  "big_fill_bytes n i = (if \<bar>i\<bar> < 256 ^ n then Some (be_bytes n \<bar>i\<bar>) else None)"

lemma length_be_bytes [simp]: "length (be_bytes n i) = n"
  by (induction n arbitrary: i) auto

lemma be_val_append: "be_val acc (xs @ [b]) = 256 * be_val acc xs + uint b"
  by (induction xs arbitrary: acc) auto

lemma be_val_be_bytes: "0 \<le> i \<Longrightarrow> i < 256 ^ n \<Longrightarrow> be_val 0 (be_bytes n i) = i"
proof (induction n arbitrary: i)
  case 0
  then show ?case by simp
next
  case (Suc n)
  then have "0 \<le> i div 256" and "i div 256 < 256 ^ n"
    by (auto simp: pos_imp_zdiv_nonneg_iff)
  then have "be_val 0 (be_bytes n (i div 256)) = i div 256" by (rule Suc.IH)
  then show ?case by (simp add: be_val_append uint_word_of_int)
qed

lemma be_bytes_inject:
  assumes "be_bytes n i = be_bytes n j" "0 \<le> i" "i < 256 ^ n" "0 \<le> j" "j < 256 ^ n"
  shows "i = j"
  using assms by (metis be_val_be_bytes)

theorem big_bytes_roundtrip:
  assumes "0 \<le> i" and "big_fill_bytes n i = Some bs"
  shows "big_set_bytes bs = i \<and> length bs = n"
  using assms by (auto simp: big_fill_bytes_def big_set_bytes_def be_val_be_bytes split: if_splits)

end
