(* ===== verification/Credit_Evidence.thy ===== *)
theory Credit_Evidence
  imports Transition Big_Int "HOL-Library.Sublist"
begin

text \<open>
  The store of identity and credit evidence, \<^verbatim>\<open>foundation-ledger/internal/creditevidence/store.go\<close>: an
  append-only list of finalized records with two indexes, by event and by record type, record and
  sequence number. The argument \<open>H\<close> is the hexadecimal SHA-256 of the JSON encoding, \<open>None\<close> where
  \<^verbatim>\<open>json.Marshal\<close> fails; \<open>now\<close> is the clock reading.
\<close>

section \<open>Data\<close>

datatype RecordType =
    ProviderRegistered | ProviderStatusChanged | CredentialSchemaAdded | CredentialSchemaChanged | CredentialIssued
  | CredentialRevoked | DecisionIssued | DecisionRevoked | ExposureReserved | ExposureActivated
  | ExposureReleased | ExposureCancelled | UnderwrittenActivated | UnderwrittenReleased | UnknownRecord string

record Evidence =
  ce_EventID :: string
  ce_RecordType :: RecordType
  ce_RecordID :: string
  ce_Sequence :: "64 word"
  ce_ProviderID :: string
  ce_SchemaID :: string
  ce_CredentialID :: string
  ce_DecisionID :: string
  ce_LoanID :: string
  ce_TenderID :: string
  ce_OfferID :: string
  ce_SubjectCommitment :: string
  ce_BorrowerAccount :: string
  ce_LenderAccount :: string
  ce_LoanAccount :: string
  ce_AssetID :: string
  ce_ProductHash :: string
  ce_Units :: string
  ce_DurationSeconds :: "64 word"
  ce_AgreementHash :: string
  ce_ConsentEvidence :: string
  ce_JournalReference :: string
  ce_EvidenceHash :: string
  ce_Finality :: string
  ce_OccurredAt :: gotime

record StoredEvidence =
  cs_Evidence :: Evidence
  cs_ContentHash :: string
  cs_RecordedAt :: gotime

type_synonym recordKey = "RecordType \<times> string \<times> 64 word"

record CreditStore =
  ct_byEvent :: "(string, StoredEvidence) gomap"
  ct_byKey :: "(recordKey, string) gomap"
  ct_order :: "string list"

datatype credit_error = ErrInvalidEvidence | ErrEvidenceConflict

definition credit_New :: CreditStore where
  "credit_New = \<lparr>ct_byEvent = [], ct_byKey = [], ct_order = []\<rparr>"

section \<open>Validation\<close>

fun knownType :: "RecordType \<Rightarrow> bool" where
  "knownType (UnknownRecord s) = False"
| "knownType _ = True"

definition units_invalid :: "Evidence \<Rightarrow> bool" where
  "units_invalid e = (case big_set_string (ce_Units e) of None \<Rightarrow> True | Some units \<Rightarrow> units \<le> 0)"

definition exposure_incomplete :: "Evidence \<Rightarrow> bool" where
  "exposure_incomplete e \<longleftrightarrow> ce_DecisionID e = [] \<or> ce_LoanID e = [] \<or> ce_SubjectCommitment e = [] \<or>
     ce_AssetID e = [] \<or> units_invalid e"

text \<open>The switch over the record types: whether a field that the type requires is missing.\<close>

definition incomplete :: "Evidence \<Rightarrow> bool" where
  "incomplete e =
     (case ce_RecordType e of
        ProviderRegistered \<Rightarrow> ce_ProviderID e = []
      | ProviderStatusChanged \<Rightarrow> ce_ProviderID e = []
      | CredentialSchemaAdded \<Rightarrow> ce_ProviderID e = [] \<or> ce_SchemaID e = []
      | CredentialSchemaChanged \<Rightarrow> ce_ProviderID e = [] \<or> ce_SchemaID e = []
      | CredentialIssued \<Rightarrow> ce_CredentialID e = [] \<or> ce_SubjectCommitment e = []
      | CredentialRevoked \<Rightarrow> ce_CredentialID e = [] \<or> ce_SubjectCommitment e = []
      | DecisionIssued \<Rightarrow> ce_DecisionID e = [] \<or> ce_CredentialID e = [] \<or> ce_SubjectCommitment e = []
      | DecisionRevoked \<Rightarrow> ce_DecisionID e = [] \<or> ce_CredentialID e = [] \<or> ce_SubjectCommitment e = []
      | ExposureReserved \<Rightarrow> exposure_incomplete e
      | ExposureActivated \<Rightarrow> exposure_incomplete e
      | ExposureReleased \<Rightarrow> exposure_incomplete e
      | ExposureCancelled \<Rightarrow> exposure_incomplete e
      | UnderwrittenActivated \<Rightarrow>
          ce_DecisionID e = [] \<or> ce_LoanID e = [] \<or> ce_TenderID e = [] \<or> ce_OfferID e = [] \<or>
          ce_SubjectCommitment e = [] \<or> ce_BorrowerAccount e = [] \<or> ce_LenderAccount e = [] \<or>
          ce_LoanAccount e = [] \<or> ce_AssetID e = [] \<or> ce_ProductHash e = [] \<or> ce_DurationSeconds e = 0 \<or>
          ce_AgreementHash e = [] \<or> ce_ConsentEvidence e = [] \<or> ce_JournalReference e = [] \<or> units_invalid e
      | UnderwrittenReleased \<Rightarrow> exposure_incomplete e
      | UnknownRecord _ \<Rightarrow> False)"

definition credit_validateAndHash :: "(Evidence \<Rightarrow> string option) \<Rightarrow> Evidence \<Rightarrow> credit_error + string" where
  "credit_validateAndHash H e =
     (if ce_EventID e = [] \<or> ce_RecordID e = [] \<or> ce_Sequence e = 0 \<or> ce_EvidenceHash e = [] \<or>
         ce_Finality e \<noteq> ''FINAL'' \<or> ce_OccurredAt e = 0 \<or> \<not> knownType (ce_RecordType e)
      then Inl ErrInvalidEvidence
      else if incomplete e then Inl ErrInvalidEvidence
      else case H e of None \<Rightarrow> Inl ErrInvalidEvidence | Some contentHash \<Rightarrow> Inr contentHash)"

section \<open>Operations\<close>

definition record_key :: "Evidence \<Rightarrow> recordKey" where
  "record_key e = (ce_RecordType e, ce_RecordID e, ce_Sequence e)"

definition credit_Record ::
  "(Evidence \<Rightarrow> string option) \<Rightarrow> gotime \<Rightarrow> CreditStore \<Rightarrow> Evidence \<Rightarrow> (credit_error + StoredEvidence) \<times> CreditStore" where
  "credit_Record H now store e =
     (case credit_validateAndHash H e of
        Inl err \<Rightarrow> (Inl err, store)
      | Inr contentHash \<Rightarrow>
          (case mget (ct_byEvent store) (ce_EventID e) of
             Some existing \<Rightarrow>
               (if cs_ContentHash existing \<noteq> contentHash then (Inl ErrEvidenceConflict, store)
                else (Inr existing, store))
           | None \<Rightarrow>
               (if mhas (ct_byKey store) (record_key e) then (Inl ErrEvidenceConflict, store)
                else
                  let stored = \<lparr>cs_Evidence = e, cs_ContentHash = contentHash, cs_RecordedAt = now\<rparr>
                  in (Inr stored,
                      store\<lparr>ct_byEvent := mput (ce_EventID e) stored (ct_byEvent store),
                            ct_byKey := mput (record_key e) (ce_EventID e) (ct_byKey store),
                            ct_order := ct_order store @ [ce_EventID e]\<rparr>))))"

text \<open>A missing event would be the zero record; the invariant below shows that none is missing.\<close>

definition credit_List :: "StoredEvidence \<Rightarrow> CreditStore \<Rightarrow> StoredEvidence list" where
  "credit_List zero store = map (\<lambda>eventID. the_default zero (mget (ct_byEvent store) eventID)) (ct_order store)"

section \<open>Invariant\<close>

definition credit_inv :: "(Evidence \<Rightarrow> string option) \<Rightarrow> CreditStore \<Rightarrow> bool" where
  "credit_inv H s \<longleftrightarrow> distinct (ct_order s) \<and>
     (\<forall>i. i \<in> set (ct_order s) \<longleftrightarrow> mhas (ct_byEvent s) i) \<and>
     (\<forall>i x. mget (ct_byEvent s) i = Some x \<longrightarrow> ce_EventID (cs_Evidence x) = i \<and>
        credit_validateAndHash H (cs_Evidence x) = Inr (cs_ContentHash x) \<and>
        mget (ct_byKey s) (record_key (cs_Evidence x)) = Some i)"

inductive credit_step :: "(Evidence \<Rightarrow> string option) \<Rightarrow> CreditStore \<Rightarrow> CreditStore \<Rightarrow> bool" for H where
  "credit_step H s (snd (credit_Record H now s e))"

definition credit_extends :: "CreditStore \<Rightarrow> CreditStore \<Rightarrow> bool" where
  "credit_extends s t \<longleftrightarrow> prefix (ct_order s) (ct_order t) \<and>
     (\<forall>i x. mget (ct_byEvent s) i = Some x \<longrightarrow> mget (ct_byEvent t) i = Some x)"

lemma credit_Record_cases:
  obtains "snd (credit_Record H now s e) = s"
  | h where "credit_validateAndHash H e = Inr h" "mget (ct_byEvent s) (ce_EventID e) = None"
      "\<not> mhas (ct_byKey s) (record_key e)"
      "snd (credit_Record H now s e) = s\<lparr>ct_byEvent := mput (ce_EventID e) \<lparr>cs_Evidence = e, cs_ContentHash = h, cs_RecordedAt = now\<rparr> (ct_byEvent s),
         ct_byKey := mput (record_key e) (ce_EventID e) (ct_byKey s), ct_order := ct_order s @ [ce_EventID e]\<rparr>"
  by (cases "credit_validateAndHash H e"; cases "mget (ct_byEvent s) (ce_EventID e)"; cases "mhas (ct_byKey s) (record_key e)")
    (auto simp: credit_Record_def Let_def)

interpretation credit: monotone_history "\<lambda>s. s = credit_New" "credit_step H" "credit_inv H" credit_extends for H
proof (unfold_locales, goal_cases)
  case (1 s)
  then show ?case by (simp add: credit_inv_def credit_New_def mhas_def)
next
  case (2 s t)
  from 2(2) obtain now e where t: "t = snd (credit_Record H now s e)" by (cases rule: credit_step.cases) auto
  show ?case
    unfolding t
    by (rule credit_Record_cases[of H now s e]) (use 2(1) in \<open>fastforce simp: credit_inv_def mhas_def split: if_splits\<close>)+
next
  case (3 s)
  show ?case by (simp add: credit_extends_def)
next
  case (4 s t u)
  then show ?case by (auto simp: credit_extends_def)
next
  case (5 s t)
  from 5(2) obtain now e where t: "t = snd (credit_Record H now s e)" by (cases rule: credit_step.cases) auto
  show ?case
    unfolding t by (rule credit_Record_cases[of H now s e]) (auto simp: credit_extends_def)
qed

section \<open>Claim\<close>

lemma credit_List_mem:
  assumes "credit_inv H s" "x \<in> set (credit_List z s)"
  shows "mget (ct_byEvent s) (ce_EventID (cs_Evidence x)) = Some x"
  using assms by (auto simp: credit_List_def credit_inv_def mhas_def)

lemma credit_List_events: "credit_inv H s \<Longrightarrow> map (\<lambda>x. ce_EventID (cs_Evidence x)) (credit_List z s) = ct_order s"
  by (auto simp: credit_List_def credit_inv_def mhas_def intro!: map_idI)

lemma credit_List_keys:
  assumes "credit_inv H s"
  shows "distinct (map (\<lambda>x. record_key (cs_Evidence x)) (credit_List z s))"
proof -
  have "distinct (credit_List z s)"
    using credit_List_events[OF assms, of z] assms by (metis distinct_map credit_inv_def)
  moreover have "inj_on (\<lambda>x. record_key (cs_Evidence x)) (set (credit_List z s))"
  proof (rule inj_onI)
    fix x y assume "x \<in> set (credit_List z s)" "y \<in> set (credit_List z s)" "record_key (cs_Evidence x) = record_key (cs_Evidence y)"
    moreover from this credit_List_mem[OF assms] have "mget (ct_byEvent s) (ce_EventID (cs_Evidence x)) = Some x"
      "mget (ct_byEvent s) (ce_EventID (cs_Evidence y)) = Some y" by blast+
    ultimately show "x = y" using assms unfolding credit_inv_def by (metis option.inject)
  qed
  ultimately show ?thesis by (simp add: distinct_map)
qed

lemma credit_List_prefix:
  assumes "credit_inv H s" "credit_extends s t"
  shows "prefix (credit_List z s) (credit_List z t)"
proof -
  from assms(2) obtain more_ids where ids: "ct_order t = ct_order s @ more_ids" by (auto simp: credit_extends_def prefix_def)
  have "mget (ct_byEvent t) i = mget (ct_byEvent s) i" if "i \<in> set (ct_order s)" for i
  proof -
    from that assms(1) obtain x where "mget (ct_byEvent s) i = Some x" by (auto simp: credit_inv_def mhas_def)
    with assms(2) show ?thesis by (simp add: credit_extends_def)
  qed
  then have "credit_List z s = map (\<lambda>i. the_default z (mget (ct_byEvent t) i)) (ct_order s)"
    by (simp add: credit_List_def)
  then have "credit_List z t = credit_List z s @ map (\<lambda>i. the_default z (mget (ct_byEvent t) i)) more_ids"
    by (simp only: credit_List_def ids map_append)
  then show ?thesis by (simp add: prefix_def)
qed

text \<open>
  C40: Credit evidence is an append-only log without duplicates. In every store that \<open>Record\<close> can
  produce, the listing is a prefix of the listing of every later store, no two listed records share
  an event or a record type, record and sequence number, every listed record is valid with the
  content hash that is stored, and recording it again returns it without change.
\<close>

theorem credit_evidence_log:
  assumes "reachable (\<lambda>s. s = credit_New) (credit_step H) s" "(credit_step H)\<^sup>*\<^sup>* s t"
  shows "prefix (credit_List z s) (credit_List z t) \<and>
    distinct (map (\<lambda>x. ce_EventID (cs_Evidence x)) (credit_List z t)) \<and>
    distinct (map (\<lambda>x. record_key (cs_Evidence x)) (credit_List z t)) \<and>
    list_all (\<lambda>x. credit_validateAndHash H (cs_Evidence x) = Inr (cs_ContentHash x) \<and>
      credit_Record H now t (cs_Evidence x) = (Inr x, t)) (credit_List z t)"
proof -
  have s: "credit_inv H s" by (rule credit.always[OF assms(1)])
  have t: "credit_inv H t" by (rule credit.steps_inv[OF assms(2) s])
  have "credit_validateAndHash H (cs_Evidence x) = Inr (cs_ContentHash x) \<and> credit_Record H now t (cs_Evidence x) = (Inr x, t)"
    if "x \<in> set (credit_List z t)" for x
  proof -
    have x: "mget (ct_byEvent t) (ce_EventID (cs_Evidence x)) = Some x" by (rule credit_List_mem[OF t that])
    with t have "credit_validateAndHash H (cs_Evidence x) = Inr (cs_ContentHash x)" unfolding credit_inv_def by blast
    with x show ?thesis by (simp add: credit_Record_def)
  qed
  moreover have "distinct (map (\<lambda>x. ce_EventID (cs_Evidence x)) (credit_List z t))"
    using credit_List_events[OF t] t by (simp add: credit_inv_def)
  ultimately show ?thesis
    using credit_List_prefix[OF s credit.later[OF assms(2) s]] credit_List_keys[OF t] by (simp add: list_all_iff)
qed

text \<open>A provider registered and then suspended.\<close>

definition sample_credit :: "RecordType \<Rightarrow> string \<Rightarrow> 64 word \<Rightarrow> Evidence" where
  "sample_credit rt event n = \<lparr>ce_EventID = event, ce_RecordType = rt, ce_RecordID = ''provider'', ce_Sequence = n,
     ce_ProviderID = ''p'', ce_SchemaID = [], ce_CredentialID = [],
     ce_DecisionID = [], ce_LoanID = [], ce_TenderID = [], ce_OfferID = [], ce_SubjectCommitment = [], ce_BorrowerAccount = [],
     ce_LenderAccount = [], ce_LoanAccount = [], ce_AssetID = [], ce_ProductHash = [], ce_Units = [], ce_DurationSeconds = 0,
     ce_AgreementHash = [], ce_ConsentEvidence = [], ce_JournalReference = [], ce_EvidenceHash = ''h'',
     ce_Finality = ''FINAL'', ce_OccurredAt = 1\<rparr>"

definition sample_hash :: "Evidence \<Rightarrow> string option" where
  "sample_hash e = Some (ce_EventID e)"

definition sample_store1 :: CreditStore where
  "sample_store1 = snd (credit_Record sample_hash 5 credit_New (sample_credit ProviderRegistered ''e1'' 1))"

definition sample_store2 :: CreditStore where
  "sample_store2 = snd (credit_Record sample_hash 6 sample_store1 (sample_credit ProviderStatusChanged ''e2'' 2))"

definition no_credit :: StoredEvidence where
  "no_credit = \<lparr>cs_Evidence = sample_credit ProviderRegistered [] 0, cs_ContentHash = [], cs_RecordedAt = 0\<rparr>"

theorem credit_evidence_log_witness:
  "length (credit_List no_credit sample_store2) = 2 \<and> prefix (credit_List no_credit sample_store1) (credit_List no_credit sample_store2)"
proof -
  have "reachable (\<lambda>s. s = credit_New) (credit_step sample_hash) sample_store1"
    unfolding sample_store1_def by (rule reach_step, rule reach_init, rule refl, rule credit_step.intros)
  moreover have "(credit_step sample_hash)\<^sup>*\<^sup>* sample_store1 sample_store2"
    unfolding sample_store2_def by (intro r_into_rtranclp credit_step.intros)
  moreover have "length (credit_List no_credit sample_store2) = 2" by code_simp
  ultimately show ?thesis using credit_evidence_log[of sample_hash sample_store1 sample_store2 no_credit] by blast
qed

end
