(* ===== verification/Abi_Words.thy ===== *)
theory Abi_Words
  imports Big_Int
begin

text \<open>
  Facts on byte strings made of 32-byte words, the layout of Solidity's \<^verbatim>\<open>abi.encode\<close> for static
  values, shared by the message digests (\<^verbatim>\<open>message/digest.go\<close>) and the recovery authorizations
  (\<^verbatim>\<open>recovery/recovery.go\<close>): a concatenation of words determines the words, a word is read back by its
  position, and a number is determined by its big-endian bytes. \<open>hex\<close> is \<^verbatim>\<open>encoding/hex\<close>'s
  \<open>EncodeToString\<close>, the lower-case hexadecimal text of a byte string; \<open>string_bytes\<close> is Go's
  conversion of a string to its bytes.
\<close>

section \<open>Numbers as big-endian bytes\<close>

lemma be_val_bounds:
  assumes "0 \<le> acc"
  shows "0 \<le> be_val acc bs \<and> be_val acc bs < (acc + 1) * 256 ^ length bs"
  using assms
proof (induction bs arbitrary: acc)
  case (Cons b bs)
  have b: "0 \<le> uint b" "uint b < 256" using uint_lt2p[of b] by auto
  with Cons.prems have "0 \<le> be_val (256 * acc + uint b) bs"
    and lt: "be_val (256 * acc + uint b) bs < (256 * acc + uint b + 1) * 256 ^ length bs"
    using Cons.IH[of "256 * acc + uint b"] by simp_all
  moreover have "(256 * acc + uint b + 1) * 256 ^ length bs \<le> (256 * (acc + 1)) * 256 ^ length bs"
    using b by (intro mult_right_mono) auto
  ultimately have "be_val (256 * acc + uint b) bs < 256 * (acc + 1) * 256 ^ length bs"
    by (meson less_le_trans)
  with \<open>0 \<le> be_val (256 * acc + uint b) bs\<close> show ?case by (simp add: algebra_simps)
qed simp

lemma be_bytes_be_val: "be_bytes (length bs) (be_val 0 bs) = bs"
proof (induction bs rule: rev_induct)
  case (snoc b bs)
  have "uint b < 256" using uint_lt2p[of b] by simp
  then have "(256 * be_val 0 bs + uint b) div 256 = be_val 0 bs" by simp
  moreover have "word_of_int (256 * be_val 0 bs + uint b) = b"
  proof -
    have "uint (word_of_int (256 * be_val 0 bs + uint b) :: byte) = (256 * be_val 0 bs + uint b) mod 256"
      by (subst uint_word_of_int) simp
    also have "\<dots> = uint b" using \<open>uint b < 256\<close> by simp
    finally show ?thesis by (simp add: word_uint_eq_iff)
  qed
  ultimately show ?case using snoc by (simp add: be_val_append)
qed simp

text \<open>A 64-bit number in 8 bytes, \<^verbatim>\<open>binary.BigEndian.PutUint64\<close>.\<close>

definition put_uint64 :: "64 word \<Rightarrow> byte list" where
  "put_uint64 v = be_bytes 8 (uint v)"

lemma length_put_uint64 [simp]: "length (put_uint64 v) = 8"
  by (simp add: put_uint64_def)

lemma put_uint64_inject [simp]: "put_uint64 v = put_uint64 w \<longleftrightarrow> v = w"
proof
  assume "put_uint64 v = put_uint64 w"
  then have "uint v = uint w"
    using uint_lt2p[of v] uint_lt2p[of w] by (intro be_bytes_inject[of 8]) (auto simp: put_uint64_def)
  then show "v = w" by (simp add: word_uint_eq_iff)
qed simp

lemma ucast64_inject: "(ucast a :: 64 word) = ucast b \<longleftrightarrow> a = b" for a b :: "32 word"
proof
  assume "(ucast a :: 64 word) = ucast b"
  then have "uint (ucast a :: 64 word) = uint (ucast b :: 64 word)" by simp
  moreover have "uint (ucast c :: 64 word) = uint c" for c :: "32 word"
    using uint_lt2p[of c] by (simp add: unsigned_ucast_eq take_bit_int_eq_self)
  ultimately show "a = b" by (simp add: word_uint_eq_iff)
qed simp

section \<open>Strings of words\<close>

definition word_sized :: "byte list \<Rightarrow> bool" where
  "word_sized w \<longleftrightarrow> length w = 32"

lemma word_sizedD [simp]: "word_sized w \<Longrightarrow> length w = 32"
  by (simp add: word_sized_def)

lemma length_words: "list_all word_sized ws \<Longrightarrow> length (concat ws) = 32 * length ws"
  by (induction ws) (auto simp: word_sized_def)

lemma concat_words_inject:
  assumes "list_all word_sized ws" "list_all word_sized vs"
  shows "concat ws = concat vs \<longleftrightarrow> ws = vs"
  using assms
proof (induction ws arbitrary: vs)
  case Nil
  then show ?case by (cases vs) (auto simp: word_sized_def)
next
  case (Cons w ws)
  then show ?case by (cases vs) (auto simp: word_sized_def)
qed

lemma concat_words_prefix:
  assumes "list_all word_sized ws" "list_all word_sized vs" "length ws = length vs"
  shows "concat ws @ r = concat vs @ q \<longleftrightarrow> ws = vs \<and> r = q"
  using assms concat_words_inject[OF assms(1,2)]
  by (simp add: append_eq_append_conv length_words)

definition abi_word :: "nat \<Rightarrow> byte list \<Rightarrow> byte list" where
  "abi_word i bs = take 32 (drop (32 * i) bs)"

lemma abi_word_concat:
  assumes "list_all word_sized ws" "i < length ws"
  shows "abi_word i (concat ws) = ws ! i"
  using assms
proof (induction ws arbitrary: i)
  case (Cons w ws)
  then show ?case by (cases i) (auto simp: abi_word_def word_sized_def)
qed simp

section \<open>Text of bytes\<close>

definition hex_char :: "nat \<Rightarrow> char" where
  "hex_char d = ''0123456789abcdef'' ! d"

definition hex :: "byte list \<Rightarrow> string" where
  "hex bs = concat (map (\<lambda>b. [hex_char (unat b div 16), hex_char (unat b mod 16)]) bs)"

lemma hex_simps [simp]:
  "hex [] = []" "hex (b # bs) = hex_char (unat b div 16) # hex_char (unat b mod 16) # hex bs"
  by (simp_all add: hex_def)

lemma less_16_cases:
  "d < 16 \<longleftrightarrow> d \<in> {0, 1, 2, 3, 4, 5, 6, 7, 8, 9, 10, 11, 12, 13, 14, 15 :: nat}"
  unfolding insert_iff empty_iff by presburger

lemma distinct_hex_chars: "distinct ''0123456789abcdef''"
  by simp

lemma hex_char_inject: "d < 16 \<Longrightarrow> e < 16 \<Longrightarrow> hex_char d = hex_char e \<longleftrightarrow> d = e"
  unfolding hex_char_def by (subst nth_eq_iff_index_eq[OF distinct_hex_chars]) auto

lemma hex_char_plain: "d < 16 \<Longrightarrow> hex_char d \<noteq> CHR '':''"
  by (auto simp: less_16_cases hex_char_def)

lemma nibbles: "unat (b :: byte) div 16 < 16" "unat b mod 16 < 16"
  using unsigned_less[of b, where ?'a = nat] by auto

lemma hex_inject [simp]: "hex xs = hex ys \<longleftrightarrow> xs = ys"
proof (induction xs arbitrary: ys)
  case Nil
  then show ?case by (cases ys) auto
next
  case (Cons x xs)
  have "hex_char (unat x div 16) = hex_char (unat y div 16) \<and>
      hex_char (unat x mod 16) = hex_char (unat y mod 16) \<longleftrightarrow> x = y" for y :: byte
    by (metis hex_char_inject nibbles div_mult_mod_eq word_unat_eq_iff)
  with Cons show ?case by (cases ys) auto
qed

lemma hex_plain: "CHR '':'' \<notin> set (hex bs)"
  using hex_char_plain[OF nibbles(1)] hex_char_plain[OF nibbles(2)]
  by (induction bs) (simp_all add: not_sym)

definition string_bytes :: "string \<Rightarrow> byte list" where
  "string_bytes s = map (\<lambda>c. of_nat (of_char c)) s"

lemma string_bytes_inject [simp]: "string_bytes s = string_bytes t \<longleftrightarrow> s = t"
proof -
  have "c = d" if "of_nat (of_char c) = (of_nat (of_char d) :: byte)" for c d :: char
  proof -
    have "unat (of_nat (of_char c) :: byte) = (of_char c :: nat)" for c :: char
      by (simp add: unat_of_nat)
    with that have "(of_char c :: nat) = of_char d" by metis
    then show ?thesis by simp
  qed
  then show ?thesis
    by (auto simp: string_bytes_def intro!: map_inj_on[of "\<lambda>c. of_nat (of_char c)"] inj_onI)
qed

lemma length_string_bytes [simp]: "length (string_bytes s) = length s"
  by (simp add: string_bytes_def)

section \<open>Padding\<close>

text \<open>The bytes Go appends to reach a multiple of 32: \<^verbatim>\<open>make([]byte, 32-remainder)\<close> when it is not 0.\<close>

definition pad32 :: "byte list \<Rightarrow> byte list" where
  "pad32 bs = (if length bs mod 32 \<noteq> 0 then bs @ replicate (32 - length bs mod 32) 0 else bs)"

end
