(* ===== verification/Evm_Rlp.thy ===== *)
theory Evm_Rlp
  imports Abi_Words
begin

text \<open>
  The RLP decoder of \<^verbatim>\<open>chain-indexer/projection/evmproof.go\<close>, and that it accepts exactly the canonical
  encodings: a byte string decodes to at most one value, a value has at most one encoding, and the
  bytes of every nested item are its encoding. Every error of this part of the file is the one
  \<open>ErrInvalidInclusionProof\<close>, here \<open>None\<close>.
\<close>

section \<open>Decoder\<close>

definition maxRLPDepth :: nat where "maxRLPDepth = 64"
definition maxRLPListItems :: nat where "maxRLPListItems = 65536"

datatype rlpValue =
  RlpValue (rlp_raw: "byte list") (rlp_payload: "byte list") (rlp_list: "rlpValue list") (rlp_isList: bool)

text \<open>\<^verbatim>\<open>length<<8 | value\<close> over at most eight bytes, so that 64 bits are enough; \<open>MaxInt\<close> is \<open>2^63 - 1\<close>.\<close>

definition decodeRLPLength :: "byte list \<Rightarrow> nat \<Rightarrow> nat option" where
  "decodeRLPLength input lengthOfLength =
     (if lengthOfLength = 0 \<or> lengthOfLength > 8 \<or> length input < 1 + lengthOfLength \<or> input ! 1 = 0
      then None
      else
        let len = nat (be_val 0 (take lengthOfLength (drop 1 input)))
        in if len > 2 ^ 63 - 1 then None else Some len)"

text \<open>\<open>rlp_items\<close> is the loop of \<open>decodeRLPList\<close> over what is left of the list's bytes.\<close>

function decodeRLPDepth :: "byte list \<Rightarrow> nat \<Rightarrow> (rlpValue \<times> nat) option"
  and decodeRLPList :: "byte list \<Rightarrow> nat \<Rightarrow> nat \<Rightarrow> nat \<Rightarrow> (rlpValue \<times> nat) option"
  and rlp_items :: "byte list \<Rightarrow> nat \<Rightarrow> nat \<Rightarrow> rlpValue list option" where
  "decodeRLPDepth input depth =
     (if depth > maxRLPDepth then None
      else if input = [] then None
      else
        let prefix = unat (hd input)
        in if prefix \<le> 127 then Some (RlpValue (take 1 input) (take 1 input) [] False, 1)
           else if prefix \<le> 183 then
             (let len = prefix - 128
              in if length input < 1 + len \<or> (len = 1 \<and> unat (input ! 1) < 128) then None
                 else Some (RlpValue (take (1 + len) input) (take len (drop 1 input)) [] False, 1 + len))
           else if prefix \<le> 191 then
             (let lengthOfLength = prefix - 183; offset = 1 + lengthOfLength
              in case decodeRLPLength input lengthOfLength of
                   None \<Rightarrow> None
                 | Some len \<Rightarrow>
                     (if len < 56 \<or> offset > length input \<or> len > length input - offset then None
                      else Some (RlpValue (take (offset + len) input) (take len (drop offset input)) [] False,
                                 offset + len)))
           else if prefix \<le> 247 then decodeRLPList input 1 (prefix - 192) depth
           else
             (let lengthOfLength = prefix - 247; offset = 1 + lengthOfLength
              in case decodeRLPLength input lengthOfLength of
                   None \<Rightarrow> None
                 | Some len \<Rightarrow>
                     (if len < 56 \<or> offset > length input \<or> len > length input - offset then None
                      else decodeRLPList input offset len depth)))"
| "decodeRLPList input offset len depth =
     (if offset > length input \<or> len > length input - offset then None
      else case rlp_items (take len (drop offset input)) 0 (depth + 1) of
             None \<Rightarrow> None
           | Some items \<Rightarrow> Some (RlpValue (take (offset + len) input) [] items True, offset + len))"
| "rlp_items rest count depth =
     (if rest = [] then Some []
      else if count \<ge> maxRLPListItems then None
      else case decodeRLPDepth rest depth of
             None \<Rightarrow> None
           | Some (item, consumed) \<Rightarrow>
               (if consumed = 0 \<or> consumed > length rest then None
                else map_option ((#) item) (rlp_items (drop consumed rest) (count + 1) depth)))"
  by pat_completeness auto
termination
proof (relation "measure (case_sum (\<lambda>(input, _). 3 * length input)
    (case_sum (\<lambda>(input, offset, _). 3 * (length input - offset) + 2) (\<lambda>(rest, _). 3 * length rest + 1)))", goal_cases)
  case (2 input depth prefix)
  then show ?case by (cases input) auto
next
  case (3 input depth prefix lengthOfLength offset len)
  then show ?case by (cases input) auto
qed auto

definition decodeRLP :: "byte list \<Rightarrow> (rlpValue \<times> nat) option" where
  "decodeRLP input = decodeRLPDepth input 0"

declare decodeRLPDepth.simps [simp del] decodeRLPList.simps [simp del] rlp_items.simps [simp del]

section \<open>Canonical encodings\<close>

text \<open>The shortest big-endian bytes of a number.\<close>

fun min_bytes :: "nat \<Rightarrow> byte list" where
  "min_bytes n = (if n = 0 then [] else min_bytes (n div 256) @ [of_nat n])"

declare min_bytes.simps [simp del]

lemma min_bytes_0 [simp]: "min_bytes 0 = []"
  by (simp add: min_bytes.simps)

lemma byte_of_nat: "unat (of_nat n :: byte) = n mod 256" "uint (of_nat n :: byte) = int (n mod 256)"
proof -
  show n: "unat (of_nat n :: byte) = n mod 256" by (simp add: unat_of_nat)
  have "uint (of_nat n :: byte) = int (unat (of_nat n :: byte))" by simp
  then show "uint (of_nat n :: byte) = int (n mod 256)" unfolding n .
qed

lemma be_val_min_bytes: "be_val 0 (min_bytes n) = int n"
proof (induction n rule: min_bytes.induct)
  case (1 n)
  show ?case
  proof (cases "n = 0")
    case False
    have "256 * int (n div 256) + int (n mod 256) = int n" by (simp add: zdiv_int zmod_int)
    with 1[OF False] False show ?thesis
      by (subst min_bytes.simps) (simp only: if_False be_val_append byte_of_nat)
  qed simp
qed

lemma be_val_pos:
  assumes "bs \<noteq> []" "hd bs \<noteq> 0"
  shows "0 < be_val 0 bs"
  using assms
proof (induction bs rule: rev_induct)
  case (snoc b bs)
  show ?case
  proof (cases "bs = []")
    case True
    then show ?thesis using snoc.prems by (simp add: word_neq_0_conv word_less_def)
  next
    case False
    with snoc have "0 < be_val 0 bs" by simp
    then show ?thesis using uint_ge_0[of b] by (simp add: be_val_append add_pos_nonneg)
  qed
qed simp

lemma min_bytes_be_val:
  assumes "bs = [] \<or> hd bs \<noteq> 0"
  shows "min_bytes (nat (be_val 0 bs)) = bs"
  using assms
proof (induction bs rule: rev_induct)
  case (snoc b bs)
  define v where "v = be_val 0 bs"
  have v: "0 \<le> v" using be_val_bounds[of 0 bs] by (simp add: v_def)
  have b: "0 \<le> uint b" "uint b < 256" using uint_lt2p[of b] by auto
  have pos: "0 < be_val 0 (bs @ [b])" using snoc.prems by (intro be_val_pos) auto
  have val: "nat (be_val 0 (bs @ [b])) = 256 * nat v + unat b"
    using v b by (simp add: be_val_append v_def nat_add_distrib nat_mult_distrib)
  have IH: "min_bytes (nat v) = bs" using snoc by (cases bs) (auto simp: v_def)
  have "unat b < 256" using unsigned_less[of b, where ?'a = nat] by simp
  then have "(256 * nat v + unat b) div 256 = nat v" by simp
  moreover have "(of_nat (256 * nat v + unat b) :: byte) = b"
    using \<open>unat b < 256\<close> by (simp only: word_unat_eq_iff byte_of_nat) simp
  moreover have "256 * nat v + unat b \<noteq> 0" using pos val by linarith
  ultimately show ?case unfolding val using IH by (subst min_bytes.simps) simp
qed simp

lemma hd_min_bytes: "0 < n \<Longrightarrow> min_bytes n \<noteq> [] \<and> hd (min_bytes n) \<noteq> 0"
proof (induction n rule: min_bytes.induct)
  case (1 n)
  show ?case
  proof (cases "n < 256")
    case True
    have "(of_nat n :: byte) \<noteq> 0"
      using True 1(2) by (simp only: word_unat_eq_iff byte_of_nat) simp
    with True 1(2) show ?thesis by (subst (1 2) min_bytes.simps) simp
  next
    case False
    then have "0 < n div 256" by (simp add: div_greater_zero_iff)
    with 1 show ?thesis by (subst (1 2) min_bytes.simps) simp
  qed
qed

lemma length_min_bytes: "n < 256 ^ k \<Longrightarrow> length (min_bytes n) \<le> k"
proof (induction k arbitrary: n)
  case (Suc k)
  then have "n div 256 < 256 ^ k" by (simp add: less_mult_imp_div_less mult.commute)
  from Suc.IH[OF this] show ?case by (subst min_bytes.simps) simp
qed simp

text \<open>The values of RLP and their canonical encoding.\<close>

datatype rlp = RStr "byte list" | RList "rlp list"

definition rlp_header :: "nat \<Rightarrow> nat \<Rightarrow> byte list" where
  "rlp_header base n =
     (if n \<le> 55 then [of_nat (base + n)] else of_nat (base + 55 + length (min_bytes n)) # min_bytes n)"

fun rlp_encode :: "rlp \<Rightarrow> byte list" where
  "rlp_encode (RStr b) =
     (if length b = 1 \<and> unat (hd b) < 128 then b else rlp_header 128 (length b) @ b)"
| "rlp_encode (RList ts) =
     rlp_header 192 (length (concat (map rlp_encode ts))) @ concat (map rlp_encode ts)"

text \<open>What the decoder builds for a value, and the values within its limits at a given depth.\<close>

fun rlp_value :: "rlp \<Rightarrow> rlpValue" where
  "rlp_value (RStr b) = RlpValue (rlp_encode (RStr b)) b [] False"
| "rlp_value (RList ts) = RlpValue (rlp_encode (RList ts)) [] (map rlp_value ts) True"

fun rlp_fits :: "nat \<Rightarrow> rlp \<Rightarrow> bool" where
  "rlp_fits d (RStr b) = (d \<le> maxRLPDepth \<and> length b < 2 ^ 63)"
| "rlp_fits d (RList ts) =
     (d \<le> maxRLPDepth \<and> length ts \<le> maxRLPListItems \<and> length (concat (map rlp_encode ts)) < 2 ^ 63 \<and>
      (\<forall>t \<in> set ts. rlp_fits (Suc d) t))"

lemma byte_unat: "of_nat (unat b) = (b :: byte)"
  by simp

lemma byte_bound: "unat (b :: byte) < 256"
  using unsigned_less[of b, where ?'a = nat] by simp

lemma rlp_header_short:
  assumes "input \<noteq> []" "base \<le> unat (hd input)" "unat (hd input) \<le> base + 55"
  shows "rlp_header base (unat (hd input) - base) = take 1 input"
  using assms by (cases input) (auto simp: rlp_header_def)

lemma rlp_header_long:
  assumes "decodeRLPLength input lol = Some n" "56 \<le> n" "unat (hd input) = base + 55 + lol"
  shows "rlp_header base n = take (1 + lol) input \<and> n < 2 ^ 63 \<and> 1 + lol \<le> length input"
proof -
  let ?bs = "take lol (drop 1 input)"
  from assms(1) have lol: "lol \<noteq> 0" "lol \<le> 8" "\<not> length input < 1 + lol" "input ! 1 \<noteq> 0"
    and n: "n = nat (be_val 0 ?bs)" "\<not> n > 2 ^ 63 - 1"
    by (auto simp: decodeRLPLength_def Let_def split: if_splits)
  then obtain x xs where input: "input = x # xs" by (cases input) auto
  have "hd ?bs \<noteq> 0" using lol input by (cases xs) (auto simp: take_Cons')
  then have "min_bytes n = ?bs" using n(1) min_bytes_be_val by simp
  moreover have "length ?bs = lol" using lol(3) by simp
  ultimately show ?thesis
    using assms(2,3) n(2) lol(3) input by (simp add: rlp_header_def) (metis byte_unat of_nat_add of_nat_numeral)
qed

text \<open>A successful decoding: the input begins with the encoding of a value within the limits.\<close>

definition decodes :: "nat \<Rightarrow> byte list \<Rightarrow> rlpValue \<Rightarrow> nat \<Rightarrow> bool" where
  "decodes depth input v n \<longleftrightarrow>
     (\<exists>t rest. rlp_fits depth t \<and> v = rlp_value t \<and> n = length (rlp_encode t) \<and> input = rlp_encode t @ rest)"

lemma decodes_string:
  assumes "depth \<le> maxRLPDepth" "len < 2 ^ 63" "offset + len \<le> length input"
    and "rlp_encode (RStr (take len (drop offset input))) = take (offset + len) input"
  shows "decodes depth input (RlpValue (take (offset + len) input) (take len (drop offset input)) [] False) (offset + len)"
  unfolding decodes_def
  by (rule exI[of _ "RStr (take len (drop offset input))"], rule exI[of _ "drop (offset + len) input"])
    (use assms in \<open>simp del: rlp_encode.simps\<close>)

lemma decodes_list:
  assumes "depth \<le> maxRLPDepth" "len < 2 ^ 63" "offset + len \<le> length input" "take offset input = rlp_header 192 len"
    and "take len (drop offset input) = concat (map rlp_encode ts)" "length ts \<le> maxRLPListItems"
    and "\<forall>t \<in> set ts. rlp_fits (Suc depth) t"
  shows "decodes depth input (RlpValue (take (offset + len) input) [] (map rlp_value ts) True) (offset + len)"
proof -
  have len: "length (concat (map rlp_encode ts)) = len" using assms(3,5) by (metis length_take length_drop add_le_imp_le_diff add.commute min_absorb2)
  then have "rlp_encode (RList ts) = take (offset + len) input"
    using assms(4,5) by (simp add: take_add)
  then show ?thesis
    unfolding decodes_def using assms(1-3,6,7) len
    by (intro exI[of _ "RList ts"] exI[of _ "drop (offset + len) input"]) (simp del: rlp_encode.simps length_concat)
qed

lemma encode_long_string:
  assumes "56 \<le> len" "rlp_header 128 len = take offset input" "offset + len \<le> length input"
  shows "rlp_encode (RStr (take len (drop offset input))) = take (offset + len) input"
  using assms by (simp add: take_add)

lemma encode_short_string:
  assumes "input \<noteq> []" "128 \<le> unat (hd input)" "unat (hd input) \<le> 183" "len = unat (hd input) - 128"
    and "1 + len \<le> length input" "\<not> (len = 1 \<and> unat (input ! 1) < 128)"
  shows "rlp_encode (RStr (take len (drop 1 input))) = take (1 + len) input"
proof -
  have "rlp_header 128 len = take 1 input" using assms(1-4) by (simp add: rlp_header_short)
  moreover have "take (1 + len) input = take 1 input @ take len (drop 1 input)" by (rule take_add)
  moreover have "hd (take len (drop 1 input)) = input ! 1" if "len = 1"
    using that assms(5) by (simp add: hd_drop_conv_nth)
  ultimately show ?thesis using assms(5,6) by auto
qed

lemma if_SomeD:
  "(if c then None else z) = Some y \<Longrightarrow> \<not> c"
  "(if c then None else Some x) = Some y \<Longrightarrow> x = y"
  "(if c then None else z) = Some y \<Longrightarrow> z = Some y"
  by (simp_all split: if_split_asm)

lemma case_SomeD: "(case x of None \<Rightarrow> None | Some y \<Rightarrow> f y) = Some z \<Longrightarrow> \<exists>y. x = Some y \<and> f y = Some z"
  by (simp split: option.splits)

lemma decode_byte_sound:
  assumes "decodeRLPDepth input depth = Some (v, n)" and d: "depth \<le> maxRLPDepth" and ne: "input \<noteq> []"
    and prefix: "unat (hd input) \<le> 127"
  shows "decodes depth input v n"
proof -
  have "take 1 input = [hd input]" using ne by (cases input) auto
  moreover from prefix assms(1) d ne have "v = RlpValue (take 1 input) (take 1 input) [] False" "n = 1"
    by (auto simp: decodeRLPDepth.simps[of input])
  ultimately show ?thesis
    using prefix decodes_string[OF d, of 1 0 input] ne by (simp add: Suc_le_eq)
qed

lemma decode_short_sound:
  assumes "decodeRLPDepth input depth = Some (v, n)" and d: "depth \<le> maxRLPDepth" and ne: "input \<noteq> []"
    and prefix: "128 \<le> unat (hd input)" "unat (hd input) \<le> 183"
  shows "decodes depth input v n"
proof -
  define len where "len = unat (hd input) - 128"
  from prefix assms(1) d ne have "(if length input < 1 + len \<or> (len = 1 \<and> unat (input ! 1) < 128) then None
      else Some (RlpValue (take (1 + len) input) (take len (drop 1 input)) [] False, 1 + len)) = Some (v, n)"
    unfolding len_def by (simp add: decodeRLPDepth.simps[of input] Let_def)
  moreover from this have ok: "1 + len \<le> length input" "\<not> (len = 1 \<and> unat (input ! 1) < 128)"
    by (simp_all split: if_split_asm)
  ultimately have v: "(RlpValue (take (1 + len) input) (take len (drop 1 input)) [] False, 1 + len) = (v, n)"
    by (simp only: not_less[symmetric] simp_thms if_False option.inject)
  have "len < 2 ^ 63" using prefix(2) by (simp add: len_def)
  note short = decodes_string[OF d this ok(1) encode_short_string[OF ne prefix len_def ok]]
  show ?thesis by (rule Pair_inject[OF v]; hypsubst; rule short)
qed

lemma decode_long_sound:
  assumes "decodeRLPDepth input depth = Some (v, n)" and d: "depth \<le> maxRLPDepth" and ne: "input \<noteq> []"
    and prefix: "184 \<le> unat (hd input)" "unat (hd input) \<le> 191"
  shows "decodes depth input v n"
proof -
  define lol where "lol = unat (hd input) - 183"
  from prefix assms(1) d ne have "(case decodeRLPLength input lol of None \<Rightarrow> None
      | Some len \<Rightarrow> if len < 56 \<or> Suc lol > length input \<or> len > length input - (Suc lol) then None
          else Some (RlpValue (take (Suc lol + len) input) (take len (drop (Suc lol) input)) [] False, Suc lol + len)) =
      Some (v, n)"
    unfolding lol_def by (simp add: decodeRLPDepth.simps[of input] Let_def)
  from case_SomeD[OF this] obtain len where len: "decodeRLPLength input lol = Some len"
    and e: "(if len < 56 \<or> Suc lol > length input \<or> len > length input - (Suc lol) then None
          else Some (RlpValue (take (Suc lol + len) input) (take len (drop (Suc lol) input)) [] False, Suc lol + len)) =
      Some (v, n)" by blast
  note ok = if_SomeD(1)[OF e] and v = if_SomeD(2)[OF e]
  from rlp_header_long[OF len, of 128] ok prefix have
    "rlp_header 128 len = take (Suc lol) input" "len < 2 ^ 63" by (auto simp: lol_def)
  then have long: "decodes depth input
      (RlpValue (take (Suc lol + len) input) (take len (drop (Suc lol) input)) [] False) (Suc lol + len)"
    using ok by (intro decodes_string encode_long_string d) auto
  show ?thesis by (rule Pair_inject[OF v]; hypsubst; rule long)
qed

lemma decode_sound:
  "decodeRLPDepth input depth = Some (v, n) \<Longrightarrow> decodes depth input v n"
  "decodeRLPList input offset len depth = Some (v, n) \<Longrightarrow> depth \<le> maxRLPDepth \<Longrightarrow> len < 2 ^ 63 \<Longrightarrow>
     take offset input = rlp_header 192 len \<Longrightarrow> decodes depth input v n"
  "rlp_items rest count depth = Some vs \<Longrightarrow>
     \<exists>ts. (\<forall>t \<in> set ts. rlp_fits depth t) \<and> vs = map rlp_value ts \<and> rest = concat (map rlp_encode ts) \<and>
       (ts = [] \<or> count + length ts \<le> maxRLPListItems)"
proof (induction input depth and input offset len depth and rest count depth
    arbitrary: v n and v n and vs rule: decodeRLPDepth_decodeRLPList_rlp_items.induct)
  case (1 input depth)
  let ?prefix = "unat (hd input)"
  from "1.prems" have d: "depth \<le> maxRLPDepth" and ne: "input \<noteq> []"
    by (auto simp: decodeRLPDepth.simps[of input] split: if_splits)
  consider "?prefix \<le> 127" | "128 \<le> ?prefix" "?prefix \<le> 183" | "184 \<le> ?prefix" "?prefix \<le> 191"
    | "192 \<le> ?prefix" "?prefix \<le> 247" | "248 \<le> ?prefix" by linarith
  then show ?case
  proof cases
    case 1
    with "1.prems" d ne show ?thesis by (rule decode_byte_sound)
  next
    case 2
    with "1.prems" d ne show ?thesis by (rule decode_short_sound)
  next
    case 3
    with "1.prems" d ne show ?thesis by (rule decode_long_sound)
  next
    case 4
    with "1.prems" d ne have "decodeRLPList input 1 (?prefix - 192) depth = Some (v, n)"
      by (simp add: decodeRLPDepth.simps[of input] Let_def)
    from "1.IH"(1)[OF _ _ refl _ _ _ _ this] 4 d ne show ?thesis
      using rlp_header_short[OF ne 4(1)] by simp
  next
    case 5
    with "1.prems" d ne obtain len where len: "decodeRLPLength input (?prefix - 247) = Some len"
      "\<not> (len < 56 \<or> 1 + (?prefix - 247) > length input \<or> len > length input - (1 + (?prefix - 247)))"
      and l: "decodeRLPList input (1 + (?prefix - 247)) len depth = Some (v, n)"
      by (auto simp: decodeRLPDepth.simps[of input] Let_def split: if_splits option.splits)
    from rlp_header_long[OF len(1), of 192] len(2) 5 have
      "rlp_header 192 len = take (1 + (?prefix - 247)) input" "len < 2 ^ 63" by auto
    with "1.IH"(2)[OF _ _ refl _ _ _ _ refl refl len(1,2) l] 5 d ne show ?thesis by simp
  qed
next
  case (2 input offset len depth)
  note e = "2.prems"(1)[unfolded decodeRLPList.simps[of input]]
  note ok = if_SomeD(1)[OF e]
  from case_SomeD[OF if_SomeD(3)[OF e]] obtain items where
    items: "rlp_items (take len (drop offset input)) 0 (depth + 1) = Some items"
    and v: "(RlpValue (take (offset + len) input) [] items True, offset + len) = (v, n)" by auto
  from "2.IH"[OF ok items] obtain ts where ts: "\<forall>t \<in> set ts. rlp_fits (depth + 1) t" "items = map rlp_value ts"
    "take len (drop offset input) = concat (map rlp_encode ts)" "ts = [] \<or> 0 + length ts \<le> maxRLPListItems" by blast
  with ok "2.prems"(2-4) have r: "decodes depth input (RlpValue (take (offset + len) input) [] items True) (offset + len)"
    unfolding ts(2) by (intro decodes_list) auto
  show ?case by (rule Pair_inject[OF v]; hypsubst; rule r)
next
  case (3 rest count depth)
  show ?case
  proof (cases "rest = []")
    case True
    with "3.prems" show ?thesis by (simp add: rlp_items.simps)
  next
    case False
    with "3.prems" obtain item consumed more where item: "decodeRLPDepth rest depth = Some (item, consumed)"
      and ok: "\<not> count \<ge> maxRLPListItems" "\<not> (consumed = 0 \<or> consumed > length rest)"
      and more: "rlp_items (drop consumed rest) (count + 1) depth = Some more" and vs: "vs = item # more"
      by (auto simp: rlp_items.simps[of rest] split: if_splits option.splits prod.splits)
    from "3.IH"(1)[OF False ok(1) item] obtain t tail where t: "rlp_fits depth t" "item = rlp_value t"
      "consumed = length (rlp_encode t)" "rest = rlp_encode t @ tail" by (auto simp: decodes_def)
    from "3.IH"(2)[OF False ok(1) item refl ok(2) more] obtain ts where "\<forall>t \<in> set ts. rlp_fits depth t"
      "more = map rlp_value ts" "drop consumed rest = concat (map rlp_encode ts)"
      "ts = [] \<or> count + 1 + length ts \<le> maxRLPListItems" by blast
    with t ok(1) vs show ?thesis by (intro exI[of _ "t # ts"]) auto
  qed
qed

text \<open>Conversely every value within the limits is decoded.\<close>

lemma decodeRLPLength_header:
  assumes "56 \<le> n" "n < 2 ^ 63"
  shows "decodeRLPLength (x # min_bytes n @ rest) (length (min_bytes n)) = Some n"
    "0 < length (min_bytes n)" "length (min_bytes n) \<le> 8"
proof -
  have h: "min_bytes n \<noteq> []" "hd (min_bytes n) \<noteq> 0" using hd_min_bytes[of n] assms(1) by auto
  show pos: "0 < length (min_bytes n)" using h by simp
  show le: "length (min_bytes n) \<le> 8" using length_min_bytes[of n 8] assms(2) by simp
  have "(x # min_bytes n @ rest) ! 1 \<noteq> 0" using h by (cases "min_bytes n") auto
  moreover have "\<not> n > 2 ^ 63 - 1" using assms(2) by simp
  ultimately show "decodeRLPLength (x # min_bytes n @ rest) (length (min_bytes n)) = Some n"
    using pos le by (simp add: decodeRLPLength_def be_val_min_bytes Let_def)
qed

lemma rlp_header_bytes:
  "n \<le> 55 \<Longrightarrow> base \<le> 192 \<Longrightarrow> \<exists>x. rlp_header base n = [x] \<and> unat x = base + n"
  "56 \<le> n \<Longrightarrow> n < 2 ^ 63 \<Longrightarrow> base \<le> 192 \<Longrightarrow>
     \<exists>x mb. rlp_header base n = x # mb \<and> unat x = base + 55 + length mb \<and> 0 < length mb \<and> length mb \<le> 8 \<and>
       (\<forall>rest. decodeRLPLength (x # mb @ rest) (length mb) = Some n)"
proof -
  have u: "unat (of_nat k :: byte) = k" if "k \<le> 255" for k
    using that by (simp add: byte_of_nat(1))
  show "\<exists>x. rlp_header base n = [x] \<and> unat x = base + n" if "n \<le> 55" "base \<le> 192"
    using that u[of "base + n"] by (intro exI[of _ "of_nat (base + n)"]) (simp add: rlp_header_def del: of_nat_add)
  show "\<exists>x mb. rlp_header base n = x # mb \<and> unat x = base + 55 + length mb \<and> 0 < length mb \<and> length mb \<le> 8 \<and>
       (\<forall>rest. decodeRLPLength (x # mb @ rest) (length mb) = Some n)"
    if n: "56 \<le> n" "n < 2 ^ 63" and "base \<le> 192"
    using that(3) u[of "base + 55 + length (min_bytes n)"] decodeRLPLength_header[OF n] n(1)
    by (intro exI[of _ "of_nat (base + 55 + length (min_bytes n))"] exI[of _ "min_bytes n"])
      (simp add: rlp_header_def del: of_nat_add)
qed

lemma decode_string_complete:
  assumes "d \<le> maxRLPDepth" "length b < 2 ^ 63"
  shows "decodeRLPDepth (rlp_encode (RStr b) @ rest) d = Some (rlp_value (RStr b), length (rlp_encode (RStr b)))"
proof -
  consider "length b = 1" "unat (hd b) < 128" | "\<not> (length b = 1 \<and> unat (hd b) < 128)" "length b \<le> 55" | "56 \<le> length b"
    by linarith
  then show ?thesis
  proof cases
    case 1
    then obtain x where "b = [x]" by (cases b) auto
    with 1 assms show ?thesis by (simp add: decodeRLPDepth.simps)
  next
    case 2
    then have "\<not> (length b = 1 \<and> unat ((b @ rest) ! 0) < 128)" by (cases b) auto
    moreover from rlp_header_bytes(1)[OF 2(2), of 128] obtain x where
      x: "rlp_header 128 (length b) = [x]" "unat x = 128 + length b" by auto
    moreover from x 2(1) have "rlp_encode (RStr b) = x # b" by auto
    ultimately show ?thesis
      using 2 assms by (simp add: decodeRLPDepth.simps Let_def del: rlp_encode.simps)
  next
    case 3
    from rlp_header_bytes(2)[OF 3 assms(2), of 128] obtain x mb where
      x: "rlp_header 128 (length b) = x # mb" "unat x = 183 + length mb" "0 < length mb" "length mb \<le> 8"
        "decodeRLPLength (x # mb @ b @ rest) (length mb) = Some (length b)" by auto
    from x(1) 3 have "rlp_encode (RStr b) = x # mb @ b" by simp
    with x(2-5) 3 assms(1) show ?thesis
      by (simp add: decodeRLPDepth.simps Let_def del: rlp_encode.simps)
  qed
qed

lemma decode_list_complete:
  assumes "d \<le> maxRLPDepth" "length p < 2 ^ 63" "rlp_items p 0 (Suc d) = Some vs"
  shows "decodeRLPDepth (rlp_header 192 (length p) @ p @ rest) d =
    Some (RlpValue (rlp_header 192 (length p) @ p) [] vs True, length (rlp_header 192 (length p)) + length p)"
proof (cases "length p \<le> 55")
  case True
  from rlp_header_bytes(1)[OF True, of 192] obtain x where
    "rlp_header 192 (length p) = [x]" "unat x = 192 + length p" by auto
  with assms True show ?thesis by (simp add: decodeRLPDepth.simps decodeRLPList.simps Let_def)
next
  case False
  then have 3: "56 \<le> length p" by simp
  from rlp_header_bytes(2)[OF 3 assms(2), of 192] obtain x mb where
    x: "rlp_header 192 (length p) = x # mb" "unat x = 247 + length mb" "0 < length mb" "length mb \<le> 8"
      "decodeRLPLength (x # mb @ p @ rest) (length mb) = Some (length p)" by auto
  show ?thesis
    unfolding x(1) using x(2-5) 3 assms(1,3) by (simp add: decodeRLPDepth.simps decodeRLPList.simps Let_def)
qed

lemma items_complete:
  assumes "\<forall>t \<in> set ts. \<forall>rest. decodeRLPDepth (rlp_encode t @ rest) d = Some (rlp_value t, length (rlp_encode t))"
    and "\<forall>t \<in> set ts. rlp_encode t \<noteq> []" "count + length ts \<le> maxRLPListItems"
  shows "rlp_items (concat (map rlp_encode ts)) count d = Some (map rlp_value ts)"
  using assms
proof (induction ts arbitrary: count)
  case Nil
  then show ?case by (simp add: rlp_items.simps)
next
  case (Cons t ts)
  then show ?case by (subst rlp_items.simps) simp
qed

lemma rlp_encode_nonempty: "rlp_encode t \<noteq> []"
  by (cases t) (auto simp: rlp_header_def)

lemma decode_complete:
  "rlp_fits d t \<Longrightarrow> decodeRLPDepth (rlp_encode t @ rest) d = Some (rlp_value t, length (rlp_encode t))"
proof (induction t arbitrary: d rest)
  case (RStr b)
  then show ?case by (intro decode_string_complete) auto
next
  case (RList ts)
  have "rlp_items (concat (map rlp_encode ts)) 0 (Suc d) = Some (map rlp_value ts)"
    using RList rlp_encode_nonempty by (intro items_complete) auto
  from decode_list_complete[OF _ _ this] RList.prems show ?case by simp
qed

section \<open>Claim\<close>

text \<open>
  C36: The decoder accepts exactly the canonical encodings. It consumes the whole input if and only if
  the input is the canonical encoding of a value within its limits (nesting of 64 lists, 65536 items
  in a list, 63-bit lengths), and then it returns that value with every item's own bytes. So no two
  byte strings decode to the same value and no byte string has two readings.
\<close>

theorem rlp_decoder_is_canonical:
  "decodeRLP input = Some (v, length input) \<longleftrightarrow>
     (\<exists>t. rlp_fits 0 t \<and> input = rlp_encode t \<and> v = rlp_value t)"
proof
  assume "decodeRLP input = Some (v, length input)"
  from decode_sound(1)[OF this[unfolded decodeRLP_def]] show "\<exists>t. rlp_fits 0 t \<and> input = rlp_encode t \<and> v = rlp_value t"
    by (auto simp: decodes_def)
next
  assume "\<exists>t. rlp_fits 0 t \<and> input = rlp_encode t \<and> v = rlp_value t"
  then show "decodeRLP input = Some (v, length input)"
    using decode_complete[of 0 _ "[]"] by (auto simp: decodeRLP_def)
qed

end
