(* ===== verification/Evm_Trie.thy ===== *)
theory Evm_Trie
  imports Evm_Rlp
begin

unbundle bit_operations_syntax

text \<open>
  Inclusion in an Ethereum trie, \<open>verifyTrieInclusion\<close> of \<^verbatim>\<open>chain-indexer/projection/evmproof.go\<close>: a
  proof is the list of nodes on the path of a key, each referenced by the one before it. Keccak-256 is
  the parameter \<open>keccak\<close>. A root and a key determine the value: two accepted proofs show the same value
  or contain two nodes on which Keccak collides.
\<close>

section \<open>Verification\<close>

definition maxProofNodeBytes :: nat where "maxProofNodeBytes = 2 ^ 20"
definition maxProofNodes :: nat where "maxProofNodes = 64"
definition maxProofBytes :: nat where "maxProofBytes = 2 ^ 23"

fun proof_total :: "byte list list \<Rightarrow> nat \<Rightarrow> bool" where
  "proof_total [] bytes = True"
| "proof_total (node # rest) bytes =
     (if length node = 0 \<or> length node > maxProofNodeBytes then False
      else if bytes + length node > maxProofBytes then False
      else proof_total rest (bytes + length node))"

definition validProofSize :: "byte list list \<Rightarrow> bool" where
  "validProofSize proof =
     (if length proof = 0 \<or> length proof > maxProofNodes then False else proof_total proof 0)"

definition bytesToNibbles :: "byte list \<Rightarrow> byte list" where
  "bytesToNibbles value = concat (map (\<lambda>item. [drop_bit 4 item, item AND 0x0f]) value)"

text \<open>The path of a leaf or extension node with the leaf flag.\<close>

definition decodeCompactPath :: "byte list \<Rightarrow> (byte list \<times> bool) option" where
  "decodeCompactPath encoded =
     (let nibbles = bytesToNibbles encoded
      in if length nibbles = 0 \<or> nibbles ! 0 > 3 then None
         else
           let leaf = (nibbles ! 0 \<ge> 2); odd = (nibbles ! 0 mod 2 = 1)
           in if odd then Some (drop 1 nibbles, leaf)
              else if length nibbles < 2 \<or> nibbles ! 1 \<noteq> 0 then None
              else Some (drop 2 nibbles, leaf))"

definition trieReference :: "rlpValue \<Rightarrow> byte list option" where
  "trieReference value =
     (if rlp_isList value then
        (if length (rlp_raw value) \<ge> 32 then None else Some (rlp_raw value))
      else if length (rlp_payload value) \<noteq> 32 then None
      else Some (rlp_payload value))"

definition matchesTrieReference :: "(byte list \<Rightarrow> byte list) \<Rightarrow> byte list \<Rightarrow> byte list \<Rightarrow> bool" where
  "matchesTrieReference keccak reference encodedNode =
     (if length reference = 32 then reference = keccak encodedNode
      else length reference > 0 \<and> length reference < 32 \<and> reference = encodedNode)"

text \<open>The loop over the nodes; \<open>proofIndex == len(proof)-1\<close> is that no node is left.\<close>

fun trie_loop ::
  "(byte list \<Rightarrow> byte list) \<Rightarrow> byte list \<Rightarrow> byte list \<Rightarrow> byte list \<Rightarrow> nat \<Rightarrow> byte list list \<Rightarrow> bool" where
  "trie_loop keccak keyNibbles expected reference position [] = False"
| "trie_loop keccak keyNibbles expected reference position (encodedNode # rest) =
     (if \<not> matchesTrieReference keccak reference encodedNode then False
      else case decodeRLP encodedNode of
             None \<Rightarrow> False
           | Some (node, consumed) \<Rightarrow>
               (if consumed \<noteq> length encodedNode \<or> \<not> rlp_isList node then False
                else if length (rlp_list node) = 17 then
                  (if position = length keyNibbles then
                     (let value = rlp_list node ! 16
                      in rest = [] \<and> \<not> rlp_isList value \<and> rlp_payload value = expected)
                   else case trieReference (rlp_list node ! unat (keyNibbles ! position)) of
                          None \<Rightarrow> False
                        | Some child \<Rightarrow> trie_loop keccak keyNibbles expected child (position + 1) rest)
                else if length (rlp_list node) = 2 then
                  (let pathField = rlp_list node ! 0
                   in if rlp_isList pathField then False
                      else case decodeCompactPath (rlp_payload pathField) of
                             None \<Rightarrow> False
                           | Some (path, leaf) \<Rightarrow>
                               (if length keyNibbles - position < length path \<or>
                                   take (length path) (drop position keyNibbles) \<noteq> path
                                then False
                                else if leaf then
                                  (let value = rlp_list node ! 1
                                   in position + length path = length keyNibbles \<and> rest = [] \<and>
                                      \<not> rlp_isList value \<and> rlp_payload value = expected)
                                else case trieReference (rlp_list node ! 1) of
                                       None \<Rightarrow> False
                                     | Some child \<Rightarrow>
                                         trie_loop keccak keyNibbles expected child (position + length path) rest))
                else False))"

definition verifyTrieInclusion ::
  "(byte list \<Rightarrow> byte list) \<Rightarrow> byte list \<Rightarrow> byte list \<Rightarrow> byte list \<Rightarrow> byte list list \<Rightarrow> bool" where
  "verifyTrieInclusion keccak root key expected proof =
     (if length root \<noteq> 32 \<or> \<not> validProofSize proof then False
      else trie_loop keccak (bytesToNibbles key) expected root 0 proof)"

text \<open>The key of a transaction: the RLP encoding of its index.\<close>

definition rlpEncodeUint :: "64 word \<Rightarrow> byte list" where
  "rlpEncodeUint value =
     (if value = 0 then [0x80]
      else
        let payload = dropWhile (\<lambda>b. b = 0) (put_uint64 value)
        in if length payload = 1 \<and> hd payload < 0x80 then payload
           else (0x80 + of_nat (length payload)) # payload)"

section \<open>A root and a key determine the value\<close>

definition node_collision :: "(byte list \<Rightarrow> byte list) \<Rightarrow> byte list list \<Rightarrow> byte list list \<Rightarrow> bool" where
  "node_collision keccak ns ms \<longleftrightarrow> (\<exists>n \<in> set ns. \<exists>m \<in> set ms. n \<noteq> m \<and> keccak n = keccak m)"

lemma node_collision_Cons:
  "node_collision keccak ns ms \<Longrightarrow> node_collision keccak (n # ns) (m # ms)"
  by (auto simp: node_collision_def)

lemma matchesTrieReference_same:
  "matchesTrieReference keccak r n \<Longrightarrow> matchesTrieReference keccak r m \<Longrightarrow> n = m \<or> keccak n = keccak m"
  by (auto simp: matchesTrieReference_def split: if_splits)

text \<open>What a node says about a key: nothing, the value, or the next reference and position.\<close>

definition trie_next :: "byte list \<Rightarrow> nat \<Rightarrow> byte list \<Rightarrow> (byte list + byte list \<times> nat) option" where
  "trie_next key i n =
     (case decodeRLP n of
        None \<Rightarrow> None
      | Some (node, consumed) \<Rightarrow>
          (if consumed \<noteq> length n \<or> \<not> rlp_isList node then None
           else if length (rlp_list node) = 17 then
             (if i = length key then
                (if rlp_isList (rlp_list node ! 16) then None else Some (Inl (rlp_payload (rlp_list node ! 16))))
              else map_option (\<lambda>child. Inr (child, i + 1)) (trieReference (rlp_list node ! unat (key ! i))))
           else if length (rlp_list node) = 2 \<and> \<not> rlp_isList (rlp_list node ! 0) then
             (case decodeCompactPath (rlp_payload (rlp_list node ! 0)) of
                None \<Rightarrow> None
              | Some (path, leaf) \<Rightarrow>
                  (if length key - i < length path \<or> take (length path) (drop i key) \<noteq> path then None
                   else if leaf then
                     (if i + length path = length key \<and> \<not> rlp_isList (rlp_list node ! 1)
                      then Some (Inl (rlp_payload (rlp_list node ! 1))) else None)
                   else map_option (\<lambda>child. Inr (child, i + length path)) (trieReference (rlp_list node ! 1))))
           else None))"

lemma trie_loop_next:
  "trie_loop keccak key v r i (n # ns) \<longleftrightarrow> matchesTrieReference keccak r n \<and>
     (case trie_next key i n of
        None \<Rightarrow> False
      | Some (Inl w) \<Rightarrow> ns = [] \<and> w = v
      | Some (Inr (child, j)) \<Rightarrow> trie_loop keccak key v child j ns)"
  by (auto simp: trie_next_def Let_def split: option.splits prod.splits)

lemma trie_loop_binding:
  assumes "trie_loop keccak key v r i ns" "trie_loop keccak key w r i ms"
  shows "(v = w \<and> ns = ms) \<or> node_collision keccak ns ms"
  using assms
proof (induction ns arbitrary: r i ms)
  case (Cons n ns)
  from Cons.prems(2) obtain m ms' where ms: "ms = m # ms'" by (cases ms) auto
  note p = Cons.prems[unfolded ms trie_loop_next]
  show ?case
  proof (cases "n = m")
    case True
    from p have "(v = w \<and> ns = [] \<and> ms' = []) \<or> (\<exists>r' i'. trie_loop keccak key v r' i' ns \<and> trie_loop keccak key w r' i' ms')"
      unfolding True by (auto split: option.splits sum.splits)
    with Cons.IH show ?thesis unfolding ms True by (blast intro: node_collision_Cons)
  next
    case False
    with p have "keccak n = keccak m" using matchesTrieReference_same by blast
    with False show ?thesis unfolding ms node_collision_def by auto
  qed
qed simp

section \<open>Claim\<close>

text \<open>
  A trie root and a key determine the value and its proof. Two proofs that \<open>verifyTrieInclusion\<close>
  accepts for the same root and the same key are equal and show the same value, or they contain two
  different nodes with the same Keccak hash: nobody can prove two receipts at one index of a block.
\<close>

theorem trie_inclusion_is_binding:
  assumes "verifyTrieInclusion keccak root key v ns" "verifyTrieInclusion keccak root key w ms"
  shows "(v = w \<and> ns = ms) \<or> (\<exists>n \<in> set ns. \<exists>m \<in> set ms. n \<noteq> m \<and> keccak n = keccak m)"
  using trie_loop_binding[of keccak "bytesToNibbles key" v root 0 ns w ms] assms
  by (auto simp: verifyTrieInclusion_def node_collision_def split: if_splits)

text \<open>A branch with one leaf: the value \<open>7\<close> at the key \<open>0x80\<close>, under a hash that keeps the length.\<close>

definition sample_trie_hash :: "byte list \<Rightarrow> byte list" where
  "sample_trie_hash bs = replicate 31 0 @ [of_nat (length bs)]"

definition sample_leaf :: "byte \<Rightarrow> byte list" where
  "sample_leaf v = rlp_encode (RList [RStr [0x20, 0x80], RStr [v]])"

lemma sample_leaf_included:
  assumes "unat v < 128"
  shows "verifyTrieInclusion sample_trie_hash (sample_trie_hash (sample_leaf v)) [0x80] [v] [sample_leaf v]"
proof -
  let ?t = "RList [RStr [0x20, 0x80], RStr [v]]"
  have "decodeRLP (sample_leaf v) = Some (rlp_value ?t, length (sample_leaf v))"
    using decode_complete[of 0 ?t "[]"]
    by (simp add: sample_leaf_def decodeRLP_def maxRLPDepth_def maxRLPListItems_def rlp_header_def del: rlp_value.simps rlp_encode.simps)
      (simp add: assms rlp_header_def)
  moreover have "decodeCompactPath [0x20, 0x80] = Some ([8, 0], True)" "bytesToNibbles [0x80] = [8, 0]"
    by code_simp+
  ultimately have "trie_next (bytesToNibbles [0x80]) 0 (sample_leaf v) = Some (Inl [v])"
    by (simp add: trie_next_def del: rlp_encode.simps)
  moreover have "length (sample_leaf v) = 5" using assms by (simp add: sample_leaf_def rlp_header_def)
  ultimately show ?thesis
    by (simp add: verifyTrieInclusion_def trie_loop_next matchesTrieReference_def sample_trie_hash_def
        validProofSize_def maxProofNodes_def maxProofNodeBytes_def maxProofBytes_def del: trie_loop.simps(2))
qed

theorem trie_inclusion_is_binding_witness:
  "\<exists>n \<in> set [sample_leaf 7]. \<exists>m \<in> set [sample_leaf 8]. n \<noteq> m \<and> sample_trie_hash n = sample_trie_hash m"
proof -
  have "sample_trie_hash (sample_leaf 8) = sample_trie_hash (sample_leaf 7)"
    by (simp add: sample_trie_hash_def sample_leaf_def rlp_header_def)
  with trie_inclusion_is_binding[OF sample_leaf_included[of 7], of "[8]" "[sample_leaf 8]"] sample_leaf_included[of 8]
  show ?thesis by simp
qed

end
