(* ===== verification/Hex_Text.thy ===== *)
theory Hex_Text
  imports Abi_Words
begin

text \<open>
  Hexadecimal text of fixed size, as \<^verbatim>\<open>chain-indexer/projection/gateway.go\<close> and
  \<^verbatim>\<open>payment-orchestrator/settlement/digest.go\<close> read it: lower case, with the prefix \<^verbatim>\<open>0x\<close>, of a given number
  of bytes. \<open>hex_decode\<close> is \<^verbatim>\<open>hex.DecodeString\<close>, which accepts both cases. \<open>to_lower\<close> is
  \<^verbatim>\<open>strings.ToLower\<close> on ASCII; a string with other characters is refused by the decoder in any case.
\<close>

definition hex_digit :: "char \<Rightarrow> nat option" where
  "hex_digit c =
     (let n = of_char c :: nat
      in if 48 \<le> n \<and> n \<le> 57 then Some (n - 48)
         else if 97 \<le> n \<and> n \<le> 102 then Some (n - 87)
         else if 65 \<le> n \<and> n \<le> 70 then Some (n - 55)
         else None)"

fun hex_decode :: "string \<Rightarrow> byte list option" where
  "hex_decode [] = Some []"
| "hex_decode [c] = None"
| "hex_decode (c # d # rest) =
     (case hex_digit c of
        None \<Rightarrow> None
      | Some x \<Rightarrow>
          (case hex_digit d of
             None \<Rightarrow> None
           | Some y \<Rightarrow> map_option ((#) (of_nat (16 * x + y))) (hex_decode rest)))"

definition lower_char :: "char \<Rightarrow> char" where
  "lower_char c = (let n = of_char c :: nat in if 65 \<le> n \<and> n \<le> 90 then char_of (n + 32) else c)"

definition to_lower :: "string \<Rightarrow> string" where
  "to_lower s = map lower_char s"

definition decode_fixed_hex :: "string \<Rightarrow> nat \<Rightarrow> byte list option" where
  "decode_fixed_hex value sz =
     (if value \<noteq> to_lower value \<or> take 2 value \<noteq> ''0x'' \<or> length value \<noteq> 2 + sz * 2 then None
      else case hex_decode (drop 2 value) of
             None \<Rightarrow> None
           | Some decoded \<Rightarrow> if length decoded \<noteq> sz then None else Some decoded)"

lemma hex_digit_char: "d < 16 \<Longrightarrow> hex_digit (hex_char d) = Some d \<and> lower_char (hex_char d) = hex_char d"
  by (auto simp: less_16_cases hex_char_def hex_digit_def lower_char_def)

lemma hex_digit_lower:
  assumes "hex_digit c = Some d" "lower_char c = c"
  shows "d < 16 \<and> c = hex_char d"
proof -
  define n where "n = (of_char c :: nat)"
  have "\<not> (65 \<le> n \<and> n \<le> 90)"
  proof
    assume r: "65 \<le> n \<and> n \<le> 90"
    then have "lower_char c = char_of (n + 32)" by (simp add: lower_char_def n_def)
    with assms(2) have "of_char (char_of (n + 32) :: char) = n" by (simp add: n_def)
    with r show False by simp
  qed
  with assms(1) have "(48 \<le> n \<and> n \<le> 57 \<and> d = n - 48) \<or> (97 \<le> n \<and> n \<le> 102 \<and> d = n - 87)"
    by (auto simp: hex_digit_def n_def[symmetric] split: if_splits)
  then have d: "d < 16" and "n = (if d < 10 then d + 48 else d + 87)" by auto
  moreover have "of_char (hex_char d) = (if d < 10 then d + 48 else d + 87 :: nat)"
    using d by (auto simp: less_16_cases hex_char_def)
  ultimately have "(of_char c :: nat) = of_char (hex_char d)" by (simp add: n_def)
  with d show ?thesis by simp
qed

lemma hex_decode_hex: "hex_decode (hex bs) = Some bs \<and> to_lower (hex bs) = hex bs"
proof (induction bs)
  case (Cons b bs)
  have "16 * (unat b div 16) + unat b mod 16 = unat b" by simp
  with Cons hex_digit_char[OF nibbles(1)[of b]] hex_digit_char[OF nibbles(2)[of b]] show ?case
    by (simp add: to_lower_def)
qed (simp add: to_lower_def)

lemma hex_decode_lower: "hex_decode s = Some bs \<Longrightarrow> to_lower s = s \<Longrightarrow> s = hex bs"
proof (induction s arbitrary: bs rule: hex_decode.induct)
  case (3 c d rest)
  then obtain x y bs' where xy: "hex_digit c = Some x" "hex_digit d = Some y" "hex_decode rest = Some bs'"
    and bs: "bs = of_nat (16 * x + y) # bs'"
    by (auto split: option.splits)
  from "3.prems"(2) have "lower_char c = c" "lower_char d = d" and low: "to_lower rest = rest"
    by (simp_all add: to_lower_def)
  with hex_digit_lower[OF xy(1)] hex_digit_lower[OF xy(2)] have x: "x < 16" "c = hex_char x" and y: "y < 16" "d = hex_char y"
    by auto
  have "unat (of_nat (16 * x + y) :: byte) = 16 * x + y"
    using x(1) y(1) by (simp add: unat_of_nat del: of_nat_add of_nat_mult)
  then have "unat (of_nat (16 * x + y) :: byte) div 16 = x" "unat (of_nat (16 * x + y) :: byte) mod 16 = y"
    using y(1) by simp_all
  with "3.IH"[OF xy(1,2,3) low] x y bs show ?case by (simp del: of_nat_add of_nat_mult)
qed auto

lemma length_hex [simp]: "length (hex bs) = 2 * length bs"
  by (induction bs) auto

lemma decode_fixed_hex_Some:
  "decode_fixed_hex value sz = Some bs \<longleftrightarrow> value = ''0x'' @ hex bs \<and> length bs = sz"
proof
  assume r: "decode_fixed_hex value sz = Some bs"
  then have v: "value = to_lower value" "take 2 value = ''0x''" "hex_decode (drop 2 value) = Some bs" "length bs = sz"
    by (auto simp: decode_fixed_hex_def split: if_splits option.splits)
  have "to_lower (drop 2 value) = drop 2 value" using v(1) by (metis to_lower_def drop_map)
  with hex_decode_lower[OF v(3)] v(2,4) show "value = ''0x'' @ hex bs \<and> length bs = sz"
    by (metis append_take_drop_id)
next
  assume "value = ''0x'' @ hex bs \<and> length bs = sz"
  moreover have "to_lower (''0x'' @ hex bs) = ''0x'' @ hex bs"
    using hex_decode_hex[of bs] by (simp add: to_lower_def lower_char_def)
  ultimately show "decode_fixed_hex value sz = Some bs"
    using hex_decode_hex[of bs] by (simp add: decode_fixed_hex_def mult.commute)
qed

end
