(* ===== verification/Chain_Types.thy ===== *)
theory Chain_Types
  imports Big_Int
begin

text \<open>
  The vocabulary of \<^verbatim>\<open>chain-indexer/projection\<close>: events, blocks and receipts, the projected tenders,
  loans and settlements, the evidence of finality, of reorganizations and of reverted transactions.
  The string types with named constants have a constructor for every other string.
\<close>

section \<open>Enumerations\<close>

datatype Finality = Provisional | Final | UnsetFinality

datatype EventType =
    TenderPublished | OfferSelected | LoanActivated | PrincipalRepaid | LoanClosed
  | CanonicalSettlementExecuted | UnknownEvent string

datatype ReorgDepthClass = ReorgPreFinality | ReorgDeepFinality | UnknownDepth string

datatype TransactionReceiptStatus = TransactionReverted | TransactionSucceeded | UnknownReceiptStatus string

datatype chain_error =
    ErrInvalidBlock | ErrUnknownParent | ErrDuplicateEvent string "64 word" | ErrInvalidEvent
  | ErrInvalidIndexerConfig | ErrInvalidTransactionFailure | ErrUnauthenticatedBlock
  | ErrInvalidHeaderEvidence | ErrInvalidInclusionProof

section \<open>Records\<close>

record Event =
  ev_ID :: string
  ev_Type :: EventType
  ev_TxHash :: string
  ev_LogIndex :: "32 word"
  ev_BlockNumber :: "64 word"
  ev_BlockHash :: string
  ev_ChainID :: "64 word"
  ev_TenderID :: string
  ev_OfferID :: string
  ev_LoanID :: string
  ev_BorrowerID :: string
  ev_LenderID :: string
  ev_AssetID :: string
  ev_AmountUnits :: string
  ev_PaymentID :: string
  ev_AllocationID :: string
  ev_InstructionDigest :: string
  ev_PolicySetHash :: string
  ev_LoanAccount :: string
  ev_Finalizer :: string
  ev_Attester :: string
  ev_SourceAssetID :: string
  ev_TargetToken :: string
  ev_SourceUnits :: string
  ev_GrossUnits :: string
  ev_ProviderIDHash :: string
  ev_ProviderReferenceHash :: string
  ev_ReconciliationID :: string
  ev_ReconciliationCommitment :: string
  ev_OriginalJournalSetHash :: string
  ev_ConversionPolicyHash :: string
  ev_FinalityPolicyHash :: string
  ev_EvidenceHash :: string
  ev_JournalRef :: string
  ev_ProviderFinalizedAt :: "64 word"
  ev_ReversalDeadline :: "64 word"
  ev_PrincipalUnits :: string
  ev_RefundableExcessUnits :: string
  ev_DebtBeforeUnits :: string
  ev_DebtAfterUnits :: string
  ev_StateNonceBefore :: "64 word"
  ev_StateNonceAfter :: "64 word"
  ev_Gateway :: string
  ev_RawEvidenceHash :: string
  ev_TransactionIndex :: "64 word"
  ev_ReceiptsRoot :: string
  ev_InclusionProofHash :: string
  ev_ReceiptHeaderSignatureHash :: string
  ev_decodedCanonical :: bool

record Block =
  bk_Number :: "64 word"
  bk_Hash :: string
  bk_ParentHash :: string
  bk_ObservedAt :: gotime
  bk_Events :: "Event list"
  bk_HeaderSignatureHash :: string

record Tender =
  td_ID :: string
  td_BorrowerID :: string
  td_State :: string
  td_SelectedOfferID :: string
  td_UpdatedInBlock :: "64 word"
  td_Finality :: Finality

record Loan =
  ln_ID :: string
  ln_BorrowerID :: string
  ln_LenderID :: string
  ln_AssetID :: string
  ln_PrincipalUnits :: string
  ln_OutstandingUnits :: string
  ln_Status :: string
  ln_LastPaymentID :: string
  ln_UpdatedInBlock :: "64 word"
  ln_Finality :: Finality

record CanonicalSettlement =
  cn_PaymentID :: string
  cn_AllocationID :: string
  cn_InstructionDigest :: string
  cn_PolicySetHash :: string
  cn_LoanID :: string
  cn_LoanAccount :: string
  cn_Finalizer :: string
  cn_Attester :: string
  cn_SourceAssetID :: string
  cn_TargetAssetID :: string
  cn_TargetToken :: string
  cn_SourceUnits :: string
  cn_GrossUnits :: string
  cn_ProviderIDHash :: string
  cn_ProviderReferenceHash :: string
  cn_ReconciliationID :: string
  cn_ReconciliationCommitment :: string
  cn_OriginalJournalSetHash :: string
  cn_ConversionPolicyHash :: string
  cn_FinalityPolicyHash :: string
  cn_EvidenceHash :: string
  cn_JournalRef :: string
  cn_ProviderFinalizedAt :: "64 word"
  cn_ReversalDeadline :: "64 word"
  cn_PrincipalUnits :: string
  cn_RefundableExcessUnits :: string
  cn_DebtBeforeUnits :: string
  cn_DebtAfterUnits :: string
  cn_StateNonceBefore :: "64 word"
  cn_StateNonceAfter :: "64 word"
  cn_LenderID :: string
  cn_BorrowerID :: string
  cn_ChainID :: "64 word"
  cn_Gateway :: string
  cn_TransactionHash :: string
  cn_EventID :: string
  cn_LogIndex :: "32 word"
  cn_BlockHash :: string
  cn_RawEvidenceHash :: string
  cn_TransactionIndex :: "64 word"
  cn_ReceiptsRoot :: string
  cn_InclusionProofHash :: string
  cn_ReceiptHeaderSignatureHash :: string
  cn_UpdatedInBlock :: "64 word"
  cn_Finality :: Finality

record SettlementReorg =
  sg_PaymentID :: string
  sg_AllocationID :: string
  sg_InstructionDigest :: string
  sg_ChainID :: "64 word"
  sg_Gateway :: string
  sg_EventID :: string
  sg_TransactionHash :: string
  sg_OrphanedEventEvidenceHash :: string
  sg_RawEvidenceHash :: string
  sg_TransactionIndex :: "64 word"
  sg_ReceiptsRoot :: string
  sg_InclusionProofHash :: string
  sg_OrphanedReceiptHeaderSignatureHash :: string
  sg_OrphanedBlockHash :: string
  sg_OrphanedBlock :: "64 word"
  sg_ReplacementBlockHash :: string
  sg_ReplacementBlock :: "64 word"
  sg_DepthClass :: ReorgDepthClass
  sg_ConfirmationDepth :: "64 word"
  sg_DetectedHead :: "64 word"
  sg_DetectedHeadHash :: string
  sg_FinalityPolicyHash :: string
  sg_HeaderAuthorityHash :: string
  sg_ReplacementHeaderSignatureHash :: string
  sg_DetectedHeadHeaderSignatureHash :: string
  sg_CompensationRequired :: bool
  sg_EvidenceHash :: string
  sg_DetectedAt :: gotime

record FinalityProof =
  pf_Finality :: Finality
  pf_ConfirmationDepth :: "64 word"
  pf_HeadBlockNumber :: "64 word"
  pf_HeadBlockHash :: string
  pf_EvidenceHash :: string
  pf_ObservedAt :: gotime
  pf_FinalityPolicyHash :: string
  pf_HeaderAuthorityHash :: string
  pf_HeadHeaderSignatureHash :: string

record TransactionFailureEvidence =
  tf_ChainID :: "64 word"
  tf_Gateway :: string
  tf_TransactionHash :: string
  tf_ReceiptPayloadHash :: string
  tf_Status :: TransactionReceiptStatus
  tf_TransactionIndex :: "64 word"
  tf_BlockNumber :: "64 word"
  tf_BlockHash :: string
  tf_ReceiptsRoot :: string
  tf_InclusionProofHash :: string
  tf_FinalityPolicyHash :: string
  tf_HeaderAuthorityHash :: string
  tf_ReceiptHeaderSignatureHash :: string
  tf_HeadHeaderSignatureHash :: string
  tf_ConfirmationDepth :: "64 word"
  tf_HeadBlockNumber :: "64 word"
  tf_HeadBlockHash :: string
  tf_EvidenceHash :: string
  tf_ObservedAt :: gotime

record verifiedReceipt =
  vr_TransactionHash :: string
  vr_ReceiptPayloadHash :: string
  vr_Status :: TransactionReceiptStatus
  vr_TransactionIndex :: "64 word"
  vr_BlockNumber :: "64 word"
  vr_BlockHash :: string
  vr_ReceiptsRoot :: string
  vr_InclusionProofHash :: string
  vr_HeaderSignatureHash :: string

record ExpectedTransaction =
  et_ChainID :: "64 word"
  et_Gateway :: string
  et_TransactionHash :: string

end
