(* ===== verification/Evm_Block.thy ===== *)
theory Evm_Block
  imports Evm_Trie Hex_Text Chain_Types
begin

text \<open>
  The chain boundary of \<^verbatim>\<open>chain-indexer/projection\<close>: the log decoder of \<^verbatim>\<open>gateway.go\<close> and the verification
  of authenticated headers, receipts and confirmation paths of \<^verbatim>\<open>evmproof.go\<close>. Keccak-256 and the
  Ed25519 check are the environment record \<open>EvmEnv\<close>; sizes that Go computes as \<^verbatim>\<open>int\<close> are naturals
  (all are bounded by the limits below).
\<close>

section \<open>Types\<close>

record EvmEnv =
  ee_keccak :: "byte list \<Rightarrow> byte list"
  ee_verify :: "byte list \<Rightarrow> byte list \<Rightarrow> byte list \<Rightarrow> bool"

record RawLog =
  rw_ChainID :: "64 word"
  rw_ContractAddress :: string
  rw_Topics :: "string list"
  rw_Data :: "byte list"
  rw_TransactionHash :: string
  rw_LogIndex :: "32 word"
  rw_BlockNumber :: "64 word"
  rw_BlockHash :: string

record ReceiptInclusionProof =
  ri_TransactionIndex :: "64 word"
  ri_TransactionRLP :: "byte list"
  ri_TransactionProofNodes :: "byte list list"
  ri_ReceiptRLP :: "byte list"
  ri_ReceiptProofNodes :: "byte list list"

record AuthenticatedBlock =
  ab_HeaderRLP :: "byte list"
  ab_ObservedAt :: gotime
  ab_Signature :: "byte list"
  ab_Receipts :: "ReceiptInclusionProof list"

record AuthenticatedHeader =
  ah_HeaderRLP :: "byte list"
  ah_ObservedAt :: gotime
  ah_Signature :: "byte list"

record ExpectedReceiptLog =
  el_Address :: string
  el_Topics :: "string list"
  el_Data :: "byte list"
  el_LogIndex :: "64 word"

record VerifiedReceiptLog =
  vl_Address :: string
  vl_Topics :: "string list"
  vl_Data :: "byte list"
  vl_LogIndex :: "64 word"

record VerifiedReceiptEvidence =
  ve_TransactionHash :: string
  ve_TransactionIndex :: "64 word"
  ve_BlockHash :: string
  ve_BlockNumber :: "64 word"
  ve_BlockTimestamp :: "64 word"
  ve_ReceiptsRoot :: string
  ve_InclusionProofHash :: string
  ve_FinalityHeadHash :: string
  ve_FinalityHeadNumber :: "64 word"
  ve_Log :: VerifiedReceiptLog

record evmHeader =
  hd_number :: "64 word"
  hd_hash :: string
  hd_parentHash :: string
  hd_transactionsRoot :: string
  hd_receiptsRoot :: string
  hd_timestamp :: "64 word"

record receiptLog =
  lg_address :: string
  lg_topics :: "string list"
  lg_data :: "byte list"

section \<open>Text and numbers\<close>

definition hex32 :: "byte list \<Rightarrow> string" where
  "hex32 value = ''0x'' @ hex value"

definition canonicalHex :: "string \<Rightarrow> nat \<Rightarrow> bool" where
  "canonicalHex value sz \<longleftrightarrow> decode_fixed_hex value sz \<noteq> None"

definition canonicalHash :: "string \<Rightarrow> bool" where
  "canonicalHash value = canonicalHex value 32"

definition canonicalAddress :: "string \<Rightarrow> bool" where
  "canonicalAddress value = canonicalHex value 20"

definition decodeCanonicalHex :: "string \<Rightarrow> nat \<Rightarrow> byte list option" where
  "decodeCanonicalHex value sz = (if \<not> canonicalHex value sz then None else hex_decode (drop 2 value))"

definition nonzeroCanonicalHash :: "string \<Rightarrow> bool" where
  "nonzeroCanonicalHash value =
     (case decodeCanonicalHex value 32 of
        None \<Rightarrow> False
      | Some decoded \<Rightarrow> list_ex (\<lambda>item. item \<noteq> 0) decoded)"

text \<open>\<open>UnixNano\<close> and \<open>Unix\<close> of an instant; the zero time is 62135596800 seconds before 1970.\<close>

definition unix_nano :: "gotime \<Rightarrow> 64 word" where
  "unix_nano t = word_of_int (t - 62135596800 * 1000000000)"

definition unix_time :: "gotime \<Rightarrow> int" where
  "unix_time t = t div 1000000000 - 62135596800"

text \<open>The verbs of \<^verbatim>\<open>fmt.Sprintf\<close> that the hashed texts use, joined by NUL.\<close>

definition show_word :: "'a::len word \<Rightarrow> string" where
  "show_word w = big_string (uint w)"

fun nul_join :: "string list \<Rightarrow> string" where
  "nul_join [] = []"
| "nul_join [s] = s"
| "nul_join (s # ss) = s @ [CHR 0x00] @ nul_join ss"

definition rlpUint64 :: "byte list \<Rightarrow> 64 word option" where
  "rlpUint64 payload =
     (if length payload > 8 \<or> (length payload > 0 \<and> payload ! 0 = 0) then None
      else Some (word_of_int (be_val 0 payload)))"

section \<open>Gateway logs\<close>

definition canonicalSettlementEventSignature :: string where
  "canonicalSettlementEventSignature =
     ''CanonicalSettlementExecuted(bytes32,bytes32,bytes32,(bytes32,bytes32,address,address,address,bytes32,bytes32,address,uint256,uint256,bytes32,bytes32,bytes32,bytes32,bytes32,bytes32,bytes32,bytes32,bytes32,uint64,uint64,uint256,uint256,uint256,uint256,uint64,uint64,address,address))''"

definition CanonicalSettlementTopic :: "EvmEnv \<Rightarrow> string" where
  "CanonicalSettlementTopic E = hex32 (ee_keccak E (string_bytes canonicalSettlementEventSignature))"

definition log_address :: "byte list \<Rightarrow> nat \<Rightarrow> string option" where
  "log_address data index =
     (let value = abi_word index data
      in if take 12 value = replicate 12 0 then Some (''0x'' @ hex (drop 12 value)) else None)"

definition log_uint256 :: "byte list \<Rightarrow> nat \<Rightarrow> string" where
  "log_uint256 data index = big_string (big_set_bytes (abi_word index data))"

definition log_uint64 :: "byte list \<Rightarrow> nat \<Rightarrow> 64 word option" where
  "log_uint64 data index =
     (let value = big_set_bytes (abi_word index data)
      in if value < 2 ^ 64 then Some (word_of_int value) else None)"

definition log_event ::
  "EvmEnv \<Rightarrow> RawLog \<Rightarrow> 64 word \<Rightarrow> string \<Rightarrow> string \<Rightarrow> bool \<Rightarrow> Event" where
  "log_event E raw transactionIndex receiptsRoot inclusionProofHash verified =
     (let data = rw_Data raw; hash = (\<lambda>i. hex32 (abi_word i data));
          address = (\<lambda>i. the_default [] (log_address data i)); number = (\<lambda>i. the_default 0 (log_uint64 data i));
          eventIDHash = ee_keccak E (string_bytes (nul_join [show_word (rw_ChainID raw), rw_BlockHash raw,
                          rw_TransactionHash raw, show_word (rw_LogIndex raw)]));
          evidenceHash = ee_keccak E (concat (map (\<lambda>topic. the_default [] (hex_decode (drop 2 topic))) (rw_Topics raw)) @ data)
      in \<lparr>ev_ID = hex32 eventIDHash, ev_Type = CanonicalSettlementExecuted, ev_TxHash = rw_TransactionHash raw,
          ev_LogIndex = rw_LogIndex raw, ev_BlockNumber = rw_BlockNumber raw, ev_BlockHash = rw_BlockHash raw,
          ev_ChainID = rw_ChainID raw, ev_TenderID = [], ev_OfferID = [], ev_LoanID = rw_Topics raw ! 3,
          ev_BorrowerID = address 28, ev_LenderID = address 27, ev_AssetID = hash 6, ev_AmountUnits = [],
          ev_PaymentID = rw_Topics raw ! 1, ev_AllocationID = rw_Topics raw ! 2, ev_InstructionDigest = hash 0,
          ev_PolicySetHash = hash 1, ev_LoanAccount = address 2, ev_Finalizer = address 3, ev_Attester = address 4,
          ev_SourceAssetID = hash 5, ev_TargetToken = address 7, ev_SourceUnits = log_uint256 data 8,
          ev_GrossUnits = log_uint256 data 9, ev_ProviderIDHash = hash 10, ev_ProviderReferenceHash = hash 11,
          ev_ReconciliationID = hash 12, ev_ReconciliationCommitment = hash 13, ev_OriginalJournalSetHash = hash 14,
          ev_ConversionPolicyHash = hash 15, ev_FinalityPolicyHash = hash 16, ev_EvidenceHash = hash 17,
          ev_JournalRef = hash 18, ev_ProviderFinalizedAt = number 19, ev_ReversalDeadline = number 20,
          ev_PrincipalUnits = log_uint256 data 22, ev_RefundableExcessUnits = log_uint256 data 23,
          ev_DebtBeforeUnits = log_uint256 data 21, ev_DebtAfterUnits = log_uint256 data 24,
          ev_StateNonceBefore = number 25, ev_StateNonceAfter = number 26, ev_Gateway = rw_ContractAddress raw,
          ev_RawEvidenceHash = hex32 evidenceHash, ev_TransactionIndex = transactionIndex,
          ev_ReceiptsRoot = receiptsRoot, ev_InclusionProofHash = inclusionProofHash,
          ev_ReceiptHeaderSignatureHash = [], ev_decodedCanonical = verified\<rparr>)"

definition decodeCanonicalSettlementLog ::
  "EvmEnv \<Rightarrow> RawLog \<Rightarrow> 64 word \<Rightarrow> string \<Rightarrow> string \<Rightarrow> bool \<Rightarrow> chain_error + Event" where
  "decodeCanonicalSettlementLog E raw transactionIndex receiptsRoot inclusionProofHash verified =
     (if rw_ChainID raw = 0 \<or> \<not> canonicalAddress (rw_ContractAddress raw) \<or> length (rw_Topics raw) \<noteq> 4 \<or>
         rw_Topics raw ! 0 \<noteq> CanonicalSettlementTopic E \<or> \<not> canonicalHash (rw_TransactionHash raw) \<or>
         rw_BlockNumber raw = 0 \<or> \<not> canonicalHash (rw_BlockHash raw) \<or> length (rw_Data raw) \<noteq> 29 * 32 \<or>
         (verified \<and> (\<not> canonicalHash receiptsRoot \<or> \<not> canonicalHash inclusionProofHash))
      then Inl ErrInvalidEvent
      else if \<not> list_all canonicalHash (drop 1 (rw_Topics raw)) then Inl ErrInvalidEvent
      else if \<not> list_all (\<lambda>i. log_address (rw_Data raw) i \<noteq> None) [2, 3, 4, 7, 27, 28] \<or>
              \<not> list_all (\<lambda>i. log_uint64 (rw_Data raw) i \<noteq> None) [19, 20, 25, 26]
      then Inl ErrInvalidEvent
      else Inr (log_event E raw transactionIndex receiptsRoot inclusionProofHash verified))"

definition DecodeCanonicalSettlementLog :: "EvmEnv \<Rightarrow> RawLog \<Rightarrow> chain_error + Event" where
  "DecodeCanonicalSettlementLog E raw = decodeCanonicalSettlementLog E raw 0 [] [] False"

section \<open>Headers and receipts\<close>

definition maxHeaderRLPBytes :: nat where "maxHeaderRLPBytes = 2 ^ 16"
definition maxTransactionBytes :: nat where "maxTransactionBytes = 2 ^ 20"
definition maxReceiptBytes :: nat where "maxReceiptBytes = 2 ^ 22"
definition maxReceiptsPerBlock :: nat where "maxReceiptsPerBlock = 4096"
definition maxBlockProofBytes :: nat where "maxBlockProofBytes = 2 ^ 25"
definition maxBlockInputBytes :: nat where "maxBlockInputBytes = 2 ^ 26"
definition maxReceiptLogs :: nat where "maxReceiptLogs = 4096"
definition maxLogTopics :: nat where "maxLogTopics = 16"

definition parseEVMHeader :: "EvmEnv \<Rightarrow> byte list \<Rightarrow> chain_error + evmHeader" where
  "parseEVMHeader E encoded =
     (if length encoded = 0 \<or> length encoded > maxHeaderRLPBytes then Inl ErrInvalidHeaderEvidence
      else case decodeRLP encoded of
             None \<Rightarrow> Inl ErrInvalidHeaderEvidence
           | Some (value, consumed) \<Rightarrow>
               (if consumed \<noteq> length encoded \<or> \<not> rlp_isList value \<or> length (rlp_list value) < 12
                then Inl ErrInvalidHeaderEvidence
                else
                  let parent = rlp_list value ! 0; transactionsRoot = rlp_list value ! 4;
                      receiptsRoot = rlp_list value ! 5; number = rlp_list value ! 8; timestamp = rlp_list value ! 11
                  in if rlp_isList parent \<or> rlp_isList transactionsRoot \<or> rlp_isList receiptsRoot \<or>
                        rlp_isList number \<or> rlp_isList timestamp \<or> length (rlp_payload parent) \<noteq> 32 \<or>
                        length (rlp_payload transactionsRoot) \<noteq> 32 \<or> length (rlp_payload receiptsRoot) \<noteq> 32
                     then Inl ErrInvalidHeaderEvidence
                     else case (rlpUint64 (rlp_payload number), rlpUint64 (rlp_payload timestamp)) of
                            (Some blockNumber, Some blockTimestamp) \<Rightarrow>
                              (if blockNumber = 0 \<or> blockTimestamp = 0 then Inl ErrInvalidHeaderEvidence
                               else Inr \<lparr>hd_number = blockNumber, hd_hash = hex32 (ee_keccak E encoded),
                                         hd_parentHash = hex32 (rlp_payload parent),
                                         hd_transactionsRoot = hex32 (rlp_payload transactionsRoot),
                                         hd_receiptsRoot = hex32 (rlp_payload receiptsRoot),
                                         hd_timestamp = blockTimestamp\<rparr>)
                          | _ \<Rightarrow> Inl ErrInvalidHeaderEvidence))"

fun decode_topics :: "rlpValue list \<Rightarrow> string list option" where
  "decode_topics [] = Some []"
| "decode_topics (topic # rest) =
     (if rlp_isList topic \<or> length (rlp_payload topic) \<noteq> 32 then None
      else map_option ((#) (hex32 (rlp_payload topic))) (decode_topics rest))"

fun decode_logs :: "rlpValue list \<Rightarrow> receiptLog list option" where
  "decode_logs [] = Some []"
| "decode_logs (encodedLog # rest) =
     (if \<not> rlp_isList encodedLog \<or> length (rlp_list encodedLog) \<noteq> 3 then None
      else
        let address = rlp_list encodedLog ! 0; topics = rlp_list encodedLog ! 1; data = rlp_list encodedLog ! 2
        in if rlp_isList address \<or> length (rlp_payload address) \<noteq> 20 \<or> \<not> rlp_isList topics \<or>
              length (rlp_list topics) > maxLogTopics \<or> rlp_isList data \<or> length (rlp_payload data) > maxReceiptBytes
           then None
           else case decode_topics (rlp_list topics) of
                  None \<Rightarrow> None
                | Some decodedTopics \<Rightarrow>
                    map_option ((#) \<lparr>lg_address = ''0x'' @ hex (rlp_payload address), lg_topics = decodedTopics,
                                      lg_data = rlp_payload data\<rparr>) (decode_logs rest))"

definition decodeReceipt :: "byte list \<Rightarrow> (TransactionReceiptStatus \<times> receiptLog list) option" where
  "decodeReceipt encoded =
     (if length encoded = 0 then None
      else
        let payload = (if encoded ! 0 > 0 \<and> encoded ! 0 < 0x80 then drop 1 encoded else encoded)
        in case decodeRLP payload of
             None \<Rightarrow> None
           | Some (value, consumed) \<Rightarrow>
               (if consumed \<noteq> length payload \<or> \<not> rlp_isList value \<or> length (rlp_list value) \<noteq> 4 then None
                else
                  let statusField = rlp_list value ! 0; cumulativeGasUsed = rlp_list value ! 1;
                      bloom = rlp_list value ! 2; logsField = rlp_list value ! 3
                  in if rlp_isList statusField \<or> rlp_isList cumulativeGasUsed \<or>
                        rlpUint64 (rlp_payload cumulativeGasUsed) = None \<or> rlp_isList bloom \<or>
                        length (rlp_payload bloom) \<noteq> 256
                     then None
                     else case (if length (rlp_payload statusField) = 0 then Some TransactionReverted
                                else if length (rlp_payload statusField) = 1 \<and> rlp_payload statusField ! 0 = 1
                                then Some TransactionSucceeded else None) of
                            None \<Rightarrow> None
                          | Some status \<Rightarrow>
                              (if \<not> rlp_isList logsField \<or> length (rlp_list logsField) > maxReceiptLogs then None
                               else if status = TransactionReverted \<and> length (rlp_list logsField) \<noteq> 0 then None
                               else map_option (Pair status) (decode_logs (rlp_list logsField)))))"

end
