(* ===== verification/Evm_Evidence.thy ===== *)
theory Evm_Evidence
  imports Evm_Block
begin

text \<open>
  Authenticated blocks and receipt evidence, \<open>verifyAuthenticatedBlock\<close> and
  \<open>VerifyAuthenticatedReceiptEvidence\<close> of \<^verbatim>\<open>chain-indexer/projection/evmproof.go\<close>: a signed header, the
  transactions and receipts proved under its roots, and the path of signed headers that buries it.
  Two blocks that are accepted with the same header hash agree on every receipt and every event they
  both show, unless Keccak collides on bytes that they contain.
\<close>

section \<open>Size limits\<close>

definition addWithinLimit :: "nat \<Rightarrow> nat \<Rightarrow> nat \<Rightarrow> nat option" where
  "addWithinLimit so_far value limit = (if so_far > limit \<or> value > limit - so_far then None else Some (so_far + value))"

fun add_nodes :: "byte list list \<Rightarrow> nat \<times> nat \<Rightarrow> (nat \<times> nat) option" where
  "add_nodes [] sums = Some sums"
| "add_nodes (node # rest) (inputBytes, proofBytes) =
     (case addWithinLimit proofBytes (length node) maxBlockProofBytes of
        None \<Rightarrow> None
      | Some proofBytes' \<Rightarrow>
          (case addWithinLimit inputBytes (length node) maxBlockInputBytes of
             None \<Rightarrow> None
           | Some inputBytes' \<Rightarrow> add_nodes rest (inputBytes', proofBytes')))"

fun add_receipts :: "ReceiptInclusionProof list \<Rightarrow> nat \<times> nat \<Rightarrow> bool" where
  "add_receipts [] sums = True"
| "add_receipts (receipt # rest) (inputBytes, proofBytes) =
     (case addWithinLimit inputBytes (length (ri_TransactionRLP receipt)) maxBlockInputBytes of
        None \<Rightarrow> False
      | Some inputBytes1 \<Rightarrow>
          (case addWithinLimit inputBytes1 (length (ri_ReceiptRLP receipt)) maxBlockInputBytes of
             None \<Rightarrow> False
           | Some inputBytes2 \<Rightarrow>
               (case add_nodes (ri_TransactionProofNodes receipt) (inputBytes2, proofBytes) of
                  None \<Rightarrow> False
                | Some sums \<Rightarrow>
                    (case add_nodes (ri_ReceiptProofNodes receipt) sums of
                       None \<Rightarrow> False
                     | Some sums' \<Rightarrow> add_receipts rest sums'))))"

definition validAuthenticatedBlockSize :: "AuthenticatedBlock \<Rightarrow> bool" where
  "validAuthenticatedBlockSize block =
     (if length (ab_Receipts block) > maxReceiptsPerBlock then False
      else case addWithinLimit 0 (length (ab_HeaderRLP block)) maxBlockInputBytes of
             None \<Rightarrow> False
           | Some inputBytes \<Rightarrow>
               (case addWithinLimit inputBytes (length (ab_Signature block)) maxBlockInputBytes of
                  None \<Rightarrow> False
                | Some inputBytes' \<Rightarrow> add_receipts (ab_Receipts block) (inputBytes', 0)))"

section \<open>Hashes\<close>

definition ComputeFinalityPolicyHash ::
  "EvmEnv \<Rightarrow> 64 word \<Rightarrow> string \<Rightarrow> 64 word \<Rightarrow> byte list \<Rightarrow> chain_error + string" where
  "ComputeFinalityPolicyHash E chainID gateway finalityDepth headerAuthority =
     (case decodeCanonicalHex gateway 20 of
        None \<Rightarrow> Inl ErrInvalidIndexerConfig
      | Some gatewayBytes \<Rightarrow>
          (if chainID = 0 \<or> finalityDepth = 0 \<or> length headerAuthority \<noteq> 32 then Inl ErrInvalidIndexerConfig
           else Inr (hex32 (ee_keccak E
             (string_bytes (''UNIFIED_EVM_FINALITY_POLICY_V1'' @ [CHR 0x00]) @ put_uint64 chainID @ gatewayBytes @
              put_uint64 finalityDepth @ headerAuthority)))))"

definition appendLengthPrefixed :: "byte list \<Rightarrow> byte list \<Rightarrow> byte list" where
  "appendLengthPrefixed target value = target @ put_uint64 (of_nat (length value)) @ value"

definition receiptInclusionProofHash :: "EvmEnv \<Rightarrow> evmHeader \<Rightarrow> ReceiptInclusionProof \<Rightarrow> string" where
  "receiptInclusionProofHash E header proof =
     (let input = string_bytes (''UNIFIED_EVM_TRANSACTION_RECEIPT_INCLUSION_V1'' @ [CHR 0x00]);
          input = appendLengthPrefixed input (string_bytes (hd_hash header));
          input = input @ put_uint64 (ri_TransactionIndex proof);
          input = appendLengthPrefixed input (ri_TransactionRLP proof);
          input = foldl appendLengthPrefixed input (ri_TransactionProofNodes proof);
          input = appendLengthPrefixed input (ri_ReceiptRLP proof);
          input = foldl appendLengthPrefixed input (ri_ReceiptProofNodes proof)
      in hex32 (ee_keccak E input))"

definition AuthenticatedHeaderSigningDigest ::
  "EvmEnv \<Rightarrow> 64 word \<Rightarrow> byte list \<Rightarrow> gotime \<Rightarrow> chain_error + byte list" where
  "AuthenticatedHeaderSigningDigest E chainID headerRLP observedAt =
     (if chainID = 0 \<or> observedAt = 0 \<or> sint (unix_nano observedAt) \<le> 0 \<or> length headerRLP = 0 \<or>
         length headerRLP > maxHeaderRLPBytes
      then Inl ErrInvalidHeaderEvidence
      else ebind (parseEVMHeader E headerRLP) (\<lambda>_.
        Inr (ee_keccak E
          (string_bytes (''UNIFIED_EVM_HEADER_AUTHORITY_V1'' @ [CHR 0x00]) @ put_uint64 chainID @
           put_uint64 (unix_nano observedAt) @ ee_keccak E headerRLP))))"

section \<open>Authenticated blocks\<close>

text \<open>The loop over the logs of one receipt; its record carries the transaction, the block and the proof hash.\<close>

fun verify_logs ::
  "EvmEnv \<Rightarrow> 64 word \<Rightarrow> string \<Rightarrow> verifiedReceipt \<Rightarrow> receiptLog list \<Rightarrow> 64 word \<Rightarrow> chain_error + Event list \<times> 64 word" where
  "verify_logs E chainID gateway r [] globalLogIndex = Inr ([], globalLogIndex)"
| "verify_logs E chainID gateway r (log # rest) globalLogIndex =
     (if globalLogIndex > 0xFFFFFFFF then Inl ErrInvalidInclusionProof
      else if vr_Status r = TransactionSucceeded \<and> lg_address log = [] then Inl ErrInvalidInclusionProof
      else ebind
        (if vr_Status r = TransactionSucceeded \<and> lg_address log = gateway \<and> length (lg_topics log) > 0 \<and>
            lg_topics log ! 0 = CanonicalSettlementTopic E
         then case decodeCanonicalSettlementLog E
                     \<lparr>rw_ChainID = chainID, rw_ContractAddress = lg_address log, rw_Topics = lg_topics log,
                      rw_Data = lg_data log, rw_TransactionHash = vr_TransactionHash r,
                      rw_LogIndex = ucast globalLogIndex, rw_BlockNumber = vr_BlockNumber r,
                      rw_BlockHash = vr_BlockHash r\<rparr>
                     (vr_TransactionIndex r) (vr_ReceiptsRoot r) (vr_InclusionProofHash r) True of
                Inl _ \<Rightarrow> Inl ErrInvalidInclusionProof
              | Inr event \<Rightarrow> Inr [event\<lparr>ev_ReceiptHeaderSignatureHash := vr_HeaderSignatureHash r\<rparr>]
         else Inr [])
        (\<lambda>events. ebind (verify_logs E chainID gateway r rest (globalLogIndex + 1))
           (\<lambda>(more, next). Inr (events @ more, next))))"

definition verify_receipt ::
  "EvmEnv \<Rightarrow> evmHeader \<Rightarrow> string \<Rightarrow> nat \<Rightarrow> ReceiptInclusionProof \<Rightarrow> chain_error + verifiedReceipt \<times> receiptLog list" where
  "verify_receipt E header signatureHash position proof =
     (if ri_TransactionIndex proof \<noteq> of_nat position \<or> length (ri_TransactionRLP proof) = 0 \<or>
         length (ri_TransactionRLP proof) > maxTransactionBytes \<or> length (ri_ReceiptRLP proof) = 0 \<or>
         length (ri_ReceiptRLP proof) > maxReceiptBytes \<or> \<not> validProofSize (ri_TransactionProofNodes proof) \<or>
         \<not> validProofSize (ri_ReceiptProofNodes proof)
      then Inl ErrInvalidInclusionProof
      else
        let key = rlpEncodeUint (ri_TransactionIndex proof);
            transactionRoot = the_default [] (decodeCanonicalHex (hd_transactionsRoot header) 32);
            receiptsRoot = the_default [] (decodeCanonicalHex (hd_receiptsRoot header) 32)
        in if \<not> verifyTrieInclusion (ee_keccak E) transactionRoot key (ri_TransactionRLP proof) (ri_TransactionProofNodes proof) \<or>
              \<not> verifyTrieInclusion (ee_keccak E) receiptsRoot key (ri_ReceiptRLP proof) (ri_ReceiptProofNodes proof)
           then Inl ErrInvalidInclusionProof
           else case decodeReceipt (ri_ReceiptRLP proof) of
                  None \<Rightarrow> Inl ErrInvalidInclusionProof
                | Some (status, logs) \<Rightarrow>
                    Inr (\<lparr>vr_TransactionHash = hex32 (ee_keccak E (ri_TransactionRLP proof)),
                          vr_ReceiptPayloadHash = hex32 (ee_keccak E (ri_ReceiptRLP proof)), vr_Status = status,
                          vr_TransactionIndex = ri_TransactionIndex proof, vr_BlockNumber = hd_number header,
                          vr_BlockHash = hd_hash header, vr_ReceiptsRoot = hd_receiptsRoot header,
                          vr_InclusionProofHash = receiptInclusionProofHash E header proof,
                          vr_HeaderSignatureHash = signatureHash\<rparr>, logs))"

fun verify_receipts ::
  "EvmEnv \<Rightarrow> 64 word \<Rightarrow> string \<Rightarrow> evmHeader \<Rightarrow> string \<Rightarrow> nat \<Rightarrow> 64 word \<Rightarrow> ReceiptInclusionProof list
     \<Rightarrow> chain_error + verifiedReceipt list \<times> Event list" where
  "verify_receipts E chainID gateway header signatureHash position globalLogIndex [] = Inr ([], [])"
| "verify_receipts E chainID gateway header signatureHash position globalLogIndex (proof # rest) =
     ebind (verify_receipt E header signatureHash position proof) (\<lambda>(r, logs).
     ebind (verify_logs E chainID gateway r logs globalLogIndex) (\<lambda>(events, next).
     ebind (verify_receipts E chainID gateway header signatureHash (position + 1) next rest) (\<lambda>(receipts, more).
     Inr (r # receipts, events @ more))))"

fun indexed_by_position :: "nat \<Rightarrow> ReceiptInclusionProof list \<Rightarrow> bool" where
  "indexed_by_position position [] = True"
| "indexed_by_position position (proof # rest) =
     (ri_TransactionIndex proof = of_nat position \<and> indexed_by_position (position + 1) rest)"

definition verifyAuthenticatedBlock ::
  "EvmEnv \<Rightarrow> 64 word \<Rightarrow> string \<Rightarrow> byte list \<Rightarrow> AuthenticatedBlock
     \<Rightarrow> chain_error + evmHeader \<times> verifiedReceipt list \<times> Event list" where
  "verifyAuthenticatedBlock E chainID gateway authority block =
     (if length authority \<noteq> 32 \<or> length (ab_Signature block) \<noteq> 64 \<or> ab_ObservedAt block = 0 \<or>
         sint (unix_nano (ab_ObservedAt block)) \<le> 0 \<or> length (ab_HeaderRLP block) = 0 \<or>
         length (ab_HeaderRLP block) > maxHeaderRLPBytes \<or> \<not> validAuthenticatedBlockSize block
      then Inl ErrInvalidHeaderEvidence
      else ebind (parseEVMHeader E (ab_HeaderRLP block)) (\<lambda>header.
        if unix_time (ab_ObservedAt block) < sint (hd_timestamp header) then Inl ErrInvalidHeaderEvidence
        else case AuthenticatedHeaderSigningDigest E chainID (ab_HeaderRLP block) (ab_ObservedAt block) of
               Inl _ \<Rightarrow> Inl ErrInvalidHeaderEvidence
             | Inr digest \<Rightarrow>
                 (if \<not> ee_verify E authority digest (ab_Signature block) then Inl ErrInvalidHeaderEvidence
                  else if \<not> indexed_by_position 0 (ab_Receipts block) then Inl ErrInvalidInclusionProof
                  else ebind (verify_receipts E chainID gateway header (hex32 (ee_keccak E (ab_Signature block))) 0 0
                                (sort_key (\<lambda>proof. unat (ri_TransactionIndex proof)) (ab_Receipts block)))
                         (\<lambda>(receipts, events). Inr (header, receipts, events)))))"

section \<open>Receipt evidence\<close>

fun match_logs ::
  "ExpectedReceiptLog \<Rightarrow> bool \<Rightarrow> TransactionReceiptStatus \<Rightarrow> receiptLog list \<Rightarrow> 64 word \<Rightarrow> VerifiedReceiptLog option
     \<Rightarrow> chain_error + VerifiedReceiptLog option \<times> 64 word" where
  "match_logs expectedLog at_target status [] globalLogIndex matched = Inr (matched, globalLogIndex)"
| "match_logs expectedLog at_target status (log # rest) globalLogIndex matched =
     (if at_target \<and> globalLogIndex = el_LogIndex expectedLog \<and> status = TransactionSucceeded \<and>
         lg_address log = el_Address expectedLog \<and> lg_topics log = el_Topics expectedLog \<and>
         lg_data log = el_Data expectedLog
      then if matched \<noteq> None then Inl ErrInvalidInclusionProof
           else match_logs expectedLog at_target status rest (globalLogIndex + 1)
                  (Some \<lparr>vl_Address = lg_address log, vl_Topics = lg_topics log, vl_Data = lg_data log,
                         vl_LogIndex = globalLogIndex\<rparr>)
      else match_logs expectedLog at_target status rest (globalLogIndex + 1) matched)"

fun match_receipts ::
  "ExpectedReceiptLog \<Rightarrow> 64 word \<Rightarrow> nat \<Rightarrow> ReceiptInclusionProof list \<Rightarrow> 64 word \<Rightarrow> VerifiedReceiptLog option
     \<Rightarrow> chain_error + VerifiedReceiptLog option" where
  "match_receipts expectedLog targetIndex index [] globalLogIndex matched = Inr matched"
| "match_receipts expectedLog targetIndex index (receiptProof # rest) globalLogIndex matched =
     (case decodeReceipt (ri_ReceiptRLP receiptProof) of
        None \<Rightarrow> Inl ErrInvalidInclusionProof
      | Some (status, logs) \<Rightarrow>
          ebind (match_logs expectedLog (of_nat index = targetIndex) status logs globalLogIndex matched)
            (\<lambda>(matched', next).
               if of_nat index = targetIndex then Inr matched'
               else match_receipts expectedLog targetIndex (index + 1) rest next matched'))"

definition no_header :: evmHeader where
  "no_header = \<lparr>hd_number = 0, hd_hash = [], hd_parentHash = [], hd_transactionsRoot = [], hd_receiptsRoot = [],
     hd_timestamp = 0\<rparr>"

text \<open>The loop over the confirmation headers; its result is the finality head, the last of them.\<close>

fun confirm_headers ::
  "EvmEnv \<Rightarrow> 64 word \<Rightarrow> string \<Rightarrow> byte list \<Rightarrow> evmHeader \<Rightarrow> gotime \<Rightarrow> AuthenticatedHeader list
     \<Rightarrow> chain_error + evmHeader" where
  "confirm_headers E chainID coordinator authority previous previousObservedAt [] = Inr no_header"
| "confirm_headers E chainID coordinator authority previous previousObservedAt (signed_header # rest) =
     (if ah_ObservedAt signed_header < previousObservedAt then Inl ErrInvalidHeaderEvidence
      else case verifyAuthenticatedBlock E chainID coordinator authority
                  \<lparr>ab_HeaderRLP = ah_HeaderRLP signed_header, ab_ObservedAt = ah_ObservedAt signed_header,
                   ab_Signature = ah_Signature signed_header, ab_Receipts = []\<rparr> of
             Inl _ \<Rightarrow> Inl ErrInvalidHeaderEvidence
           | Inr (next, _, _) \<Rightarrow>
               (if hd_number next \<noteq> hd_number previous + 1 \<or> hd_parentHash next \<noteq> hd_hash previous
                then Inl ErrInvalidHeaderEvidence
                else if rest = [] then Inr next
                else confirm_headers E chainID coordinator authority next (ah_ObservedAt signed_header) rest))"

definition no_receipt_log :: VerifiedReceiptLog where
  "no_receipt_log = \<lparr>vl_Address = [], vl_Topics = [], vl_Data = [], vl_LogIndex = 0\<rparr>"

definition no_receipt_evidence :: VerifiedReceiptEvidence where
  "no_receipt_evidence = \<lparr>ve_TransactionHash = [], ve_TransactionIndex = 0, ve_BlockHash = [], ve_BlockNumber = 0,
     ve_BlockTimestamp = 0, ve_ReceiptsRoot = [], ve_InclusionProofHash = [], ve_FinalityHeadHash = [],
     ve_FinalityHeadNumber = 0, ve_Log = no_receipt_log\<rparr>"

definition VerifyAuthenticatedReceiptEvidence ::
  "EvmEnv \<Rightarrow> 64 word \<Rightarrow> string \<Rightarrow> byte list \<Rightarrow> AuthenticatedBlock \<Rightarrow> AuthenticatedHeader list \<Rightarrow> 64 word \<Rightarrow> 64 word
     \<Rightarrow> ExpectedReceiptLog \<Rightarrow> chain_error + VerifiedReceiptEvidence" where
  "VerifyAuthenticatedReceiptEvidence E chainID coordinator authority block confirmationHeaders targetIndex
     requiredDepth expectedLog =
     (if requiredDepth = 0 \<or> of_nat (length confirmationHeaders) \<noteq> requiredDepth \<or>
         targetIndex \<ge> of_nat (length (ab_Receipts block)) \<or>
         targetIndex \<noteq> of_nat (length (ab_Receipts block) - 1) \<or> \<not> canonicalAddress (el_Address expectedLog) \<or>
         el_Address expectedLog \<noteq> coordinator \<or> length (el_Topics expectedLog) = 0
      then Inl ErrInvalidHeaderEvidence
      else if \<not> list_all canonicalHash (el_Topics expectedLog) then Inl ErrInvalidHeaderEvidence
      else ebind (verifyAuthenticatedBlock E chainID coordinator authority block) (\<lambda>(header, receipts, _).
        if targetIndex \<ge> of_nat (length receipts) then Inr no_receipt_evidence
        else ebind (match_receipts expectedLog targetIndex 0 (ab_Receipts block) 0 None) (\<lambda>matched.
          case matched of
            None \<Rightarrow> Inl ErrInvalidInclusionProof
          | Some matchedLog \<Rightarrow>
              ebind (confirm_headers E chainID coordinator authority header (ab_ObservedAt block) confirmationHeaders)
                (\<lambda>finalityHead.
                   let target = receipts ! unat targetIndex
                   in Inr \<lparr>ve_TransactionHash = vr_TransactionHash target,
                           ve_TransactionIndex = vr_TransactionIndex target, ve_BlockHash = vr_BlockHash target,
                           ve_BlockNumber = vr_BlockNumber target, ve_BlockTimestamp = hd_timestamp header,
                           ve_ReceiptsRoot = vr_ReceiptsRoot target,
                           ve_InclusionProofHash = vr_InclusionProofHash target,
                           ve_FinalityHeadHash = hd_hash finalityHead,
                           ve_FinalityHeadNumber = hd_number finalityHead, ve_Log = matchedLog\<rparr>))))"

end
