(* ===== verification/Evm_Agreement.thy ===== *)
theory Evm_Agreement
  imports Evm_Evidence "HOL-Library.Sublist"
begin

text \<open>
  What authenticated blocks and receipt evidence determine. A signed header hash fixes the receipts,
  the events and the position of every log; the confirmation headers form a path that buries the
  receipt block by exactly the required depth.
\<close>

section \<open>Canonical hexadecimal text\<close>

lemma hex32_inject [simp]: "hex32 a = hex32 b \<longleftrightarrow> a = b"
  by (simp add: hex32_def)

lemma decodeCanonicalHex_Some: "decodeCanonicalHex value sz = Some bs \<longleftrightarrow> value = hex32 bs \<and> length bs = sz"
proof -
  have "decodeCanonicalHex value sz = decode_fixed_hex value sz"
    by (auto simp: decodeCanonicalHex_def canonicalHex_def decode_fixed_hex_def split: option.splits if_splits)
  then show ?thesis by (simp add: decode_fixed_hex_Some hex32_def)
qed

lemma decodeCanonicalHex_hex32: "length bs = sz \<Longrightarrow> decodeCanonicalHex (hex32 bs) sz = Some bs"
  by (simp add: decodeCanonicalHex_Some)

lemma canonicalHash_hex32: "length bs = 32 \<Longrightarrow> canonicalHash (hex32 bs)"
  by (simp add: canonicalHash_def canonicalHex_def decode_fixed_hex_Some hex32_def)

section \<open>Signatures do not change what is verified\<close>

definition sign_receipt :: "string \<Rightarrow> verifiedReceipt \<Rightarrow> verifiedReceipt" where
  "sign_receipt s r = r\<lparr>vr_HeaderSignatureHash := s\<rparr>"

definition sign_event :: "string \<Rightarrow> Event \<Rightarrow> Event" where
  "sign_event s e = e\<lparr>ev_ReceiptHeaderSignatureHash := s\<rparr>"

lemma sign_again [simp]:
  "sign_receipt s (sign_receipt s' r) = sign_receipt s r" "sign_event s (sign_event s' e) = sign_event s e"
  by (simp_all add: sign_receipt_def sign_event_def)

lemma verify_receipt_signed:
  "verify_receipt E h s' p proof = Inr (r, logs) \<Longrightarrow> verify_receipt E h s p proof = Inr (sign_receipt s r, logs)"
  by (auto simp: verify_receipt_def sign_receipt_def Let_def split: if_splits option.splits)

lemma verify_logs_signed:
  "verify_logs E c g r logs n = Inr (es, m) \<Longrightarrow>
     verify_logs E c g (sign_receipt s r) logs n = Inr (map (sign_event s) es, m)"
proof (induction logs arbitrary: n es)
  case (Cons log logs)
  have fields: "vr_Status (sign_receipt s r) = vr_Status r" "vr_TransactionHash (sign_receipt s r) = vr_TransactionHash r"
    "vr_BlockNumber (sign_receipt s r) = vr_BlockNumber r" "vr_BlockHash (sign_receipt s r) = vr_BlockHash r"
    "vr_TransactionIndex (sign_receipt s r) = vr_TransactionIndex r" "vr_ReceiptsRoot (sign_receipt s r) = vr_ReceiptsRoot r"
    "vr_InclusionProofHash (sign_receipt s r) = vr_InclusionProofHash r" "vr_HeaderSignatureHash (sign_receipt s r) = s"
    by (simp_all add: sign_receipt_def)
  from Cons show ?case
    by (auto simp: fields sign_event_def split: if_splits sum.splits)
qed auto

lemma verify_receipts_ConsE:
  assumes "verify_receipts E c g h s p n (a # proofs) = Inr (rs, es)"
  obtains r logs es1 m rs2 es2 where "verify_receipt E h s p a = Inr (r, logs)"
    "verify_logs E c g r logs n = Inr (es1, m)" "verify_receipts E c g h s (p + 1) m proofs = Inr (rs2, es2)"
    "rs = r # rs2" "es = es1 @ es2"
  using assms by (auto split: prod.splits)

lemma verify_receipts_ConsI:
  assumes "verify_receipt E h s p a = Inr (r, logs)" "verify_logs E c g r logs n = Inr (es1, m)"
    "verify_receipts E c g h s (p + 1) m proofs = Inr (rs2, es2)"
  shows "verify_receipts E c g h s p n (a # proofs) = Inr (r # rs2, es1 @ es2)"
  using assms by simp

lemma verify_receipts_signed:
  "verify_receipts E c g h s' p n proofs = Inr (rs, es) \<Longrightarrow>
     verify_receipts E c g h s p n proofs = Inr (map (sign_receipt s) rs, map (sign_event s) es)"
proof (induction proofs arbitrary: p n rs es)
  case (Cons a proofs)
  from Cons.prems obtain r logs es1 m rs2 es2 where "verify_receipt E h s' p a = Inr (r, logs)"
    "verify_logs E c g r logs n = Inr (es1, m)" "verify_receipts E c g h s' (p + 1) m proofs = Inr (rs2, es2)"
    and eqs: "rs = r # rs2" "es = es1 @ es2" by (rule verify_receipts_ConsE)
  with Cons.IH have "verify_receipts E c g h s p n (a # proofs) =
      Inr (sign_receipt s r # map (sign_receipt s) rs2, map (sign_event s) es1 @ map (sign_event s) es2)"
    by (intro verify_receipts_ConsI verify_receipt_signed verify_logs_signed)
  then show ?case by (simp add: eqs del: verify_receipts.simps)
qed simp

lemma verify_receipts_prefix:
  "verify_receipts E c g h s p n (proofs @ later) = Inr (rs, es) \<Longrightarrow>
     \<exists>rs' es'. verify_receipts E c g h s p n proofs = Inr (rs', es') \<and> prefix rs' rs \<and> prefix es' es"
proof (induction proofs arbitrary: p n rs es)
  case (Cons a proofs)
  from Cons.prems obtain r logs es1 m rs2 es2 where r: "verify_receipt E h s p a = Inr (r, logs)"
    "verify_logs E c g r logs n = Inr (es1, m)" "verify_receipts E c g h s (p + 1) m (proofs @ later) = Inr (rs2, es2)"
    and eqs: "rs = r # rs2" "es = es1 @ es2" unfolding append_Cons by (rule verify_receipts_ConsE)
  from Cons.IH[OF r(3)] obtain rs' es' where
    IH: "verify_receipts E c g h s (p + 1) m proofs = Inr (rs', es')" "prefix rs' rs2" "prefix es' es2" by blast
  from verify_receipts_ConsI[OF r(1,2) IH(1)] IH(2,3) show ?case unfolding eqs by auto
qed simp

section \<open>The header hash determines the receipts\<close>

definition proof_nodes :: "ReceiptInclusionProof \<Rightarrow> byte list list" where
  "proof_nodes proof = ri_TransactionProofNodes proof @ ri_ReceiptProofNodes proof"

definition block_bytes :: "AuthenticatedBlock \<Rightarrow> byte list list" where
  "block_bytes block = ab_HeaderRLP block # concat (map proof_nodes (ab_Receipts block))"

definition collision :: "EvmEnv \<Rightarrow> byte list list \<Rightarrow> byte list list \<Rightarrow> bool" where
  "collision E xs ys \<longleftrightarrow> (\<exists>x \<in> set xs. \<exists>y \<in> set ys. x \<noteq> y \<and> ee_keccak E x = ee_keccak E y)"

lemma collision_mono: "collision E xs ys \<Longrightarrow> set xs \<subseteq> set xs' \<Longrightarrow> set ys \<subseteq> set ys' \<Longrightarrow> collision E xs' ys'"
  by (auto simp: collision_def)

lemma collision_sym: "collision E xs ys \<Longrightarrow> collision E ys xs"
  unfolding collision_def by metis

lemma trie_binding:
  assumes "verifyTrieInclusion (ee_keccak E) root key v ns" "verifyTrieInclusion (ee_keccak E) root key w ms"
  shows "(v = w \<and> ns = ms) \<or> collision E ns ms"
  using trie_loop_binding[of "ee_keccak E" "bytesToNibbles key" v root 0 ns w ms] assms
  by (auto simp: verifyTrieInclusion_def node_collision_def collision_def split: if_splits)

lemma verify_receipt_binding:
  assumes "verify_receipt E h s p a = Inr x" "verify_receipt E h t p b = Inr y"
  shows "a = b \<or> collision E (proof_nodes a) (proof_nodes b)"
proof -
  let ?key = "rlpEncodeUint (of_nat p)"
  from assms obtain root root' where
    idx: "ri_TransactionIndex a = of_nat p" "ri_TransactionIndex b = of_nat p" and
    tx: "verifyTrieInclusion (ee_keccak E) root ?key (ri_TransactionRLP a) (ri_TransactionProofNodes a)"
      "verifyTrieInclusion (ee_keccak E) root ?key (ri_TransactionRLP b) (ri_TransactionProofNodes b)" and
    rc: "verifyTrieInclusion (ee_keccak E) root' ?key (ri_ReceiptRLP a) (ri_ReceiptProofNodes a)"
      "verifyTrieInclusion (ee_keccak E) root' ?key (ri_ReceiptRLP b) (ri_ReceiptProofNodes b)"
    by (auto simp: verify_receipt_def Let_def split: if_splits)
  show ?thesis
    using trie_binding[OF tx] trie_binding[OF rc] idx
      collision_mono[of E "ri_TransactionProofNodes a" "ri_TransactionProofNodes b" "proof_nodes a" "proof_nodes b"]
      collision_mono[of E "ri_ReceiptProofNodes a" "ri_ReceiptProofNodes b" "proof_nodes a" "proof_nodes b"]
    by (auto simp: proof_nodes_def)
qed

lemma verify_receipts_binding:
  assumes "verify_receipts E c g h s p n ps = Inr x" "verify_receipts E c' g' h t p m qs = Inr y" "length ps \<le> length qs"
  shows "prefix ps qs \<or> collision E (concat (map proof_nodes ps)) (concat (map proof_nodes qs))"
  using assms
proof (induction ps arbitrary: p n m x y qs)
  case (Cons a ps)
  then obtain b qs' where qs: "qs = b # qs'" by (cases qs) auto
  from Cons.prems obtain x1 y1 n' m' x2 y2 where a: "verify_receipt E h s p a = Inr x1" "verify_receipt E h t p b = Inr y1"
    and rest: "verify_receipts E c g h s (p + 1) n' ps = Inr x2" "verify_receipts E c' g' h t (p + 1) m' qs' = Inr y2"
    unfolding qs by (cases x; cases y) (auto elim!: verify_receipts_ConsE simp del: verify_receipts.simps)
  from Cons.IH[OF rest] Cons.prems(3) verify_receipt_binding[OF a] show ?case
    unfolding qs by (auto intro: collision_mono)
qed simp

section \<open>Accepted blocks\<close>

lemma indexed_by_position_sorted:
  "indexed_by_position k ps \<Longrightarrow> k + length ps < 2 ^ 64 \<Longrightarrow>
     sorted (map (\<lambda>p. unat (ri_TransactionIndex p)) ps) \<and> (\<forall>p \<in> set ps. k \<le> unat (ri_TransactionIndex p))"
proof (induction ps arbitrary: k)
  case (Cons p ps)
  then have "unat (of_nat k :: 64 word) = k" by (simp add: unat_of_nat)
  with Cons show ?case by fastforce
qed simp

lemma verifyAuthenticatedBlock_InrD:
  assumes "verifyAuthenticatedBlock E c g a b = Inr (h, rs, es)"
  shows "parseEVMHeader E (ab_HeaderRLP b) = Inr h" "length (ab_Receipts b) \<le> 4096"
    "verify_receipts E c g h (hex32 (ee_keccak E (ab_Signature b))) 0 0 (ab_Receipts b) = Inr (rs, es)"
    "\<exists>digest. AuthenticatedHeaderSigningDigest E c (ab_HeaderRLP b) (ab_ObservedAt b) = Inr digest \<and>
       ee_verify E a digest (ab_Signature b)"
proof -
  from assms show "length (ab_Receipts b) \<le> 4096" "parseEVMHeader E (ab_HeaderRLP b) = Inr h"
    by (auto simp: verifyAuthenticatedBlock_def validAuthenticatedBlockSize_def maxReceiptsPerBlock_def
        split: if_splits sum.splits)
  moreover from assms have "indexed_by_position 0 (ab_Receipts b)"
    by (auto simp: verifyAuthenticatedBlock_def split: if_splits sum.splits)
  ultimately have "sort_key (\<lambda>p. unat (ri_TransactionIndex p)) (ab_Receipts b) = ab_Receipts b"
    using indexed_by_position_sorted[of 0 "ab_Receipts b"] by (simp add: sort_key_id_if_sorted)
  with assms show "verify_receipts E c g h (hex32 (ee_keccak E (ab_Signature b))) 0 0 (ab_Receipts b) = Inr (rs, es)"
    by (auto simp: verifyAuthenticatedBlock_def split: if_splits sum.splits)
  from assms show "\<exists>digest. AuthenticatedHeaderSigningDigest E c (ab_HeaderRLP b) (ab_ObservedAt b) = Inr digest \<and>
       ee_verify E a digest (ab_Signature b)"
    by (auto simp: verifyAuthenticatedBlock_def split: if_splits sum.splits)
qed

lemma parseEVMHeader_InrD:
  assumes "parseEVMHeader E bs = Inr h"
  shows "hd_hash h = hex32 (ee_keccak E bs)" "hd_number h \<noteq> 0"
  using assms by (auto simp: parseEVMHeader_def Let_def split: if_splits option.splits)

lemma same_hash_same_block:
  assumes "verifyAuthenticatedBlock E c g a b = Inr (h, rs, es)" "verifyAuthenticatedBlock E c' g' a' b' = Inr (h', rs', es')"
    and "hd_hash h = hd_hash h'" "length (ab_Receipts b) \<le> length (ab_Receipts b')"
  shows "(h = h' \<and> prefix (ab_Receipts b) (ab_Receipts b')) \<or> collision E (block_bytes b) (block_bytes b')"
proof (cases "ab_HeaderRLP b = ab_HeaderRLP b'")
  case True
  then have "h = h'" using verifyAuthenticatedBlock_InrD(1)[OF assms(1)] verifyAuthenticatedBlock_InrD(1)[OF assms(2)] by simp
  have "prefix (ab_Receipts b) (ab_Receipts b') \<or>
      collision E (concat (map proof_nodes (ab_Receipts b))) (concat (map proof_nodes (ab_Receipts b')))"
    by (rule verify_receipts_binding[OF verifyAuthenticatedBlock_InrD(3)[OF assms(1)]
      verifyAuthenticatedBlock_InrD(3)[OF assms(2), folded \<open>h = h'\<close>] assms(4)])
  moreover have "set (concat (map proof_nodes (ab_Receipts x))) \<subseteq> set (block_bytes x)" for x
    unfolding block_bytes_def by (simp only: list.set) blast
  ultimately show ?thesis using collision_mono \<open>h = h'\<close> by metis
next
  case False
  moreover have "ee_keccak E (ab_HeaderRLP b) = ee_keccak E (ab_HeaderRLP b')"
    using assms(3) verifyAuthenticatedBlock_InrD(1)[OF assms(1)] verifyAuthenticatedBlock_InrD(1)[OF assms(2)]
    by (simp add: parseEVMHeader_InrD(1))
  ultimately show ?thesis by (auto simp: block_bytes_def collision_def)
qed

text \<open>
  C37: A header hash determines what a block shows. Let two authenticated blocks be accepted, possibly
  from different authorities and with different signatures, with headers of the same hash. Then the
  headers are equal, and the verified receipts and the settlement events of the one with fewer
  receipts are a prefix of those of the other, up to the signature hash they record, or Keccak-256
  collides on two byte strings that the blocks contain.
\<close>

theorem authenticated_blocks_agree:
  assumes "verifyAuthenticatedBlock E chainID gateway authority b = Inr (h, rs, es)"
    and "verifyAuthenticatedBlock E chainID gateway authority' b' = Inr (h', rs', es')"
    and "hd_hash h = hd_hash h'" "length (ab_Receipts b) \<le> length (ab_Receipts b')"
  shows "(h = h' \<and> prefix (map (sign_receipt []) rs) (map (sign_receipt []) rs') \<and>
            prefix (map (sign_event []) es) (map (sign_event []) es')) \<or>
         (\<exists>x \<in> set (block_bytes b). \<exists>y \<in> set (block_bytes b'). x \<noteq> y \<and> ee_keccak E x = ee_keccak E y)"
proof (cases "collision E (block_bytes b) (block_bytes b')")
  case False
  with same_hash_same_block[OF assms] obtain later where h: "h' = h" and later: "ab_Receipts b' = ab_Receipts b @ later"
    by (auto simp: prefix_def)
  from verifyAuthenticatedBlock_InrD(3)[OF assms(2)] obtain rs1 es1 where
    "verify_receipts E chainID gateway h (hex32 (ee_keccak E (ab_Signature b'))) 0 0 (ab_Receipts b) = Inr (rs1, es1)"
    and p: "prefix rs1 rs'" "prefix es1 es'"
    unfolding later h by (blast dest: verify_receipts_prefix)
  from verify_receipts_signed[OF this(1), of "[]"] verify_receipts_signed[OF verifyAuthenticatedBlock_InrD(3)[OF assms(1)], of "[]"]
  have "map (sign_receipt []) rs1 = map (sign_receipt []) rs" "map (sign_event []) es1 = map (sign_event []) es" by auto
  with p h show ?thesis by (metis map_mono_prefix)
qed (auto simp: collision_def)

section \<open>A block with one receipt\<close>

text \<open>
  A block with one transaction and one receipt with one log, under a hash that is constant and a
  signature check that accepts: enough to run every step of the verification.
\<close>

definition sample_env :: EvmEnv where
  "sample_env = \<lparr>ee_keccak = (\<lambda>_. replicate 32 0), ee_verify = (\<lambda>_ _ _. True)\<rparr>"

definition sample_header :: "byte \<Rightarrow> rlp" where
  "sample_header n = RList [RStr (replicate 32 0), RStr [], RStr [], RStr [], RStr (replicate 32 0),
     RStr (replicate 32 0), RStr [], RStr [], RStr [n], RStr [], RStr [], RStr [1]]"

definition sample_receipt :: rlp where
  "sample_receipt = RList [RStr [1], RStr [], RStr (replicate 256 0),
     RList [RList [RStr (replicate 20 1), RList [RStr (replicate 32 1)], RStr [5]]]]"

definition sample_node :: "byte list \<Rightarrow> byte list" where
  "sample_node v = rlp_encode (RList [RStr [0x20, 0x80], RStr v])"

definition sample_observed :: gotime where
  "sample_observed = 62135596802 * 1000000000"

definition sample_block :: AuthenticatedBlock where
  "sample_block = \<lparr>ab_HeaderRLP = rlp_encode (sample_header 1), ab_ObservedAt = sample_observed,
     ab_Signature = replicate 64 0,
     ab_Receipts = [\<lparr>ri_TransactionIndex = 0, ri_TransactionRLP = [1], ri_TransactionProofNodes = [sample_node [1]],
       ri_ReceiptRLP = rlp_encode sample_receipt, ri_ReceiptProofNodes = [sample_node (rlp_encode sample_receipt)]\<rparr>]\<rparr>"

lemma decodeRLP_encode: "rlp_fits 0 t \<Longrightarrow> decodeRLP (rlp_encode t) = Some (rlp_value t, length (rlp_encode t))"
  using decode_complete[of 0 t "[]"] by (simp add: decodeRLP_def)

lemma length_min_bytes_small: "n < 65536 \<Longrightarrow> length (min_bytes n) = (if n = 0 then 0 else if n < 256 then 1 else 2)"
  by (simp add: min_bytes.simps[of n] min_bytes.simps[of "n div 256"] less_mult_imp_div_less div_eq_0_iff)

lemmas sample_lengths = rlp_header_def length_min_bytes_small

lemma sample_receipt_length: "length (rlp_encode sample_receipt) = 324"
  by (simp add: sample_receipt_def sample_lengths)

lemma sample_receipt_decodes:
  "decodeReceipt (rlp_encode sample_receipt) =
     Some (TransactionSucceeded, [\<lparr>lg_address = hex32 (replicate 20 1), lg_topics = [hex32 (replicate 32 1)], lg_data = [5]\<rparr>])"
proof -
  have "rlp_fits 0 sample_receipt"
    by (simp add: sample_receipt_def sample_lengths maxRLPDepth_def maxRLPListItems_def)
  moreover have "rlp_encode sample_receipt ! 0 = 249" "rlp_encode sample_receipt \<noteq> []"
    by (simp_all add: sample_receipt_def sample_lengths)
  ultimately show ?thesis
    using decodeRLP_encode[of sample_receipt]
    by (simp add: decodeReceipt_def Let_def sample_receipt_def rlpUint64_def maxReceiptLogs_def maxLogTopics_def
        maxReceiptBytes_def hex32_def del: rlp_encode.simps)
qed

lemma sample_node_included:
  assumes "0 < length v" "length v < 1000"
  shows "verifyTrieInclusion (ee_keccak sample_env) (replicate 32 0) [0x80] v [sample_node v] \<and> validProofSize [sample_node v]"
proof -
  let ?t = "RList [RStr [0x20, 0x80], RStr v]"
  have "rlp_fits 0 ?t"
    using assms by (simp add: sample_lengths maxRLPDepth_def maxRLPListItems_def)
  then have "decodeRLP (sample_node v) = Some (rlp_value ?t, length (sample_node v))"
    unfolding sample_node_def by (rule decodeRLP_encode)
  moreover have "decodeCompactPath [0x20, 0x80] = Some ([8, 0], True)" "bytesToNibbles [0x80] = [8, 0]"
    by code_simp+
  ultimately have "trie_next (bytesToNibbles [0x80]) 0 (sample_node v) = Some (Inl v)"
    by (simp add: trie_next_def del: rlp_encode.simps)
  moreover have "0 < length (sample_node v)" "length (sample_node v) < 2000"
    using assms by (simp_all add: sample_node_def sample_lengths)
  ultimately show ?thesis
    by (simp add: verifyTrieInclusion_def trie_loop_next matchesTrieReference_def sample_env_def
        validProofSize_def maxProofNodes_def maxProofNodeBytes_def maxProofBytes_def del: trie_loop.simps(2))
qed

definition sample_evm_header :: "byte \<Rightarrow> evmHeader" where
  "sample_evm_header n = \<lparr>hd_number = ucast n, hd_hash = hex32 (replicate 32 0), hd_parentHash = hex32 (replicate 32 0),
     hd_transactionsRoot = hex32 (replicate 32 0), hd_receiptsRoot = hex32 (replicate 32 0), hd_timestamp = 1\<rparr>"

lemma sample_header_parses:
  assumes "0 < unat n" "unat n < 128"
  shows "parseEVMHeader sample_env (rlp_encode (sample_header n)) = Inr (sample_evm_header n)"
    "length (rlp_encode (sample_header n)) = 110"
proof -
  show len: "length (rlp_encode (sample_header n)) = 110"
    using assms by (simp add: sample_header_def sample_lengths)
  have "rlp_fits 0 (sample_header n)"
    using assms by (simp add: sample_header_def sample_lengths maxRLPDepth_def maxRLPListItems_def)
  moreover have "n \<noteq> 0" using assms by auto
  moreover have "unat (ucast n :: 64 word) = unat n"
    using assms(2) by (simp add: unsigned_ucast_eq take_bit_nat_eq_self)
  then have "(ucast n :: 64 word) \<noteq> 0" using assms(1) by auto
  moreover have "(word_of_int (uint n) :: 64 word) = ucast n" by (simp add: unsigned_of_int)
  ultimately show "parseEVMHeader sample_env (rlp_encode (sample_header n)) = Inr (sample_evm_header n)"
    using decodeRLP_encode[of "sample_header n"] len
    by (simp add: parseEVMHeader_def maxHeaderRLPBytes_def Let_def sample_header_def rlpUint64_def sample_env_def
        sample_evm_header_def del: rlp_encode.simps)
qed

definition sample_gateway :: string where
  "sample_gateway = hex32 (replicate 20 1)"

definition sample_verified :: verifiedReceipt where
  "sample_verified = \<lparr>vr_TransactionHash = hex32 (replicate 32 0), vr_ReceiptPayloadHash = hex32 (replicate 32 0),
     vr_Status = TransactionSucceeded, vr_TransactionIndex = 0, vr_BlockNumber = 1, vr_BlockHash = hex32 (replicate 32 0),
     vr_ReceiptsRoot = hex32 (replicate 32 0), vr_InclusionProofHash = hex32 (replicate 32 0),
     vr_HeaderSignatureHash = hex32 (replicate 32 0)\<rparr>"

lemma sample_observed_time: "sint (unix_nano sample_observed) = 2000000000" "unix_time sample_observed = 2"
  by (simp_all add: unix_nano_def unix_time_def sample_observed_def)

lemma sample_header_accepted:
  assumes "0 < unat n" "unat n < 128"
  shows "verifyAuthenticatedBlock sample_env 1 g (replicate 32 0) \<lparr>ab_HeaderRLP = rlp_encode (sample_header n),
     ab_ObservedAt = sample_observed, ab_Signature = replicate 64 0, ab_Receipts = rs\<rparr> =
     (if \<not> validAuthenticatedBlockSize \<lparr>ab_HeaderRLP = rlp_encode (sample_header n),
     ab_ObservedAt = sample_observed, ab_Signature = replicate 64 0, ab_Receipts = rs\<rparr> then Inl ErrInvalidHeaderEvidence
      else if \<not> indexed_by_position 0 rs then Inl ErrInvalidInclusionProof
      else ebind (verify_receipts sample_env 1 g (sample_evm_header n) (hex32 (replicate 32 0)) 0 0
          (sort_key (\<lambda>proof. unat (ri_TransactionIndex proof)) rs))
        (\<lambda>(receipts, events). Inr (sample_evm_header n, receipts, events)))"
proof -
  have "sample_observed \<noteq> 0" "rlp_encode (sample_header n) \<noteq> []"
    using sample_header_parses(2)[OF assms] by (auto simp: sample_observed_def)
  then show ?thesis
    using sample_header_parses[OF assms] sample_observed_time
    by (simp add: verifyAuthenticatedBlock_def AuthenticatedHeaderSigningDigest_def maxHeaderRLPBytes_def)
      (simp add: sample_env_def sample_evm_header_def)
qed

lemma sample_block_verified:
  "verifyAuthenticatedBlock sample_env 1 sample_gateway (replicate 32 0) sample_block =
     Inr (sample_evm_header 1, [sample_verified], [])"
proof -
  let ?rcpt = "rlp_encode sample_receipt"
  note len = sample_receipt_length sample_header_parses(2)[of 1]
  have "length (sample_node [1]) < 2000" "length (sample_node ?rcpt) < 2000"
    by (simp_all add: sample_node_def sample_lengths sample_receipt_length)
  then have sz: "validAuthenticatedBlockSize sample_block"
    using len by (simp add: validAuthenticatedBlockSize_def sample_block_def maxReceiptsPerBlock_def addWithinLimit_def
      maxBlockInputBytes_def maxBlockProofBytes_def) linarith
  have root: "decodeCanonicalHex (hex32 (replicate 32 0)) 32 = Some (replicate 32 0)"
    by (rule decodeCanonicalHex_hex32) simp
  have "?rcpt \<noteq> []" using len(1) by auto
  then have "verify_receipt sample_env (sample_evm_header 1) (hex32 (replicate 32 0)) 0 (hd (ab_Receipts sample_block)) =
      Inr (sample_verified, [\<lparr>lg_address = sample_gateway, lg_topics = [hex32 (replicate 32 1)], lg_data = [5]\<rparr>])"
    using sample_node_included[of "[1]"] sample_node_included[of ?rcpt] len root sample_receipt_decodes
    by (simp add: verify_receipt_def sample_block_def Let_def sample_evm_header_def maxTransactionBytes_def
        maxReceiptBytes_def rlpEncodeUint_def sample_verified_def receiptInclusionProofHash_def sample_gateway_def)
      (simp add: sample_env_def)
  moreover have "CanonicalSettlementTopic sample_env \<noteq> hex32 (replicate 32 1)"
    by (simp add: CanonicalSettlementTopic_def sample_env_def)
  ultimately show ?thesis
    using sample_header_accepted[of 1 sample_gateway "ab_Receipts sample_block"] sz
    by (simp add: sample_block_def sample_verified_def sample_gateway_def hex32_def)
qed

theorem authenticated_blocks_agree_witness:
  "(sample_evm_header 1 = sample_evm_header 1 \<and>
      prefix (map (sign_receipt []) [sample_verified]) (map (sign_receipt []) [sample_verified]) \<and>
      prefix (map (sign_event []) []) (map (sign_event []) [])) \<or>
   (\<exists>x \<in> set (block_bytes sample_block). \<exists>y \<in> set (block_bytes sample_block). x \<noteq> y \<and> ee_keccak sample_env x = ee_keccak sample_env y)"
  using authenticated_blocks_agree[OF sample_block_verified sample_block_verified refl order_refl] .

end
