(* ===== verification/Receipt_Evidence.thy ===== *)
theory Receipt_Evidence
  imports Evm_Agreement
begin

text \<open>
  Receipt evidence for other services, \<open>VerifyAuthenticatedReceiptEvidence\<close>: the log it returns is the log
  at its block-global index among the logs of the verified receipts, the block is buried by a path of
  signed headers, and two pieces of evidence for the same block hash and log index agree.
\<close>

section \<open>Logs of a block\<close>

definition receipt_logs :: "ReceiptInclusionProof \<Rightarrow> receiptLog list" where
  "receipt_logs proof = (case decodeReceipt (ri_ReceiptRLP proof) of None \<Rightarrow> [] | Some (_, logs) \<Rightarrow> logs)"

definition logs_of :: "ReceiptInclusionProof list \<Rightarrow> receiptLog list" where
  "logs_of proofs = concat (map receipt_logs proofs)"

lemma logs_of_simps [simp]:
  "logs_of [] = []" "logs_of (p # ps) = receipt_logs p @ logs_of ps" "logs_of (ps @ qs) = logs_of ps @ logs_of qs"
  by (simp_all add: logs_of_def)

lemma decode_logs_length: "decode_logs vs = Some logs \<Longrightarrow> length logs = length vs"
  by (induction vs arbitrary: logs) (auto simp: Let_def split: if_splits option.splits)

lemma decodeReceipt_logs:
  assumes "decodeReceipt bs = Some (st, logs)"
  shows "length logs \<le> 4096"
proof -
  from assms have "\<exists>vs. length vs \<le> maxReceiptLogs \<and> decode_logs vs = Some logs"
    unfolding decodeReceipt_def Let_def
    apply -
    apply (drule if_SomeD(3))
    apply (drule case_SomeD, elim exE conjE)
    apply (case_tac y, simp only: prod.case)
    apply (drule if_SomeD(3))
    apply (drule if_SomeD(3))
    apply (drule case_SomeD, elim exE conjE)
    apply (frule if_SomeD(1))
    apply (drule if_SomeD(3))
    apply (drule if_SomeD(3))
    apply (auto simp: not_less)
    done
  then show ?thesis by (auto simp: maxReceiptLogs_def dest: decode_logs_length)
qed

lemma length_receipt_logs: "length (receipt_logs p) \<le> 4096"
  by (auto simp: receipt_logs_def dest: decodeReceipt_logs split: option.split)

lemma length_logs_of: "length (logs_of ps) \<le> 4096 * length ps"
  by (induction ps) (auto intro: add_mono length_receipt_logs)

section \<open>Finding the expected log\<close>

text \<open>The log of the evidence, and what it has to look like in the receipt.\<close>

definition expected_log :: "ExpectedReceiptLog \<Rightarrow> VerifiedReceiptLog" where
  "expected_log x = \<lparr>vl_Address = el_Address x, vl_Topics = el_Topics x, vl_Data = el_Data x, vl_LogIndex = el_LogIndex x\<rparr>"

definition raw_log :: "VerifiedReceiptLog \<Rightarrow> receiptLog" where
  "raw_log l = \<lparr>lg_address = vl_Address l, lg_topics = vl_Topics l, lg_data = vl_Data l\<rparr>"

lemma match_logs_elsewhere: "match_logs x False st logs n m = Inr (m, n + of_nat (length logs))"
  by (induction logs arbitrary: n) (auto simp: algebra_simps)

lemma match_logs_target:
  "match_logs x True st logs n m = Inr (Some l, n') \<Longrightarrow>
     m = Some l \<or> (st = TransactionSucceeded \<and> l = expected_log x \<and>
       (\<exists>i < length logs. n + of_nat i = el_LogIndex x \<and> logs ! i = raw_log (expected_log x)))"
proof (induction logs arbitrary: n m)
  case (Cons log logs)
  show ?case
  proof (cases "n = el_LogIndex x \<and> st = TransactionSucceeded \<and> log = raw_log (expected_log x)")
    case True
    then have "m = None" "match_logs x True st logs (n + 1) (Some (expected_log x)) = Inr (Some l, n')"
      using Cons.prems by (auto simp: raw_log_def expected_log_def split: if_splits)
    from Cons.IH[OF this(2)] have "l = expected_log x" by auto
    moreover have "n + of_nat 0 = el_LogIndex x" "(log # logs) ! 0 = raw_log (expected_log x)" using True by simp_all
    ultimately show ?thesis using True by (intro disjI2 conjI exI[of _ 0]) auto
  next
    case False
    then have "match_logs x True st logs (n + 1) m = Inr (Some l, n')"
      using Cons.prems by (cases log) (auto simp: raw_log_def expected_log_def split: if_splits)
    from Cons.IH[OF this] consider "m = Some l"
      | i where "st = TransactionSucceeded" "l = expected_log x" "i < length logs" "n + 1 + of_nat i = el_LogIndex x"
          "logs ! i = raw_log (expected_log x)" by blast
    then show ?thesis
    proof cases
      case (2 i)
      then have "Suc i < length (log # logs)" "n + of_nat (Suc i) = el_LogIndex x" "(log # logs) ! Suc i = raw_log (expected_log x)"
        by (simp_all add: algebra_simps)
      with 2(1,2) show ?thesis by blast
    qed simp
  qed
qed auto

lemma of_nat64_inject: "k < 2 ^ 64 \<Longrightarrow> j < 2 ^ 64 \<Longrightarrow> (of_nat k :: 64 word) = of_nat j \<longleftrightarrow> k = j"
  by (simp add: word_of_nat_eq_iff take_bit_nat_eq_self)

lemma match_receipts_last:
  assumes "match_receipts x t k (ps @ [p]) n None = Inr (Some l)" "t = of_nat (k + length ps)" "k + length ps < 2 ^ 64"
  shows "\<exists>i < length (receipt_logs p). el_LogIndex x = n + of_nat (length (logs_of ps) + i) \<and>
    receipt_logs p ! i = raw_log (expected_log x) \<and> l = expected_log x"
  using assms
proof (induction ps arbitrary: k n)
  case Nil
  then obtain st logs where "decodeReceipt (ri_ReceiptRLP p) = Some (st, logs)" "\<exists>n'. match_logs x True st logs n None = Inr (Some l, n')"
    by (auto split: option.splits prod.splits)
  with match_logs_target show ?case by (fastforce simp: receipt_logs_def)
next
  case (Cons q ps)
  have "(of_nat k :: 64 word) \<noteq> t"
    using of_nat64_inject[of k "k + length (q # ps)"] Cons.prems(2,3) by (simp del: of_nat_add)
  with Cons.prems(1) obtain st logs where "decodeReceipt (ri_ReceiptRLP q) = Some (st, logs)"
    and r: "match_receipts x t (k + 1) (ps @ [p]) (n + of_nat (length logs)) None = Inr (Some l)"
    by (auto simp: match_logs_elsewhere split: option.splits)
  then have "logs = receipt_logs q" by (simp add: receipt_logs_def)
  with Cons.IH[OF r] Cons.prems(2,3) show ?case by (auto simp: algebra_simps)
qed

section \<open>The confirmation path\<close>

fun linked :: "evmHeader list \<Rightarrow> bool" where
  "linked (a # b # rest) \<longleftrightarrow> hd_number b = hd_number a + 1 \<and> hd_parentHash b = hd_hash a \<and> linked (b # rest)"
| "linked _ = True"

definition signed_header :: "EvmEnv \<Rightarrow> 64 word \<Rightarrow> byte list \<Rightarrow> AuthenticatedHeader \<Rightarrow> bool" where
  "signed_header E chainID authority s \<longleftrightarrow>
     (\<exists>digest. AuthenticatedHeaderSigningDigest E chainID (ah_HeaderRLP s) (ah_ObservedAt s) = Inr digest \<and>
        ee_verify E authority digest (ah_Signature s))"

lemma confirm_headers_path:
  "confirm_headers E c g a prev t hs = Inr f \<Longrightarrow> hs \<noteq> [] \<Longrightarrow>
     \<exists>gs. map (\<lambda>s. parseEVMHeader E (ah_HeaderRLP s)) hs = map Inr gs \<and> linked (prev # gs) \<and> f = last gs \<and>
       list_all (signed_header E c a) hs \<and> unat (hd_number f) = unat (hd_number prev) + length hs"
proof (induction hs arbitrary: prev t)
  case (Cons s hs)
  from Cons.prems(1) obtain h rs es where
    v: "verifyAuthenticatedBlock E c g a \<lparr>ab_HeaderRLP = ah_HeaderRLP s, ab_ObservedAt = ah_ObservedAt s,
      ab_Signature = ah_Signature s, ab_Receipts = []\<rparr> = Inr (h, rs, es)"
    and h: "hd_number h = hd_number prev + 1" "hd_parentHash h = hd_hash prev"
    and f: "if hs = [] then f = h else confirm_headers E c g a h (ah_ObservedAt s) hs = Inr f"
    by (auto split: if_splits sum.splits)
  note b = verifyAuthenticatedBlock_InrD[OF v, simplified]
  from b(4) have s: "signed_header E c a s" by (simp add: signed_header_def)
  have n: "unat (hd_number h) = unat (hd_number prev) + 1"
    using parseEVMHeader_InrD(2)[OF b(1)] h(1) unatSuc[of "hd_number prev"] by (simp add: add.commute)
  show ?case
  proof (cases "hs = []")
    case True
    with b(1) h f s n show ?thesis by (intro exI[of _ "[h]"]) auto
  next
    case False
    with Cons.IH[of h "ah_ObservedAt s"] f obtain gs where
      "map (\<lambda>s. parseEVMHeader E (ah_HeaderRLP s)) hs = map Inr gs" "linked (h # gs)" "f = last gs"
      "list_all (signed_header E c a) hs" "unat (hd_number f) = unat (hd_number h) + length hs" by auto
    with b(1) h s n False show ?thesis by (intro exI[of _ "h # gs"]) auto
  qed
qed simp

section \<open>What evidence shows\<close>

lemma verify_receipts_of_header:
  "verify_receipts E c g h s p n proofs = Inr (rs, es) \<Longrightarrow>
     length rs = length proofs \<and> (\<forall>r \<in> set rs. vr_BlockHash r = hd_hash h \<and> vr_BlockNumber r = hd_number h)"
proof (induction proofs arbitrary: p n rs es)
  case (Cons a proofs)
  from Cons.prems obtain r logs es1 m rs2 es2 where r: "verify_receipt E h s p a = Inr (r, logs)"
    "verify_receipts E c g h s (p + 1) m proofs = Inr (rs2, es2)" and eqs: "rs = r # rs2"
    by (rule verify_receipts_ConsE)
  from r(1) have "vr_BlockHash r = hd_hash h \<and> vr_BlockNumber r = hd_number h"
    by (auto simp: verify_receipt_def Let_def split: if_splits option.splits)
  with Cons.IH[OF r(2)] show ?case unfolding eqs by simp
qed simp

definition target_evidence :: "evmHeader \<Rightarrow> verifiedReceipt \<Rightarrow> ExpectedReceiptLog \<Rightarrow> VerifiedReceiptEvidence" where
  "target_evidence h r x = \<lparr>ve_TransactionHash = vr_TransactionHash r, ve_TransactionIndex = vr_TransactionIndex r,
     ve_BlockHash = hd_hash h, ve_BlockNumber = hd_number h, ve_BlockTimestamp = hd_timestamp h,
     ve_ReceiptsRoot = vr_ReceiptsRoot r, ve_InclusionProofHash = vr_InclusionProofHash r,
     ve_FinalityHeadHash = [], ve_FinalityHeadNumber = 0, ve_Log = expected_log x\<rparr>"

lemma target_evidence_signed: "sign_receipt s r = sign_receipt s r' \<Longrightarrow> target_evidence h r x = target_evidence h r' x"
  by (cases r; cases r') (simp add: target_evidence_def sign_receipt_def)

lemma receipt_evidence_InrE:
  assumes "VerifyAuthenticatedReceiptEvidence E c g a b hs t d x = Inr v"
  obtains h rs es ps p f i where "verifyAuthenticatedBlock E c g a b = Inr (h, rs, es)"
    "ab_Receipts b = ps @ [p]" "length rs = length (ab_Receipts b)" "hs \<noteq> []" "of_nat (length hs) = d"
    "confirm_headers E c g a h (ab_ObservedAt b) hs = Inr f" "i < length (receipt_logs p)"
    "unat (el_LogIndex x) = length (logs_of ps) + i" "receipt_logs p ! i = raw_log (expected_log x)"
    "v = (target_evidence h (last rs) x)\<lparr>ve_FinalityHeadHash := hd_hash f, ve_FinalityHeadNumber := hd_number f\<rparr>"
proof -
  from assms have guards: "d \<noteq> 0" "of_nat (length hs) = d" "t < of_nat (length (ab_Receipts b))"
    "t = of_nat (length (ab_Receipts b) - 1)"
    by (auto simp: VerifyAuthenticatedReceiptEvidence_def not_le split: if_splits)
  from assms obtain h rs es where v: "verifyAuthenticatedBlock E c g a b = Inr (h, rs, es)"
    by (auto simp: VerifyAuthenticatedReceiptEvidence_def split: if_splits)
  note block = verifyAuthenticatedBlock_InrD[OF v]
  from verify_receipts_of_header[OF block(3)] have rs: "length rs = length (ab_Receipts b)"
    "\<And>r. r \<in> set rs \<Longrightarrow> vr_BlockHash r = hd_hash h \<and> vr_BlockNumber r = hd_number h" by auto
  with assms guards v obtain l f where l: "match_receipts x t 0 (ab_Receipts b) 0 None = Inr (Some l)"
    and f: "confirm_headers E c g a h (ab_ObservedAt b) hs = Inr f"
    and res: "v = \<lparr>ve_TransactionHash = vr_TransactionHash (rs ! unat t), ve_TransactionIndex = vr_TransactionIndex (rs ! unat t),
          ve_BlockHash = vr_BlockHash (rs ! unat t), ve_BlockNumber = vr_BlockNumber (rs ! unat t), ve_BlockTimestamp = hd_timestamp h,
          ve_ReceiptsRoot = vr_ReceiptsRoot (rs ! unat t), ve_InclusionProofHash = vr_InclusionProofHash (rs ! unat t),
          ve_FinalityHeadHash = hd_hash f, ve_FinalityHeadNumber = hd_number f, ve_Log = l\<rparr>"
    by (auto simp: VerifyAuthenticatedReceiptEvidence_def Let_def split: if_splits option.splits)
  from guards(3) have "ab_Receipts b \<noteq> []" by auto
  then obtain ps p where ps: "ab_Receipts b = ps @ [p]" by (metis rev_exhaust)
  have small: "length ps \<le> 4096" using block(2) ps by simp
  have "unat t = length ps" using guards(4) small ps by (simp add: unat_of_nat)
  moreover from rs(1) ps have "rs \<noteq> []" "length rs = Suc (length ps)" by auto
  ultimately have target: "rs ! unat t = last rs" "last rs \<in> set rs" by (simp_all add: last_conv_nth)
  from match_receipts_last[OF l[unfolded ps]] guards(4) ps small obtain i where
    i: "i < length (receipt_logs p)" "el_LogIndex x = of_nat (length (logs_of ps) + i)"
      "receipt_logs p ! i = raw_log (expected_log x)" "l = expected_log x" by auto
  have "length (logs_of ps) + i < 2 ^ 64" using i(1) length_logs_of[of ps] length_receipt_logs[of p] small by simp
  then have "unat (el_LogIndex x) = length (logs_of ps) + i"
    unfolding i(2) by (simp add: unat_of_nat del: of_nat_add)
  moreover have "hs \<noteq> []" using guards(1,2) by auto
  ultimately show ?thesis using that[OF v ps rs(1) _ guards(2) f i(1) _ i(3)] res target rs(2)[OF target(2)] i(4)
    by (auto simp: target_evidence_def)
qed

lemma last_index_prefix:
  assumes "prefix xs ys" "xs = ps @ [p]" "ys = ps' @ [p']" "i < length (receipt_logs p)"
    "length (logs_of ps) + i = length (logs_of ps') + i'"
  shows "xs = ys"
proof (rule ccontr)
  assume "xs \<noteq> ys"
  with assms(1-3) have "prefix (ps @ [p]) ps'" by auto
  then obtain rest where "ps' = ps @ p # rest" by (auto simp: prefix_def)
  with assms(4,5) show False by simp
qed

lemma receipt_evidence_same:
  assumes v: "VerifyAuthenticatedReceiptEvidence E c g a b hs t d x = Inr v"
    and v': "VerifyAuthenticatedReceiptEvidence E c g a' b' hs' t' d' x' = Inr v'"
    and same: "ve_BlockHash v = ve_BlockHash v'" "vl_LogIndex (ve_Log v) = vl_LogIndex (ve_Log v')"
    and le: "length (ab_Receipts b) \<le> length (ab_Receipts b')"
  shows "v\<lparr>ve_FinalityHeadHash := [], ve_FinalityHeadNumber := 0\<rparr> = v'\<lparr>ve_FinalityHeadHash := [], ve_FinalityHeadNumber := 0\<rparr> \<or>
         collision E (block_bytes b) (block_bytes b')"
proof -
  obtain h rs es ps p f i where b: "verifyAuthenticatedBlock E c g a b = Inr (h, rs, es)" "ab_Receipts b = ps @ [p]"
      "length rs = length (ab_Receipts b)" "hs \<noteq> []" "of_nat (length hs) = d"
      "confirm_headers E c g a h (ab_ObservedAt b) hs = Inr f" "i < length (receipt_logs p)"
      "unat (el_LogIndex x) = length (logs_of ps) + i" "receipt_logs p ! i = raw_log (expected_log x)"
      "v = (target_evidence h (last rs) x)\<lparr>ve_FinalityHeadHash := hd_hash f, ve_FinalityHeadNumber := hd_number f\<rparr>"
    by (rule receipt_evidence_InrE[OF v])
  obtain h' rs' es' ps' p' f' i' where b': "verifyAuthenticatedBlock E c g a' b' = Inr (h', rs', es')" "ab_Receipts b' = ps' @ [p']"
      "length rs' = length (ab_Receipts b')" "hs' \<noteq> []" "of_nat (length hs') = d'"
      "confirm_headers E c g a' h' (ab_ObservedAt b') hs' = Inr f'" "i' < length (receipt_logs p')"
      "unat (el_LogIndex x') = length (logs_of ps') + i'" "receipt_logs p' ! i' = raw_log (expected_log x')"
      "v' = (target_evidence h' (last rs') x')\<lparr>ve_FinalityHeadHash := hd_hash f', ve_FinalityHeadNumber := hd_number f'\<rparr>"
    by (rule receipt_evidence_InrE[OF v'])
  have eq: "v\<lparr>ve_FinalityHeadHash := [], ve_FinalityHeadNumber := 0\<rparr> = target_evidence h (last rs) x"
      "v'\<lparr>ve_FinalityHeadHash := [], ve_FinalityHeadNumber := 0\<rparr> = target_evidence h' (last rs') x'"
    and "ve_BlockHash v = hd_hash h" "ve_Log v = expected_log x" "ve_BlockHash v' = hd_hash h'" "ve_Log v' = expected_log x'"
    unfolding b(10) b'(10) by (simp_all add: target_evidence_def)
  with same have hash: "hd_hash h = hd_hash h'" and index: "el_LogIndex x = el_LogIndex x'"
    by (simp_all add: expected_log_def)
  from same_hash_same_block[OF b(1) b'(1) hash le] consider
    (same) "h = h'" "prefix (ab_Receipts b) (ab_Receipts b')" | (collision) "collision E (block_bytes b) (block_bytes b')" by blast
  then show ?thesis
  proof cases
    case same
    have "ab_Receipts b = ab_Receipts b'"
      using last_index_prefix[OF same(2) b(2) b'(2) b(7), of i'] b(8) b'(8) index by simp
    then have "ps = ps'" "p = p'" using b(2) b'(2) by auto
    then have "raw_log (expected_log x) = raw_log (expected_log x')" using b(8,9) b'(8,9) index by simp
    then have logs: "expected_log x = expected_log x'" using index by (simp add: raw_log_def expected_log_def)
    from verify_receipts_signed[OF verifyAuthenticatedBlock_InrD(3)[OF b(1)], of "[]"]
      verify_receipts_signed[OF verifyAuthenticatedBlock_InrD(3)[OF b'(1)], of "[]"] same(1) \<open>ab_Receipts b = ab_Receipts b'\<close>
    have "map (sign_receipt []) rs = map (sign_receipt []) rs'" by simp
    moreover have "rs \<noteq> []" "rs' \<noteq> []" using b(2,3) b'(2,3) by auto
    ultimately have "sign_receipt [] (last rs) = sign_receipt [] (last rs')" by (metis last_map)
    from target_evidence_signed[OF this] logs same(1) show ?thesis unfolding eq by (simp add: target_evidence_def)
  qed simp
qed

text \<open>
  C38: Receipt evidence is exact and buried. Accepted evidence carries the expected log, and that log is
  the one at its block-global index among all logs of the receipts of the authenticated block. The
  confirmation headers are signed by the authority, parse, and form with the receipt header a chain of
  consecutive numbers and parent hashes that ends in the reported finality head. The head is exactly
  \<open>requiredDepth\<close> blocks above the receipt block, without wrap-around.
\<close>

theorem receipt_evidence_is_exact:
  assumes "VerifyAuthenticatedReceiptEvidence E chainID coordinator authority block headers targetIndex requiredDepth expected = Inr v"
  shows "ve_Log v = expected_log expected \<and>
    unat (el_LogIndex expected) < length (logs_of (ab_Receipts block)) \<and>
    logs_of (ab_Receipts block) ! unat (el_LogIndex expected) = raw_log (ve_Log v) \<and>
    unat (ve_FinalityHeadNumber v) = unat (ve_BlockNumber v) + length headers \<and> of_nat (length headers) = requiredDepth \<and>
    list_all (signed_header E chainID authority) headers \<and>
    (\<exists>h gs. parseEVMHeader E (ab_HeaderRLP block) = Inr h \<and>
       map (\<lambda>s. parseEVMHeader E (ah_HeaderRLP s)) headers = map Inr gs \<and> linked (h # gs) \<and>
       hd_hash h = ve_BlockHash v \<and> hd_hash (last gs) = ve_FinalityHeadHash v)"
proof -
  obtain h rs es ps p f i where b: "verifyAuthenticatedBlock E chainID coordinator authority block = Inr (h, rs, es)"
      "ab_Receipts block = ps @ [p]" "length rs = length (ab_Receipts block)" "headers \<noteq> []" "of_nat (length headers) = requiredDepth"
      "confirm_headers E chainID coordinator authority h (ab_ObservedAt block) headers = Inr f" "i < length (receipt_logs p)"
      "unat (el_LogIndex expected) = length (logs_of ps) + i" "receipt_logs p ! i = raw_log (expected_log expected)"
      "v = (target_evidence h (last rs) expected)\<lparr>ve_FinalityHeadHash := hd_hash f, ve_FinalityHeadNumber := hd_number f\<rparr>"
    by (rule receipt_evidence_InrE[OF assms])
  have eqs: "ve_Log v = expected_log expected" "ve_BlockHash v = hd_hash h" "ve_BlockNumber v = hd_number h"
      "ve_FinalityHeadHash v = hd_hash f" "ve_FinalityHeadNumber v = hd_number f"
    unfolding b(10) by (simp_all add: target_evidence_def)
  from confirm_headers_path[OF b(6,4)] obtain gs where
    "map (\<lambda>s. parseEVMHeader E (ah_HeaderRLP s)) headers = map Inr gs" "linked (h # gs)" "f = last gs"
    "list_all (signed_header E chainID authority) headers" "unat (hd_number f) = unat (hd_number h) + length headers" by blast
  moreover have "unat (el_LogIndex expected) < length (logs_of (ab_Receipts block))"
    "logs_of (ab_Receipts block) ! unat (el_LogIndex expected) = raw_log (ve_Log v)"
    using b(2,7-9) eqs(1) by (simp_all add: nth_append)
  ultimately show ?thesis using verifyAuthenticatedBlock_InrD(1)[OF b(1)] b(5) eqs by auto
qed

text \<open>
  C39: A block hash and a log index determine the evidence. Let two pieces of evidence be accepted for
  one chain and coordinator, under any authorities, signatures, depths and confirmation paths, with
  the same block hash and the same block-global log index. Then they show the same log, transaction,
  block number, timestamp, receipts root and inclusion proof hash, or Keccak-256 collides on two byte
  strings that the two blocks contain: no second receipt prefix can shift the index of a log.
\<close>

theorem receipt_evidence_is_unique:
  assumes v: "VerifyAuthenticatedReceiptEvidence E chainID coordinator a b hs t d x = Inr v"
    and v': "VerifyAuthenticatedReceiptEvidence E chainID coordinator a' b' hs' t' d' x' = Inr v'"
    and same: "ve_BlockHash v = ve_BlockHash v'" "vl_LogIndex (ve_Log v) = vl_LogIndex (ve_Log v')"
  shows "v\<lparr>ve_FinalityHeadHash := [], ve_FinalityHeadNumber := 0\<rparr> = v'\<lparr>ve_FinalityHeadHash := [], ve_FinalityHeadNumber := 0\<rparr> \<or>
         (\<exists>x \<in> set (block_bytes b). \<exists>y \<in> set (block_bytes b'). x \<noteq> y \<and> ee_keccak E x = ee_keccak E y)"
proof (cases "collision E (block_bytes b) (block_bytes b')")
  case False
  show ?thesis
  proof (cases "length (ab_Receipts b) \<le> length (ab_Receipts b')")
    case True
    from receipt_evidence_same[OF v v' same True] False show ?thesis by simp
  next
    case False
    then have "length (ab_Receipts b') \<le> length (ab_Receipts b)" by simp
    from receipt_evidence_same[OF v' v same[symmetric] this] \<open>\<not> collision E (block_bytes b) (block_bytes b')\<close>
    show ?thesis by (auto dest: collision_sym)
  qed
qed (auto simp: collision_def)

section \<open>Evidence for the sample block\<close>

definition sample_expected :: ExpectedReceiptLog where
  "sample_expected = \<lparr>el_Address = sample_gateway, el_Topics = [hex32 (replicate 32 1)], el_Data = [5], el_LogIndex = 0\<rparr>"

definition sample_confirmation :: "byte \<Rightarrow> AuthenticatedHeader" where
  "sample_confirmation n = \<lparr>ah_HeaderRLP = rlp_encode (sample_header n), ah_ObservedAt = sample_observed, ah_Signature = replicate 64 0\<rparr>"

definition sample_evidence :: "64 word \<Rightarrow> VerifiedReceiptEvidence" where
  "sample_evidence head = (target_evidence (sample_evm_header 1) sample_verified sample_expected)
     \<lparr>ve_FinalityHeadHash := hex32 (replicate 32 0), ve_FinalityHeadNumber := head\<rparr>"

lemma sample_confirmation_verified:
  assumes "0 < unat n" "unat n < 128"
  shows "verifyAuthenticatedBlock sample_env 1 sample_gateway (replicate 32 0) \<lparr>ab_HeaderRLP = rlp_encode (sample_header n),
      ab_ObservedAt = sample_observed, ab_Signature = replicate 64 0, ab_Receipts = []\<rparr> = Inr (sample_evm_header n, [], [])"
  using sample_header_accepted[OF assms, of sample_gateway "[]"] sample_header_parses(2)[OF assms]
  by (simp add: validAuthenticatedBlockSize_def maxReceiptsPerBlock_def addWithinLimit_def maxBlockInputBytes_def)

lemma sample_path_confirmed:
  "confirm_headers sample_env 1 sample_gateway (replicate 32 0) (sample_evm_header 1) sample_observed [sample_confirmation 2] =
     Inr (sample_evm_header 2)"
  "confirm_headers sample_env 1 sample_gateway (replicate 32 0) (sample_evm_header 1) sample_observed
     [sample_confirmation 2, sample_confirmation 3] = Inr (sample_evm_header 3)"
  using sample_confirmation_verified[of 2] sample_confirmation_verified[of 3]
  by (simp_all add: sample_confirmation_def sample_evm_header_def)

lemma sample_evidence_accepted:
  assumes "confirm_headers sample_env 1 sample_gateway (replicate 32 0) (sample_evm_header 1) sample_observed hs = Inr (sample_evm_header n)"
    and "of_nat (length hs) = d" "d \<noteq> 0"
  shows "VerifyAuthenticatedReceiptEvidence sample_env 1 sample_gateway (replicate 32 0) sample_block hs 0 d
     sample_expected = Inr (sample_evidence (ucast n))"
proof -
  have "canonicalAddress sample_gateway"
    by (simp add: canonicalAddress_def canonicalHex_def decode_fixed_hex_Some sample_gateway_def hex32_def)
  moreover have "canonicalHash (hex32 (replicate 32 1))" by (rule canonicalHash_hex32) simp
  moreover have "match_receipts sample_expected 0 0 (ab_Receipts sample_block) 0 None = Inr (Some (expected_log sample_expected))"
    by (simp add: sample_block_def sample_receipt_decodes sample_expected_def expected_log_def sample_gateway_def)
  moreover have "length (ab_Receipts sample_block) = 1" "ab_ObservedAt sample_block = sample_observed"
    by (simp_all add: sample_block_def)
  moreover have "el_Address sample_expected = sample_gateway" "el_Topics sample_expected = [hex32 (replicate 32 1)]"
    by (simp_all add: sample_expected_def)
  ultimately show ?thesis
    using sample_block_verified assms
    by (simp add: VerifyAuthenticatedReceiptEvidence_def)
      (simp add: sample_evidence_def target_evidence_def sample_verified_def sample_evm_header_def)
qed

lemma sample_evidence_short:
  "VerifyAuthenticatedReceiptEvidence sample_env 1 sample_gateway (replicate 32 0) sample_block [sample_confirmation 2] 0 1
     sample_expected = Inr (sample_evidence 2)"
  using sample_evidence_accepted[OF sample_path_confirmed(1), of 1] by simp

lemma sample_evidence_long:
  "VerifyAuthenticatedReceiptEvidence sample_env 1 sample_gateway (replicate 32 0) sample_block
     [sample_confirmation 2, sample_confirmation 3] 0 2 sample_expected = Inr (sample_evidence 3)"
  using sample_evidence_accepted[OF sample_path_confirmed(2), of 2] by simp

theorem receipt_evidence_is_exact_witness:
  "logs_of (ab_Receipts sample_block) ! 0 = raw_log (ve_Log (sample_evidence 3)) \<and>
   unat (ve_FinalityHeadNumber (sample_evidence 3)) = unat (ve_BlockNumber (sample_evidence 3)) + 2"
  using receipt_evidence_is_exact[OF sample_evidence_long] by (simp add: sample_expected_def)

theorem receipt_evidence_is_unique_witness:
  "(sample_evidence 2)\<lparr>ve_FinalityHeadHash := [], ve_FinalityHeadNumber := 0\<rparr> =
     (sample_evidence 3)\<lparr>ve_FinalityHeadHash := [], ve_FinalityHeadNumber := 0\<rparr> \<or>
   (\<exists>x \<in> set (block_bytes sample_block). \<exists>y \<in> set (block_bytes sample_block). x \<noteq> y \<and> ee_keccak sample_env x = ee_keccak sample_env y)"
  by (rule receipt_evidence_is_unique[OF sample_evidence_short sample_evidence_long]) (simp_all add: sample_evidence_def)

end
