(* ===== verification/Ledger.thy ===== *)
theory Ledger
  imports Big_Int Transition
begin

text \<open>
  The double-entry posting kernel, \<^verbatim>\<open>foundation-ledger/internal/ledger/ledger.go\<close>.

  State: the record \<open>Ledger\<close> with the three maps of the Go struct. Operations: \<open>validateAndHash\<close>,
  \<open>postValidated\<close>, \<open>Post\<close>, \<open>PostBatch\<close>, \<open>Get\<close>, \<open>List\<close> (\<open>ledger_List\<close>) and \<open>Reverse\<close>. Each writing
  operation returns its outcome and the new state; the mutex makes it one step.

  Two arguments stand for the environment. \<open>H\<close> is the content hash of a journal, the hexadecimal
  SHA-256 of its JSON encoding, with \<open>None\<close> where \<open>json.Marshal\<close> fails; every theorem holds for
  every \<open>H\<close>. \<open>now\<close> is the clock reading. \<open>copyJournal\<close>, \<open>clone\<close> and the two map clones protect
  shared slices from aliasing; on immutable values they are the identity.
\<close>

named_theorems ledger_defs \<comment> \<open>definitions of the ledger's operations\<close>

section \<open>Data\<close>

datatype Side = Debit | Credit | UnknownSide string

record Entry =
  e_AccountCode :: string
  e_Side :: Side
  e_AssetID :: string
  e_Units :: string
  e_PartyID :: string
  e_LoanID :: string
  e_TrancheID :: string

record Journal =
  j_ID :: string
  j_LegalEntityID :: string
  j_BookID :: string
  j_SourceSystem :: string
  j_EntryType :: string
  j_SourceEventID :: string
  j_LoanID :: string
  j_IdempotencyKey :: string
  j_CorrelationID :: string
  j_EffectiveAt :: gotime
  j_Entries :: "Entry list"
  j_EvidenceHash :: string
  j_ReversalOf :: string
  j_Reason :: string

record PostedJournal =
  p_Journal :: Journal
  p_ContentHash :: string
  p_PostedAt :: gotime

record Ledger =
  l_byID :: "(string, PostedJournal) gomap"
  l_idempotency :: "(string, string) gomap"
  l_reversals :: "(string, string) gomap"

datatype ledger_error =
    ErrInvalidJournal string
  | ErrUnbalancedJournal string
  | ErrIdempotencyConflict
  | ErrAlreadyReversed string
  | ErrUnknownJournal string

type_synonym journal_hash = "Journal \<Rightarrow> string option"

definition zero_journal :: Journal where
  "zero_journal = \<lparr>j_ID = [], j_LegalEntityID = [], j_BookID = [], j_SourceSystem = [],
     j_EntryType = [], j_SourceEventID = [], j_LoanID = [], j_IdempotencyKey = [],
     j_CorrelationID = [], j_EffectiveAt = 0, j_Entries = [], j_EvidenceHash = [],
     j_ReversalOf = [], j_Reason = []\<rparr>"

definition zero_posted :: PostedJournal where
  "zero_posted = \<lparr>p_Journal = zero_journal, p_ContentHash = [], p_PostedAt = 0\<rparr>"

definition ledger_New :: Ledger where
  "ledger_New = \<lparr>l_byID = [], l_idempotency = [], l_reversals = []\<rparr>"

section \<open>Validation\<close>

definition add_total :: "(string, int) gomap \<Rightarrow> string \<Rightarrow> int \<Rightarrow> (string, int) gomap" where
  "add_total totals assetID units =
     mput assetID ((case mget totals assetID of None \<Rightarrow> 0 | Some t \<Rightarrow> t) + units) totals"

fun tally ::
  "Entry list \<Rightarrow> (string, int) gomap \<Rightarrow> (string, int) gomap
     \<Rightarrow> ledger_error + (string, int) gomap \<times> (string, int) gomap" where
  "tally [] debits credits = Inr (debits, credits)"
| "tally (e # es) debits credits =
     (if e_AccountCode e = [] \<or> e_AssetID e = []
      then Inl (ErrInvalidJournal ''empty account or asset'')
      else case big_set_string (e_Units e) of
        None \<Rightarrow> Inl (ErrInvalidJournal ''units must be a positive integer'')
      | Some units \<Rightarrow>
          if units \<le> 0 then Inl (ErrInvalidJournal ''units must be a positive integer'')
          else case e_Side e of
            Debit \<Rightarrow> tally es (add_total debits (e_AssetID e) units) credits
          | Credit \<Rightarrow> tally es debits (add_total credits (e_AssetID e) units)
          | UnknownSide _ \<Rightarrow> Inl (ErrInvalidJournal ''invalid side''))"

fun debits_matched :: "(string, int) gomap \<Rightarrow> (string, int) gomap \<Rightarrow> ledger_error option" where
  "debits_matched [] credits = None"
| "debits_matched ((a, d) # ds) credits =
     (if mget credits a \<noteq> Some d then Some (ErrUnbalancedJournal a)
      else debits_matched ds credits)"

fun credits_matched :: "(string, int) gomap \<Rightarrow> (string, int) gomap \<Rightarrow> ledger_error option" where
  "credits_matched [] debits = None"
| "credits_matched ((a, c) # cs) debits =
     (if mget debits a = None then Some (ErrUnbalancedJournal a)
      else credits_matched cs debits)"

definition identity_complete :: "Journal \<Rightarrow> bool" where
  "identity_complete j \<longleftrightarrow>
     j_ID j \<noteq> [] \<and> j_LegalEntityID j \<noteq> [] \<and> j_BookID j \<noteq> [] \<and> j_SourceSystem j \<noteq> [] \<and>
     j_EntryType j \<noteq> [] \<and> j_SourceEventID j \<noteq> [] \<and> j_IdempotencyKey j \<noteq> [] \<and>
     j_CorrelationID j \<noteq> [] \<and> j_EvidenceHash j \<noteq> [] \<and> j_EffectiveAt j \<noteq> 0"

definition validateAndHash :: "journal_hash \<Rightarrow> Journal \<Rightarrow> ledger_error + string" where
  "validateAndHash H j =
     (if \<not> identity_complete j then Inl (ErrInvalidJournal ''required identity field is empty'')
      else if j_ReversalOf j = j_ID j
      then Inl (ErrInvalidJournal ''journal cannot reverse itself'')
      else if length (j_Entries j) < 2
      then Inl (ErrInvalidJournal ''at least two entries are required'')
      else case tally (j_Entries j) [] [] of
        Inl e \<Rightarrow> Inl e
      | Inr (debits, credits) \<Rightarrow>
          (case debits_matched debits credits of
             Some e \<Rightarrow> Inl e
           | None \<Rightarrow>
               (case credits_matched credits debits of
                  Some e \<Rightarrow> Inl e
                | None \<Rightarrow>
                    (case H j of
                       None \<Rightarrow> Inl (ErrInvalidJournal ''encoding'')
                     | Some h \<Rightarrow> Inr h))))"

section \<open>Posting\<close>

definition idempotency_scope :: "Journal \<Rightarrow> string" where
  "idempotency_scope j =
     j_LegalEntityID j @ [CHR 0x00] @ j_SourceSystem j @ [CHR 0x00] @ j_IdempotencyKey j"

definition postValidated ::
  "Journal \<Rightarrow> string \<Rightarrow> gotime \<Rightarrow> Ledger \<Rightarrow> (ledger_error + PostedJournal) \<times> Ledger" where
  "postValidated j contentHash postedAt l =
     (let scope = idempotency_scope j in
      case mget (l_idempotency l) scope of
        Some existingID \<Rightarrow>
          (let existing = (case mget (l_byID l) existingID of None \<Rightarrow> zero_posted | Some p \<Rightarrow> p) in
           if p_ContentHash existing \<noteq> contentHash then (Inl ErrIdempotencyConflict, l)
           else (Inr existing, l))
      | None \<Rightarrow>
          if mhas (l_byID l) (j_ID j) then (Inl (ErrInvalidJournal ''duplicate journal id''), l)
          else if j_ReversalOf j \<noteq> [] \<and> \<not> mhas (l_byID l) (j_ReversalOf j)
          then (Inl (ErrUnknownJournal (j_ReversalOf j)), l)
          else case (if j_ReversalOf j \<noteq> [] then mget (l_reversals l) (j_ReversalOf j) else None) of
            Some existingID \<Rightarrow> (Inl (ErrAlreadyReversed existingID), l)
          | None \<Rightarrow>
              (let posted = \<lparr>p_Journal = j, p_ContentHash = contentHash, p_PostedAt = postedAt\<rparr> in
               (Inr posted,
                l\<lparr>l_byID := mput (j_ID j) posted (l_byID l),
                  l_idempotency := mput scope (j_ID j) (l_idempotency l),
                  l_reversals :=
                    (if j_ReversalOf j \<noteq> [] then mput (j_ReversalOf j) (j_ID j) (l_reversals l)
                     else l_reversals l)\<rparr>)))"

definition Post ::
  "journal_hash \<Rightarrow> gotime \<Rightarrow> Ledger \<Rightarrow> Journal \<Rightarrow> (ledger_error + PostedJournal) \<times> Ledger" where
  "Post H now l j =
     (case validateAndHash H j of
        Inl e \<Rightarrow> (Inl e, l)
      | Inr contentHash \<Rightarrow> postValidated j contentHash now l)"

fun hash_all :: "journal_hash \<Rightarrow> Journal list \<Rightarrow> ledger_error + string list" where
  "hash_all H [] = Inr []"
| "hash_all H (j # js) =
     (case validateAndHash H j of
        Inl e \<Rightarrow> Inl e
      | Inr h \<Rightarrow> (case hash_all H js of Inl e \<Rightarrow> Inl e | Inr hs \<Rightarrow> Inr (h # hs)))"

fun post_all ::
  "(Journal \<times> string) list \<Rightarrow> gotime \<Rightarrow> Ledger \<Rightarrow> (ledger_error + PostedJournal list) \<times> Ledger" where
  "post_all [] postedAt l = (Inr [], l)"
| "post_all ((j, h) # rest) postedAt l =
     (case postValidated j h postedAt l of
        (Inl e, l') \<Rightarrow> (Inl e, l')
      | (Inr posted, l') \<Rightarrow>
          (case post_all rest postedAt l' of
             (Inl e, l'') \<Rightarrow> (Inl e, l'')
           | (Inr ps, l'') \<Rightarrow> (Inr (posted # ps), l'')))"

text \<open>The batch works on clones of the three maps and installs them only when every journal posted.\<close>

definition PostBatch ::
  "journal_hash \<Rightarrow> gotime \<Rightarrow> Ledger \<Rightarrow> Journal list \<Rightarrow> (ledger_error + PostedJournal list) \<times> Ledger" where
  "PostBatch H now l js =
     (if js = [] then (Inl (ErrInvalidJournal ''empty batch''), l)
      else case hash_all H js of
        Inl e \<Rightarrow> (Inl e, l)
      | Inr hs \<Rightarrow>
          (case post_all (zip js hs) now l of
             (Inl e, _) \<Rightarrow> (Inl e, l)
           | (Inr ps, l') \<Rightarrow> (Inr ps, l')))"

definition ledger_Get :: "Ledger \<Rightarrow> string \<Rightarrow> PostedJournal option" where
  "ledger_Get l journalID = mget (l_byID l) journalID"

definition ledger_List :: "Ledger \<Rightarrow> PostedJournal list" where
  "ledger_List l = map snd (l_byID l)"

fun flip_side :: "Side \<Rightarrow> Side" where
  "flip_side Debit = Credit"
| "flip_side Credit = Debit"
| "flip_side (UnknownSide s) = Debit"

definition flip_entry :: "Entry \<Rightarrow> Entry" where
  "flip_entry e = e\<lparr>e_Side := flip_side (e_Side e)\<rparr>"

definition reversal_journal ::
  "Journal \<Rightarrow> string \<Rightarrow> string \<Rightarrow> string \<Rightarrow> string \<Rightarrow> gotime \<Rightarrow> Journal" where
  "reversal_journal original reversalID idempotencyKey sourceEventID reason effectiveAt =
     \<lparr>j_ID = reversalID,
      j_LegalEntityID = j_LegalEntityID original,
      j_BookID = j_BookID original,
      j_SourceSystem = j_SourceSystem original,
      j_EntryType = ''REVERSAL'',
      j_SourceEventID = sourceEventID,
      j_LoanID = j_LoanID original,
      j_IdempotencyKey = idempotencyKey,
      j_CorrelationID = j_CorrelationID original,
      j_EffectiveAt = effectiveAt,
      j_Entries = map flip_entry (j_Entries original),
      j_EvidenceHash = j_EvidenceHash original,
      j_ReversalOf = j_ID original,
      j_Reason = reason\<rparr>"

definition Reverse ::
  "journal_hash \<Rightarrow> gotime \<Rightarrow> Ledger \<Rightarrow> string \<Rightarrow> string \<Rightarrow> string \<Rightarrow> string \<Rightarrow> string \<Rightarrow> gotime
     \<Rightarrow> (ledger_error + PostedJournal) \<times> Ledger" where
  "Reverse H now l originalID reversalID idempotencyKey sourceEventID reason effectiveAt =
     (case ledger_Get l originalID of
        None \<Rightarrow> (Inl (ErrUnknownJournal originalID), l)
      | Some original \<Rightarrow>
          Post H now l
            (reversal_journal (p_Journal original) reversalID idempotencyKey sourceEventID reason
               effectiveAt))"

lemmas [ledger_defs] = Post_def PostBatch_def Reverse_def postValidated_def ledger_Get_def
  ledger_List_def ledger_New_def

section \<open>What a valid journal is\<close>

definition entry_units :: "Entry \<Rightarrow> int" where
  "entry_units e = (case big_set_string (e_Units e) of Some u \<Rightarrow> u | None \<Rightarrow> 0)"

definition valid_entry :: "Entry \<Rightarrow> bool" where
  "valid_entry e \<longleftrightarrow>
     e_AccountCode e \<noteq> [] \<and> e_AssetID e \<noteq> [] \<and> 0 < entry_units e \<and>
     (e_Side e = Debit \<or> e_Side e = Credit)"

definition side_total :: "Side \<Rightarrow> string \<Rightarrow> Entry list \<Rightarrow> int" where
  "side_total sd a es =
     (\<Sum>e\<leftarrow>es. if e_Side e = sd \<and> e_AssetID e = a then entry_units e else 0)"

definition balanced :: "Entry list \<Rightarrow> bool" where
  "balanced es \<longleftrightarrow> (\<forall>a. side_total Debit a es = side_total Credit a es)"

definition valid_journal :: "Journal \<Rightarrow> bool" where
  "valid_journal j \<longleftrightarrow>
     identity_complete j \<and> j_ReversalOf j \<noteq> j_ID j \<and> 2 \<le> length (j_Entries j) \<and>
     (\<forall>e \<in> set (j_Entries j). valid_entry e) \<and> balanced (j_Entries j)"

lemma side_total_simps [simp]:
  "side_total sd a [] = 0"
  "side_total sd a (e # es) =
     (if e_Side e = sd \<and> e_AssetID e = a then entry_units e else 0) + side_total sd a es"
  "side_total sd a (es @ fs) = side_total sd a es + side_total sd a fs"
  by (simp_all add: side_total_def)

definition total_of :: "(string, int) gomap \<Rightarrow> string \<Rightarrow> int" where
  "total_of m a = (case mget m a of None \<Rightarrow> 0 | Some t \<Rightarrow> t)"

definition positive_totals :: "(string, int) gomap \<Rightarrow> bool" where
  "positive_totals m \<longleftrightarrow> mwf m \<and> (\<forall>a t. mget m a = Some t \<longrightarrow> 0 < t)"

lemma total_of_simps [simp]:
  "total_of [] a = 0"
  "total_of (add_total m b u) a = total_of m a + (if b = a then u else 0)"
  by (simp_all add: total_of_def add_total_def)

lemma positive_totals_Nil [simp]: "positive_totals []"
  by (simp add: positive_totals_def)

lemma positive_totals_add: "positive_totals m \<Longrightarrow> 0 < u \<Longrightarrow> positive_totals (add_total m a u)"
  by (auto simp: positive_totals_def add_total_def add_pos_pos split: option.splits)

lemma positive_totals_mget:
  "positive_totals m \<Longrightarrow> mget m a = (if total_of m a = 0 then None else Some (total_of m a))"
  by (auto simp: positive_totals_def total_of_def split: option.splits)

lemma tally_complete:
  "(\<exists>r. tally es D C = Inr r) \<longleftrightarrow> (\<forall>e \<in> set es. valid_entry e)"
  by (induction es arbitrary: D C)
     (auto simp: valid_entry_def entry_units_def not_le split: option.splits Side.splits)

lemma tally_totals:
  "tally es D C = Inr (D', C') \<Longrightarrow> positive_totals D \<Longrightarrow> positive_totals C \<Longrightarrow>
   positive_totals D' \<and> positive_totals C' \<and>
   (\<forall>a. total_of D' a = total_of D a + side_total Debit a es) \<and>
   (\<forall>a. total_of C' a = total_of C a + side_total Credit a es)"
proof (induction es arbitrary: D C)
  case Nil
  then show ?case by simp
next
  case (Cons e es)
  from Cons.prems(1) obtain u where u: "big_set_string (e_Units e) = Some u" "0 < u"
    by (auto split: if_splits option.splits)
  then have eu: "entry_units e = u" by (simp add: entry_units_def)
  show ?case
  proof (cases "e_Side e")
    case Debit
    with Cons.prems u have "tally es (add_total D (e_AssetID e) u) C = Inr (D', C')"
      by (auto split: if_splits)
    from Cons.IH[OF this] Cons.prems u Debit eu show ?thesis
      by (simp add: positive_totals_add)
  next
    case Credit
    with Cons.prems u have "tally es D (add_total C (e_AssetID e) u) = Inr (D', C')"
      by (auto split: if_splits)
    from Cons.IH[OF this] Cons.prems u Credit eu show ?thesis
      by (simp add: positive_totals_add)
  next
    case (UnknownSide s)
    with Cons.prems u show ?thesis by (auto split: if_splits)
  qed
qed

lemma debits_matched_None:
  "debits_matched D C = None \<longleftrightarrow> (\<forall>(a, d) \<in> set D. mget C a = Some d)"
  by (induction D C rule: debits_matched.induct) auto

lemma credits_matched_None:
  "credits_matched C D = None \<longleftrightarrow> (\<forall>(a, c) \<in> set C. mget D a \<noteq> None)"
  by (induction C D rule: credits_matched.induct) auto

text \<open>The two loops over the totals accept exactly the totals that agree on every asset.\<close>

lemma totals_matched_iff:
  assumes "positive_totals D" and "positive_totals C"
  shows "debits_matched D C = None \<and> credits_matched C D = None \<longleftrightarrow>
         (\<forall>a. total_of D a = total_of C a)"
proof -
  have entries: "(\<forall>(a, t) \<in> set m. P a t) \<longleftrightarrow> (\<forall>a t. mget m a = Some t \<longrightarrow> P a t)"
    if "positive_totals m" for m and P :: "string \<Rightarrow> int \<Rightarrow> bool"
    using that by (fastforce simp: positive_totals_def intro: mget_mem mem_mget)
  have "debits_matched D C = None \<longleftrightarrow> (\<forall>a. total_of D a \<noteq> 0 \<longrightarrow> total_of C a = total_of D a)"
    unfolding debits_matched_None entries[OF assms(1)]
    using assms by (auto simp: positive_totals_mget)
  moreover have "credits_matched C D = None \<longleftrightarrow> (\<forall>a. total_of C a \<noteq> 0 \<longrightarrow> total_of D a \<noteq> 0)"
    unfolding credits_matched_None entries[OF assms(2)]
    using assms by (auto simp: positive_totals_mget)
  ultimately show ?thesis by metis
qed

lemma validateAndHash_iff:
  "validateAndHash H j = Inr h \<longleftrightarrow> valid_journal j \<and> H j = Some h"
proof (cases "tally (j_Entries j) [] []")
  case (Inl e)
  with tally_complete[of "j_Entries j" "[]" "[]"] show ?thesis
    by (auto simp: validateAndHash_def valid_journal_def)
next
  case (Inr r)
  obtain D C where r: "r = (D, C)" by (cases r)
  note T = tally_totals[OF Inr[unfolded r]]
  have valid: "\<forall>e \<in> set (j_Entries j). valid_entry e"
    using tally_complete[of "j_Entries j" "[]" "[]"] Inr by auto
  have bal: "debits_matched D C = None \<and> credits_matched C D = None \<longleftrightarrow> balanced (j_Entries j)"
    using T totals_matched_iff[of D C] by (simp add: balanced_def)
  show ?thesis
    using bal valid Inr r
    by (auto simp: validateAndHash_def valid_journal_def split: option.splits)
qed

lemma valid_journalD:
  assumes "valid_journal j"
  shows "j_ID j \<noteq> []" "j_ReversalOf j \<noteq> j_ID j" "balanced (j_Entries j)"
  using assms by (auto simp: valid_journal_def identity_complete_def)

section \<open>The invariant of the ledger\<close>

text \<open>
  The journals are keyed by their identifier, each passed validation and carries its own hash, the
  idempotency index is the inverse of the scope of the journals, and the reversal index names for
  each reversed journal the one journal that reverses it.
\<close>

definition ledger_inv :: "journal_hash \<Rightarrow> Ledger \<Rightarrow> bool" where
  "ledger_inv H l \<longleftrightarrow>
     mwf (l_byID l) \<and>
     (\<forall>i p. mget (l_byID l) i = Some p \<longrightarrow>
        j_ID (p_Journal p) = i \<and> valid_journal (p_Journal p) \<and>
        H (p_Journal p) = Some (p_ContentHash p) \<and>
        (j_ReversalOf (p_Journal p) \<noteq> [] \<longrightarrow> mhas (l_byID l) (j_ReversalOf (p_Journal p)))) \<and>
     (\<forall>s i. mget (l_idempotency l) s = Some i \<longleftrightarrow>
        (\<exists>p. mget (l_byID l) i = Some p \<and> idempotency_scope (p_Journal p) = s)) \<and>
     (\<forall>t i. mget (l_reversals l) t = Some i \<longleftrightarrow>
        t \<noteq> [] \<and> (\<exists>p. mget (l_byID l) i = Some p \<and> j_ReversalOf (p_Journal p) = t))"

definition extends :: "Ledger \<Rightarrow> Ledger \<Rightarrow> bool" where
  "extends l l' \<longleftrightarrow>
     mext (l_byID l) (l_byID l') \<and> mext (l_idempotency l) (l_idempotency l') \<and>
     mext (l_reversals l) (l_reversals l')"

text \<open>The journal \<open>j\<close> with hash \<open>h\<close> is on record as \<open>p\<close>.\<close>

definition on_record :: "Ledger \<Rightarrow> Journal \<Rightarrow> string \<Rightarrow> PostedJournal \<Rightarrow> bool" where
  "on_record l j h p \<longleftrightarrow>
     (\<exists>i. mget (l_idempotency l) (idempotency_scope j) = Some i \<and> mget (l_byID l) i = Some p \<and>
          p_ContentHash p = h)"

lemma extends_refl [simp, intro]: "extends l l"
  by (simp add: extends_def)

lemma extends_trans [trans]: "extends l m \<Longrightarrow> extends m n \<Longrightarrow> extends l n"
  by (auto simp: extends_def intro: mext_trans)

lemma on_record_extends: "on_record l j h p \<Longrightarrow> extends l l' \<Longrightarrow> on_record l' j h p"
  by (auto simp: on_record_def extends_def dest: mextD)

lemma extends_Get: "extends l l' \<Longrightarrow> ledger_Get l i = Some p \<Longrightarrow> ledger_Get l' i = Some p"
  by (auto simp: extends_def ledger_Get_def dest: mextD)

lemma ledger_inv_New [simp, intro]: "ledger_inv H ledger_New"
  by (simp add: ledger_inv_def ledger_New_def)

lemma ledger_inv_scope:
  "ledger_inv H l \<Longrightarrow> mget (l_idempotency l) s = Some i \<longleftrightarrow>
     (\<exists>p. mget (l_byID l) i = Some p \<and> idempotency_scope (p_Journal p) = s)"
  by (simp add: ledger_inv_def)

lemma ledger_inv_reversal:
  "ledger_inv H l \<Longrightarrow> mget (l_reversals l) t = Some i \<longleftrightarrow>
     t \<noteq> [] \<and> (\<exists>p. mget (l_byID l) i = Some p \<and> j_ReversalOf (p_Journal p) = t)"
  by (simp add: ledger_inv_def)

lemma ledger_inv_byID:
  assumes "ledger_inv H l" and "mget (l_byID l) i = Some p"
  shows "j_ID (p_Journal p) = i \<and> valid_journal (p_Journal p) \<and>
     H (p_Journal p) = Some (p_ContentHash p) \<and>
     (j_ReversalOf (p_Journal p) \<noteq> [] \<longrightarrow> mhas (l_byID l) (j_ReversalOf (p_Journal p)))"
  using assms by (auto simp: ledger_inv_def)

lemma ledger_inv_Get:
  assumes "ledger_inv H l" and "ledger_Get l i = Some p"
  shows "j_ID (p_Journal p) = i" "valid_journal (p_Journal p)"
    "H (p_Journal p) = Some (p_ContentHash p)"
    "mget (l_idempotency l) (idempotency_scope (p_Journal p)) = Some i"
  using assms by (auto simp: ledger_inv_def ledger_Get_def)

text \<open>The state after a journal that was not on record has been stored.\<close>

definition insert_posted :: "Journal \<Rightarrow> string \<Rightarrow> gotime \<Rightarrow> Ledger \<Rightarrow> Ledger" where
  "insert_posted j h t l =
     l\<lparr>l_byID := mput (j_ID j) \<lparr>p_Journal = j, p_ContentHash = h, p_PostedAt = t\<rparr> (l_byID l),
       l_idempotency := mput (idempotency_scope j) (j_ID j) (l_idempotency l),
       l_reversals :=
         (if j_ReversalOf j \<noteq> [] then mput (j_ReversalOf j) (j_ID j) (l_reversals l)
          else l_reversals l)\<rparr>"

definition postable :: "Journal \<Rightarrow> Ledger \<Rightarrow> bool" where
  "postable j l \<longleftrightarrow>
     mget (l_idempotency l) (idempotency_scope j) = None \<and> \<not> mhas (l_byID l) (j_ID j) \<and>
     (j_ReversalOf j \<noteq> [] \<longrightarrow>
        mhas (l_byID l) (j_ReversalOf j) \<and> mget (l_reversals l) (j_ReversalOf j) = None)"

lemma postValidated_cases:
  assumes "postValidated j h t l = (r, l')"
  obtains (failed) e where "r = Inl e" "l' = l"
  | (replayed) i where "mget (l_idempotency l) (idempotency_scope j) = Some i"
      "r = Inr (case mget (l_byID l) i of None \<Rightarrow> zero_posted | Some p \<Rightarrow> p)" "l' = l"
      "p_ContentHash (case mget (l_byID l) i of None \<Rightarrow> zero_posted | Some p \<Rightarrow> p) = h"
  | (stored) "postable j l" "r = Inr \<lparr>p_Journal = j, p_ContentHash = h, p_PostedAt = t\<rparr>"
      "l' = insert_posted j h t l"
  using assms
  by (auto simp: postValidated_def Let_def postable_def insert_posted_def
           split: option.splits if_splits)

lemma postValidated_error_keeps: "postValidated j h t l = (Inl e, l') \<Longrightarrow> l' = l"
  by (erule postValidated_cases) simp_all

lemma postable_extends: "postable j l \<Longrightarrow> extends l (insert_posted j h t l)"
  by (auto simp: postable_def insert_posted_def extends_def mhas_def)

lemma postValidated_extends: "postValidated j h t l = (r, l') \<Longrightarrow> extends l l'"
  by (erule postValidated_cases) (auto simp: postable_extends)

lemma insert_posted_inv:
  assumes inv: "ledger_inv H l" and v: "valid_journal j" and h: "H j = Some h"
    and p: "postable j l"
  shows "ledger_inv H (insert_posted j h t l)"
proof -
  let ?l = "insert_posted j h t l"
  have new: "mget (l_byID l) (j_ID j) = None"
    using p by (simp add: postable_def mhas_def)
  have unscoped: "mget (l_byID l) i = Some q \<Longrightarrow> idempotency_scope (p_Journal q) \<noteq> idempotency_scope j"
    for i q
    using ledger_inv_scope[OF inv, of "idempotency_scope j" i] p by (auto simp: postable_def)
  have unreversed: "mget (l_byID l) i = Some q \<Longrightarrow> j_ReversalOf j \<noteq> [] \<Longrightarrow>
      j_ReversalOf (p_Journal q) \<noteq> j_ReversalOf j" for i q
    using ledger_inv_reversal[OF inv, of "j_ReversalOf j" i] p by (auto simp: postable_def)
  have "mwf (l_byID ?l)"
    using inv by (simp add: ledger_inv_def insert_posted_def)
  moreover have "j_ID (p_Journal q) = i \<and> valid_journal (p_Journal q) \<and>
        H (p_Journal q) = Some (p_ContentHash q) \<and>
        (j_ReversalOf (p_Journal q) \<noteq> [] \<longrightarrow> mhas (l_byID ?l) (j_ReversalOf (p_Journal q)))"
    if "mget (l_byID ?l) i = Some q" for i q
    using that ledger_inv_byID[OF inv, of i q] v h p
    by (auto simp: insert_posted_def postable_def split: if_splits)
  moreover have "mget (l_idempotency ?l) s = Some i \<longleftrightarrow>
      (\<exists>q. mget (l_byID ?l) i = Some q \<and> idempotency_scope (p_Journal q) = s)" for s i
    using ledger_inv_scope[OF inv, of s i] new unscoped by (auto simp: insert_posted_def)
  moreover have "mget (l_reversals ?l) u = Some i \<longleftrightarrow>
      u \<noteq> [] \<and> (\<exists>q. mget (l_byID ?l) i = Some q \<and> j_ReversalOf (p_Journal q) = u)" for u i
    using ledger_inv_reversal[OF inv, of u i] new unreversed by (auto simp: insert_posted_def)
  ultimately show ?thesis
    unfolding ledger_inv_def by blast
qed

lemma postValidated_inv:
  assumes "ledger_inv H l" "valid_journal j" "H j = Some h" "postValidated j h t l = (r, l')"
  shows "ledger_inv H l'"
  using assms(4) assms(1-3) by (cases rule: postValidated_cases) (auto simp: insert_posted_inv)

lemma postValidated_on_record:
  assumes "ledger_inv H l" "postValidated j h t l = (Inr p, l')"
  shows "on_record l' j h p"
  using assms(2)
proof (cases rule: postValidated_cases)
  case (replayed i)
  with assms(1) obtain q where "mget (l_byID l) i = Some q"
    by (auto simp: ledger_inv_scope)
  with replayed show ?thesis by (auto simp: on_record_def)
qed (auto simp: on_record_def insert_posted_def)

lemma on_record_replay: "on_record l j h p \<Longrightarrow> postValidated j h t l = (Inr p, l)"
  by (auto simp: on_record_def postValidated_def Let_def)

section \<open>The operations\<close>

lemma Post_cases:
  assumes "Post H now l j = (r, l')"
  obtains (refused) e where "r = Inl e" "l' = l"
  | (checked) h where "valid_journal j" "H j = Some h" "postValidated j h now l = (r, l')"
  using assms by (auto simp: Post_def validateAndHash_iff split: sum.splits)

lemma Post_inv: "Post H now l j = (r, l') \<Longrightarrow> ledger_inv H l \<Longrightarrow> ledger_inv H l'"
  by (erule Post_cases) (auto intro: postValidated_inv)

lemma Post_extends: "Post H now l j = (r, l') \<Longrightarrow> extends l l'"
  by (erule Post_cases) (auto intro: postValidated_extends)

lemma Post_error_keeps: "Post H now l j = (Inl e, l') \<Longrightarrow> l' = l"
  by (erule Post_cases) (auto dest: postValidated_error_keeps)

lemma Reverse_is_Post:
  assumes "Reverse H now l o' i k s reason t = (r, l')"
  obtains (missing) "ledger_Get l o' = None" "r = Inl (ErrUnknownJournal o')" "l' = l"
  | (posting) p where "ledger_Get l o' = Some p"
      "Post H now l (reversal_journal (p_Journal p) i k s reason t) = (r, l')"
  using assms by (auto simp: Reverse_def split: option.splits)

lemma hash_all_validated:
  "hash_all H js = Inr hs \<longleftrightarrow> list_all2 (\<lambda>j h. validateAndHash H j = Inr h) js hs"
proof (induction js arbitrary: hs)
  case (Cons j js)
  then show ?case
    by (cases hs; cases "validateAndHash H j"; cases "hash_all H js") simp_all
qed auto

lemmas hash_all_iff = hash_all_validated[unfolded validateAndHash_iff]

lemma post_all_inv:
  "post_all jhs t l = (r, l') \<Longrightarrow> \<forall>(j, h) \<in> set jhs. valid_journal j \<and> H j = Some h \<Longrightarrow>
   ledger_inv H l \<Longrightarrow> ledger_inv H l'"
proof (induction jhs t l arbitrary: r rule: post_all.induct)
  case (2 j h rest t l)
  obtain q l1 where q: "postValidated j h t l = (q, l1)" by fastforce
  have "ledger_inv H l1"
    using postValidated_inv[OF _ _ _ q] "2.prems" by auto
  with "2.IH"[OF q[symmetric]] "2.prems" q show ?case
    by (auto split: sum.splits prod.splits)
qed simp

lemma post_all_extends: "post_all jhs t l = (r, l') \<Longrightarrow> extends l l'"
proof (induction jhs t l arbitrary: r rule: post_all.induct)
  case (2 j h rest t l)
  obtain q l1 where q: "postValidated j h t l = (q, l1)" by fastforce
  with "2.IH"[OF q[symmetric]] "2.prems" show ?case
    by (auto split: sum.splits prod.splits intro: extends_trans dest: postValidated_extends)
qed simp

lemma post_all_on_record:
  "post_all jhs t l = (Inr ps, l') \<Longrightarrow> \<forall>(j, h) \<in> set jhs. valid_journal j \<and> H j = Some h \<Longrightarrow>
   ledger_inv H l \<Longrightarrow> list_all2 (\<lambda>(j, h) p. on_record l' j h p) jhs ps"
proof (induction jhs t l arbitrary: ps rule: post_all.induct)
  case (2 j h rest t l)
  from "2.prems"(1) obtain p l1 qs where
    p: "postValidated j h t l = (Inr p, l1)" and
    qs: "post_all rest t l1 = (Inr qs, l')" and ps: "ps = p # qs"
    by (auto split: sum.splits prod.splits)
  have "ledger_inv H l1"
    using postValidated_inv[OF _ _ _ p] "2.prems" by auto
  moreover have "on_record l' j h p"
    using postValidated_on_record[OF "2.prems"(3) p] post_all_extends[OF qs]
    by (rule on_record_extends)
  ultimately show ?case
    using "2.IH"[OF p[symmetric] refl qs] "2.prems"(2) by (simp add: ps)
qed simp

lemma post_all_replay:
  "list_all2 (\<lambda>(j, h) p. on_record l j h p) jhs ps \<Longrightarrow> post_all jhs t l = (Inr ps, l)"
  by (induction rule: list_all2_induct) (auto simp: on_record_replay)

lemma PostBatch_error_keeps: "PostBatch H now l js = (Inl e, l') \<Longrightarrow> l' = l"
  by (auto simp: PostBatch_def split: if_splits sum.splits prod.splits)

lemma PostBatch_success:
  assumes "PostBatch H now l js = (Inr ps, l')"
  obtains hs where "js \<noteq> []" "hash_all H js = Inr hs" "post_all (zip js hs) now l = (Inr ps, l')"
    "\<forall>(j, h) \<in> set (zip js hs). valid_journal j \<and> H j = Some h" "length hs = length js"
proof -
  from assms obtain hs where hs: "js \<noteq> []" "hash_all H js = Inr hs"
    "post_all (zip js hs) now l = (Inr ps, l')"
    by (auto simp: PostBatch_def split: if_splits sum.splits prod.splits)
  then show thesis
    using that by (auto simp: hash_all_iff list_all2_iff)
qed

lemma PostBatch_inv: "PostBatch H now l js = (r, l') \<Longrightarrow> ledger_inv H l \<Longrightarrow> ledger_inv H l'"
  by (cases r) (auto dest: PostBatch_error_keeps elim!: PostBatch_success intro: post_all_inv)

lemma PostBatch_extends: "PostBatch H now l js = (r, l') \<Longrightarrow> extends l l'"
  by (cases r) (auto dest: PostBatch_error_keeps elim!: PostBatch_success intro: post_all_extends)

lemma PostBatch_on_record:
  assumes "PostBatch H now l js = (Inr ps, l')" and "ledger_inv H l"
  shows "list_all2 (\<lambda>j p. valid_journal j \<and> (\<exists>h. H j = Some h \<and> on_record l' j h p)) js ps"
proof -
  from assms(1) obtain hs where hs:
    "post_all (zip js hs) now l = (Inr ps, l')" "length hs = length js"
    "\<forall>(j, h) \<in> set (zip js hs). valid_journal j \<and> H j = Some h"
    by (rule PostBatch_success)
  with post_all_on_record[OF hs(1,3) assms(2)] show ?thesis
    by (simp add: list_all2_conv_all_nth set_zip) metis
qed

lemma PostBatch_replay:
  assumes "PostBatch H now l js = (Inr ps, l')" and "ledger_inv H l" and "extends l' l''"
  shows "PostBatch H now' l'' js = (Inr ps, l'')"
proof -
  from assms(1) obtain hs where hs: "js \<noteq> []" "hash_all H js = Inr hs"
    "post_all (zip js hs) now l = (Inr ps, l')"
    "\<forall>(j, h) \<in> set (zip js hs). valid_journal j \<and> H j = Some h"
    by (rule PostBatch_success)
  have "list_all2 (\<lambda>(j, h) p. on_record l'' j h p) (zip js hs) ps"
    by (rule list_all2_mono[OF post_all_on_record[OF hs(3,4) assms(2)]])
       (auto intro: on_record_extends assms(3))
  with hs show ?thesis
    by (simp add: PostBatch_def post_all_replay)
qed

section \<open>The ledger as a state machine\<close>

inductive ledger_step :: "journal_hash \<Rightarrow> Ledger \<Rightarrow> Ledger \<Rightarrow> bool" for H where
  step_Post: "Post H now l j = (r, l') \<Longrightarrow> ledger_step H l l'"
| step_PostBatch: "PostBatch H now l js = (r', l') \<Longrightarrow> ledger_step H l l'"
| step_Reverse: "Reverse H now l o' i k s reason t = (r, l') \<Longrightarrow> ledger_step H l l'"

lemma ledger_step_inv: "ledger_step H l l' \<Longrightarrow> ledger_inv H l \<Longrightarrow> ledger_inv H l'"
  by (induction rule: ledger_step.induct)
     (auto intro: Post_inv PostBatch_inv elim!: Reverse_is_Post)

lemma ledger_step_extends: "ledger_step H l l' \<Longrightarrow> extends l l'"
  by (induction rule: ledger_step.induct)
     (auto intro: Post_extends PostBatch_extends elim!: Reverse_is_Post)

abbreviation ledger_reachable :: "journal_hash \<Rightarrow> Ledger \<Rightarrow> bool" where
  "ledger_reachable H \<equiv> reachable (\<lambda>l. l = ledger_New) (ledger_step H)"

interpretation led: monotone_history "\<lambda>l. l = ledger_New" "ledger_step H" "ledger_inv H" extends
  for H
  by unfold_locales (auto intro: ledger_step_inv ledger_step_extends extends_trans)

section \<open>The interface the accounting services use\<close>

text \<open>
  The services hold a ledger and call \<open>PostBatch\<close> and \<open>Get\<close> on it. What they rely on: a failed
  batch changes nothing, a successful one records every journal of the batch, nothing recorded is
  ever lost or changed, and a batch that has been recorded can be sent again.
\<close>

locale posting_book =
  fixes batch :: "gotime \<Rightarrow> 'l \<Rightarrow> Journal list \<Rightarrow> ('e + PostedJournal list) \<times> 'l"
    and recorded :: "'l \<Rightarrow> Journal \<Rightarrow> PostedJournal \<Rightarrow> bool"
    and good :: "'l \<Rightarrow> bool"
    and later :: "'l \<Rightarrow> 'l \<Rightarrow> bool"
  assumes batch_error: "batch now l js = (Inl e, l') \<Longrightarrow> l' = l"
    and batch_good: "good l \<Longrightarrow> batch now l js = (r, l') \<Longrightarrow> good l'"
    and batch_later: "batch now l js = (r, l') \<Longrightarrow> later l l'"
    and batch_recorded: "good l \<Longrightarrow> batch now l js = (Inr ps, l') \<Longrightarrow> list_all2 (recorded l') js ps"
    and batch_again:
      "good l \<Longrightarrow> batch now l js = (Inr ps, l') \<Longrightarrow> later l' l'' \<Longrightarrow>
       batch now' l'' js = (Inr ps, l'')"
    and recorded_later: "recorded l j p \<Longrightarrow> later l l' \<Longrightarrow> recorded l' j p"
    and later_refl: "later l l"
    and later_trans: "later l m \<Longrightarrow> later m n \<Longrightarrow> later l n"
begin

lemma batch_again_now:
  "good l \<Longrightarrow> batch now l js = (Inr ps, l') \<Longrightarrow> batch now' l' js = (Inr ps, l')"
  by (rule batch_again) (auto intro: later_refl)

lemma batch_length: "good l \<Longrightarrow> batch now l js = (Inr ps, l') \<Longrightarrow> length ps = length js"
  by (metis batch_recorded list_all2_lengthD)

lemma batch_each:
  "good l \<Longrightarrow> batch now l js = (Inr ps, l') \<Longrightarrow> i < length js \<Longrightarrow> recorded l' (js ! i) (ps ! i)"
  by (auto dest: batch_recorded list_all2_nthD)

end

definition recorded :: "journal_hash \<Rightarrow> Ledger \<Rightarrow> Journal \<Rightarrow> PostedJournal \<Rightarrow> bool" where
  "recorded H l j p \<longleftrightarrow> valid_journal j \<and> (\<exists>h. H j = Some h \<and> on_record l j h p)"

interpretation book: posting_book "PostBatch H" "recorded H" "ledger_inv H" extends for H
proof (unfold_locales, goal_cases)
  case 1
  then show ?case by (rule PostBatch_error_keeps)
next
  case 2
  then show ?case by (blast intro: PostBatch_inv)
next
  case 3
  then show ?case by (rule PostBatch_extends)
next
  case 4
  show ?case
    using PostBatch_on_record[OF 4(2,1)] by (simp add: recorded_def[abs_def])
next
  case 5
  show ?case by (rule PostBatch_replay[OF 5(2,1,3)])
next
  case 6
  then show ?case by (auto simp: recorded_def intro: on_record_extends)
next
  case 7
  show ?case by simp
next
  case 8
  then show ?case by (rule extends_trans)
qed

section \<open>Abstract view: an append-only log\<close>

text \<open>
  The specification of posting needs no index: the log is the list of posted journals, and the
  checks are searches in it.
\<close>

definition log_post ::
  "Journal \<Rightarrow> string \<Rightarrow> gotime \<Rightarrow> PostedJournal list
     \<Rightarrow> (ledger_error + PostedJournal) \<times> PostedJournal list" where
  "log_post j h t log =
     (case find (\<lambda>p. idempotency_scope (p_Journal p) = idempotency_scope j) log of
        Some p \<Rightarrow> (if p_ContentHash p = h then Inr p else Inl ErrIdempotencyConflict, log)
      | None \<Rightarrow>
          if \<exists>p \<in> set log. j_ID (p_Journal p) = j_ID j
          then (Inl (ErrInvalidJournal ''duplicate journal id''), log)
          else if j_ReversalOf j \<noteq> [] \<and> (\<forall>p \<in> set log. j_ID (p_Journal p) \<noteq> j_ReversalOf j)
          then (Inl (ErrUnknownJournal (j_ReversalOf j)), log)
          else case find (\<lambda>p. j_ReversalOf j \<noteq> [] \<and> j_ReversalOf (p_Journal p) = j_ReversalOf j) log of
            Some p \<Rightarrow> (Inl (ErrAlreadyReversed (j_ID (p_Journal p))), log)
          | None \<Rightarrow>
              (let p = \<lparr>p_Journal = j, p_ContentHash = h, p_PostedAt = t\<rparr> in (Inr p, log @ [p])))"

lemma ledger_List_mem:
  assumes inv: "ledger_inv H l"
  shows "p \<in> set (ledger_List l) \<longleftrightarrow> mget (l_byID l) (j_ID (p_Journal p)) = Some p"
proof
  assume "p \<in> set (ledger_List l)"
  then obtain i where "(i, p) \<in> set (l_byID l)" by (auto simp: ledger_List_def)
  then have "mget (l_byID l) i = Some p"
    using inv by (simp add: ledger_inv_def mem_mget)
  with ledger_inv_byID[OF inv this] show "mget (l_byID l) (j_ID (p_Journal p)) = Some p" by simp
next
  assume "mget (l_byID l) (j_ID (p_Journal p)) = Some p"
  from mget_mem[OF this] show "p \<in> set (ledger_List l)" by (force simp: ledger_List_def)
qed

lemma find_unique:
  assumes "p \<in> set xs" "P p" "\<And>q. q \<in> set xs \<Longrightarrow> P q \<Longrightarrow> q = p"
  shows "find P xs = Some p"
proof -
  from assms(1,2) obtain q where q: "find P xs = Some q"
    by (cases "find P xs") (auto simp: find_None_iff)
  then have "q \<in> set xs" "P q"
    by (auto simp: find_Some_iff)
  then have "q = p" by (rule assms(3))
  with q show ?thesis by simp
qed

lemma find_scope:
  assumes inv: "ledger_inv H l"
  shows "find (\<lambda>p. idempotency_scope (p_Journal p) = s) (ledger_List l) =
     (case mget (l_idempotency l) s of None \<Rightarrow> None | Some i \<Rightarrow> mget (l_byID l) i)"
proof (cases "mget (l_idempotency l) s")
  case None
  have "idempotency_scope (p_Journal p) \<noteq> s" if "p \<in> set (ledger_List l)" for p
    using None that ledger_inv_scope[OF inv, of s "j_ID (p_Journal p)"]
    by (auto simp: ledger_List_mem[OF inv])
  with None show ?thesis by (simp add: find_None_iff)
next
  case (Some i)
  then obtain p where p: "mget (l_byID l) i = Some p" "idempotency_scope (p_Journal p) = s"
    using inv by (auto simp: ledger_inv_scope)
  have "find (\<lambda>p. idempotency_scope (p_Journal p) = s) (ledger_List l) = Some p"
  proof (rule find_unique)
    show "p \<in> set (ledger_List l)"
      using p ledger_inv_byID[OF inv p(1)] by (simp add: ledger_List_mem[OF inv])
    fix q assume q: "q \<in> set (ledger_List l)" "idempotency_scope (p_Journal q) = s"
    then have "mget (l_idempotency l) s = Some (j_ID (p_Journal q))"
      using inv by (auto simp: ledger_List_mem ledger_inv_scope)
    with Some q p show "q = p" by (simp add: ledger_List_mem[OF inv])
  qed (rule p)
  with Some p show ?thesis by simp
qed

lemma find_reversal:
  assumes inv: "ledger_inv H l" and t: "t \<noteq> []"
  shows "find (\<lambda>p. j_ReversalOf (p_Journal p) = t) (ledger_List l) =
     (case mget (l_reversals l) t of None \<Rightarrow> None | Some i \<Rightarrow> mget (l_byID l) i)"
proof (cases "mget (l_reversals l) t")
  case None
  have "j_ReversalOf (p_Journal p) \<noteq> t" if "p \<in> set (ledger_List l)" for p
    using None that t ledger_inv_reversal[OF inv, of t "j_ID (p_Journal p)"]
    by (auto simp: ledger_List_mem[OF inv])
  with None show ?thesis by (simp add: find_None_iff)
next
  case (Some i)
  then obtain p where p: "mget (l_byID l) i = Some p" "j_ReversalOf (p_Journal p) = t"
    using inv by (auto simp: ledger_inv_reversal)
  have "find (\<lambda>p. j_ReversalOf (p_Journal p) = t) (ledger_List l) = Some p"
  proof (rule find_unique)
    show "p \<in> set (ledger_List l)"
      using p ledger_inv_byID[OF inv p(1)] by (simp add: ledger_List_mem[OF inv])
    fix q assume q: "q \<in> set (ledger_List l)" "j_ReversalOf (p_Journal q) = t"
    then have "mget (l_reversals l) t = Some (j_ID (p_Journal q))"
      using inv t by (auto simp: ledger_List_mem ledger_inv_reversal)
    with Some q p show "q = p" by (simp add: ledger_List_mem[OF inv])
  qed (rule p)
  with Some p show ?thesis by simp
qed

lemma byID_in_log:
  assumes inv: "ledger_inv H l"
  shows "mhas (l_byID l) i \<longleftrightarrow> (\<exists>p \<in> set (ledger_List l). j_ID (p_Journal p) = i)"
proof
  assume "mhas (l_byID l) i"
  then obtain p where "mget (l_byID l) i = Some p" by (auto simp: mhas_iff)
  with ledger_inv_byID[OF inv this] show "\<exists>p \<in> set (ledger_List l). j_ID (p_Journal p) = i"
    by (auto simp: ledger_List_mem[OF inv] intro: bexI[of _ p])
next
  assume "\<exists>p \<in> set (ledger_List l). j_ID (p_Journal p) = i"
  then show "mhas (l_byID l) i" by (auto simp: mhas_iff ledger_List_mem[OF inv])
qed

lemma insert_posted_List:
  "postable j l \<Longrightarrow> ledger_List (insert_posted j h t l) =
     ledger_List l @ [\<lparr>p_Journal = j, p_ContentHash = h, p_PostedAt = t\<rparr>]"
  by (simp add: postable_def mhas_def ledger_List_def insert_posted_def mput_new)

lemma not_in_log:
  "ledger_inv H l \<Longrightarrow> (\<forall>p \<in> set (ledger_List l). j_ID (p_Journal p) \<noteq> i) \<longleftrightarrow> \<not> mhas (l_byID l) i"
  using byID_in_log by blast

lemma find_target_reversal:
  "ledger_inv H l \<Longrightarrow>
   find (\<lambda>p. t \<noteq> [] \<and> j_ReversalOf (p_Journal p) = t) (ledger_List l) =
     (if t = [] then None
      else case mget (l_reversals l) t of None \<Rightarrow> None | Some i \<Rightarrow> mget (l_byID l) i)"
  by (simp add: find_reversal find_None_iff)

lemmas log_index = find_scope find_target_reversal not_in_log byID_in_log[symmetric]

lemma postValidated_stored:
  "postable j l \<Longrightarrow>
   postValidated j h t l =
     (Inr \<lparr>p_Journal = j, p_ContentHash = h, p_PostedAt = t\<rparr>, insert_posted j h t l)"
  by (auto simp: postValidated_def postable_def insert_posted_def Let_def)

lemma postValidated_log:
  assumes inv: "ledger_inv H l" and run: "postValidated j h t l = (r, l')"
  shows "log_post j h t (ledger_List l) = (r, ledger_List l')"
proof (cases "postable j l")
  case True
  then have "log_post j h t (ledger_List l) =
     (Inr \<lparr>p_Journal = j, p_ContentHash = h, p_PostedAt = t\<rparr>, ledger_List (insert_posted j h t l))"
    unfolding log_post_def log_index[OF inv] insert_posted_List[OF True]
    by (auto simp: postable_def Let_def)
  with True run show ?thesis by (simp add: postValidated_stored)
next
  case False
  note unfold = log_post_def log_index[OF inv] postValidated_def postable_def Let_def
  show ?thesis
  proof (cases "mget (l_idempotency l) (idempotency_scope j)")
    case (Some i)
    then obtain p where "mget (l_byID l) i = Some p"
      using ledger_inv_scope[OF inv] by blast
    with Some run show ?thesis by (auto simp: unfold split: if_splits)
  next
    case None
    show ?thesis
    proof (cases "mget (l_reversals l) (j_ReversalOf j)")
      case (Some i)
      then obtain p where "mget (l_byID l) i = Some p" "j_ID (p_Journal p) = i"
        using ledger_inv_reversal[OF inv] ledger_inv_byID[OF inv] by blast
      with Some None False run show ?thesis by (auto simp: unfold split: if_splits)
    next
      case unreversed: None
      with None False run show ?thesis by (auto simp: unfold split: if_splits)
    qed
  qed
qed

section \<open>Balances\<close>

text \<open>The total posted on one side in one asset, over every journal of the ledger.\<close>

definition ledger_total :: "Side \<Rightarrow> string \<Rightarrow> Ledger \<Rightarrow> int" where
  "ledger_total sd a l = (\<Sum>p\<leftarrow>ledger_List l. side_total sd a (j_Entries (p_Journal p)))"

text \<open>The net effect of a list of entries on one account in one asset, debits positive.\<close>

definition account_net :: "string \<Rightarrow> string \<Rightarrow> Entry list \<Rightarrow> int" where
  "account_net acct a es =
     (\<Sum>e\<leftarrow>es. if e_AccountCode e = acct \<and> e_AssetID e = a
              then (if e_Side e = Debit then entry_units e else - entry_units e) else 0)"

lemma account_net_append [simp]:
  "account_net acct a (es @ fs) = account_net acct a es + account_net acct a fs"
  by (simp add: account_net_def)

lemma flip_entry_simps [simp]:
  "e_AccountCode (flip_entry e) = e_AccountCode e" "e_AssetID (flip_entry e) = e_AssetID e"
  "e_Side (flip_entry e) = flip_side (e_Side e)" "entry_units (flip_entry e) = entry_units e"
  by (simp_all add: flip_entry_def entry_units_def)

lemma account_net_flip:
  "\<forall>e \<in> set es. valid_entry e \<Longrightarrow>
   account_net acct a (map flip_entry es) = - account_net acct a es"
  by (induction es) (auto simp: account_net_def valid_entry_def)

lemma ledger_inv_trial_balance:
  assumes "ledger_inv H l"
  shows "ledger_total Debit a l = ledger_total Credit a l"
proof -
  have "side_total Debit a (j_Entries (p_Journal p)) = side_total Credit a (j_Entries (p_Journal p))"
    if "p \<in> set (ledger_List l)" for p
    using that ledger_inv_byID[OF assms] valid_journalD(3)
    by (auto simp: ledger_List_mem[OF assms] balanced_def)
  then show ?thesis
    unfolding ledger_total_def by (intro arg_cong[where f = sum_list] map_cong) auto
qed

text \<open>A journal that has been reversed is never reversed by a second journal.\<close>

lemma Reverse_reversed_keeps:
  assumes inv: "ledger_inv H l" and rev: "mget (l_reversals l) o' = Some i"
  shows "snd (Reverse H now l o' i' k s reason t) = l"
proof (cases "Reverse H now l o' i' k s reason t")
  case (Pair r l')
  have t: "o' \<noteq> []" using rev ledger_inv_reversal[OF inv] by blast
  from Pair show ?thesis
  proof (cases rule: Reverse_is_Post)
    case (posting p)
    have id: "j_ID (p_Journal p) = o'"
      using ledger_inv_Get[OF inv posting(1)] by simp
    from posting(2) have "l' = l"
    proof (cases rule: Post_cases)
      case (checked h)
      from checked(3) show ?thesis
        using rev t id by (cases rule: postValidated_cases)
          (auto simp: postable_def reversal_journal_def)
    qed simp
    with Pair show ?thesis by simp
  qed (use Pair in simp)
qed

lemma Reverse_stored:
  assumes inv: "ledger_inv H l"
    and run: "Reverse H now l o' i k s reason t = (Inr r, l')" and new: "l' \<noteq> l"
  shows "\<exists>p. ledger_Get l o' = Some p \<and> p_Journal r = reversal_journal (p_Journal p) i k s reason t \<and>
      ledger_Get l' i = Some r \<and> mget (l_reversals l') o' = Some i"
  using run
proof (cases rule: Reverse_is_Post)
  case (posting p)
  have id: "j_ID (p_Journal p) = o'" "o' \<noteq> []"
    using ledger_inv_Get[OF inv posting(1)] valid_journalD(1) by auto
  from posting(2) show ?thesis
  proof (cases rule: Post_cases)
    case (checked h)
    from checked(3) show ?thesis
      using new posting(1) id
      by (cases rule: postValidated_cases)
         (auto simp: insert_posted_def reversal_journal_def ledger_Get_def)
  qed simp
qed simp

section \<open>A concrete ledger\<close>

definition sample_entry :: "string \<Rightarrow> Side \<Rightarrow> string \<Rightarrow> Entry" where
  "sample_entry acct sd units =
     \<lparr>e_AccountCode = acct, e_Side = sd, e_AssetID = ''USD'', e_Units = units, e_PartyID = [],
      e_LoanID = [], e_TrancheID = []\<rparr>"

definition sample_journal :: Journal where
  "sample_journal = zero_journal\<lparr>j_ID := ''J1'', j_LegalEntityID := ''LE'', j_BookID := ''B'',
     j_SourceSystem := ''S'', j_EntryType := ''T'', j_SourceEventID := ''E'',
     j_IdempotencyKey := ''K'', j_CorrelationID := ''C'', j_EffectiveAt := 1,
     j_EvidenceHash := ''H'',
     j_Entries := [sample_entry ''1000'' Debit ''5'', sample_entry ''2000'' Credit ''5'']\<rparr>"

definition sample_hash :: journal_hash where
  "sample_hash j = Some (j_ID j)"

definition sample_ledger :: Ledger where
  "sample_ledger = snd (Post sample_hash 7 ledger_New sample_journal)"

lemmas sample_eval = sample_entry_def sample_journal_def sample_hash_def zero_journal_def
  validateAndHash_def identity_complete_def add_total_def idempotency_scope_def
  big_set_string_def read_nat_def is_digit_def digit_val_def

lemma sample_reachable: "ledger_reachable sample_hash sample_ledger"
  unfolding sample_ledger_def
  by (rule reach_step[OF reach_init], simp, rule step_Post[of _ 7 _ sample_journal])
     (rule prod.collapse[symmetric])

lemma sample_ledger_value:
  "sample_ledger =
     \<lparr>l_byID = [(''J1'', \<lparr>p_Journal = sample_journal, p_ContentHash = ''J1'', p_PostedAt = 7\<rparr>)],
      l_idempotency = [(idempotency_scope sample_journal, ''J1'')], l_reversals = []\<rparr>"
  by (simp add: sample_ledger_def Post_def postValidated_def ledger_New_def sample_eval Let_def)

lemma sample_reverse:
  "Reverse sample_hash 9 sample_ledger ''J1'' ''R1'' ''K2'' ''E2'' ''undo'' 8 =
     (let j = reversal_journal sample_journal ''R1'' ''K2'' ''E2'' ''undo'' 8 in
      (Inr \<lparr>p_Journal = j, p_ContentHash = ''R1'', p_PostedAt = 9\<rparr>,
       insert_posted j ''R1'' 9 sample_ledger))"
  by (simp add: sample_ledger_value Reverse_def Post_def postValidated_def ledger_Get_def sample_eval
      Let_def reversal_journal_def flip_entry_def insert_posted_def)

lemma sample_reverse_step:
  "(ledger_step sample_hash)\<^sup>*\<^sup>* sample_ledger
     (snd (Reverse sample_hash 9 sample_ledger ''J1'' ''R1'' ''K2'' ''E2'' ''undo'' 8))"
  by (rule r_into_rtranclp, rule step_Reverse, rule prod.collapse[symmetric])

lemma sample_reverse_changes:
  "insert_posted (reversal_journal sample_journal ''R1'' ''K2'' ''E2'' ''undo'' 8) ''R1'' 9 sample_ledger
     \<noteq> sample_ledger"
  by (simp add: insert_posted_def reversal_journal_def sample_ledger_value)

section \<open>Properties\<close>

text \<open>
  validation accepts exactly the well-formed journals. \<open>validateAndHash\<close>, which walks the entries
  once, accumulates per-asset totals in two maps and compares the maps, returns a hash if and only
  if every identity field is set, the journal does not reverse itself, it has two or more entries,
  each entry is well formed with a positive amount, and in every asset the debits equal the credits.
\<close>

theorem validateAndHash_exact:
  "validateAndHash H j = Inr h \<longleftrightarrow> valid_journal j \<and> H j = Some h"
  by (rule validateAndHash_iff)

text \<open>
  C1: trial balance. In every ledger reachable from the empty one by any sequence of \<open>Post\<close>,
  \<open>PostBatch\<close> and \<open>Reverse\<close> calls, successful or not, the total debits equal the total credits in
  every asset, and the three maps agree with each other (\<open>ledger_inv\<close>).
\<close>

theorem reachable_trial_balance:
  assumes "ledger_reachable H l"
  shows "ledger_total Debit a l = ledger_total Credit a l \<and> ledger_inv H l"
  using led.always[OF assms] ledger_inv_trial_balance by blast

theorem reachable_trial_balance_witness:
  "ledger_total Debit ''USD'' sample_ledger = ledger_total Credit ''USD'' sample_ledger \<and>
   ledger_total Debit ''USD'' sample_ledger = 5"
  using reachable_trial_balance[OF sample_reachable, of "''USD''"]
  by (simp add: sample_ledger_value ledger_total_def ledger_List_def sample_eval entry_units_def)

text \<open>
  C2: the ledger is append-only. Whatever calls follow, a journal that could be read can still be
  read, with the same content, hash and posting time; no call edits or removes it.
\<close>

theorem ledger_append_only:
  assumes "ledger_reachable H l" and "(ledger_step H)\<^sup>*\<^sup>* l l'" and "ledger_Get l i = Some p"
  shows "ledger_Get l' i = Some p"
  using extends_Get[OF led.reachable_later[OF assms(2,1)] assms(3)] .

theorem ledger_append_only_witness:
  "ledger_Get (snd (Reverse sample_hash 9 sample_ledger ''J1'' ''R1'' ''K2'' ''E2'' ''undo'' 8)) ''J1''
     = Some \<lparr>p_Journal = sample_journal, p_ContentHash = ''J1'', p_PostedAt = 7\<rparr>"
  by (rule ledger_append_only[OF sample_reachable sample_reverse_step])
     (simp add: sample_ledger_value ledger_Get_def)

text \<open>
  C3: a batch is atomic and idempotent. A batch that fails leaves the ledger as it was; a batch
  that succeeds returns one posted journal per journal, each on record; and from then on, at any
  time and in any later ledger, sending the same batch again returns the same journals and
  changes nothing.
\<close>

theorem PostBatch_atomic_idempotent:
  assumes "ledger_reachable H l" and "PostBatch H now l js = (r, l')"
    and "(ledger_step H)\<^sup>*\<^sup>* l' l''"
  shows "(case r of
            Inl e \<Rightarrow> l' = l
          | Inr ps \<Rightarrow> list_all2 (recorded H l') js ps \<and> PostBatch H now' l'' js = (Inr ps, l''))"
proof (cases r)
  case (Inl e)
  with assms show ?thesis using book.batch_error by fastforce
next
  case (Inr ps)
  have inv: "ledger_inv H l" by (rule led.always[OF assms(1)])
  have "extends l' l''"
    using led.later[OF assms(3)] book.batch_good[OF inv assms(2)] by blast
  with Inr inv assms(2) show ?thesis
    by (auto intro: book.batch_again book.batch_recorded)
qed

lemma sample_batch:
  "PostBatch sample_hash 7 ledger_New [sample_journal] =
     (Inr [\<lparr>p_Journal = sample_journal, p_ContentHash = ''J1'', p_PostedAt = 7\<rparr>], sample_ledger)"
  by (simp add: sample_ledger_value PostBatch_def postValidated_def ledger_New_def sample_eval Let_def)

theorem PostBatch_atomic_idempotent_witness:
  "PostBatch sample_hash 99 sample_ledger [sample_journal] =
     (Inr [\<lparr>p_Journal = sample_journal, p_ContentHash = ''J1'', p_PostedAt = 7\<rparr>], sample_ledger)"
  using PostBatch_atomic_idempotent[OF reach_init sample_batch rtranclp.rtrancl_refl, of 99] by simp

text \<open>
  C4: a reversal undoes its target and happens at most once. When \<open>Reverse\<close> stores a journal, the
  original and the reversal together net to zero on every account in every asset, the reversal is
  readable under its identifier, and in every later ledger a further \<open>Reverse\<close> of the same
  original, with any other identifiers, changes nothing.
\<close>

theorem Reverse_undoes_once:
  assumes "ledger_reachable H l"
    and "Reverse H now l o' i k s reason t = (Inr r, l')" and "l' \<noteq> l"
    and "(ledger_step H)\<^sup>*\<^sup>* l' l''"
  shows "\<exists>p. ledger_Get l o' = Some p \<and> ledger_Get l' i = Some r \<and>
      account_net acct a (j_Entries (p_Journal p) @ j_Entries (p_Journal r)) = 0 \<and>
      snd (Reverse H now' l'' o' i' k' s' reason' t') = l''"
proof -
  have inv: "ledger_inv H l" by (rule led.always[OF assms(1)])
  from Reverse_stored[OF inv assms(2,3)] obtain p where p:
    "ledger_Get l o' = Some p" "p_Journal r = reversal_journal (p_Journal p) i k s reason t"
    "ledger_Get l' i = Some r" "mget (l_reversals l') o' = Some i" by blast
  have inv': "ledger_inv H l'"
    using led.step_inv[OF inv step_Reverse[OF assms(2)]] .
  have "ledger_inv H l''" "mget (l_reversals l'') o' = Some i"
    using led.steps_inv[OF assms(4) inv'] led.later[OF assms(4) inv'] p(4)
    by (auto simp: extends_def dest: mextD)
  moreover have "\<forall>e \<in> set (j_Entries (p_Journal p)). valid_entry e"
    using ledger_inv_Get(2)[OF inv p(1)] by (simp add: valid_journal_def)
  ultimately show ?thesis
    using p by (auto simp: reversal_journal_def account_net_flip Reverse_reversed_keeps)
qed

theorem Reverse_undoes_once_witness:
  "\<exists>p. ledger_Get sample_ledger ''J1'' = Some p \<and>
      account_net ''1000'' ''USD''
        (j_Entries (p_Journal p) @
         j_Entries (reversal_journal sample_journal ''R1'' ''K2'' ''E2'' ''undo'' 8)) = 0"
  using Reverse_undoes_once[OF sample_reachable sample_reverse[unfolded Let_def]
      sample_reverse_changes rtranclp.rtrancl_refl,
      of "''1000''" "''USD''" 11 "''R2''" "''K3''" "''E3''" "''again''" 10]
  by auto

text \<open>
  C5: posting implements an append-only log. Seen through \<open>List\<close>, the indexed \<open>postValidated\<close> of a
  ledger that satisfies the invariant behaves exactly as \<open>log_post\<close>, which keeps no index and
  searches the list of posted journals: same outcome, same error, same journals afterwards.
\<close>

theorem postValidated_refines_log:
  assumes "ledger_inv H l" and "postValidated j h t l = (r, l')"
  shows "log_post j h t (ledger_List l) = (r, ledger_List l')"
  using assms by (rule postValidated_log)

theorem postValidated_refines_log_witness:
  "log_post sample_journal ''J1'' 7 (ledger_List ledger_New) =
     (Inr \<lparr>p_Journal = sample_journal, p_ContentHash = ''J1'', p_PostedAt = 7\<rparr>,
      [\<lparr>p_Journal = sample_journal, p_ContentHash = ''J1'', p_PostedAt = 7\<rparr>])"
proof -
  have "postValidated sample_journal ''J1'' 7 ledger_New =
     (Inr \<lparr>p_Journal = sample_journal, p_ContentHash = ''J1'', p_PostedAt = 7\<rparr>, sample_ledger)"
    by (simp add: sample_ledger_value postValidated_def ledger_New_def sample_eval Let_def)
  from postValidated_refines_log[OF ledger_inv_New this]
  show ?thesis by (simp add: sample_ledger_value ledger_List_def)
qed

end
