(* ===== verification/Accounting_Service.thy ===== *)
theory Accounting_Service
  imports Ledger
begin

text \<open>
  What the accounting services share: the shape of the entries they build, the way they hand
  journals to the ledger, and the contract each of them offers to the event sources that call it,
  as the locale \<open>accounting_service\<close>. The contract holds for delivery at least once: an event that
  was booked can be delivered again, at any later time, without a second booking.
\<close>

section \<open>Entries and batches\<close>

text \<open>An entry literal that sets account, side, asset, units, party and loan.\<close>

definition mk_entry :: "string \<Rightarrow> Side \<Rightarrow> string \<Rightarrow> string \<Rightarrow> string \<Rightarrow> string \<Rightarrow> Entry" where
  "mk_entry account sd asset units party loan =
     \<lparr>e_AccountCode = account, e_Side = sd, e_AssetID = asset, e_Units = units, e_PartyID = party,
      e_LoanID = loan, e_TrancheID = []\<rparr>"

lemma mk_entry_simps [simp]:
  "e_AccountCode (mk_entry c s a u q l) = c" "e_Side (mk_entry c s a u q l) = s"
  "e_AssetID (mk_entry c s a u q l) = a" "e_Units (mk_entry c s a u q l) = u"
  "e_PartyID (mk_entry c s a u q l) = q" "e_LoanID (mk_entry c s a u q l) = l"
  by (simp_all add: mk_entry_def)

text \<open>A service error: the service's own, or the ledger's.\<close>

datatype 'e service_error = Own 'e | FromLedger ledger_error

definition lift_ledger :: "(ledger_error + 'a) \<times> 'l \<Rightarrow> ('e service_error + 'a) \<times> 'l" where
  "lift_ledger r = (case r of (Inl e, l) \<Rightarrow> (Inl (FromLedger e), l) | (Inr x, l) \<Rightarrow> (Inr x, l))"

lemma lift_ledger_Inr [simp]: "lift_ledger r = (Inr x, l) \<longleftrightarrow> r = (Inr x, l)"
  by (auto simp: lift_ledger_def split: prod.splits sum.splits)

lemma lift_ledger_Inl: "lift_ledger r = (Inl e, l) \<longleftrightarrow> (\<exists>e'. r = (Inl e', l) \<and> e = FromLedger e')"
  by (auto simp: lift_ledger_def split: prod.splits sum.splits)

lemma lift_ledgerE:
  assumes "lift_ledger r = (q, l)"
  obtains r' where "r = (r', l)"
  using assms by (auto simp: lift_ledger_def split: prod.splits sum.splits)

text \<open>The outcome of a call that posts one journal, as a list.\<close>

definition as_list :: "('e + 'a) \<times> 'l \<Rightarrow> ('e + 'a list) \<times> 'l" where
  "as_list r = (case r of (Inl e, l) \<Rightarrow> (Inl e, l) | (Inr x, l) \<Rightarrow> (Inr [x], l))"

lemma as_list_Inr [simp]: "as_list r = (Inr xs, l) \<longleftrightarrow> (\<exists>x. r = (Inr x, l) \<and> xs = [x])"
  by (auto simp: as_list_def split: prod.splits sum.splits)

lemma as_list_Inl [simp]: "as_list r = (Inl e, l) \<longleftrightarrow> r = (Inl e, l)"
  by (auto simp: as_list_def split: prod.splits sum.splits)

lemma as_listE:
  assumes "as_list r = (q, l)"
  obtains r' where "r = (r', l)"
  using assms by (auto simp: as_list_def split: prod.splits sum.splits)

section \<open>The contract of a service\<close>

text \<open>Deliveries of events, each at its own time, whatever their outcomes.\<close>

fun deliver :: "(gotime \<Rightarrow> 'l \<Rightarrow> 'ev \<Rightarrow> ('e + 'r) \<times> 'l) \<Rightarrow> (gotime \<times> 'ev) list \<Rightarrow> 'l \<Rightarrow> 'l" where
  "deliver book [] l = l"
| "deliver book ((now, ev) # evs) l = deliver book evs (snd (book now l ev))"

locale accounting_service =
  fixes book :: "gotime \<Rightarrow> 'l \<Rightarrow> 'ev \<Rightarrow> ('e + 'r) \<times> 'l"
    and good :: "'l \<Rightarrow> bool"
    and later :: "'l \<Rightarrow> 'l \<Rightarrow> bool"
  assumes book_error: "book now l ev = (Inl e, l') \<Longrightarrow> l' = l"
    and book_good: "good l \<Longrightarrow> book now l ev = (r, l') \<Longrightarrow> good l'"
    and book_later: "book now l ev = (r, l') \<Longrightarrow> later l l'"
    and book_again:
      "good l \<Longrightarrow> book now l ev = (Inr x, l') \<Longrightarrow> later l' l'' \<Longrightarrow> book now' l'' ev = (Inr x, l'')"
    and later_refl: "later l l"
    and later_trans: "later l m \<Longrightarrow> later m n \<Longrightarrow> later l n"
begin

lemma deliver_later: "later l (deliver book evs l)"
proof (induction evs arbitrary: l)
  case (Cons e evs)
  obtain now ev where e: "e = (now, ev)" by (cases e)
  have "later l (snd (book now l ev))" by (rule book_later[OF prod.collapse[symmetric]])
  with Cons show ?case by (auto simp: e intro: later_trans)
qed (simp add: later_refl)

lemma deliver_good: "good l \<Longrightarrow> good (deliver book evs l)"
proof (induction evs arbitrary: l)
  case (Cons e evs)
  obtain now ev where e: "e = (now, ev)" by (cases e)
  have "good (snd (book now l ev))" by (rule book_good[OF Cons.prems prod.collapse[symmetric]])
  with Cons.IH show ?case by (simp add: e)
qed simp

text \<open>An event that was booked is booked once, however often and whenever it is delivered again.\<close>

lemma exactly_once:
  assumes "good l" and "book now l ev = (Inr x, l')"
  shows "book now' (deliver book evs l') ev = (Inr x, deliver book evs l')"
  using assms by (rule book_again) (rule deliver_later)

end

text \<open>
  Two ways to meet the contract on top of the ledger: a service that computes a batch from the event
  (or refuses the event) and posts it.
\<close>

definition post_batch_of ::
  "journal_hash \<Rightarrow> ('ev \<Rightarrow> 'e + Journal list) \<Rightarrow> gotime \<Rightarrow> Ledger \<Rightarrow> 'ev
     \<Rightarrow> ('e service_error + PostedJournal list) \<times> Ledger" where
  "post_batch_of H build now l ev =
     (case build ev of
        Inl e \<Rightarrow> (Inl (Own e), l)
      | Inr js \<Rightarrow> if js = [] then (Inr [], l) else lift_ledger (PostBatch H now l js))"

definition post_one_of ::
  "journal_hash \<Rightarrow> ('ev \<Rightarrow> 'e + Journal) \<Rightarrow> gotime \<Rightarrow> Ledger \<Rightarrow> 'ev
     \<Rightarrow> ('e service_error + PostedJournal) \<times> Ledger" where
  "post_one_of H build now l ev =
     (case build ev of
        Inl e \<Rightarrow> (Inl (Own e), l)
      | Inr j \<Rightarrow> lift_ledger (Post H now l j))"

lemma Post_replay:
  assumes "Post H now l j = (Inr p, l')" "ledger_inv H l" "extends l' l''"
  shows "Post H now' l'' j = (Inr p, l'')"
  using assms(1)
proof (cases rule: Post_cases)
  case (checked h)
  have "on_record l'' j h p"
    using postValidated_on_record[OF assms(2) checked(3)] assms(3) by (rule on_record_extends)
  with checked show ?thesis
    by (simp add: Post_def validateAndHash_iff[THEN iffD2] on_record_replay)
qed simp

interpretation batch_service: accounting_service "post_batch_of H build" "ledger_inv H" extends
  for H :: journal_hash and build :: "'ev \<Rightarrow> 'e + Journal list"
proof (unfold_locales, goal_cases)
  case 1
  then show ?case
    by (auto simp: post_batch_of_def lift_ledger_Inl split: sum.splits if_splits
        dest: PostBatch_error_keeps)
next
  case 2
  then show ?case
    by (auto simp: post_batch_of_def split: sum.splits if_splits
        elim!: lift_ledgerE intro: PostBatch_inv)
next
  case 3
  then show ?case
    by (auto simp: post_batch_of_def split: sum.splits if_splits
        elim!: lift_ledgerE intro: PostBatch_extends)
next
  case 4
  then show ?case
    by (auto simp: post_batch_of_def split: sum.splits if_splits intro: PostBatch_replay)
qed (auto intro: extends_trans)

interpretation single_service: accounting_service "post_one_of H build" "ledger_inv H" extends
  for H :: journal_hash and build :: "'ev \<Rightarrow> 'e + Journal"
proof (unfold_locales, goal_cases)
  case 1
  then show ?case
    by (auto simp: post_one_of_def lift_ledger_Inl split: sum.splits dest: Post_error_keeps)
next
  case 2
  then show ?case
    by (auto simp: post_one_of_def split: sum.splits elim!: lift_ledgerE intro: Post_inv)
next
  case 3
  then show ?case
    by (auto simp: post_one_of_def split: sum.splits elim!: lift_ledgerE intro: Post_extends)
next
  case 4
  then show ?case
    by (auto simp: post_one_of_def split: sum.splits intro: Post_replay)
qed (auto intro: extends_trans)

section \<open>Properties of every journal\<close>

text \<open>A property of journals that holds of every journal in the ledger.\<close>

definition all_journals :: "(Journal \<Rightarrow> bool) \<Rightarrow> Ledger \<Rightarrow> bool" where
  "all_journals Q l \<longleftrightarrow> (\<forall>p \<in> set (ledger_List l). Q (p_Journal p))"

lemma all_journals_New [simp]: "all_journals Q ledger_New"
  by (simp add: all_journals_def ledger_List_def ledger_New_def)

lemma postValidated_all:
  "postValidated j h t l = (r, l') \<Longrightarrow> all_journals Q l \<Longrightarrow> Q j \<Longrightarrow> all_journals Q l'"
  by (erule postValidated_cases) (auto simp: all_journals_def insert_posted_List)

lemma Post_all: "Post H now l j = (r, l') \<Longrightarrow> all_journals Q l \<Longrightarrow> Q j \<Longrightarrow> all_journals Q l'"
  by (erule Post_cases) (auto intro: postValidated_all)

lemma post_all_all:
  "post_all jhs t l = (r, l') \<Longrightarrow> all_journals Q l \<Longrightarrow> \<forall>(j, h) \<in> set jhs. Q j \<Longrightarrow> all_journals Q l'"
proof (induction jhs t l arbitrary: r rule: post_all.induct)
  case (2 j h rest t l)
  obtain q l1 where q: "postValidated j h t l = (q, l1)" by fastforce
  have "all_journals Q l1" using postValidated_all[OF q] "2.prems" by auto
  with "2.IH"[OF q[symmetric]] "2.prems" q show ?case
    by (auto split: sum.splits prod.splits)
qed simp

lemma PostBatch_all:
  assumes "PostBatch H now l js = (r, l')" "all_journals Q l" "\<forall>j \<in> set js. Q j"
  shows "all_journals Q l'"
proof (cases r)
  case (Inl e)
  with assms show ?thesis by (auto dest: PostBatch_error_keeps)
next
  case (Inr ps)
  with assms(1) obtain hs where "post_all (zip js hs) now l = (Inr ps, l')"
    by (auto elim: PostBatch_success)
  then show ?thesis
    by (rule post_all_all) (use assms in \<open>auto dest: set_zip_leftD\<close>)
qed

lemma post_batch_of_all:
  "post_batch_of H build now l ev = (r, l') \<Longrightarrow> all_journals Q l \<Longrightarrow>
   (\<And>js. build ev = Inr js \<Longrightarrow> \<forall>j \<in> set js. Q j) \<Longrightarrow> all_journals Q l'"
  by (auto simp: post_batch_of_def split: sum.splits if_splits elim!: lift_ledgerE dest: PostBatch_all)

lemma post_one_of_all:
  "post_one_of H build now l ev = (r, l') \<Longrightarrow> all_journals Q l \<Longrightarrow>
   (\<And>j. build ev = Inr j \<Longrightarrow> Q j) \<Longrightarrow> all_journals Q l'"
  by (auto simp: post_one_of_def split: sum.splits elim!: lift_ledgerE dest: Post_all)

section \<open>Net effects\<close>

definition signed_units :: "Entry \<Rightarrow> int" where
  "signed_units e = (if e_Side e = Debit then entry_units e else - entry_units e)"

text \<open>The net effect, debits positive, of the entries that satisfy \<open>P\<close>.\<close>

definition net_where :: "(Entry \<Rightarrow> bool) \<Rightarrow> Entry list \<Rightarrow> int" where
  "net_where P es = (\<Sum>e\<leftarrow>es. if P e then signed_units e else 0)"

definition ledger_net :: "(Entry \<Rightarrow> bool) \<Rightarrow> Ledger \<Rightarrow> int" where
  "ledger_net P l = (\<Sum>p\<leftarrow>ledger_List l. net_where P (j_Entries (p_Journal p)))"

lemma net_where_simps [simp]:
  "net_where P [] = 0"
  "net_where P (e # es) = (if P e then signed_units e else 0) + net_where P es"
  "net_where P (es @ fs) = net_where P es + net_where P fs"
  by (simp_all add: net_where_def)

lemma all_journals_net_zero:
  "all_journals (\<lambda>j. net_where P (j_Entries j) = 0) l \<Longrightarrow> ledger_net P l = 0"
  by (simp add: all_journals_def ledger_net_def sum_list_0 cong: map_cong)

lemma signed_units_mk [simp]:
  "signed_units (mk_entry c Debit a u q l) = the_default 0 (big_set_string u)"
  "signed_units (mk_entry c Credit a u q l) = - the_default 0 (big_set_string u)"
  by (simp_all add: signed_units_def entry_units_def the_default_def)

end
