(* ===== verification/Payment_Types.thy ===== *)
theory Payment_Types
  imports Go_Prelude
begin

text \<open>
  The vocabulary of \<^verbatim>\<open>payment-orchestrator/payment/payment.go\<close> that other packages use: rails,
  statuses and their order, intents, provider callbacks and the accounting transition.
  A string type with named constants is a datatype with a constructor per constant, one for the
  empty string and one for any other text.
\<close>

datatype Rail = RailBank | RailCard | UnknownRail string

datatype Status =
    StatusCreated | StatusProcessing | StatusProvisional | StatusFinal | StatusFailed
  | StatusReversed | StatusDisputed | NoStatus | UnknownStatus string

record PaymentIntent =
  in_PaymentID :: string
  in_LegalEntityID :: string
  in_IdempotencyKey :: string
  in_CorrelationID :: string
  in_PayerReference :: string
  in_LoanID :: string
  in_ProviderID :: string
  in_ProviderReference :: string
  in_Rail :: Rail
  in_Purpose :: string
  in_AssetID :: string
  in_Units :: string
  in_ExpiresAt :: gotime
  in_SchemaVersion :: "32 word"
  in_Status :: Status
  in_Version :: "64 word"
  in_CreatedAt :: gotime
  in_UpdatedAt :: gotime
  in_ProvisionalAt :: gotime
  in_FinalizedAt :: gotime
  in_ReversedAt :: gotime

record Callback =
  cb_ProviderID :: string
  cb_ProviderEventID :: string
  cb_PaymentID :: string
  cb_ProviderReference :: string
  cb_Status :: Status
  cb_AssetID :: string
  cb_Units :: string
  cb_OccurredAt :: gotime
  cb_ExpiresAt :: gotime
  cb_EvidenceHash :: string

record PaymentTransition =
  tr_Payment :: PaymentIntent
  tr_From :: Status
  tr_To :: Status
  tr_ProviderEventID :: string
  tr_OccurredAt :: gotime
  tr_ReceivedAt :: gotime
  tr_EvidenceHash :: string

fun allowedTransition :: "Status \<Rightarrow> Status \<Rightarrow> bool" where
  "allowedTransition StatusCreated to = (to = StatusProcessing \<or> to = StatusFailed)"
| "allowedTransition StatusProcessing to = (to = StatusProvisional \<or> to = StatusFailed)"
| "allowedTransition StatusProvisional to = (to = StatusFinal \<or> to = StatusReversed)"
| "allowedTransition StatusFinal to = (to = StatusReversed)"
| "allowedTransition _ to = False"

definition accountingTransition :: "Status \<Rightarrow> bool" where
  "accountingTransition s \<longleftrightarrow> s = StatusProvisional \<or> s = StatusFinal \<or> s = StatusReversed"

fun callbackStatus :: "Status \<Rightarrow> bool" where
  "callbackStatus StatusProcessing = True"
| "callbackStatus StatusProvisional = True"
| "callbackStatus StatusFinal = True"
| "callbackStatus StatusFailed = True"
| "callbackStatus StatusReversed = True"
| "callbackStatus _ = False"

definition validRail :: "Rail \<Rightarrow> bool" where
  "validRail r \<longleftrightarrow> r = RailBank \<or> r = RailCard"

text \<open>How far a payment has come: every allowed transition goes up.\<close>

fun status_rank :: "Status \<Rightarrow> nat" where
  "status_rank StatusCreated = 0"
| "status_rank StatusProcessing = 1"
| "status_rank StatusProvisional = 2"
| "status_rank StatusFinal = 3"
| "status_rank _ = 4"

lemma allowedTransition_rank: "allowedTransition s t \<Longrightarrow> status_rank s < status_rank t"
  by (cases s) auto

lemma allowedTransition_reversed:
  "allowedTransition s StatusReversed \<longleftrightarrow> s = StatusProvisional \<or> s = StatusFinal"
  by (cases s) auto

end
