(* ===== verification/Payment_Accounting.thy ===== *)
theory Payment_Accounting
  imports Accounting_Service Payment_Types
begin

text \<open>
  Payment accounting, \<^verbatim>\<open>foundation-ledger/internal/paymentaccounting/accounting.go\<close>: the poster that
  books provisional, final and reversal journals of a payment, and what it promises the orchestrator.
  \<open>hashJSON\<close> of a transition is an argument. The reconciler of the same file is in the theory
  \<open>Payment_Reconciliation\<close>.
\<close>

section \<open>The poster\<close>

datatype payment_posting_error =
    ErrInvalidPosting | ErrTransitionConflict | ErrInvalidReconciliation | ErrReconciliationConflict
  | ErrInvalidReconciliationResolution

record PaymentRecord =
  rc_PaymentID :: string
  rc_ProvisionalJournalID :: string
  rc_FinalJournalID :: string
  rc_ReversalJournalIDs :: "string list"

record appliedTransition =
  ap_contentHash :: string
  ap_journalIDs :: "string list"

record PaymentPoster =
  pp_book :: Ledger
  pp_legalEntityID :: string
  pp_bookID :: string
  pp_records :: "(string, PaymentRecord) gomap"
  pp_events :: "(string, appliedTransition) gomap"

definition zero_record :: PaymentRecord where
  "zero_record = \<lparr>rc_PaymentID = [], rc_ProvisionalJournalID = [], rc_FinalJournalID = [],
     rc_ReversalJournalIDs = []\<rparr>"

definition payment_poster_New ::
  "Ledger \<Rightarrow> string \<Rightarrow> string \<Rightarrow> payment_posting_error + PaymentPoster" where
  "payment_poster_New book legalEntityID bookID =
     (if legalEntityID = [] \<or> bookID = [] then Inl ErrInvalidPosting
      else Inr \<lparr>pp_book = book, pp_legalEntityID = legalEntityID, pp_bookID = bookID,
                pp_records = [], pp_events = []\<rparr>)"

definition payment_entry :: "PaymentTransition \<Rightarrow> string \<Rightarrow> Side \<Rightarrow> Entry" where
  "payment_entry t account sd =
     mk_entry account sd (in_AssetID (tr_Payment t)) (in_Units (tr_Payment t))
       (in_PayerReference (tr_Payment t)) (in_LoanID (tr_Payment t))"

definition reversalReason :: "string \<Rightarrow> string" where
  "reversalReason reversalOf = (if reversalOf = [] then [] else ''authenticated provider reversal'')"

definition payment_journal ::
  "PaymentPoster \<Rightarrow> PaymentTransition \<Rightarrow> string \<Rightarrow> string \<Rightarrow> Entry list \<Rightarrow> string \<Rightarrow> Journal" where
  "payment_journal p t entryType stage entries reversalOf =
     \<lparr>j_ID = ''payment:'' @ in_PaymentID (tr_Payment t) @ '':'' @ stage,
      j_LegalEntityID = pp_legalEntityID p, j_BookID = pp_bookID p,
      j_SourceSystem = ''payment-orchestrator'', j_EntryType = entryType,
      j_SourceEventID = in_ProviderID (tr_Payment t) @ '':'' @ tr_ProviderEventID t,
      j_LoanID = in_LoanID (tr_Payment t),
      j_IdempotencyKey = ''payment:'' @ in_PaymentID (tr_Payment t) @ '':'' @ stage,
      j_CorrelationID = in_CorrelationID (tr_Payment t), j_EffectiveAt = tr_OccurredAt t,
      j_Entries = entries, j_EvidenceHash = tr_EvidenceHash t, j_ReversalOf = reversalOf,
      j_Reason = reversalReason reversalOf\<rparr>"

definition pendingAccount :: "Rail \<Rightarrow> string" where
  "pendingAccount r = (if r = RailCard then ''9130'' else ''9140'')"

definition settlementAccount :: "Rail \<Rightarrow> string" where
  "settlementAccount r = (if r = RailCard then ''1120'' else ''1100'')"

definition provisionalJournal :: "PaymentPoster \<Rightarrow> PaymentTransition \<Rightarrow> Journal" where
  "provisionalJournal p t =
     payment_journal p t ''PAYMENT_PROVISIONAL'' ''provisional''
       [payment_entry t (pendingAccount (in_Rail (tr_Payment t))) Debit,
        payment_entry t ''9120'' Credit] []"

definition finalJournal :: "PaymentPoster \<Rightarrow> PaymentTransition \<Rightarrow> Journal" where
  "finalJournal p t =
     payment_journal p t ''PAYMENT_FINAL'' ''final''
       [payment_entry t (settlementAccount (in_Rail (tr_Payment t))) Debit,
        payment_entry t (pendingAccount (in_Rail (tr_Payment t))) Credit] []"

definition reversed_line :: "Entry \<Rightarrow> Entry" where
  "reversed_line e = e\<lparr>e_Side := (if e_Side e = Debit then Credit else Debit)\<rparr>"

definition reversalJournal :: "PaymentPoster \<Rightarrow> PaymentTransition \<Rightarrow> PostedJournal \<Rightarrow> Journal" where
  "reversalJournal p t original =
     payment_journal p t ''PAYMENT_REVERSAL''
       ((if j_EntryType (p_Journal original) = ''PAYMENT_FINAL'' then ''final'' else ''provisional'')
          @ ''-reversal'')
       (map reversed_line (j_Entries (p_Journal original))) (j_ID (p_Journal original))"

fun reversal_batch ::
  "PaymentPoster \<Rightarrow> PaymentTransition \<Rightarrow> string list \<Rightarrow> Journal list option" where
  "reversal_batch p t [] = Some []"
| "reversal_batch p t (target # targets) =
     (if target = [] then None
      else case ledger_Get (pp_book p) target of
        None \<Rightarrow> None
      | Some original \<Rightarrow>
          map_option (\<lambda>js. reversalJournal p t original # js) (reversal_batch p t targets))"

text \<open>The \<open>switch\<close> of \<open>Apply\<close>: the journals to post and the record to keep.\<close>

definition transition_batch ::
  "PaymentPoster \<Rightarrow> PaymentTransition \<Rightarrow> PaymentRecord \<Rightarrow> (Journal list \<times> PaymentRecord) option" where
  "transition_batch p t rec =
     (case tr_To t of
        StatusProvisional \<Rightarrow>
          if tr_From t \<noteq> StatusProcessing \<or> rc_ProvisionalJournalID rec \<noteq> [] then None
          else let j = provisionalJournal p t
               in Some ([j], rec\<lparr>rc_PaymentID := in_PaymentID (tr_Payment t),
                                rc_ProvisionalJournalID := j_ID j\<rparr>)
      | StatusFinal \<Rightarrow>
          if tr_From t \<noteq> StatusProvisional \<or> rc_ProvisionalJournalID rec = [] \<or>
             rc_FinalJournalID rec \<noteq> [] then None
          else let j = finalJournal p t in Some ([j], rec\<lparr>rc_FinalJournalID := j_ID j\<rparr>)
      | StatusReversed \<Rightarrow>
          if rc_ReversalJournalIDs rec \<noteq> [] \<or> (tr_From t \<noteq> StatusProvisional \<and> tr_From t \<noteq> StatusFinal)
          then None
          else map_option (\<lambda>js. (js, rec))
                 (reversal_batch p t
                    (if tr_From t = StatusFinal
                     then [rc_FinalJournalID rec, rc_ProvisionalJournalID rec]
                     else [rc_ProvisionalJournalID rec]))
      | _ \<Rightarrow> None)"

definition event_key :: "string \<Rightarrow> string \<Rightarrow> string" where
  "event_key providerID providerEventID = providerID @ [CHR 0x00] @ providerEventID"

definition invalid_transition :: "PaymentTransition \<Rightarrow> bool" where
  "invalid_transition t \<longleftrightarrow>
     in_PaymentID (tr_Payment t) = [] \<or> in_ProviderID (tr_Payment t) = [] \<or>
     tr_ProviderEventID t = [] \<or> tr_EvidenceHash t = [] \<or> tr_OccurredAt t = 0 \<or>
     tr_ReceivedAt t = 0 \<or> in_Status (tr_Payment t) \<noteq> tr_To t"

definition payment_Apply ::
  "journal_hash \<Rightarrow> (PaymentTransition \<Rightarrow> string) \<Rightarrow> gotime \<Rightarrow> PaymentPoster \<Rightarrow> PaymentTransition
     \<Rightarrow> (payment_posting_error service_error + string list) \<times> PaymentPoster" where
  "payment_Apply H hashT now p t =
     (if invalid_transition t then (Inl (Own ErrInvalidPosting), p)
      else
        let contentHash = hashT t;
            key = event_key (in_ProviderID (tr_Payment t)) (tr_ProviderEventID t)
        in case mget (pp_events p) key of
             Some existing \<Rightarrow>
               if ap_contentHash existing \<noteq> contentHash then (Inl (Own ErrTransitionConflict), p)
               else (Inr (ap_journalIDs existing), p)
           | None \<Rightarrow>
               (case transition_batch p t (the_default zero_record (mget (pp_records p) (in_PaymentID (tr_Payment t)))) of
                  None \<Rightarrow> (Inl (Own ErrInvalidPosting), p)
                | Some (js, rec) \<Rightarrow>
                    (case PostBatch H now (pp_book p) js of
                       (Inl err, l) \<Rightarrow> (Inl (FromLedger err), p\<lparr>pp_book := l\<rparr>)
                     | (Inr posted, l) \<Rightarrow>
                         let ids = map (\<lambda>q. j_ID (p_Journal q)) posted;
                             rec' = (if tr_To t = StatusReversed then rec\<lparr>rc_ReversalJournalIDs := ids\<rparr> else rec)
                         in (Inr ids,
                             p\<lparr>pp_book := l,
                               pp_records := mput (in_PaymentID (tr_Payment t)) rec' (pp_records p),
                               pp_events := mput key \<lparr>ap_contentHash = contentHash, ap_journalIDs = ids\<rparr>
                                 (pp_events p)\<rparr>))))"

definition payment_Record :: "PaymentPoster \<Rightarrow> string \<Rightarrow> PaymentRecord option" where
  "payment_Record p paymentID = mget (pp_records p) paymentID"

section \<open>Posting journals that are new\<close>

text \<open>Journals whose idempotency scopes are not in use are stored as they are, one after the other.\<close>

definition by_journal_id :: "Journal list \<Rightarrow> string \<Rightarrow> Journal option" where
  "by_journal_id js = map_of (map (\<lambda>j. (j_ID j, j)) js)"

lemma by_journal_id_simps [simp]:
  "by_journal_id [] i = None"
  "by_journal_id (j # js) i = (if i = j_ID j then Some j else by_journal_id js i)"
  by (simp_all add: by_journal_id_def)

lemma by_journal_id_None: "by_journal_id js i = None \<longleftrightarrow> i \<notin> j_ID ` set js"
  by (induction js) auto

abbreviation journal_on_file :: "Ledger \<Rightarrow> string \<Rightarrow> Journal option" where
  "journal_on_file l i \<equiv> map_option p_Journal (mget (l_byID l) i)"

lemma post_all_new:
  assumes "post_all jhs t l = (Inr ps, l')"
    and "distinct (map idempotency_scope (map fst jhs))"
    and "list_all (\<lambda>j. mget (l_idempotency l) (idempotency_scope j) = None) (map fst jhs)"
  shows "map p_Journal ps = map fst jhs \<and>
     list_all (\<lambda>j. mget (l_byID l) (j_ID j) = None) (map fst jhs) \<and> distinct (map j_ID (map fst jhs)) \<and>
     (\<forall>i. journal_on_file l' i =
        (case by_journal_id (map fst jhs) i of Some j \<Rightarrow> Some j | None \<Rightarrow> journal_on_file l i))"
  using assms
proof (induction jhs arbitrary: l ps)
  case (Cons jh jhs)
  obtain j h where jh: "jh = (j, h)" by (cases jh)
  from Cons.prems(1) obtain p l1 ps1 where post: "postValidated j h t l = (Inr p, l1)"
    "post_all jhs t l1 = (Inr ps1, l')" "ps = p # ps1"
    by (auto simp: jh split: prod.splits sum.splits)
  have new: "mget (l_idempotency l) (idempotency_scope j) = None" using Cons.prems(3) by (simp add: jh)
  from post(1) new have st: "postable j l" "p = \<lparr>p_Journal = j, p_ContentHash = h, p_PostedAt = t\<rparr>"
    "l1 = insert_posted j h t l"
    by (auto elim!: postValidated_cases)
  have "list_all (\<lambda>j. mget (l_idempotency l1) (idempotency_scope j) = None) (map fst jhs)"
    using Cons.prems(2,3) by (auto simp: st(3) insert_posted_def jh list_all_iff) (metis fst_conv image_eqI)
  with Cons.IH[OF post(2)] Cons.prems(2)
  have IH: "map p_Journal ps1 = map fst jhs" "list_all (\<lambda>j. mget (l_byID l1) (j_ID j) = None) (map fst jhs)"
    "distinct (map j_ID (map fst jhs))"
    "\<And>i. journal_on_file l' i =
       (case by_journal_id (map fst jhs) i of Some j \<Rightarrow> Some j | None \<Rightarrow> journal_on_file l1 i)"
    by (simp_all add: jh)
  have fresh: "mget (l_byID l) (j_ID j) = None" using st(1) by (simp add: postable_def mhas_def)
  have others: "list_all (\<lambda>k. j_ID k \<noteq> j_ID j \<and> mget (l_byID l) (j_ID k) = None) (map fst jhs)"
    using IH(2) by (auto simp: st(3) insert_posted_def list_all_iff split: if_splits)
  then have "by_journal_id (map fst jhs) (j_ID j) = None" "j_ID j \<notin> j_ID ` set (map fst jhs)"
    by (auto simp: by_journal_id_None list_all_iff)
  moreover have "journal_on_file l1 i = (if i = j_ID j then Some j else journal_on_file l i)" for i
    by (simp add: st(3) insert_posted_def)
  moreover have "list_all (\<lambda>k. mget (l_byID l) (j_ID k) = None) (map fst jhs)"
    using others by (auto simp: list_all_iff)
  ultimately show ?case
    using IH(1,3) fresh by (simp add: jh post(3) st(2) IH(4) image_image split: option.split)
qed simp

lemma PostBatch_new:
  assumes run: "PostBatch H now l js = (Inr ps, l')"
    and "distinct (map idempotency_scope js)"
    and "list_all (\<lambda>j. mget (l_idempotency l) (idempotency_scope j) = None) js"
  shows "map p_Journal ps = js" "list_all (\<lambda>j. mget (l_byID l) (j_ID j) = None) js"
    "distinct (map j_ID js)"
    "journal_on_file l' i =
       (case by_journal_id js i of Some j \<Rightarrow> Some j | None \<Rightarrow> journal_on_file l i)"
proof -
  from run obtain hs where hs: "hash_all H js = Inr hs" "post_all (zip js hs) now l = (Inr ps, l')"
    by (auto elim: PostBatch_success)
  have z: "map fst (zip js hs) = js"
    using hs(1) by (auto simp: hash_all_validated dest!: list_all2_lengthD)
  from post_all_new[OF hs(2), unfolded z, OF assms(2,3)]
  show "map p_Journal ps = js" "list_all (\<lambda>j. mget (l_byID l) (j_ID j) = None) js"
    "distinct (map j_ID js)"
    "journal_on_file l' i =
       (case by_journal_id js i of Some j \<Rightarrow> Some j | None \<Rightarrow> journal_on_file l i)"
    by blast+
qed

section \<open>What is on file for a payment\<close>

definition stage_names :: "string list" where
  "stage_names = [''provisional'', ''final'', ''provisional-reversal'', ''final-reversal'']"

definition pay_id :: "string \<Rightarrow> string \<Rightarrow> string" where
  "pay_id pid stage = ''payment:'' @ pid @ '':'' @ stage"

definition pay_scope :: "PaymentPoster \<Rightarrow> string \<Rightarrow> string" where
  "pay_scope p i = pp_legalEntityID p @ [CHR 0x00] @ ''payment-orchestrator'' @ [CHR 0x00] @ i"

definition on_file :: "PaymentPoster \<Rightarrow> string \<Rightarrow> string \<Rightarrow> Journal option" where
  "on_file p pid stage = journal_on_file (pp_book p) (pay_id pid stage)"

definition lines :: "Journal option \<Rightarrow> Entry list" where
  "lines x = (case x of None \<Rightarrow> [] | Some j \<Rightarrow> j_Entries j)"

text \<open>The net effect, on one account in one asset, of every journal on file for the payment.\<close>

definition pay_position :: "PaymentPoster \<Rightarrow> string \<Rightarrow> string \<Rightarrow> string \<Rightarrow> int" where
  "pay_position p pid acct asset =
     (\<Sum>s\<leftarrow>stage_names. account_net acct asset (lines (on_file p pid s)))"

text \<open>How far the books of the payment have come.\<close>

definition pay_stage :: "PaymentPoster \<Rightarrow> string \<Rightarrow> Status" where
  "pay_stage p pid =
     (if on_file p pid ''provisional-reversal'' \<noteq> None then StatusReversed
      else if on_file p pid ''final'' \<noteq> None then StatusFinal
      else if on_file p pid ''provisional'' \<noteq> None then StatusProvisional
      else NoStatus)"

definition record_ok :: "PaymentPoster \<Rightarrow> string \<Rightarrow> bool" where
  "record_ok p pid \<longleftrightarrow>
     (let r = the_default zero_record (mget (pp_records p) pid) in
      rc_ProvisionalJournalID r = (if on_file p pid ''provisional'' = None then [] else pay_id pid ''provisional'') \<and>
      rc_FinalJournalID r = (if on_file p pid ''final'' = None then [] else pay_id pid ''final'') \<and>
      (rc_ReversalJournalIDs r = [] \<longleftrightarrow> on_file p pid ''provisional-reversal'' = None) \<and>
      (on_file p pid ''final'' \<noteq> None \<longrightarrow> on_file p pid ''provisional'' \<noteq> None) \<and>
      (on_file p pid ''provisional-reversal'' = None \<longrightarrow> on_file p pid ''final-reversal'' = None) \<and>
      (\<forall>j. on_file p pid ''final'' = Some j \<longrightarrow> j_EntryType j = ''PAYMENT_FINAL'') \<and>
      (\<forall>j. on_file p pid ''provisional'' = Some j \<longrightarrow> j_EntryType j \<noteq> ''PAYMENT_FINAL''))"

definition scopes_ok :: "PaymentPoster \<Rightarrow> bool" where
  "scopes_ok p \<longleftrightarrow>
     (\<forall>i q pid s. mget (l_byID (pp_book p)) i = Some q \<and> s \<in> set stage_names \<and>
        idempotency_scope (p_Journal q) = pay_scope p (pay_id pid s) \<longrightarrow> i = pay_id pid s)"

definition payment_poster_inv :: "journal_hash \<Rightarrow> PaymentPoster \<Rightarrow> bool" where
  "payment_poster_inv H p \<longleftrightarrow>
     ledger_inv H (pp_book p) \<and> scopes_ok p \<and> (\<forall>pid. record_ok p pid)"

lemma last_colon:
  assumes "CHR '':'' \<notin> set s" "CHR '':'' \<notin> set s'"
  shows "x @ CHR '':'' # s = x' @ CHR '':'' # s' \<longleftrightarrow> x = x' \<and> s = s'"
proof
  assume "x @ CHR '':'' # s = x' @ CHR '':'' # s'"
  then have r: "rev s @ CHR '':'' # rev x = rev s' @ CHR '':'' # rev x'"
    by (metis append.assoc append_Cons append_Nil rev.simps(2) rev_append)
  have t: "takeWhile (\<lambda>c. c \<noteq> CHR '':'') (rev u @ CHR '':'' # v) = rev u" if "CHR '':'' \<notin> set u" for u v
    using that by (subst takeWhile_append2) auto
  from r have "rev s = rev s'" using t[OF assms(1)] t[OF assms(2)] by metis
  with r show "x = x' \<and> s = s'" by simp
qed simp

lemma stage_names_colon: "s \<in> set stage_names \<Longrightarrow> CHR '':'' \<notin> set s"
  by (auto simp: stage_names_def)

lemma pay_id_inject [simp]:
  "s \<in> set stage_names \<Longrightarrow> s' \<in> set stage_names \<Longrightarrow> pay_id pid s = pay_id pid' s' \<longleftrightarrow> pid = pid' \<and> s = s'"
  using last_colon[OF stage_names_colon stage_names_colon, of s s' "''payment:'' @ pid" "''payment:'' @ pid'"]
  by (simp add: pay_id_def)

lemma pay_scope_inject [simp]: "pay_scope p i = pay_scope p i' \<longleftrightarrow> i = i'"
  by (simp add: pay_scope_def)

lemma pay_id_nonempty [simp]: "pay_id pid s \<noteq> []"
  by (simp add: pay_id_def)

lemma stage_names_mem [simp]:
  "''provisional'' \<in> set stage_names" "''final'' \<in> set stage_names"
  "''provisional-reversal'' \<in> set stage_names" "''final-reversal'' \<in> set stage_names"
  by (simp_all add: stage_names_def)

lemma payment_journal_simps [simp]:
  "j_ID (payment_journal p t y s es r) = pay_id (in_PaymentID (tr_Payment t)) s"
  "idempotency_scope (payment_journal p t y s es r) = pay_scope p (pay_id (in_PaymentID (tr_Payment t)) s)"
  "j_Entries (payment_journal p t y s es r) = es" "j_EntryType (payment_journal p t y s es r) = y"
  by (simp_all add: payment_journal_def pay_id_def pay_scope_def idempotency_scope_def)

lemma unused_scope:
  assumes "payment_poster_inv H p" "s \<in> set stage_names" "on_file p pid s = None"
  shows "mget (l_idempotency (pp_book p)) (pay_scope p (pay_id pid s)) = None"
proof (rule ccontr)
  assume "mget (l_idempotency (pp_book p)) (pay_scope p (pay_id pid s)) \<noteq> None"
  then obtain i where "mget (l_idempotency (pp_book p)) (pay_scope p (pay_id pid s)) = Some i" by auto
  moreover have "ledger_inv H (pp_book p)" using assms(1) by (simp add: payment_poster_inv_def)
  ultimately obtain q where q: "mget (l_byID (pp_book p)) i = Some q"
    "idempotency_scope (p_Journal q) = pay_scope p (pay_id pid s)"
    by (auto simp: ledger_inv_scope)
  then have "i = pay_id pid s" using assms(1,2) by (auto simp: payment_poster_inv_def scopes_ok_def)
  with q(1) assms(3) show False by (simp add: on_file_def)
qed

lemma account_net_reversed: "account_net c a (map reversed_line es) = - account_net c a es"
  by (induction es) (auto simp: account_net_def reversed_line_def entry_units_def)

lemma lines_simps [simp]: "lines None = []" "lines (Some j) = j_Entries j"
  by (simp_all add: lines_def)

lemma account_net_Nil [simp]: "account_net c a [] = 0"
  by (simp add: account_net_def)

lemma pay_position_unfold:
  "pay_position p pid c a =
     account_net c a (lines (on_file p pid ''provisional'')) + account_net c a (lines (on_file p pid ''final'')) +
     account_net c a (lines (on_file p pid ''provisional-reversal'')) +
     account_net c a (lines (on_file p pid ''final-reversal''))"
  by (simp add: pay_position_def stage_names_def)

section \<open>What \<open>Apply\<close> does to the books\<close>

lemma payment_Apply_cases:
  assumes "payment_Apply H hashT now p t = (r, p')"
  obtains (refused) err where "r = Inl err" "p' = p"
  | (replayed) ex where
      "mget (pp_events p) (event_key (in_ProviderID (tr_Payment t)) (tr_ProviderEventID t)) = Some ex"
      "r = Inr (ap_journalIDs ex)" "p' = p"
  | (posted) js rec ps l ids rec' where
      "\<not> invalid_transition t"
      "mget (pp_events p) (event_key (in_ProviderID (tr_Payment t)) (tr_ProviderEventID t)) = None"
      "transition_batch p t (the_default zero_record (mget (pp_records p) (in_PaymentID (tr_Payment t)))) = Some (js, rec)"
      "PostBatch H now (pp_book p) js = (Inr ps, l)" "ids = map (\<lambda>q. j_ID (p_Journal q)) ps" "r = Inr ids"
      "rec' = (if tr_To t = StatusReversed then rec\<lparr>rc_ReversalJournalIDs := ids\<rparr> else rec)"
      "p' = p\<lparr>pp_book := l, pp_records := mput (in_PaymentID (tr_Payment t)) rec' (pp_records p),
              pp_events := mput (event_key (in_ProviderID (tr_Payment t)) (tr_ProviderEventID t))
                 \<lparr>ap_contentHash = hashT t, ap_journalIDs = ids\<rparr> (pp_events p)\<rparr>"
proof (cases "invalid_transition t")
  case True
  with assms show thesis by (auto simp: payment_Apply_def intro: refused)
next
  case valid: False
  let ?key = "event_key (in_ProviderID (tr_Payment t)) (tr_ProviderEventID t)"
  let ?rec = "the_default zero_record (mget (pp_records p) (in_PaymentID (tr_Payment t)))"
  note run = assms[unfolded payment_Apply_def if_not_P[OF valid] Let_def]
  show thesis
  proof (cases "mget (pp_events p) ?key")
    case (Some ex)
    with run show thesis by (auto split: if_splits intro: refused replayed)
  next
    case new: None
    show thesis
    proof (cases "transition_batch p t ?rec")
      case None
      with run new show thesis by (auto intro: refused)
    next
      case (Some jr)
      obtain js rec where jr: "jr = (js, rec)" by (cases jr)
      obtain out l where out: "PostBatch H now (pp_book p) js = (out, l)" by fastforce
      show thesis
      proof (cases out)
        case (Inl e)
        with run new Some jr out PostBatch_error_keeps show thesis by (auto intro: refused)
      next
        case (Inr ps)
        with run new Some jr out show thesis
          by (intro posted[OF valid new Some[unfolded jr] out[unfolded Inr] refl _ refl]) auto
      qed
    qed
  qed
qed

definition own_journal :: "PaymentPoster \<Rightarrow> string \<Rightarrow> Journal \<Rightarrow> bool" where
  "own_journal p pid j \<longleftrightarrow>
     (\<exists>s \<in> set stage_names. j_ID j = pay_id pid s \<and> idempotency_scope j = pay_scope p (pay_id pid s) \<and>
        on_file p pid s = None)"

lemma posted_effect:
  assumes inv: "payment_poster_inv H p" and own: "list_all (own_journal p pid) js"
    and dist: "distinct (map j_ID js)"
    and run: "PostBatch H now (pp_book p) js = (Inr ps, l)"
    and p': "pp_book p' = l" "pp_legalEntityID p' = pp_legalEntityID p"
  shows "map p_Journal ps = js" "ledger_inv H l" "scopes_ok p'"
    "on_file p' q s = (case by_journal_id js (pay_id q s) of Some j \<Rightarrow> Some j | None \<Rightarrow> on_file p q s)"
proof -
  have L: "ledger_inv H (pp_book p)" using inv by (simp add: payment_poster_inv_def)
  have scope: "idempotency_scope j = pay_scope p (j_ID j)" if "j \<in> set js" for j
    using own that by (auto simp: list_all_iff own_journal_def)
  then have "map idempotency_scope js = map (pay_scope p) (map j_ID js)" by simp
  moreover have "inj (pay_scope p)" by (rule injI) simp
  ultimately have d1: "distinct (map idempotency_scope js)"
    using dist by (metis distinct_map inj_on_subset subset_UNIV)
  have d2: "list_all (\<lambda>j. mget (l_idempotency (pp_book p)) (idempotency_scope j) = None) js"
    using own unused_scope[OF inv] by (auto simp: list_all_iff own_journal_def)
  note new = PostBatch_new[OF run d1 d2]
  show "map p_Journal ps = js" by (rule new(1))
  show l: "ledger_inv H l" by (rule PostBatch_inv[OF run L])
  have fl: "journal_on_file l i = (case by_journal_id js i of Some j \<Rightarrow> Some j | None \<Rightarrow> journal_on_file (pp_book p) i)"
    for i by (rule new(4))
  show "on_file p' q s = (case by_journal_id js (pay_id q s) of Some j \<Rightarrow> Some j | None \<Rightarrow> on_file p q s)"
    unfolding on_file_def p' by (rule fl)
  have by_id: "by_journal_id js i = Some j \<Longrightarrow> j \<in> set js \<and> j_ID j = i" for i j
    by (induction js) (auto split: if_splits)
  have ps: "pay_scope p' = pay_scope p" by (auto simp: pay_scope_def p' fun_eq_iff)
  show "scopes_ok p'"
    unfolding scopes_ok_def
  proof (intro allI impI, elim conjE)
    fix i x pid' s'
    assume x: "mget (l_byID (pp_book p')) i = Some x" "s' \<in> set stage_names"
      "idempotency_scope (p_Journal x) = pay_scope p' (pay_id pid' s')"
    then have "journal_on_file l i = Some (p_Journal x)" by (simp add: p')
    with fl[of i] consider "by_journal_id js i = Some (p_Journal x)"
      | "journal_on_file (pp_book p) i = Some (p_Journal x)"
      by (cases "by_journal_id js i") (auto simp only: option.case)
    then show "i = pay_id pid' s'"
    proof cases
      case 1
      with by_id[OF 1] scope[of "p_Journal x"] x(3) show ?thesis by (simp add: ps)
    next
      case 2
      then obtain y where "mget (l_byID (pp_book p)) i = Some y" "p_Journal y = p_Journal x" by auto
      with x(2,3) inv show ?thesis
        unfolding payment_poster_inv_def scopes_ok_def by (metis ps)
    qed
  qed
qed

lemma record_okD:
  assumes "payment_poster_inv H p"
  shows "rc_ProvisionalJournalID (the_default zero_record (mget (pp_records p) pid)) =
      (if on_file p pid ''provisional'' = None then [] else pay_id pid ''provisional'')"
    "rc_FinalJournalID (the_default zero_record (mget (pp_records p) pid)) =
      (if on_file p pid ''final'' = None then [] else pay_id pid ''final'')"
    "rc_ReversalJournalIDs (the_default zero_record (mget (pp_records p) pid)) = [] \<longleftrightarrow>
      on_file p pid ''provisional-reversal'' = None"
    "on_file p pid ''final'' \<noteq> None \<Longrightarrow> on_file p pid ''provisional'' \<noteq> None"
    "on_file p pid ''provisional-reversal'' = None \<Longrightarrow> on_file p pid ''final-reversal'' = None"
    "on_file p pid ''final'' = Some j \<Longrightarrow> j_EntryType j = ''PAYMENT_FINAL''"
    "on_file p pid ''provisional'' = Some j \<Longrightarrow> j_EntryType j \<noteq> ''PAYMENT_FINAL''"
  using assms by (auto simp: payment_poster_inv_def record_ok_def Let_def)

lemma ledger_Get_on_file:
  assumes "payment_poster_inv H p" "ledger_Get (pp_book p) (pay_id pid s) = Some q"
  shows "on_file p pid s = Some (p_Journal q)" "j_ID (p_Journal q) = pay_id pid s"
  using assms ledger_inv_Get(1)[of H "pp_book p" "pay_id pid s" q]
  by (auto simp: on_file_def ledger_Get_def payment_poster_inv_def)

lemma reversal_batch_targets:
  "reversal_batch p t targets = Some js \<Longrightarrow>
   list_all2 (\<lambda>i j. i \<noteq> [] \<and> (\<exists>q. ledger_Get (pp_book p) i = Some q \<and> j = reversalJournal p t q)) targets js"
  by (induction targets arbitrary: js) (auto split: if_splits option.splits)

text \<open>The journals of a transition, by its target status.\<close>

lemma transition_batch_cases:
  assumes inv: "payment_poster_inv H p" and pid: "pid = in_PaymentID (tr_Payment t)"
    and b: "transition_batch p t (the_default zero_record (mget (pp_records p) pid)) = Some (js, rec)"
  obtains (provisional) "tr_To t = StatusProvisional" "tr_From t = StatusProcessing"
      "on_file p pid ''provisional'' = None" "js = [provisionalJournal p t]"
      "rec = (the_default zero_record (mget (pp_records p) pid))
         \<lparr>rc_PaymentID := pid, rc_ProvisionalJournalID := pay_id pid ''provisional''\<rparr>"
  | (final) jp where "tr_To t = StatusFinal" "tr_From t = StatusProvisional"
      "on_file p pid ''provisional'' = Some jp" "on_file p pid ''final'' = None" "js = [finalJournal p t]"
      "rec = (the_default zero_record (mget (pp_records p) pid))\<lparr>rc_FinalJournalID := pay_id pid ''final''\<rparr>"
  | (reversed_provisional) jp where "tr_To t = StatusReversed" "tr_From t = StatusProvisional"
      "on_file p pid ''provisional'' = Some jp" "on_file p pid ''provisional-reversal'' = None"
      "js = [payment_journal p t ''PAYMENT_REVERSAL'' ''provisional-reversal''
               (map reversed_line (j_Entries jp)) (pay_id pid ''provisional'')]"
      "rec = the_default zero_record (mget (pp_records p) pid)"
  | (reversed_final) jp jf where "tr_To t = StatusReversed" "tr_From t = StatusFinal"
      "on_file p pid ''provisional'' = Some jp" "on_file p pid ''final'' = Some jf"
      "on_file p pid ''provisional-reversal'' = None"
      "js = [payment_journal p t ''PAYMENT_REVERSAL'' ''final-reversal''
               (map reversed_line (j_Entries jf)) (pay_id pid ''final''),
             payment_journal p t ''PAYMENT_REVERSAL'' ''provisional-reversal''
               (map reversed_line (j_Entries jp)) (pay_id pid ''provisional'')]"
      "rec = the_default zero_record (mget (pp_records p) pid)"
proof -
  note ok = record_okD[OF inv, of pid]
  let ?rec = "the_default zero_record (mget (pp_records p) pid)"
  have rj: "reversalJournal p t q = payment_journal p t ''PAYMENT_REVERSAL'' (s @ ''-reversal'')
      (map reversed_line (j_Entries (p_Journal q))) (pay_id pid s) \<and> on_file p pid s = Some (p_Journal q)"
    if "ledger_Get (pp_book p) (pay_id pid s) = Some q" "s = ''provisional'' \<or> s = ''final''" for q s
    using ledger_Get_on_file[OF inv that(1)] that(2) ok(6,7) by (auto simp: reversalJournal_def)
  consider "tr_To t = StatusProvisional" | "tr_To t = StatusFinal"
    | "tr_To t = StatusReversed" "tr_From t = StatusProvisional" | "tr_To t = StatusReversed" "tr_From t = StatusFinal"
    using b by (auto simp: transition_batch_def split: Status.splits if_splits)
  then show thesis
  proof cases
    case 1
    with b ok(1) show thesis
      by (intro provisional)
         (auto simp: transition_batch_def Let_def provisionalJournal_def pid split: if_splits)
  next
    case 2
    with b ok(1,2) show thesis
      by (cases "on_file p pid ''provisional''")
         (auto simp: transition_batch_def Let_def finalJournal_def pid split: if_splits intro!: final)
  next
    case 3
    with b have "rc_ReversalJournalIDs ?rec = []" "rec = ?rec"
      and rb: "reversal_batch p t [rc_ProvisionalJournalID ?rec] = Some js"
      by (auto simp: transition_batch_def split: if_splits)
    with reversal_batch_targets[OF rb] ok(1,3) rj[of "''provisional''"] 3 show thesis
      by (auto simp: list_all2_Cons1 split: if_splits intro!: reversed_provisional)
  next
    case 4
    with b have "rc_ReversalJournalIDs ?rec = []" "rec = ?rec"
      and rb: "reversal_batch p t [rc_FinalJournalID ?rec, rc_ProvisionalJournalID ?rec] = Some js"
      by (auto simp: transition_batch_def split: if_splits)
    with reversal_batch_targets[OF rb] ok(1,2,3) rj[of "''provisional''"] rj[of "''final''"] 4 show thesis
      by (auto simp: list_all2_Cons1 split: if_splits intro!: reversed_final)
  qed
qed

text \<open>The books after a posted transition, and the record kept of it.\<close>

lemma posted_inv:
  assumes inv: "payment_poster_inv H p" and pid: "pid = in_PaymentID (tr_Payment t)"
    and b: "transition_batch p t (the_default zero_record (mget (pp_records p) pid)) = Some (js, rec)"
    and run: "PostBatch H now (pp_book p) js = (Inr ps, l)"
    and p': "p' = p\<lparr>pp_book := l, pp_records := mput pid
        (if tr_To t = StatusReversed then rec\<lparr>rc_ReversalJournalIDs := map (\<lambda>q. j_ID (p_Journal q)) ps\<rparr> else rec)
        (pp_records p), pp_events := evs\<rparr>"
  shows "payment_poster_inv H p'"
    and "on_file p' q s = (case by_journal_id js (pay_id q s) of Some j \<Rightarrow> Some j | None \<Rightarrow> on_file p q s)"
proof -
  note ok = record_okD[OF inv]
  have own: "list_all (own_journal p pid) js" "distinct (map j_ID js)" "js \<noteq> []"
    "\<And>q s. s \<in> set stage_names \<Longrightarrow> q \<noteq> pid \<Longrightarrow> by_journal_id js (pay_id q s) = None"
    using inv pid b
    by (cases rule: transition_batch_cases;
        auto simp: own_journal_def provisionalJournal_def finalJournal_def intro: ok(5))+
  have bk: "pp_book p' = l" "pp_legalEntityID p' = pp_legalEntityID p" by (simp_all add: p')
  note eff = posted_effect[OF inv own(1,2) run bk]
  show of: "on_file p' q s = (case by_journal_id js (pay_id q s) of Some j \<Rightarrow> Some j | None \<Rightarrow> on_file p q s)"
    for q s by (rule eff(4))
  have ids: "map (\<lambda>q. j_ID (p_Journal q)) ps = map j_ID js"
    using arg_cong[OF eff(1), of "map j_ID"] by (simp add: comp_def)
  have "record_ok p' x" if "x \<noteq> pid" for x
    using ok[of x] that own(4) unfolding record_ok_def Let_def of by (simp add: p')
  moreover have "record_ok p' pid"
    using inv pid b
  proof (cases rule: transition_batch_cases)
    case provisional
    with ok[of pid] show ?thesis
      unfolding record_ok_def Let_def of by (auto simp: p' provisionalJournal_def pid[symmetric])
  next
    case (final jp)
    with ok[of pid] show ?thesis
      unfolding record_ok_def Let_def of by (auto simp: p' finalJournal_def pid[symmetric])
  next
    case (reversed_provisional jp)
    with ok[of pid] show ?thesis
      unfolding record_ok_def Let_def of by (auto simp: p' ids pid[symmetric])
  next
    case (reversed_final jp jf)
    with ok[of pid] show ?thesis
      unfolding record_ok_def Let_def of by (auto simp: p' ids pid[symmetric])
  qed
  ultimately have "record_ok p' x" for x by (cases "x = pid") auto
  with eff(2,3) bk show "payment_poster_inv H p'" by (simp add: payment_poster_inv_def)
qed

section \<open>The contract with the orchestrator\<close>

text \<open>What a status means for the books of a payment of \<open>u\<close> units on a rail.\<close>

definition at :: "string \<Rightarrow> string \<Rightarrow> int \<Rightarrow> string \<Rightarrow> string \<Rightarrow> int" where
  "at acct asset u c a = (if c = acct \<and> a = asset then u else 0)"

definition booked_position :: "Status \<Rightarrow> Rail \<Rightarrow> string \<Rightarrow> int \<Rightarrow> string \<Rightarrow> string \<Rightarrow> int" where
  "booked_position st rail asset u c a =
     (case st of
        StatusProvisional \<Rightarrow> at (pendingAccount rail) asset u c a - at ''9120'' asset u c a
      | StatusFinal \<Rightarrow> at (settlementAccount rail) asset u c a - at ''9120'' asset u c a
      | _ \<Rightarrow> 0)"

definition booked_status :: "Status \<Rightarrow> Status" where
  "booked_status st = (if accountingTransition st then st else NoStatus)"

definition payment_units :: "PaymentIntent \<Rightarrow> int" where
  "payment_units i = the_default 0 (big_set_string (in_Units i))"

definition intent_position :: "PaymentIntent \<Rightarrow> string \<Rightarrow> string \<Rightarrow> int" where
  "intent_position i = booked_position (in_Status i) (in_Rail i) (in_AssetID i) (payment_units i)"

text \<open>
  The interface: \<open>stage\<close> is how far the books of a payment are, \<open>position\<close> what they add up to, and
  \<open>applied\<close> which provider events have been booked. A transition touches the books of its own payment
  only; from the booked status, for a payment whose books say what its terms say, it moves them to the
  status it names.
\<close>

locale payment_accounting =
  fixes applyT :: "'acc \<Rightarrow> PaymentTransition \<Rightarrow> ('e + string list) \<times> 'acc"
    and stage :: "'acc \<Rightarrow> string \<Rightarrow> Status"
    and pos :: "'acc \<Rightarrow> string \<Rightarrow> string \<Rightarrow> string \<Rightarrow> int"
    and applied :: "'acc \<Rightarrow> string \<Rightarrow> bool"
    and good :: "'acc \<Rightarrow> bool"
    and interfere :: "'acc \<Rightarrow> 'acc \<Rightarrow> bool"
  assumes apply_error: "applyT acc t = (Inl e, acc') \<Longrightarrow> acc' = acc"
    and apply_frame: "good acc \<Longrightarrow> applyT acc t = (Inr ids, acc') \<Longrightarrow>
      \<not> applied acc (event_key (in_ProviderID (tr_Payment t)) (tr_ProviderEventID t)) \<Longrightarrow>
      good acc' \<and>
      applied acc' = (applied acc)(event_key (in_ProviderID (tr_Payment t)) (tr_ProviderEventID t) := True) \<and>
      (\<forall>q. q \<noteq> in_PaymentID (tr_Payment t) \<longrightarrow> stage acc' q = stage acc q \<and> pos acc' q = pos acc q)"
    and apply_ok: "good acc \<Longrightarrow> applyT acc t = (Inr ids, acc') \<Longrightarrow>
      \<not> applied acc (event_key (in_ProviderID (tr_Payment t)) (tr_ProviderEventID t)) \<Longrightarrow>
      stage acc (in_PaymentID (tr_Payment t)) = booked_status (tr_From t) \<Longrightarrow>
      pos acc (in_PaymentID (tr_Payment t)) = intent_position ((tr_Payment t)\<lparr>in_Status := tr_From t\<rparr>) \<Longrightarrow>
      stage acc' (in_PaymentID (tr_Payment t)) = booked_status (tr_To t) \<and>
      pos acc' (in_PaymentID (tr_Payment t)) = intent_position ((tr_Payment t)\<lparr>in_Status := tr_To t\<rparr>)"
    and interfere_ok: "good acc \<Longrightarrow> interfere acc acc' \<Longrightarrow>
      good acc' \<and> stage acc' = stage acc \<and> pos acc' = pos acc \<and> applied acc' = applied acc"

type_synonym pay_state = "PaymentPoster \<times> gotime"

definition pay_apply ::
  "journal_hash \<Rightarrow> (PaymentTransition \<Rightarrow> string) \<Rightarrow> pay_state \<Rightarrow> PaymentTransition
     \<Rightarrow> (payment_posting_error service_error + string list) \<times> pay_state" where
  "pay_apply H hashT acc t = (case payment_Apply H hashT (snd acc) (fst acc) t of (r, p) \<Rightarrow> (r, p, snd acc))"

definition pay_applied :: "pay_state \<Rightarrow> string \<Rightarrow> bool" where
  "pay_applied acc k = mhas (pp_events (fst acc)) k"

definition foreign_journal :: "PaymentPoster \<Rightarrow> Journal \<Rightarrow> bool" where
  "foreign_journal p j \<longleftrightarrow>
     (\<forall>pid. \<forall>s \<in> set stage_names. j_ID j \<noteq> pay_id pid s \<and> idempotency_scope j \<noteq> pay_scope p (pay_id pid s))"

text \<open>Time passes, and other services post journals of their own to the same ledger.\<close>

definition pay_interfere :: "journal_hash \<Rightarrow> pay_state \<Rightarrow> pay_state \<Rightarrow> bool" where
  "pay_interfere H acc acc' \<longleftrightarrow>
     (\<exists>l. fst acc' = (fst acc)\<lparr>pp_book := l\<rparr> \<and> (ledger_step H)\<^sup>*\<^sup>* (pp_book (fst acc)) l \<and>
        (\<forall>i q. mget (l_byID l) i = Some q \<and> mget (l_byID (pp_book (fst acc))) i = None \<longrightarrow>
           foreign_journal (fst acc) (p_Journal q)))"

lemma account_net_payment [simp]:
  "account_net c a [payment_entry t x Debit, payment_entry t y Credit] =
     at x (in_AssetID (tr_Payment t)) (payment_units (tr_Payment t)) c a -
     at y (in_AssetID (tr_Payment t)) (payment_units (tr_Payment t)) c a"
  by (auto simp: account_net_def payment_entry_def entry_units_def at_def payment_units_def the_default_def)

lemma pay_stage_NoStatus:
  "payment_poster_inv H p \<Longrightarrow> pay_stage p pid = NoStatus \<Longrightarrow>
   on_file p pid ''provisional'' = None \<and> on_file p pid ''final'' = None \<and>
   on_file p pid ''provisional-reversal'' = None \<and> on_file p pid ''final-reversal'' = None"
  using record_okD(5)[of H p pid] by (auto simp: pay_stage_def split: if_splits)

lemma pay_apply_posted:
  assumes inv: "payment_poster_inv H p" and run: "payment_Apply H hashT now p t = (Inr ids, p')"
    and new: "\<not> mhas (pp_events p) (event_key (in_ProviderID (tr_Payment t)) (tr_ProviderEventID t))"
    and pid: "pid = in_PaymentID (tr_Payment t)"
  shows "payment_poster_inv H p'"
    "mhas (pp_events p') = (mhas (pp_events p))(event_key (in_ProviderID (tr_Payment t)) (tr_ProviderEventID t) := True)"
    "q \<noteq> pid \<Longrightarrow> pay_stage p' q = pay_stage p q" "q \<noteq> pid \<Longrightarrow> pay_position p' q c a = pay_position p q c a"
    "pay_stage p pid = booked_status (tr_From t) \<Longrightarrow>
     pay_position p pid = intent_position ((tr_Payment t)\<lparr>in_Status := tr_From t\<rparr>) \<Longrightarrow>
     pay_stage p' pid = booked_status (tr_To t) \<and>
     pay_position p' pid c a = intent_position ((tr_Payment t)\<lparr>in_Status := tr_To t\<rparr>) c a"
proof -
  from run new obtain js rec ps l where
    b: "transition_batch p t (the_default zero_record (mget (pp_records p) pid)) = Some (js, rec)"
    and post: "PostBatch H now (pp_book p) js = (Inr ps, l)"
    and p': "p' = p\<lparr>pp_book := l, pp_records := mput pid
        (if tr_To t = StatusReversed then rec\<lparr>rc_ReversalJournalIDs := map (\<lambda>q. j_ID (p_Journal q)) ps\<rparr> else rec)
        (pp_records p), pp_events := mput (event_key (in_ProviderID (tr_Payment t)) (tr_ProviderEventID t))
                 \<lparr>ap_contentHash = hashT t, ap_journalIDs = ids\<rparr> (pp_events p)\<rparr>"
    unfolding pid by (cases rule: payment_Apply_cases) (auto simp: mhas_def)
  show "payment_poster_inv H p'" by (rule posted_inv(1)[OF inv pid b post p'])
  show "mhas (pp_events p') = (mhas (pp_events p))(event_key (in_ProviderID (tr_Payment t)) (tr_ProviderEventID t) := True)"
    by (auto simp: p' fun_eq_iff)
  note file' = posted_inv(2)[OF inv pid b post p']
  note unbooked = pay_stage_NoStatus[OF inv, of pid] record_okD(5)[OF inv, of pid]
  note status_simps = booked_status_def accountingTransition_def intent_position_def booked_position_def
    payment_units_def
  show "pay_stage p' pid = booked_status (tr_To t) \<and>
    pay_position p' pid c a = intent_position ((tr_Payment t)\<lparr>in_Status := tr_To t\<rparr>) c a"
    if stage: "pay_stage p pid = booked_status (tr_From t)"
      and pos: "pay_position p pid = intent_position ((tr_Payment t)\<lparr>in_Status := tr_From t\<rparr>)"
    using inv pid b
  proof (cases rule: transition_batch_cases)
    case provisional
    then have "pay_stage p pid = NoStatus" using stage by (simp add: status_simps)
    from unbooked(1)[OF this] provisional(4) have "on_file p' pid ''provisional'' = Some (provisionalJournal p t)"
      "on_file p' pid ''final'' = None" "on_file p' pid ''provisional-reversal'' = None"
      "on_file p' pid ''final-reversal'' = None"
      by (simp_all add: file' provisionalJournal_def pid)
    with provisional(1) show ?thesis
      by (simp add: pay_stage_def pay_position_unfold provisionalJournal_def status_simps)
  next
    case (final jp)
    then have "pay_stage p pid = StatusProvisional" using stage by (simp add: status_simps)
    then have "on_file p pid ''provisional-reversal'' = None" by (auto simp: pay_stage_def split: if_splits)
    with unbooked(2)[OF this] final(3-5) have f: "on_file p' pid ''final'' = Some (finalJournal p t)"
      "on_file p' pid ''provisional'' = Some jp" "on_file p' pid ''provisional-reversal'' = None"
      "on_file p' pid ''final-reversal'' = None" "on_file p pid ''provisional-reversal'' = None"
      "on_file p pid ''final-reversal'' = None"
      by (simp_all add: file' finalJournal_def pid)
    from pos have "pay_position p pid c a = intent_position ((tr_Payment t)\<lparr>in_Status := tr_From t\<rparr>) c a" by simp
    with f final(1-4) show ?thesis
      by (simp add: pay_stage_def pay_position_unfold finalJournal_def status_simps)
  next
    case (reversed_provisional jp)
    then have "pay_stage p pid = StatusProvisional" using stage by (simp add: status_simps)
    then have "on_file p pid ''final'' = None" by (auto simp: pay_stage_def split: if_splits)
    with unbooked(2)[OF reversed_provisional(4)] reversed_provisional(3,5)
    have f: "on_file p' pid ''provisional'' = Some jp" "on_file p' pid ''final'' = None"
      "lines (on_file p' pid ''provisional-reversal'') = map reversed_line (j_Entries jp)"
      "on_file p' pid ''provisional-reversal'' \<noteq> None" "on_file p' pid ''final-reversal'' = None"
      by (simp_all add: file' pid)
    with reversed_provisional(1) show ?thesis
      by (simp add: pay_stage_def pay_position_unfold account_net_reversed status_simps)
  next
    case (reversed_final jp jf)
    then have f: "on_file p' pid ''provisional'' = Some jp" "on_file p' pid ''final'' = Some jf"
      "lines (on_file p' pid ''provisional-reversal'') = map reversed_line (j_Entries jp)"
      "lines (on_file p' pid ''final-reversal'') = map reversed_line (j_Entries jf)"
      "on_file p' pid ''provisional-reversal'' \<noteq> None"
      by (simp_all add: file' pid)
    with reversed_final(1) show ?thesis
      by (simp add: pay_stage_def pay_position_unfold account_net_reversed status_simps)
  qed
  have other: "on_file p' q s = on_file p q s" if "q \<noteq> pid" "s \<in> set stage_names" for s
    using inv pid b
    by (cases rule: transition_batch_cases)
       (use that in \<open>simp_all add: file' provisionalJournal_def finalJournal_def pid[symmetric]\<close>)
  show "pay_stage p' q = pay_stage p q" if "q \<noteq> pid" using other[OF that] by (simp add: pay_stage_def)
  show "pay_position p' q c a = pay_position p q c a" if "q \<noteq> pid" using other[OF that] by (simp add: pay_position_unfold)
qed

lemma pay_interfere_file:
  assumes inv: "payment_poster_inv H (fst acc)" and i: "pay_interfere H acc acc'"
  shows "payment_poster_inv H (fst acc')"
    "s \<in> set stage_names \<Longrightarrow> on_file (fst acc') pid s = on_file (fst acc) pid s"
    "pp_events (fst acc') = pp_events (fst acc)"
proof -
  from i obtain l where l: "fst acc' = (fst acc)\<lparr>pp_book := l\<rparr>" "(ledger_step H)\<^sup>*\<^sup>* (pp_book (fst acc)) l"
    "\<And>i q. mget (l_byID l) i = Some q \<Longrightarrow> mget (l_byID (pp_book (fst acc))) i = None \<Longrightarrow>
       foreign_journal (fst acc) (p_Journal q)"
    unfolding pay_interfere_def by blast
  have L: "ledger_inv H (pp_book (fst acc))" using inv by (simp add: payment_poster_inv_def)
  have L': "ledger_inv H l" by (rule led.steps_inv[OF l(2) L])
  have ext: "mext (l_byID (pp_book (fst acc))) (l_byID l)"
    using led.later[OF l(2) L] by (simp add: extends_def)
  have of: "on_file (fst acc') pid s = on_file (fst acc) pid s" if "s \<in> set stage_names" for pid s
  proof (cases "mget (l_byID (pp_book (fst acc))) (pay_id pid s)")
    case (Some q)
    with mextD[OF ext Some] show ?thesis by (simp add: on_file_def l(1))
  next
    case None
    have "mget (l_byID l) (pay_id pid s) = None"
    proof (rule ccontr)
      assume "mget (l_byID l) (pay_id pid s) \<noteq> None"
      then obtain q where q: "mget (l_byID l) (pay_id pid s) = Some q" by auto
      with l(3)[OF q None] that ledger_inv_byID[OF L' q] show False by (auto simp: foreign_journal_def)
    qed
    with None show ?thesis by (simp add: on_file_def l(1))
  qed
  then show "s \<in> set stage_names \<Longrightarrow> on_file (fst acc') pid s = on_file (fst acc) pid s" by simp
  have ps: "pay_scope (fst acc') = pay_scope (fst acc)" by (simp add: pay_scope_def l(1) fun_eq_iff)
  have "i = pay_id pid s" if "mget (l_byID l) i = Some q" "s \<in> set stage_names"
    "idempotency_scope (p_Journal q) = pay_scope (fst acc) (pay_id pid s)" for i q pid s
  proof (cases "mget (l_byID (pp_book (fst acc))) i")
    case None
    with l(3)[OF that(1) None] that(2,3) show ?thesis by (auto simp: foreign_journal_def)
  next
    case (Some q')
    with mextD[OF ext Some] that inv show ?thesis by (auto simp: payment_poster_inv_def scopes_ok_def)
  qed
  then have "scopes_ok (fst acc')" by (auto simp: scopes_ok_def ps) (simp add: l(1))
  moreover have "record_ok (fst acc') pid" for pid
    using inv of by (simp add: payment_poster_inv_def record_ok_def l(1))
  ultimately show "payment_poster_inv H (fst acc')"
    using L' by (simp add: payment_poster_inv_def l(1))
  show "pp_events (fst acc') = pp_events (fst acc)" by (simp add: l(1))
qed

interpretation pay: payment_accounting "pay_apply H hashT" "\<lambda>acc. pay_stage (fst acc)"
  "\<lambda>acc. pay_position (fst acc)" pay_applied "\<lambda>acc. payment_poster_inv H (fst acc)" "pay_interfere H"
  for H hashT
proof (unfold_locales, goal_cases)
  case (1 acc t e acc')
  then obtain p where "payment_Apply H hashT (snd acc) (fst acc) t = (Inl e, p)" "acc' = (p, snd acc)"
    by (auto simp: pay_apply_def split: prod.splits)
  then show ?case by (auto elim: payment_Apply_cases)
next
  case (2 acc t ids acc')
  then obtain p where r: "payment_Apply H hashT (snd acc) (fst acc) t = (Inr ids, p)" "acc' = (p, snd acc)"
    by (auto simp: pay_apply_def split: prod.splits)
  from pay_apply_posted(1-4)[OF 2(1) r(1) _ refl] 2(3) r(2) show ?case
    by (auto simp: pay_applied_def fun_eq_iff)
next
  case (3 acc t ids acc')
  then obtain p where r: "payment_Apply H hashT (snd acc) (fst acc) t = (Inr ids, p)" "acc' = (p, snd acc)"
    by (auto simp: pay_apply_def split: prod.splits)
  from pay_apply_posted(5)[OF 3(1) r(1) _ refl 3(4,5)] 3(3) r(2) show ?case
    by (auto simp: pay_applied_def fun_eq_iff)
next
  case (4 acc acc')
  note file' = pay_interfere_file[OF 4]
  then show ?case
    by (simp add: pay_stage_def pay_position_unfold pay_applied_def fun_eq_iff)
qed

end
