(* ===== verification/Allocation_Mode.thy ===== *)
theory Allocation_Mode
  imports Transition "HOL-Library.List_Lexorder" "HOL-Library.Char_ord"
begin

text \<open>
  The allocation latch, \<^verbatim>\<open>payment-orchestrator/allocationmode/registry.go\<close> and \<open>store.go\<close>: a payment
  is claimed for allocation by the synthetic projector or by the canonical gateway, never by both.

  The registry calls a durable \<open>Store\<close>; here the registry's operations take the store's operations as
  arguments, \<open>MemoryStore\<close> of \<open>store.go\<close> is modelled, and \<open>SQLStore\<close>, whose statements run in the
  database, is not. A \<open>commit\<close> callback is a function on the state \<open>'w\<close> of the code it runs in; \<open>None\<close>
  is the nil callback. The registry's lock makes every operation one step. The loops in which
  \<^verbatim>\<open>settlement.NewWithStore\<close> rehydrates a registry at start-up are here too.
\<close>

section \<open>Data\<close>

datatype mode_error =
    ErrInvalidClaim | ErrClaimConflict | ErrInvalidTransition | ErrResolutionFailed
  | ErrInvalidStore | ErrStoreConflict | CommitError

datatype Mode = ModeSyntheticProjection | ModeCanonicalGateway | UnknownMode string

datatype CanonicalState =
    CanonicalPrepared | CanonicalSubmitted | CanonicalConfirmed | CanonicalFailed
  | CanonicalQuarantined | CanonicalIncident | NoState | UnknownState string

record Claim =
  cl_ClaimID :: string
  cl_PaymentID :: string
  cl_AllocationID :: string
  cl_Mode :: Mode
  cl_Digest :: string
  cl_State :: CanonicalState
  cl_ExpectedVersion :: "64 word"
  cl_EvidenceHash :: string
  cl_ClaimedAt :: gotime

datatype ReversalDisposition =
    ReversalUnclaimed | ReversalSynthetic | ReversalReleased | ReversalQuarantined | ReversalIncident

definition zero_claim :: Claim where
  "zero_claim = \<lparr>cl_ClaimID = [], cl_PaymentID = [], cl_AllocationID = [], cl_Mode = UnknownMode [],
     cl_Digest = [], cl_State = NoState, cl_ExpectedVersion = 0, cl_EvidenceHash = [], cl_ClaimedAt = 0\<rparr>"

record 'st Registry =
  r_byPayment :: "(string, Claim) gomap"
  r_byAllocation :: "(string, string) gomap"
  r_reversed :: "(string, bool) gomap"
  r_store :: 'st

type_synonym 'w commit = "'w \<Rightarrow> (mode_error + unit) \<times> 'w"

section \<open>Checks\<close>

definition validDurableClaim :: "Claim \<Rightarrow> bool" where
  "validDurableClaim c \<longleftrightarrow>
     cl_ClaimID c \<noteq> [] \<and> cl_PaymentID c \<noteq> [] \<and> cl_AllocationID c \<noteq> [] \<and> cl_Digest c \<noteq> [] \<and>
     cl_EvidenceHash c \<noteq> [] \<and> cl_ClaimedAt c \<noteq> 0 \<and>
     (case cl_Mode c of
        ModeSyntheticProjection \<Rightarrow>
          cl_ClaimID c = ''phase7b:'' @ cl_AllocationID c \<and> cl_State c = NoState
      | ModeCanonicalGateway \<Rightarrow>
          cl_ClaimID c = ''phase7c:'' @ cl_AllocationID c \<and> cl_State c = CanonicalPrepared
      | UnknownMode _ \<Rightarrow> False)"

definition sameDurableClaim :: "Claim \<Rightarrow> Claim \<Rightarrow> bool" where
  "sameDurableClaim left right \<longleftrightarrow>
     left\<lparr>cl_State := CanonicalPrepared\<rparr> = right\<lparr>cl_State := CanonicalPrepared\<rparr>"

definition sameClaim :: "Claim \<Rightarrow> string \<Rightarrow> string \<Rightarrow> Mode \<Rightarrow> string \<Rightarrow> bool" where
  "sameClaim c paymentID allocationID mode digest \<longleftrightarrow>
     cl_PaymentID c = paymentID \<and> cl_AllocationID c = allocationID \<and> cl_Mode c = mode \<and>
     cl_Digest c = digest"

fun validCanonicalState :: "CanonicalState \<Rightarrow> bool" where
  "validCanonicalState NoState = False"
| "validCanonicalState (UnknownState _) = False"
| "validCanonicalState _ = True"

fun allowedCanonicalTransition :: "CanonicalState \<Rightarrow> CanonicalState \<Rightarrow> bool" where
  "allowedCanonicalTransition CanonicalPrepared to =
     (to = CanonicalSubmitted \<or> to = CanonicalFailed \<or> to = CanonicalQuarantined)"
| "allowedCanonicalTransition CanonicalSubmitted to =
     (to = CanonicalConfirmed \<or> to = CanonicalFailed \<or> to = CanonicalQuarantined)"
| "allowedCanonicalTransition CanonicalQuarantined to =
     (to = CanonicalIncident \<or> to = CanonicalFailed)"
| "allowedCanonicalTransition CanonicalConfirmed to = (to = CanonicalIncident)"
| "allowedCanonicalTransition CanonicalFailed to =
     (to = CanonicalPrepared \<or> to = CanonicalQuarantined)"
| "allowedCanonicalTransition _ to = False"

section \<open>The memory store\<close>

type_synonym MemoryStore = "(string, Claim) gomap"

definition allocation_taken :: "MemoryStore \<Rightarrow> Claim \<Rightarrow> bool" where
  "allocation_taken st c \<longleftrightarrow> (\<exists>(k, e) \<in> set st. cl_AllocationID e = cl_AllocationID c)"

definition memory_ClaimSynthetic :: "MemoryStore \<Rightarrow> Claim \<Rightarrow> (mode_error + bool) \<times> MemoryStore" where
  "memory_ClaimSynthetic st c =
     (if \<not> validDurableClaim c \<or> cl_Mode c \<noteq> ModeSyntheticProjection then (Inl ErrInvalidStore, st)
      else case mget st (cl_PaymentID c) of
        Some existing \<Rightarrow> if existing = c then (Inr True, st) else (Inl ErrStoreConflict, st)
      | None \<Rightarrow>
          if allocation_taken st c then (Inl ErrStoreConflict, st)
          else (Inr False, mput (cl_PaymentID c) c st))"

definition memory_ClaimCanonical ::
  "MemoryStore \<Rightarrow> Claim \<Rightarrow> 'w commit \<Rightarrow> 'w \<Rightarrow> (mode_error + unit) \<times> MemoryStore \<times> 'w" where
  "memory_ClaimCanonical st c commit w =
     (if \<not> validDurableClaim c \<or> cl_Mode c \<noteq> ModeCanonicalGateway \<or> cl_State c \<noteq> CanonicalPrepared
      then (Inl ErrInvalidStore, st, w)
      else case mget st (cl_PaymentID c) of
        Some existing \<Rightarrow>
          if sameDurableClaim existing c then (case commit w of (r, w') \<Rightarrow> (r, st, w'))
          else (Inl ErrStoreConflict, st, w)
      | None \<Rightarrow>
          if allocation_taken st c then (Inl ErrStoreConflict, st, w)
          else case commit w of
            (Inl e, w') \<Rightarrow> (Inl e, st, w')
          | (Inr u, w') \<Rightarrow> (Inr u, mput (cl_PaymentID c) c st, w'))"

definition memory_LoadClaims :: "MemoryStore \<Rightarrow> Claim list" where
  "memory_LoadClaims st = sort_key cl_PaymentID (map snd st)"

section \<open>The registry\<close>

fun load_claims :: "Claim list \<Rightarrow> 'st Registry \<Rightarrow> mode_error + 'st Registry" where
  "load_claims [] r = Inr r"
| "load_claims (c # cs) r =
     (if \<not> validDurableClaim c then Inl ErrInvalidStore
      else if mhas (r_byPayment r) (cl_PaymentID c) then Inl ErrStoreConflict
      else if mhas (r_byAllocation r) (cl_AllocationID c) then Inl ErrStoreConflict
      else load_claims cs
             (r\<lparr>r_byPayment := mput (cl_PaymentID c) c (r_byPayment r),
                r_byAllocation := mput (cl_AllocationID c) (cl_PaymentID c) (r_byAllocation r)\<rparr>))"

definition registry_New :: "('st \<Rightarrow> Claim list) \<Rightarrow> 'st \<Rightarrow> mode_error + 'st Registry" where
  "registry_New loadClaims st =
     load_claims (loadClaims st) \<lparr>r_byPayment = [], r_byAllocation = [], r_reversed = [], r_store = st\<rparr>"

definition IsReversed :: "'st Registry \<Rightarrow> string \<Rightarrow> bool" where
  "IsReversed r paymentID = the_default False (mget (r_reversed r) paymentID)"

definition registry_Lookup :: "'st Registry \<Rightarrow> string \<Rightarrow> Claim option" where
  "registry_Lookup r paymentID = mget (r_byPayment r) paymentID"

definition publish :: "Claim \<Rightarrow> 'st Registry \<Rightarrow> 'st Registry" where
  "publish c r =
     r\<lparr>r_byPayment := mput (cl_PaymentID c) c (r_byPayment r),
       r_byAllocation := mput (cl_AllocationID c) (cl_PaymentID c) (r_byAllocation r)\<rparr>"

definition ClaimMode ::
  "('st \<Rightarrow> Claim \<Rightarrow> (mode_error + bool) \<times> 'st) \<Rightarrow> 'st Registry
     \<Rightarrow> string \<Rightarrow> string \<Rightarrow> Mode \<Rightarrow> string \<Rightarrow> 64 word \<Rightarrow> string \<Rightarrow> gotime
     \<Rightarrow> (mode_error + Claim \<times> bool) \<times> 'st Registry" where
  "ClaimMode claimSynthetic r paymentID allocationID mode digest expectedVersion evidenceHash claimedAt =
     (if paymentID = [] \<or> allocationID = [] \<or> digest = [] \<or> evidenceHash = [] \<or> claimedAt = 0 \<or>
         mode \<noteq> ModeSyntheticProjection
      then (Inl ErrInvalidClaim, r)
      else if IsReversed r paymentID then (Inl ErrClaimConflict, r)
      else case mget (r_byPayment r) paymentID of
        Some existing \<Rightarrow>
          if sameClaim existing paymentID allocationID mode digest \<and>
             cl_ExpectedVersion existing = expectedVersion \<and>
             cl_EvidenceHash existing = evidenceHash \<and> cl_ClaimedAt existing = claimedAt
          then (Inr (existing, True), r) else (Inl ErrClaimConflict, r)
      | None \<Rightarrow>
          if (case mget (r_byAllocation r) allocationID of None \<Rightarrow> False | Some owner \<Rightarrow> owner \<noteq> paymentID)
          then (Inl ErrClaimConflict, r)
          else
            let c = \<lparr>cl_ClaimID = ''phase7b:'' @ allocationID, cl_PaymentID = paymentID,
                     cl_AllocationID = allocationID, cl_Mode = mode, cl_Digest = digest,
                     cl_State = NoState, cl_ExpectedVersion = expectedVersion,
                     cl_EvidenceHash = evidenceHash, cl_ClaimedAt = claimedAt\<rparr>
            in case claimSynthetic (r_store r) c of
                 (Inl e, st) \<Rightarrow> (Inl ErrClaimConflict, r\<lparr>r_store := st\<rparr>)
               | (Inr replayed, st) \<Rightarrow> (Inr (c, replayed), publish c (r\<lparr>r_store := st\<rparr>)))"

definition ClaimModeWithCommit ::
  "('st \<Rightarrow> Claim \<Rightarrow> 'w commit \<Rightarrow> 'w \<Rightarrow> (mode_error + unit) \<times> 'st \<times> 'w) \<Rightarrow> 'st Registry
     \<Rightarrow> string \<Rightarrow> string \<Rightarrow> Mode \<Rightarrow> string \<Rightarrow> 64 word \<Rightarrow> string \<Rightarrow> gotime
     \<Rightarrow> (Claim \<Rightarrow> 'w commit) option \<Rightarrow> 'w \<Rightarrow> (mode_error + Claim) \<times> 'st Registry \<times> 'w" where
  "ClaimModeWithCommit claimCanonical r paymentID allocationID mode digest expectedVersion
       evidenceHash claimedAt commit w =
     (case commit of
        None \<Rightarrow> (Inl ErrInvalidClaim, r, w)
      | Some f \<Rightarrow>
          if paymentID = [] \<or> allocationID = [] \<or> digest = [] \<or> evidenceHash = [] \<or>
             claimedAt = 0 \<or> mode \<noteq> ModeCanonicalGateway
          then (Inl ErrInvalidClaim, r, w)
          else if IsReversed r paymentID then (Inl ErrClaimConflict, r, w)
          else if mhas (r_byPayment r) paymentID then (Inl ErrClaimConflict, r, w)
          else if mhas (r_byAllocation r) allocationID then (Inl ErrClaimConflict, r, w)
          else
            let c = \<lparr>cl_ClaimID = ''phase7c:'' @ allocationID, cl_PaymentID = paymentID,
                     cl_AllocationID = allocationID, cl_Mode = mode, cl_Digest = digest,
                     cl_State = CanonicalPrepared, cl_ExpectedVersion = expectedVersion,
                     cl_EvidenceHash = evidenceHash, cl_ClaimedAt = claimedAt\<rparr>
            in case claimCanonical (r_store r) c (f c) w of
                 (Inl e, st, w') \<Rightarrow> (Inl e, r\<lparr>r_store := st\<rparr>, w')
               | (Inr u, st, w') \<Rightarrow> (Inr c, publish c (r\<lparr>r_store := st\<rparr>), w'))"

definition TransitionWithCommit ::
  "'st Registry \<Rightarrow> string \<Rightarrow> string \<Rightarrow> string \<Rightarrow> CanonicalState \<Rightarrow> CanonicalState
     \<Rightarrow> (Claim \<Rightarrow> 'w commit) option \<Rightarrow> 'w \<Rightarrow> (mode_error + Claim) \<times> 'st Registry \<times> 'w" where
  "TransitionWithCommit r paymentID allocationID digest expected next commit w =
     (case commit of
        None \<Rightarrow> (Inl ErrInvalidTransition, r, w)
      | Some f \<Rightarrow>
          if \<not> validCanonicalState expected \<or> \<not> validCanonicalState next
          then (Inl ErrInvalidTransition, r, w)
          else case mget (r_byPayment r) paymentID of
            None \<Rightarrow> (Inl ErrInvalidTransition, r, w)
          | Some c \<Rightarrow>
              if cl_Mode c \<noteq> ModeCanonicalGateway \<or> cl_AllocationID c \<noteq> allocationID \<or>
                 cl_Digest c \<noteq> digest \<or> cl_State c \<noteq> expected \<or>
                 \<not> allowedCanonicalTransition expected next
              then (Inl ErrInvalidTransition, r, w)
              else
                let c' = c\<lparr>cl_State := next\<rparr> in
                case f c' w of
                  (Inl e, w') \<Rightarrow> (Inl e, r, w')
                | (Inr u, w') \<Rightarrow>
                    (Inr c', r\<lparr>r_byPayment := mput paymentID c' (r_byPayment r)\<rparr>, w'))"

text \<open>The callback of a reversal: a nil callback and a failing one are the same error.\<close>

definition reversal_commit ::
  "(Claim \<Rightarrow> ReversalDisposition \<Rightarrow> bool \<Rightarrow> 'w commit) option \<Rightarrow> Claim \<Rightarrow> ReversalDisposition \<Rightarrow> bool
     \<Rightarrow> 'w \<Rightarrow> mode_error option \<times> 'w" where
  "reversal_commit commit c disposition tombstone w =
     (case commit of
        None \<Rightarrow> (Some ErrResolutionFailed, w)
      | Some f \<Rightarrow>
          (case f c disposition tombstone w of
             (Inl e, w') \<Rightarrow> (Some ErrResolutionFailed, w')
           | (Inr u, w') \<Rightarrow> (None, w')))"

definition mark_reversed :: "string \<Rightarrow> 'st Registry \<Rightarrow> 'st Registry" where
  "mark_reversed paymentID r = r\<lparr>r_reversed := mput paymentID True (r_reversed r)\<rparr>"

definition set_state :: "string \<Rightarrow> Claim \<Rightarrow> CanonicalState \<Rightarrow> 'st Registry \<Rightarrow> 'st Registry" where
  "set_state paymentID c s r = r\<lparr>r_byPayment := mput paymentID (c\<lparr>cl_State := s\<rparr>) (r_byPayment r)\<rparr>"

definition HandleReversalWithCommit ::
  "'st Registry \<Rightarrow> string \<Rightarrow> (Claim \<Rightarrow> ReversalDisposition \<Rightarrow> bool \<Rightarrow> 'w commit) option \<Rightarrow> 'w
     \<Rightarrow> (Claim \<times> ReversalDisposition \<times> mode_error option) \<times> 'st Registry \<times> 'w" where
  "HandleReversalWithCommit r paymentID commit w =
     (if paymentID = [] then ((zero_claim, ReversalUnclaimed, Some ErrInvalidClaim), r, w)
      else case mget (r_byPayment r) paymentID of
        None \<Rightarrow>
          (case reversal_commit commit (zero_claim\<lparr>cl_PaymentID := paymentID\<rparr>) ReversalUnclaimed True w of
             (Some e, w') \<Rightarrow> ((zero_claim, ReversalUnclaimed, Some e), r, w')
           | (None, w') \<Rightarrow> ((zero_claim, ReversalUnclaimed, None), mark_reversed paymentID r, w'))
      | Some c \<Rightarrow>
          if cl_Mode c = ModeSyntheticProjection then
            (case reversal_commit commit c ReversalSynthetic True w of
               (Some e, w') \<Rightarrow> ((zero_claim, ReversalSynthetic, Some e), r, w')
             | (None, w') \<Rightarrow> ((c, ReversalSynthetic, None), mark_reversed paymentID r, w'))
          else if cl_State c \<in> {CanonicalPrepared, CanonicalFailed, CanonicalSubmitted} then
            (case reversal_commit commit c ReversalQuarantined False w of
               (Some e, w') \<Rightarrow> ((zero_claim, ReversalQuarantined, Some e), r, w')
             | (None, w') \<Rightarrow>
                 ((c\<lparr>cl_State := CanonicalQuarantined\<rparr>, ReversalQuarantined, None),
                  set_state paymentID c CanonicalQuarantined r, w'))
          else if cl_State c = CanonicalQuarantined then ((c, ReversalQuarantined, None), r, w)
          else if cl_State c = CanonicalConfirmed then
            (case reversal_commit commit c ReversalIncident False w of
               (Some e, w') \<Rightarrow> ((zero_claim, ReversalIncident, Some e), r, w')
             | (None, w') \<Rightarrow>
                 ((c\<lparr>cl_State := CanonicalIncident\<rparr>, ReversalIncident, None),
                  set_state paymentID c CanonicalIncident r, w'))
          else if cl_State c = CanonicalIncident then ((c, ReversalIncident, None), r, w)
          else ((c, ReversalQuarantined, None), r, w))"

definition ResolveQuarantinedReversal ::
  "'st Registry \<Rightarrow> Claim \<Rightarrow> 'w commit option \<Rightarrow> 'w \<Rightarrow> (mode_error + unit) \<times> 'st Registry \<times> 'w" where
  "ResolveQuarantinedReversal r c commit w =
     (case commit of
        None \<Rightarrow> (Inl ErrInvalidClaim, r, w)
      | Some f \<Rightarrow>
          (case mget (r_byPayment r) (cl_PaymentID c) of
             None \<Rightarrow> (Inl ErrInvalidTransition, r, w)
           | Some existing \<Rightarrow>
               if \<not> sameClaim existing (cl_PaymentID c) (cl_AllocationID c) (cl_Mode c) (cl_Digest c) \<or>
                  cl_Mode existing \<noteq> ModeCanonicalGateway \<or> cl_State existing \<noteq> CanonicalQuarantined
               then (Inl ErrInvalidTransition, r, w)
               else case f w of
                 (Inl e, w') \<Rightarrow> (Inl ErrResolutionFailed, r, w')
               | (Inr u, w') \<Rightarrow>
                   (Inr (), mark_reversed (cl_PaymentID existing)
                      (set_state (cl_PaymentID existing) existing CanonicalFailed r), w')))"

definition Restore :: "'st Registry \<Rightarrow> Claim \<Rightarrow> bool \<Rightarrow> (mode_error + unit) \<times> 'st Registry" where
  "Restore r c tombstoned =
     (if cl_PaymentID c = [] \<or> cl_AllocationID c = [] \<or> cl_Digest c = [] \<or>
         (cl_Mode c \<noteq> ModeSyntheticProjection \<and> cl_Mode c \<noteq> ModeCanonicalGateway) \<or>
         (cl_Mode c = ModeCanonicalGateway \<and> \<not> validCanonicalState (cl_State c))
      then (Inl ErrInvalidClaim, r)
      else case mget (r_byPayment r) (cl_PaymentID c) of
        Some existing \<Rightarrow>
          if \<not> sameDurableClaim existing c \<or> (IsReversed r (cl_PaymentID c) \<and> \<not> tombstoned)
          then (Inl ErrClaimConflict, r)
          else
            let r' = set_state (cl_PaymentID c) existing (cl_State c) r
            in (Inr (), if tombstoned then mark_reversed (cl_PaymentID c) r' else r')
      | None \<Rightarrow>
          if (case mget (r_byAllocation r) (cl_AllocationID c) of
                None \<Rightarrow> False | Some owner \<Rightarrow> owner \<noteq> cl_PaymentID c)
          then (Inl ErrClaimConflict, r)
          else
            let r' = publish c r
            in (Inr (), if tombstoned then mark_reversed (cl_PaymentID c) r' else r'))"

definition RestoreTombstone :: "'st Registry \<Rightarrow> string \<Rightarrow> (mode_error + unit) \<times> 'st Registry" where
  "RestoreTombstone r paymentID =
     (if paymentID = [] then (Inl ErrInvalidClaim, r) else (Inr (), mark_reversed paymentID r))"

definition registry_Release :: "'st Registry \<Rightarrow> Claim \<Rightarrow> mode_error + unit" where
  "registry_Release r c = Inl ErrInvalidTransition"

section \<open>The latch\<close>

text \<open>
  Well-formed registry: claims are keyed by their payment, and the allocation index is the inverse
  of the claims' allocation identifiers, so that an allocation belongs to one payment.
\<close>

definition registry_inv :: "'st Registry \<Rightarrow> bool" where
  "registry_inv r \<longleftrightarrow>
     (\<forall>p c. mget (r_byPayment r) p = Some c \<longrightarrow> cl_PaymentID c = p) \<and>
     (\<forall>a p. mget (r_byAllocation r) a = Some p \<longleftrightarrow>
        (\<exists>c. mget (r_byPayment r) p = Some c \<and> cl_AllocationID c = a))"

text \<open>What a claim says beyond its state.\<close>

definition identity :: "Claim \<Rightarrow> Claim" where
  "identity c = c\<lparr>cl_State := NoState\<rparr>"

text \<open>The later registry keeps every claim but for its state, and every tombstone.\<close>

definition latched :: "'st Registry \<Rightarrow> 'st Registry \<Rightarrow> bool" where
  "latched r r' \<longleftrightarrow>
     (\<forall>p c. mget (r_byPayment r) p = Some c \<longrightarrow>
        (\<exists>c'. mget (r_byPayment r') p = Some c' \<and> identity c' = identity c)) \<and>
     (\<forall>p. IsReversed r p \<longrightarrow> IsReversed r' p)"

lemma identity_state [simp]: "identity (c\<lparr>cl_State := s\<rparr>) = identity c"
  by (simp add: identity_def)

lemma identity_fields:
  "identity c = identity d \<Longrightarrow>
   cl_ClaimID c = cl_ClaimID d \<and> cl_PaymentID c = cl_PaymentID d \<and>
   cl_AllocationID c = cl_AllocationID d \<and> cl_Mode c = cl_Mode d \<and> cl_Digest c = cl_Digest d \<and>
   cl_EvidenceHash c = cl_EvidenceHash d"
  by (cases c; cases d) (simp add: identity_def)

lemma latched_refl [simp]: "latched r r"
  by (auto simp: latched_def)

lemma latchedD:
  "latched r r' \<Longrightarrow> mget (r_byPayment r) p = Some c \<Longrightarrow>
   \<exists>c'. mget (r_byPayment r') p = Some c' \<and> identity c' = identity c"
  by (simp add: latched_def)

lemma latched_trans: "latched r s \<Longrightarrow> latched s t \<Longrightarrow> latched r t"
  unfolding latched_def by (metis (no_types, lifting))

lemma registry_inv_allocation:
  "registry_inv r \<Longrightarrow> mget (r_byAllocation r) a = Some p \<longleftrightarrow>
     (\<exists>c. mget (r_byPayment r) p = Some c \<and> cl_AllocationID c = a)"
  by (simp add: registry_inv_def)

lemma registry_inv_payment: "registry_inv r \<Longrightarrow> mget (r_byPayment r) p = Some c \<Longrightarrow> cl_PaymentID c = p"
  by (simp add: registry_inv_def)

lemma registry_inv_store [simp]: "registry_inv (r\<lparr>r_store := st\<rparr>) = registry_inv r"
  by (simp add: registry_inv_def)

lemma publish_inv:
  assumes "registry_inv r" "mget (r_byPayment r) (cl_PaymentID c) = None"
    "mget (r_byAllocation r) (cl_AllocationID c) = None"
  shows "registry_inv (publish c r)"
proof -
  have "cl_AllocationID d \<noteq> cl_AllocationID c" if "mget (r_byPayment r) p = Some d" for p d
    using that assms(3) registry_inv_allocation[OF assms(1), of "cl_AllocationID c" p] by auto
  with assms registry_inv_allocation[OF assms(1)] show ?thesis
    unfolding registry_inv_def publish_def by (auto split: if_splits)
qed

lemma publish_latched:
  "mget (r_byPayment r) (cl_PaymentID c) = None \<Longrightarrow> latched r (publish c (r\<lparr>r_store := st\<rparr>))"
  by (auto simp: latched_def publish_def IsReversed_def)

lemma set_state_inv:
  assumes "registry_inv r" "mget (r_byPayment r) p = Some c"
  shows "registry_inv (set_state p c s r)"
  using assms registry_inv_allocation[OF assms(1)]
  unfolding registry_inv_def set_state_def by (auto split: if_splits)

lemma set_state_latched: "mget (r_byPayment r) p = Some c \<Longrightarrow> latched r (set_state p c s r)"
  by (auto simp: latched_def set_state_def IsReversed_def)

lemma mark_reversed_inv [simp]: "registry_inv (mark_reversed p r) = registry_inv r"
  by (simp add: registry_inv_def mark_reversed_def)

lemma mark_reversed_latched [simp]: "latched r (mark_reversed p r)"
  by (auto simp: latched_def mark_reversed_def IsReversed_def)

lemma unowned:
  assumes "registry_inv r" "mget (r_byPayment r) p = None"
    "\<not> (case mget (r_byAllocation r) a of None \<Rightarrow> False | Some owner \<Rightarrow> owner \<noteq> p)"
  shows "mget (r_byAllocation r) a = None"
  using assms registry_inv_allocation[OF assms(1), of a p] by (cases "mget (r_byAllocation r) a") auto

text \<open>A claim that \<open>Restore\<close> takes.\<close>

definition restorable_claim :: "Claim \<Rightarrow> bool" where
  "restorable_claim c \<longleftrightarrow>
     cl_PaymentID c \<noteq> [] \<and> cl_AllocationID c \<noteq> [] \<and> cl_Digest c \<noteq> [] \<and>
     (cl_Mode c = ModeSyntheticProjection \<or> cl_Mode c = ModeCanonicalGateway \<and> validCanonicalState (cl_State c))"

lemma allowed_is_valid: "allowedCanonicalTransition s n \<Longrightarrow> validCanonicalState n"
  by (cases s) auto

lemma sameDurableClaim_identity: "sameDurableClaim c d \<longleftrightarrow> identity c = identity d"
  by (cases c; cases d) (simp add: sameDurableClaim_def identity_def)

lemma identity_eqI: "identity c = identity d \<Longrightarrow> cl_State c = cl_State d \<Longrightarrow> c = d"
  by (cases c; cases d) (simp add: identity_def)

lemma identity_state_eq: "identity c = identity d \<Longrightarrow> c\<lparr>cl_State := cl_State d\<rparr> = d"
  by (rule identity_eqI) simp_all

lemma restorable_set_state:
  "restorable_claim c \<Longrightarrow> validCanonicalState s \<Longrightarrow> restorable_claim (c\<lparr>cl_State := s\<rparr>)"
  by (auto simp: restorable_claim_def)

text \<open>Every operation keeps the registry well formed, its claims and its tombstones.\<close>

lemma ClaimMode_cases:
  assumes "ClaimMode cs r p a m d v e t = (res, r')"
  shows "r' = r \<or> (\<exists>st c err. r' = r\<lparr>r_store := st\<rparr> \<and> cs (r_store r) c = (Inl err, st)) \<or>
     (\<exists>c st replayed. r' = publish c (r\<lparr>r_store := st\<rparr>) \<and> cl_PaymentID c = p \<and> cl_AllocationID c = a \<and>
        cl_Digest c = d \<and> p \<noteq> [] \<and> a \<noteq> [] \<and> d \<noteq> [] \<and>
        cl_Mode c = ModeSyntheticProjection \<and> cs (r_store r) c = (Inr replayed, st) \<and>
        \<not> IsReversed r p \<and> mget (r_byPayment r) p = None \<and>
        \<not> (case mget (r_byAllocation r) a of None \<Rightarrow> False | Some owner \<Rightarrow> owner \<noteq> p))"
  using assms unfolding ClaimMode_def Let_def
  by (auto split: if_splits option.splits prod.splits sum.splits)

lemma ClaimModeWithCommit_cases:
  assumes "ClaimModeWithCommit cc r p a m d v e t f w = (res, r', w')"
  shows "r' = r \<or> (\<exists>st c g err. r' = r\<lparr>r_store := st\<rparr> \<and> cc (r_store r) c g w = (Inl err, st, w')) \<or>
     (\<exists>c st g. r' = publish c (r\<lparr>r_store := st\<rparr>) \<and> cl_PaymentID c = p \<and> cl_AllocationID c = a \<and>
        cl_Digest c = d \<and> p \<noteq> [] \<and> a \<noteq> [] \<and> d \<noteq> [] \<and>
        cl_Mode c = ModeCanonicalGateway \<and> cl_State c = CanonicalPrepared \<and>
        cc (r_store r) c g w = (Inr (), st, w') \<and>
        \<not> IsReversed r p \<and> mget (r_byPayment r) p = None \<and> mget (r_byAllocation r) a = None)"
  using assms unfolding ClaimModeWithCommit_def Let_def mhas_def
  by (auto split: if_splits option.splits prod.splits sum.splits)

lemma store_update_keeps: "registry_inv r \<Longrightarrow> registry_inv (r\<lparr>r_store := st\<rparr>) \<and> latched r (r\<lparr>r_store := st\<rparr>)"
  by (auto simp: latched_def IsReversed_def)

lemma publish_keeps:
  assumes "registry_inv r" "mget (r_byPayment r) (cl_PaymentID c) = None"
    "mget (r_byAllocation r) (cl_AllocationID c) = None"
  shows "registry_inv (publish c (r\<lparr>r_store := st\<rparr>)) \<and> latched r (publish c (r\<lparr>r_store := st\<rparr>))"
  using assms publish_inv[of "r\<lparr>r_store := st\<rparr>" c] publish_latched[of r c st] by simp

lemma ClaimMode_keeps:
  assumes "registry_inv r" "ClaimMode cs r p a m d v e t = (res, r')"
  shows "registry_inv r' \<and> latched r r'"
  using ClaimMode_cases[OF assms(2)] store_update_keeps[OF assms(1)] publish_keeps[OF assms(1)]
    unowned[OF assms(1)] assms(1) latched_refl by blast

lemma ClaimModeWithCommit_keeps:
  assumes "registry_inv r" "ClaimModeWithCommit cc r p a m d v e t f w = (res, r', w')"
  shows "registry_inv r' \<and> latched r r'"
  using ClaimModeWithCommit_cases[OF assms(2)] store_update_keeps[OF assms(1)]
    publish_keeps[OF assms(1)] assms(1) latched_refl by blast

lemma TransitionWithCommit_cases:
  assumes "TransitionWithCommit r p a d s n f w = (res, r', w')"
  shows "r' = r \<or> (\<exists>c. mget (r_byPayment r) p = Some c \<and> cl_Mode c = ModeCanonicalGateway \<and>
     allowedCanonicalTransition (cl_State c) n \<and> r' = set_state p c n r)"
  using assms
  by (auto simp: TransitionWithCommit_def Let_def set_state_def
      split: if_splits option.splits prod.splits sum.splits)

lemma HandleReversalWithCommit_cases:
  assumes "HandleReversalWithCommit r p f w = (res, r', w')"
  shows "r' = r \<or> p \<noteq> [] \<and> r' = mark_reversed p r \<or>
     (\<exists>c n. mget (r_byPayment r) p = Some c \<and> allowedCanonicalTransition (cl_State c) n \<and>
        r' = set_state p c n r)"
  using assms
  by (auto simp: HandleReversalWithCommit_def split: if_splits option.splits prod.splits)

lemma ResolveQuarantinedReversal_cases:
  assumes "ResolveQuarantinedReversal r d f w = (res, r', w')"
  shows "r' = r \<or> (\<exists>c. mget (r_byPayment r) (cl_PaymentID d) = Some c \<and>
     cl_PaymentID c = cl_PaymentID d \<and> allowedCanonicalTransition (cl_State c) CanonicalFailed \<and>
     r' = mark_reversed (cl_PaymentID d) (set_state (cl_PaymentID d) c CanonicalFailed r))"
  using assms
  by (auto simp: ResolveQuarantinedReversal_def sameClaim_def
      split: if_splits option.splits prod.splits sum.splits)

lemma Restore_cases:
  assumes "Restore r c b = (res, r')"
  obtains (refused) e where "res = Inl e" "r' = r"
  | (rewritten) d where "res = Inr ()" "restorable_claim c" "mget (r_byPayment r) (cl_PaymentID c) = Some d"
      "identity d = identity c" "IsReversed r (cl_PaymentID c) \<Longrightarrow> b"
      "r' = (if b then mark_reversed (cl_PaymentID c) else id) (set_state (cl_PaymentID c) d (cl_State c) r)"
  | (published) "res = Inr ()" "restorable_claim c" "mget (r_byPayment r) (cl_PaymentID c) = None"
      "\<not> (case mget (r_byAllocation r) (cl_AllocationID c) of None \<Rightarrow> False | Some owner \<Rightarrow> owner \<noteq> cl_PaymentID c)"
      "r' = (if b then mark_reversed (cl_PaymentID c) else id) (publish c r)"
proof -
  have ok: "\<not> (cl_PaymentID c = [] \<or> cl_AllocationID c = [] \<or> cl_Digest c = [] \<or>
         (cl_Mode c \<noteq> ModeSyntheticProjection \<and> cl_Mode c \<noteq> ModeCanonicalGateway) \<or>
         (cl_Mode c = ModeCanonicalGateway \<and> \<not> validCanonicalState (cl_State c))) \<longleftrightarrow> restorable_claim c"
    by (auto simp: restorable_claim_def)
  show thesis
  proof (cases "restorable_claim c")
    case False
    with ok have "Restore r c b = (Inl ErrInvalidClaim, r)" unfolding Restore_def by (intro if_P) blast
    with assms have "res = Inl ErrInvalidClaim" "r' = r" by simp_all
    then show thesis by (rule refused)
  next
    case True
    note run = assms[unfolded Restore_def if_not_P[OF iffD2[OF ok True]] Let_def]
    show thesis
    proof (cases "mget (r_byPayment r) (cl_PaymentID c)")
      case None
      with run True refused published show thesis by (auto split: if_split_asm)
    next
      case (Some d)
      with run True refused rewritten show thesis
        by (auto simp: sameDurableClaim_identity split: if_split_asm)
    qed
  qed
qed

lemma Restore_keeps:
  assumes "registry_inv r" "Restore r c tombstoned = (res, r')"
  shows "registry_inv r' \<and> latched r r'"
  using assms(2)
proof (cases rule: Restore_cases)
  case (rewritten d)
  with assms(1) show ?thesis
    by (auto intro: set_state_inv set_state_latched latched_trans[OF set_state_latched mark_reversed_latched])
next
  case published
  with publish_inv[OF assms(1) published(3) unowned[OF assms(1) published(3,4)]]
    publish_latched[OF published(3), of "r_store r"]
  show ?thesis by (auto intro: latched_trans[OF _ mark_reversed_latched])
qed (use assms(1) in simp)

section \<open>The registry as a state machine\<close>

text \<open>
  The state is the registry together with the state \<open>'w\<close> its callbacks work on. \<open>op_step\<close> has the
  operations of a running service; \<open>registry_step\<close> adds the two that rehydrate a registry.
\<close>

inductive op_step ::
  "('st \<Rightarrow> Claim \<Rightarrow> (mode_error + bool) \<times> 'st) \<Rightarrow>
   ('st \<Rightarrow> Claim \<Rightarrow> 'w commit \<Rightarrow> 'w \<Rightarrow> (mode_error + unit) \<times> 'st \<times> 'w) \<Rightarrow>
   'st Registry \<times> 'w \<Rightarrow> 'st Registry \<times> 'w \<Rightarrow> bool"
  for cs cc where
  step_ClaimMode: "ClaimMode cs r p a m d v e t = (res, r') \<Longrightarrow> op_step cs cc (r, w) (r', w)"
| step_ClaimModeWithCommit:
    "ClaimModeWithCommit cc r p a m d v e t f w = (res, r', w') \<Longrightarrow> op_step cs cc (r, w) (r', w')"
| step_Transition:
    "TransitionWithCommit r p a d s n f w = (res, r', w') \<Longrightarrow> op_step cs cc (r, w) (r', w')"
| step_HandleReversal:
    "HandleReversalWithCommit r p g w = (res', r', w') \<Longrightarrow> op_step cs cc (r, w) (r', w')"
| step_Resolve:
    "ResolveQuarantinedReversal r c h w = (res'', r', w') \<Longrightarrow> op_step cs cc (r, w) (r', w')"

inductive registry_step ::
  "('st \<Rightarrow> Claim \<Rightarrow> (mode_error + bool) \<times> 'st) \<Rightarrow>
   ('st \<Rightarrow> Claim \<Rightarrow> 'w commit \<Rightarrow> 'w \<Rightarrow> (mode_error + unit) \<times> 'st \<times> 'w) \<Rightarrow>
   'st Registry \<times> 'w \<Rightarrow> 'st Registry \<times> 'w \<Rightarrow> bool"
  for cs cc where
  step_op: "op_step cs cc s t \<Longrightarrow> registry_step cs cc s t"
| step_Restore: "Restore r c b = (res, r') \<Longrightarrow> registry_step cs cc (r, w) (r', w)"
| step_RestoreTombstone: "RestoreTombstone r p = (res, r') \<Longrightarrow> registry_step cs cc (r, w) (r', w)"

definition registry_init :: "'st Registry \<times> 'w \<Rightarrow> bool" where
  "registry_init s \<longleftrightarrow> r_byPayment (fst s) = [] \<and> r_byAllocation (fst s) = [] \<and> r_reversed (fst s) = []"

lemma op_step_keeps:
  "op_step cs cc s t \<Longrightarrow> registry_inv (fst s) \<Longrightarrow> registry_inv (fst t) \<and> latched (fst s) (fst t)"
proof (induction rule: op_step.induct)
  case (step_ClaimMode r p a m d v e t res r' w)
  then show ?case using ClaimMode_keeps[OF _ step_ClaimMode(1)] by simp
next
  case (step_ClaimModeWithCommit r p a m d v e t f w res r' w')
  then show ?case using ClaimModeWithCommit_keeps[OF _ step_ClaimModeWithCommit(1)] by simp
next
  case (step_Transition r p a d s n f w res r' w')
  with TransitionWithCommit_cases[OF this(1)] show ?case
    by (auto intro: set_state_inv set_state_latched)
next
  case (step_HandleReversal r p g w res' r' w')
  with HandleReversalWithCommit_cases[OF this(1)] show ?case
    by (auto intro: set_state_inv set_state_latched)
next
  case (step_Resolve r c h w res'' r' w')
  with ResolveQuarantinedReversal_cases[OF this(1)] show ?case
    by (auto intro: set_state_inv latched_trans[OF set_state_latched mark_reversed_latched])
qed

lemma registry_step_keeps:
  "registry_step cs cc s t \<Longrightarrow> registry_inv (fst s) \<Longrightarrow> registry_inv (fst t) \<and> latched (fst s) (fst t)"
  by (induction rule: registry_step.induct)
     (auto dest: op_step_keeps Restore_keeps simp: RestoreTombstone_def split: if_splits)

interpretation latch: monotone_history registry_init "registry_step cs cc" "\<lambda>s. registry_inv (fst s)"
  "\<lambda>s t. latched (fst s) (fst t)" for cs cc
  by unfold_locales
     (auto simp: registry_init_def registry_inv_def intro: latched_trans
        dest: registry_step_keeps)

section \<open>The life of a canonical claim\<close>

text \<open>Along the operations of a running service the state of a claim follows the allowed transitions.\<close>

definition moves :: "'st Registry \<Rightarrow> 'st Registry \<Rightarrow> bool" where
  "moves r r' \<longleftrightarrow>
     (\<forall>p c c'. mget (r_byPayment r) p = Some c \<and> mget (r_byPayment r') p = Some c' \<longrightarrow>
        cl_State c' = cl_State c \<or> allowedCanonicalTransition (cl_State c) (cl_State c'))"

lemma moves_refl [simp]: "moves r r" "moves r (r\<lparr>r_store := st\<rparr>)" "moves r (mark_reversed p r)"
  by (auto simp: moves_def mark_reversed_def)

lemma moves_publish: "mget (r_byPayment r) (cl_PaymentID c) = None \<Longrightarrow> moves r (publish c (r\<lparr>r_store := st\<rparr>))"
  by (auto simp: moves_def publish_def)

lemma moves_set_state:
  "mget (r_byPayment r) p = Some c \<Longrightarrow> allowedCanonicalTransition (cl_State c) n \<Longrightarrow>
   moves r (set_state p c n r) \<and> moves r (mark_reversed q (set_state p c n r))"
  by (auto simp: moves_def set_state_def mark_reversed_def)

lemma op_step_moves: "op_step cs cc s t \<Longrightarrow> moves (fst s) (fst t)"
proof (induction rule: op_step.induct)
  case (step_ClaimMode r p a m d v e t res r' w)
  from ClaimMode_cases[OF this] show ?case by (auto intro: moves_publish)
next
  case (step_ClaimModeWithCommit r p a m d v e t f w res r' w')
  from ClaimModeWithCommit_cases[OF this] show ?case by (auto intro: moves_publish)
next
  case (step_Transition r p a d s n f w res r' w')
  from TransitionWithCommit_cases[OF this] show ?case by (auto simp: moves_set_state)
next
  case (step_HandleReversal r p g w res' r' w')
  from HandleReversalWithCommit_cases[OF this] show ?case by (auto simp: moves_set_state)
next
  case (step_Resolve r c h w res'' r' w')
  from ResolveQuarantinedReversal_cases[OF this] show ?case by (auto simp: moves_set_state)
qed

text \<open>A claim in one of these states never leaves them again.\<close>

fun settled :: "CanonicalState \<Rightarrow> bool" where
  "settled CanonicalConfirmed = True"
| "settled CanonicalIncident = True"
| "settled _ = False"

lemma settled_closed: "settled s \<Longrightarrow> allowedCanonicalTransition s t \<Longrightarrow> t = CanonicalIncident"
  by (cases s) auto

definition stays_settled :: "'st Registry \<Rightarrow> 'st Registry \<Rightarrow> bool" where
  "stays_settled r r' \<longleftrightarrow>
     (\<forall>p c. mget (r_byPayment r) p = Some c \<and> settled (cl_State c) \<longrightarrow>
        (\<exists>c'. mget (r_byPayment r') p = Some c' \<and> settled (cl_State c') \<and> identity c' = identity c))"

lemma op_step_settled:
  assumes "op_step cs cc s t" "registry_inv (fst s)"
  shows "stays_settled (fst s) (fst t)"
proof -
  have l: "latched (fst s) (fst t)" and m: "moves (fst s) (fst t)"
    using op_step_keeps[OF assms] op_step_moves[OF assms(1)] by auto
  show ?thesis
    unfolding stays_settled_def
  proof (intro allI impI, elim conjE)
    fix p c assume c: "mget (r_byPayment (fst s)) p = Some c" "settled (cl_State c)"
    from latchedD[OF l c(1)] obtain c' where
      c': "mget (r_byPayment (fst t)) p = Some c'" "identity c' = identity c" by blast
    with m c have "cl_State c' = cl_State c \<or> allowedCanonicalTransition (cl_State c) (cl_State c')"
      by (auto simp: moves_def)
    with c(2) have "settled (cl_State c')" by (auto dest: settled_closed)
    with c' show "\<exists>c'. mget (r_byPayment (fst t)) p = Some c' \<and> settled (cl_State c') \<and>
      identity c' = identity c" by blast
  qed
qed

text \<open>A step that is a rehydration of the claim of \<open>p\<close> with a record in a state that is not settled.\<close>

definition unsettles :: "string \<Rightarrow> 'st Registry \<times> 'w \<Rightarrow> 'st Registry \<times> 'w \<Rightarrow> bool" where
  "unsettles p s t \<longleftrightarrow>
     snd t = snd s \<and>
     (\<exists>d b. Restore (fst s) d b = (Inr (), fst t) \<and> cl_PaymentID d = p \<and> \<not> settled (cl_State d))"

lemma Restore_claim:
  assumes "Restore r c b = (res, r')" "mget (r_byPayment r) p = Some d"
  shows "mget (r_byPayment r') p = Some d \<or>
    cl_PaymentID c = p \<and> res = Inr () \<and> identity d = identity c \<and> mget (r_byPayment r') p = Some c"
  using assms(1)
proof (cases rule: Restore_cases)
  case (rewritten e)
  with assms(2) show ?thesis by (auto simp: set_state_def mark_reversed_def identity_state_eq)
next
  case published
  with assms(2) show ?thesis by (auto simp: publish_def mark_reversed_def)
qed (use assms(2) in simp)

lemma registry_step_settled:
  assumes "registry_step cs cc s t" "\<not> unsettles p s t" "registry_inv (fst s)"
    and "mget (r_byPayment (fst s)) p = Some c" "settled (cl_State c)"
  shows "\<exists>c'. mget (r_byPayment (fst t)) p = Some c' \<and> settled (cl_State c')"
  using assms(1)
proof cases
  case step_op
  with op_step_settled[OF step_op assms(3)] assms(4,5) show ?thesis unfolding stays_settled_def by blast
next
  case (step_Restore r d b res r' w)
  with Restore_claim[OF step_Restore(3), of p c] assms(2,4,5) show ?thesis by (auto simp: unsettles_def)
next
  case (step_RestoreTombstone r q res r' w)
  with assms(4,5) show ?thesis by (auto simp: RestoreTombstone_def mark_reversed_def split: if_splits)
qed

section \<open>What can be rehydrated\<close>

text \<open>Every claim of a registry is one that \<open>Restore\<close> takes, and no tombstone is for the empty identifier.\<close>

definition rehydratable :: "'st Registry \<Rightarrow> bool" where
  "rehydratable r \<longleftrightarrow>
     (\<forall>p c. mget (r_byPayment r) p = Some c \<longrightarrow> restorable_claim c) \<and> (\<forall>p. IsReversed r p \<longrightarrow> p \<noteq> [])"

lemma rehydratable_simps [simp]:
  "rehydratable (r\<lparr>r_store := st\<rparr>) = rehydratable r"
  "rehydratable (mark_reversed p r) \<longleftrightarrow> rehydratable r \<and> p \<noteq> []"
  by (auto simp: rehydratable_def IsReversed_def mark_reversed_def)

lemma rehydratable_publish: "rehydratable r \<Longrightarrow> restorable_claim c \<Longrightarrow> rehydratable (publish c r)"
  by (auto simp: rehydratable_def IsReversed_def publish_def)

lemma rehydratable_set_state:
  "rehydratable r \<Longrightarrow> restorable_claim (c\<lparr>cl_State := s\<rparr>) \<Longrightarrow> rehydratable (set_state p c s r)"
  by (auto simp: rehydratable_def IsReversed_def set_state_def)

lemma rehydratable_transition:
  assumes "rehydratable r" "mget (r_byPayment r) p = Some c" "allowedCanonicalTransition (cl_State c) n"
  shows "rehydratable (set_state p c n r)"
  using assms by (auto simp: rehydratable_def[of r] intro!: rehydratable_set_state restorable_set_state allowed_is_valid)

lemma op_step_rehydratable:
  "op_step cs cc s t \<Longrightarrow> registry_inv (fst s) \<Longrightarrow> rehydratable (fst s) \<Longrightarrow> rehydratable (fst t)"
proof (induction rule: op_step.induct)
  case (step_ClaimMode r p a m d v e t res r' w)
  with ClaimMode_cases[OF step_ClaimMode(1)] show ?case
    by (auto intro!: rehydratable_publish simp: restorable_claim_def)
next
  case (step_ClaimModeWithCommit r p a m d v e t f w res r' w')
  with ClaimModeWithCommit_cases[OF step_ClaimModeWithCommit(1)] show ?case
    by (auto intro!: rehydratable_publish simp: restorable_claim_def)
next
  case (step_Transition r p a d s n f w res r' w')
  with TransitionWithCommit_cases[OF step_Transition(1)] show ?case by (auto intro: rehydratable_transition)
next
  case (step_HandleReversal r p g w res' r' w')
  with HandleReversalWithCommit_cases[OF step_HandleReversal(1)] show ?case by (auto intro: rehydratable_transition)
next
  case (step_Resolve r c h w res'' r' w')
  have "cl_PaymentID c \<noteq> []" if "mget (r_byPayment r) (cl_PaymentID c) = Some d" for d
    using that step_Resolve(2,3) by (auto simp: rehydratable_def registry_inv_def restorable_claim_def)
  with ResolveQuarantinedReversal_cases[OF step_Resolve(1)] step_Resolve(3) show ?case
    by (auto intro: rehydratable_transition)
qed

lemma registry_step_rehydratable:
  "registry_step cs cc s t \<Longrightarrow> registry_inv (fst s) \<Longrightarrow> rehydratable (fst s) \<Longrightarrow> rehydratable (fst t)"
proof (induction rule: registry_step.induct)
  case (step_op s t)
  then show ?case by (rule op_step_rehydratable)
next
  case (step_Restore r c b res r' w)
  have ne: "restorable_claim c \<Longrightarrow> cl_PaymentID c \<noteq> []" by (simp add: restorable_claim_def)
  from step_Restore(1) show ?case
  proof (cases rule: Restore_cases)
    case (rewritten d)
    with identity_state_eq[OF rewritten(4)] step_Restore(3) ne show ?thesis by (simp add: rehydratable_set_state)
  next
    case published
    with step_Restore(3) ne show ?thesis by (simp add: rehydratable_publish)
  qed (use step_Restore(3) in simp)
next
  case (step_RestoreTombstone r p res r' w)
  then show ?case by (auto simp: RestoreTombstone_def split: if_splits)
qed

interpretation rehydration: kept_invariant registry_init "registry_step cs cc"
  "\<lambda>s. registry_inv (fst s) \<and> rehydratable (fst s)" for cs cc
proof (unfold_locales, goal_cases)
  case (1 s)
  then show ?case by (simp add: registry_init_def registry_inv_def rehydratable_def IsReversed_def)
next
  case (2 s t)
  then show ?case using registry_step_keeps[OF 2(2)] registry_step_rehydratable[OF 2(2)] by blast
qed

text \<open>What \<open>Restore\<close> does with a record of the claim that is there, in any state.\<close>

lemma Restore_overwrites:
  assumes "mget (r_byPayment r) p = Some c" "registry_inv r" "rehydratable r" "validCanonicalState n"
  shows "\<exists>r'. Restore r (c\<lparr>cl_State := n\<rparr>) (IsReversed r p) = (Inr (), r') \<and>
    mget (r_byPayment r') p = Some (c\<lparr>cl_State := n\<rparr>)"
proof -
  have p: "cl_PaymentID c = p" by (rule registry_inv_payment[OF assms(2,1)])
  have ok: "restorable_claim (c\<lparr>cl_State := n\<rparr>)"
    using assms by (auto simp: rehydratable_def intro: restorable_set_state)
  obtain res r' where run: "Restore r (c\<lparr>cl_State := n\<rparr>) (IsReversed r p) = (res, r')" by fastforce
  have "\<not> (\<exists>e. res = Inl e)"
    using run ok assms(1) p by (auto simp: Restore_def restorable_claim_def sameDurableClaim_identity Let_def split: if_splits)
  from run show ?thesis
  proof (cases rule: Restore_cases)
    case refused
    with \<open>\<not> (\<exists>e. res = Inl e)\<close> show ?thesis by blast
  next
    case (rewritten d)
    with run assms(1) p show ?thesis by (auto simp: set_state_def mark_reversed_def)
  next
    case published
    with assms(1) p show ?thesis by simp
  qed
qed

section \<open>The store and a restart\<close>

abbreviation by_payment :: "Claim list \<Rightarrow> string \<Rightarrow> Claim option" where
  "by_payment cs \<equiv> map_of (map (\<lambda>c. (cl_PaymentID c, c)) cs)"

lemma load_claims_total:
  assumes "list_all validDurableClaim cs" "distinct (map cl_PaymentID cs)"
    "distinct (map cl_AllocationID cs)"
    "list_all (\<lambda>c. \<not> mhas (r_byPayment r) (cl_PaymentID c)) cs"
    "list_all (\<lambda>c. \<not> mhas (r_byAllocation r) (cl_AllocationID c)) cs"
  shows "\<exists>r'. load_claims cs r = Inr r' \<and> mget (r_byPayment r') = mget (r_byPayment r) ++ by_payment cs"
  using assms
proof (induction cs arbitrary: r)
  case (Cons c cs)
  let ?r = "r\<lparr>r_byPayment := mput (cl_PaymentID c) c (r_byPayment r),
              r_byAllocation := mput (cl_AllocationID c) (cl_PaymentID c) (r_byAllocation r)\<rparr>"
  have fresh: "list_all (\<lambda>d. \<not> mhas (r_byPayment ?r) (cl_PaymentID d)) cs"
    "list_all (\<lambda>d. \<not> mhas (r_byAllocation ?r) (cl_AllocationID d)) cs"
    using Cons.prems by (auto simp: list_all_iff) (metis imageI)+
  have "list_all validDurableClaim cs" "distinct (map cl_PaymentID cs)" "distinct (map cl_AllocationID cs)"
    using Cons.prems by simp_all
  from Cons.IH[OF this fresh] obtain r' where r': "load_claims cs ?r = Inr r'"
    "mget (r_byPayment r') = mget (r_byPayment ?r) ++ by_payment cs" by blast
  have "by_payment cs (cl_PaymentID c) = None"
    using Cons.prems(2) by (simp add: map_of_eq_None_iff image_image)
  with Cons.prems r' show ?case
    by (intro exI[of _ r']) (auto simp: map_add_def fun_eq_iff split: option.split)
qed simp

text \<open>
  What the registry needs of its store: a successful claim is durable and nothing else changes, a
  failed one changes nothing, and what is loaded is exactly what is durable.
\<close>

locale claim_store =
  fixes cs :: "'st \<Rightarrow> Claim \<Rightarrow> (mode_error + bool) \<times> 'st"
    and cc :: "'st \<Rightarrow> Claim \<Rightarrow> 'w commit \<Rightarrow> 'w \<Rightarrow> (mode_error + unit) \<times> 'st \<times> 'w"
    and load :: "'st \<Rightarrow> Claim list"
    and good :: "'st \<Rightarrow> bool"
    and view :: "'st \<Rightarrow> string \<Rightarrow> Claim option"
  assumes cs_error: "cs st c = (Inl e, st') \<Longrightarrow> st' = st"
    and cs_ok: "good st \<Longrightarrow> cs st c = (Inr b, st') \<Longrightarrow> good st' \<and> view st' = (view st)(cl_PaymentID c \<mapsto> c)"
    and cc_error: "cc st c f w = (Inl e, st', w') \<Longrightarrow> st' = st"
    and cc_ok: "good st \<Longrightarrow> cc st c f w = (Inr u, st', w') \<Longrightarrow>
      good st' \<and> view st' = (view st)(cl_PaymentID c \<mapsto> c)"
    and load_view: "good st \<Longrightarrow> c \<in> set (load st) \<longleftrightarrow> view st (cl_PaymentID c) = Some c"
    and view_keyed: "good st \<Longrightarrow> view st p = Some c \<Longrightarrow> cl_PaymentID c = p \<and> validDurableClaim c"
    and load_distinct: "good st \<Longrightarrow>
      distinct (map cl_PaymentID (load st)) \<and> distinct (map cl_AllocationID (load st))"
begin

lemma restart:
  assumes g: "good st"
  shows "\<exists>r. registry_New load st = Inr r \<and> mget (r_byPayment r) = view st"
proof -
  have "list_all validDurableClaim (load st)"
    using load_view[OF g] view_keyed[OF g] by (auto simp: list_all_iff)
  then obtain r where r: "registry_New load st = Inr r" "mget (r_byPayment r) = mget [] ++ by_payment (load st)"
    using load_claims_total[of "load st" "\<lparr>r_byPayment = [], r_byAllocation = [], r_reversed = [], r_store = st\<rparr>"]
      load_distinct[OF g] unfolding registry_New_def by (auto simp: list_all_iff)
  have "by_payment (load st) p = view st p" for p
  proof (cases "view st p")
    case (Some c)
    then have "c \<in> set (load st)" "cl_PaymentID c = p"
      using view_keyed[OF g Some] load_view[OF g, of c] by auto
    moreover have "distinct (map fst (map (\<lambda>c. (cl_PaymentID c, c)) (load st)))"
      using load_distinct[OF g] by (simp add: comp_def)
    ultimately show ?thesis using Some by (metis (no_types, lifting) image_eqI list.set_map map_of_is_SomeI)
  next
    case None
    then show ?thesis using load_view[OF g] by (auto simp: map_of_eq_None_iff)
  qed
  with r show ?thesis by (auto simp: map_add_def split: option.splits)
qed

end

text \<open>Every durable claim is a claim of the registry, states aside.\<close>

definition durable_in :: "('st \<Rightarrow> bool) \<Rightarrow> ('st \<Rightarrow> string \<Rightarrow> Claim option) \<Rightarrow> 'st Registry \<Rightarrow> bool" where
  "durable_in good view r \<longleftrightarrow>
     good (r_store r) \<and>
     (\<forall>p c. view (r_store r) p = Some c \<longrightarrow> (\<exists>c'. mget (r_byPayment r) p = Some c' \<and> identity c' = identity c))"

lemma durable_in_latched:
  assumes "durable_in good view r" "latched r r'" "r_store r' = r_store r"
  shows "durable_in good view r'"
  using assms unfolding durable_in_def latched_def by metis

lemma durable_in_publish:
  assumes "durable_in good view r" "good st" "view st = (view (r_store r))(cl_PaymentID c \<mapsto> c)"
  shows "durable_in good view (publish c (r\<lparr>r_store := st\<rparr>))"
  using assms by (auto simp: durable_in_def publish_def)

lemma store_simps [simp]:
  "r_store (publish c r) = r_store r" "r_store (set_state p c s r) = r_store r" "r_store (mark_reversed p r) = r_store r"
  by (simp_all add: publish_def set_state_def mark_reversed_def)

lemma Restore_store: "Restore r c b = (res, r') \<Longrightarrow> r_store r' = r_store r"
  by (erule Restore_cases) auto

text \<open>
  The loops in which \<^verbatim>\<open>settlement.NewWithStore\<close> rehydrates the registry from the coordinator's store: the
  claim of every snapshot, with its tombstone flag, and then the tombstones.
\<close>

fun restore_claims :: "(Claim \<times> bool) list \<Rightarrow> 'st Registry \<Rightarrow> mode_error + 'st Registry" where
  "restore_claims [] modes = Inr modes"
| "restore_claims ((claim, tombstoned) # records) modes =
     (case Restore modes claim tombstoned of
        (Inl err, _) \<Rightarrow> Inl err
      | (Inr _, modes1) \<Rightarrow> restore_claims records modes1)"

fun restore_tombstones :: "string list \<Rightarrow> 'st Registry \<Rightarrow> mode_error + 'st Registry" where
  "restore_tombstones [] modes = Inr modes"
| "restore_tombstones (paymentID # tombstones) modes =
     (case RestoreTombstone modes paymentID of
        (Inl err, _) \<Rightarrow> Inl err
      | (Inr _, modes1) \<Rightarrow> restore_tombstones tombstones modes1)"

text \<open>A registry on its way back to \<open>r\<close>: nothing in it that \<open>r\<close> does not have.\<close>

definition returning :: "'st Registry \<Rightarrow> 'st Registry \<Rightarrow> bool" where
  "returning r m \<longleftrightarrow> registry_inv m \<and> latched m r"

lemma returning_restore:
  assumes m: "returning r m" and r: "registry_inv r" "rehydratable r"
    and c: "mget (r_byPayment r) (cl_PaymentID c) = Some c" and b: "b = IsReversed r (cl_PaymentID c)"
  shows "\<exists>m'. Restore m c b = (Inr (), m') \<and> returning r m' \<and>
    mget (r_byPayment m') = (mget (r_byPayment m))(cl_PaymentID c \<mapsto> c) \<and>
    IsReversed m' = (IsReversed m)(cl_PaymentID c := b)"
proof -
  let ?p = "cl_PaymentID c"
  have ok: "restorable_claim c" using r(2) c by (auto simp: rehydratable_def)
  have rev: "IsReversed m ?p \<Longrightarrow> b" using m b by (auto simp: returning_def latched_def)
  have id: "identity d = identity c" if "mget (r_byPayment m) ?p = Some d" for d
    using m latchedD[of m r ?p d] c that by (auto simp: returning_def)
  have free: "\<not> (case mget (r_byAllocation m) (cl_AllocationID c) of None \<Rightarrow> False | Some owner \<Rightarrow> owner \<noteq> ?p)"
    (is "\<not> ?taken")
  proof
    assume ?taken
    then obtain q where q: "mget (r_byAllocation m) (cl_AllocationID c) = Some q" "q \<noteq> ?p"
      by (auto split: option.splits)
    then obtain d where "mget (r_byPayment m) q = Some d" "cl_AllocationID d = cl_AllocationID c"
      using m registry_inv_allocation[of m] by (auto simp: returning_def)
    with m latchedD[of m r q d] obtain e where "mget (r_byPayment r) q = Some e" "cl_AllocationID e = cl_AllocationID c"
      by (auto simp: returning_def dest: identity_fields)
    with c q(2) registry_inv_allocation[OF r(1), of "cl_AllocationID c"] show False by (metis option.inject)
  qed
  obtain res m' where run: "Restore m c b = (res, m')" by fastforce
  have "res = Inr ()" using run ok rev id free
    by (auto simp: Restore_def restorable_claim_def sameDurableClaim_identity Let_def split: if_splits option.splits)
  moreover have after: "mget (r_byPayment m') = (mget (r_byPayment m))(?p \<mapsto> c) \<and> IsReversed m' = (IsReversed m)(?p := b)"
    using run
  proof (cases rule: Restore_cases)
    case (refused e)
    with \<open>res = Inr ()\<close> show ?thesis by simp
  next
    case (rewritten d)
    with rev identity_state_eq[OF rewritten(4)] show ?thesis
      by (auto simp: set_state_def mark_reversed_def IsReversed_def fun_eq_iff)
  next
    case published
    have "mget (r_reversed m) ?p \<noteq> Some True" if "\<not> b" using rev that by (auto simp: IsReversed_def)
    with published show ?thesis
      by (auto simp: publish_def mark_reversed_def IsReversed_def fun_eq_iff the_default_def split: option.splits)
  qed
  moreover have "latched m' r" using m c b after by (auto simp: returning_def latched_def)
  ultimately show ?thesis using run Restore_keeps[OF _ run] m by (auto simp: returning_def)
qed

lemma returning_restore_claims:
  assumes "returning r m" "registry_inv r" "rehydratable r"
    and "\<forall>(c, b) \<in> set rs. mget (r_byPayment r) (cl_PaymentID c) = Some c \<and> b = IsReversed r (cl_PaymentID c)"
  shows "\<exists>m'. restore_claims rs m = Inr m' \<and>
    (\<forall>p. if p \<in> (cl_PaymentID \<circ> fst) ` set rs
         then mget (r_byPayment m') p = mget (r_byPayment r) p \<and> IsReversed m' p = IsReversed r p
         else mget (r_byPayment m') p = mget (r_byPayment m) p \<and> IsReversed m' p = IsReversed m p)"
  using assms(1,4)
proof (induction rs arbitrary: m)
  case (Cons x rs)
  obtain c b where x: "x = (c, b)" by fastforce
  with Cons.prems(2) have c: "mget (r_byPayment r) (cl_PaymentID c) = Some c" "b = IsReversed r (cl_PaymentID c)" by auto
  from returning_restore[OF Cons.prems(1) assms(2,3) c] obtain m1 where m1: "Restore m c b = (Inr (), m1)" "returning r m1"
    "mget (r_byPayment m1) = (mget (r_byPayment m))(cl_PaymentID c \<mapsto> c)" "IsReversed m1 = (IsReversed m)(cl_PaymentID c := b)"
    by blast
  from Cons.IH[OF m1(2)] Cons.prems(2) obtain m' where m': "restore_claims rs m1 = Inr m'"
    "\<forall>p. if p \<in> (cl_PaymentID \<circ> fst) ` set rs
         then mget (r_byPayment m') p = mget (r_byPayment r) p \<and> IsReversed m' p = IsReversed r p
         else mget (r_byPayment m') p = mget (r_byPayment m1) p \<and> IsReversed m' p = IsReversed m1 p" by auto
  have "if p \<in> (cl_PaymentID \<circ> fst) ` set (x # rs)
         then mget (r_byPayment m') p = mget (r_byPayment r) p \<and> IsReversed m' p = IsReversed r p
         else mget (r_byPayment m') p = mget (r_byPayment m) p \<and> IsReversed m' p = IsReversed m p" for p
    using m'(2)[rule_format, of p] m1(3,4) c x by (auto split: if_split_asm)
  with m'(1) m1(1) x show ?case by auto
qed simp

lemma restore_tombstones_all:
  assumes "[] \<notin> set ps"
  shows "\<exists>m'. restore_tombstones ps m = Inr m' \<and> r_byPayment m' = r_byPayment m \<and>
    (\<forall>p. IsReversed m' p \<longleftrightarrow> p \<in> set ps \<or> IsReversed m p)"
  using assms
proof (induction ps arbitrary: m)
  case (Cons q ps)
  from Cons.IH[of "mark_reversed q m"] Cons.prems show ?case
    by (auto simp: RestoreTombstone_def mark_reversed_def IsReversed_def)
qed simp

lemma load_claims_keeps:
  "load_claims cs r = Inr r' \<Longrightarrow> registry_inv r \<Longrightarrow> registry_inv r' \<and> r_reversed r' = r_reversed r"
proof (induction cs arbitrary: r)
  case (Cons c cs)
  then have "load_claims cs (publish c r) = Inr r'" "mget (r_byPayment r) (cl_PaymentID c) = None"
    "mget (r_byAllocation r) (cl_AllocationID c) = None"
    by (auto simp: publish_def mhas_def split: if_splits)
  with Cons.IH[of "publish c r"] publish_inv[OF Cons.prems(2), of c] show ?case by (auto simp: publish_def)
qed simp

context claim_store
begin

lemma registry_step_durable:
  assumes "registry_step cs cc s t" "registry_inv (fst s)" "durable_in good view (fst s)"
  shows "durable_in good view (fst t)"
proof -
  have g: "good (r_store (fst s))" using assms(3) by (simp add: durable_in_def)
  have same: ?thesis if "r_store (fst t) = r_store (fst s)"
    using durable_in_latched[OF assms(3) _ that] registry_step_keeps[OF assms(1,2)] by blast
  from assms(1) show ?thesis
  proof cases
    case step_op
    then show ?thesis
    proof cases
      case (step_ClaimMode r p a m d v e t res r' w)
      from ClaimMode_cases[OF step_ClaimMode(3)] show ?thesis
        using same assms(3) g step_ClaimMode(1,2) by (auto dest: cs_error cs_ok intro: durable_in_publish)
    next
      case (step_ClaimModeWithCommit r p a m d v e t f w res r' w')
      from ClaimModeWithCommit_cases[OF step_ClaimModeWithCommit(3)] show ?thesis
        using same assms(3) g step_ClaimModeWithCommit(1,2) by (auto dest: cc_error cc_ok intro: durable_in_publish)
    next
      case (step_Transition r p a d x n f w res r' w')
      from TransitionWithCommit_cases[OF step_Transition(3)] same step_Transition(1,2) show ?thesis by auto
    next
      case (step_HandleReversal r p g w res' r' w')
      from HandleReversalWithCommit_cases[OF step_HandleReversal(3)] same step_HandleReversal(1,2) show ?thesis by auto
    next
      case (step_Resolve r c h w res'' r' w')
      from ResolveQuarantinedReversal_cases[OF step_Resolve(3)] same step_Resolve(1,2) show ?thesis by auto
    qed
  next
    case (step_Restore r c b res r' w)
    with same Restore_store[OF step_Restore(3)] show ?thesis by simp
  next
    case (step_RestoreTombstone r p res r' w)
    with same show ?thesis by (auto simp: RestoreTombstone_def split: if_splits)
  qed
qed

lemma restart_and_rehydrate:
  assumes r: "registry_inv r" "rehydratable r" "durable_in good view r"
    and records: "\<forall>(c, b) \<in> set rs. registry_Lookup r (cl_PaymentID c) = Some c \<and> b = IsReversed r (cl_PaymentID c)"
    and changed: "\<forall>p c. registry_Lookup r p = Some c \<and> view (r_store r) p \<noteq> Some c \<longrightarrow> (c, IsReversed r p) \<in> set rs"
    and tombstones: "set ps = {p. IsReversed r p}"
  shows "\<exists>m1 m2 m3. registry_New load (r_store r) = Inr m1 \<and> restore_claims rs m1 = Inr m2 \<and>
    restore_tombstones ps m2 = Inr m3 \<and> registry_Lookup m3 = registry_Lookup r \<and> IsReversed m3 = IsReversed r"
proof -
  have g: "good (r_store r)" using r(3) by (simp add: durable_in_def)
  from restart[OF g] obtain m1 where m1: "registry_New load (r_store r) = Inr m1" "mget (r_byPayment m1) = view (r_store r)"
    by blast
  have new: "registry_inv m1" "\<not> IsReversed m1 p" for p
    using load_claims_keeps[OF m1(1)[unfolded registry_New_def]] by (auto simp: registry_inv_def IsReversed_def)
  then have "returning r m1" using r(3) m1(2) by (simp add: returning_def latched_def durable_in_def)
  from returning_restore_claims[OF this r(1,2)] records obtain m2 where m2: "restore_claims rs m1 = Inr m2"
    "\<forall>p. if p \<in> (cl_PaymentID \<circ> fst) ` set rs
         then mget (r_byPayment m2) p = mget (r_byPayment r) p \<and> IsReversed m2 p = IsReversed r p
         else mget (r_byPayment m2) p = mget (r_byPayment m1) p \<and> IsReversed m2 p = IsReversed m1 p"
    unfolding registry_Lookup_def by blast
  have "[] \<notin> set ps" using tombstones r(2) by (auto simp: rehydratable_def)
  from restore_tombstones_all[OF this, of m2] obtain m3 where m3: "restore_tombstones ps m2 = Inr m3"
    "r_byPayment m3 = r_byPayment m2" "\<And>p. IsReversed m3 p \<longleftrightarrow> p \<in> set ps \<or> IsReversed m2 p" by blast
  have "mget (r_byPayment m2) p = mget (r_byPayment r) p" for p
  proof (cases "p \<in> (cl_PaymentID \<circ> fst) ` set rs")
    case False
    have "view (r_store r) p = mget (r_byPayment r) p"
    proof (cases "mget (r_byPayment r) p")
      case None
      with r(3) show ?thesis unfolding durable_in_def by (metis option.distinct(1) option.exhaust)
    next
      case (Some c)
      with changed False registry_inv_payment[OF r(1) Some] show ?thesis by (force simp: registry_Lookup_def)
    qed
    with False m2(2)[rule_format, of p] m1(2) show ?thesis by simp
  qed (use m2(2)[rule_format, of p] in simp)
  moreover have "IsReversed m3 p = IsReversed r p" for p
    using m2(2)[rule_format, of p] m3(3)[of p] new(2)[of p] tombstones by (auto split: if_split_asm)
  ultimately show ?thesis using m1(1) m2(1) m3(1,2) by (auto simp: registry_Lookup_def fun_eq_iff)
qed

end

section \<open>The memory store meets the contract\<close>

definition memory_inv :: "MemoryStore \<Rightarrow> bool" where
  "memory_inv st \<longleftrightarrow>
     mwf st \<and> list_all (\<lambda>(k, c). cl_PaymentID c = k \<and> validDurableClaim c) st \<and>
     distinct (map (\<lambda>(k, c). cl_AllocationID c) st)"

lemma memory_inv_get:
  "memory_inv st \<Longrightarrow> mget st p = Some c \<Longrightarrow> cl_PaymentID c = p \<and> validDurableClaim c"
  by (auto simp: memory_inv_def list_all_iff dest!: mget_mem)

lemma memory_inv_keys: "memory_inv st \<Longrightarrow> map cl_PaymentID (map snd st) = map fst st"
  by (auto simp: memory_inv_def list_all_iff)

lemma memory_mput:
  assumes "memory_inv st" "mget st (cl_PaymentID c) = None" "\<not> allocation_taken st c" "validDurableClaim c"
  shows "memory_inv (mput (cl_PaymentID c) c st)"
proof -
  have "mwf (mput (cl_PaymentID c) c st)" using assms(1) by (simp add: memory_inv_def)
  moreover have "distinct (map (\<lambda>(k, c). cl_AllocationID c) (mput (cl_PaymentID c) c st))"
    using assms(1,3) by (force simp: mput_new[OF assms(2)] memory_inv_def allocation_taken_def)
  ultimately show ?thesis
    using assms(1,4) by (simp add: memory_inv_def mput_new[OF assms(2)])
qed

lemma memory_mem:
  assumes "memory_inv st"
  shows "c \<in> snd ` set st \<longleftrightarrow> mget st (cl_PaymentID c) = Some c"
proof
  assume "c \<in> snd ` set st"
  then obtain k where k: "(k, c) \<in> set st" by force
  with assms have "k = cl_PaymentID c" by (auto simp: memory_inv_def list_all_iff)
  with k assms show "mget st (cl_PaymentID c) = Some c" by (simp add: memory_inv_def mem_mget)
qed (force dest: mget_mem)

lemma sameDurableClaim_prepared:
  "sameDurableClaim x y \<Longrightarrow> cl_State x = CanonicalPrepared \<Longrightarrow> cl_State y = CanonicalPrepared \<Longrightarrow> x = y"
  by (cases x; cases y) (simp add: sameDurableClaim_def)

lemma sameDurableClaim_valid:
  assumes "sameDurableClaim x y" "validDurableClaim x" "validDurableClaim y"
  shows "x = y"
proof -
  have "cl_Mode x = cl_Mode y" using assms(1) by (cases x; cases y) (simp add: sameDurableClaim_def)
  then have "cl_State x = cl_State y"
    using assms(2,3) by (cases "cl_Mode y") (simp_all add: validDurableClaim_def)
  with assms(1) show ?thesis by (cases x; cases y) (simp add: sameDurableClaim_def)
qed

lemma memory_replay: "mget st p = Some c \<Longrightarrow> (mget st)(p \<mapsto> c) = mget st"
  by (auto simp: fun_eq_iff)

lemma mget_mput_fun: "mget (mput k v m) = (mget m)(k \<mapsto> v)"
  by (auto simp: fun_eq_iff)

lemma memory_ClaimSynthetic_ok:
  assumes "memory_inv st" "memory_ClaimSynthetic st c = (Inr b, st')"
  shows "memory_inv st' \<and> mget st' = (mget st)(cl_PaymentID c \<mapsto> c)"
  using assms memory_mput[OF assms(1)]
  by (auto simp: memory_ClaimSynthetic_def memory_replay mget_mput_fun split: if_splits option.splits)

lemma memory_ClaimCanonical_ok:
  assumes "memory_inv st" "memory_ClaimCanonical st c f w = (Inr b, st', w')"
  shows "memory_inv st' \<and> mget st' = (mget st)(cl_PaymentID c \<mapsto> c)"
proof (cases "mget st (cl_PaymentID c)")
  case None
  with assms memory_mput[OF assms(1) None] show ?thesis
    by (auto simp: memory_ClaimCanonical_def mget_mput_fun split: if_splits prod.splits sum.splits)
next
  case (Some d)
  with assms(2) have "st' = st" "sameDurableClaim d c" "validDurableClaim c"
    by (auto simp: memory_ClaimCanonical_def split: if_splits prod.splits)
  with Some assms(1) show ?thesis
    using sameDurableClaim_valid[of d c] memory_inv_get[OF assms(1) Some] by (simp add: memory_replay)
qed

lemma distinct_map_sort_key: "distinct (map f (sort_key g xs)) = distinct (map f xs)"
  by (simp add: distinct_map)

interpretation memory: claim_store memory_ClaimSynthetic memory_ClaimCanonical memory_LoadClaims memory_inv mget
proof (unfold_locales, goal_cases)
  case (1 st c e st')
  then show ?case by (auto simp: memory_ClaimSynthetic_def split: if_splits option.splits)
next
  case (2 st c b st')
  then show ?case by (rule memory_ClaimSynthetic_ok)
next
  case (3 st c f w e st' w')
  then show ?case
    by (auto simp: memory_ClaimCanonical_def split: if_splits option.splits prod.splits sum.splits)
next
  case (4 st c f w u st' w')
  then show ?case by (rule memory_ClaimCanonical_ok)
next
  case (5 st c)
  then show ?case by (simp add: memory_LoadClaims_def memory_mem)
next
  case (6 st p c)
  then show ?case by (rule memory_inv_get)
next
  case (7 st)
  have "distinct (map cl_PaymentID (map snd st))"
    using 7 unfolding memory_inv_keys[OF 7] by (simp add: memory_inv_def mwf_def)
  moreover have "map cl_AllocationID (map snd st) = map (\<lambda>(k, c). cl_AllocationID c) st" by auto
  then have "distinct (map cl_AllocationID (map snd st))" using 7 unfolding memory_inv_def by metis
  ultimately show ?case
    by (simp only: memory_LoadClaims_def distinct_map_sort_key)
qed

section \<open>Properties\<close>

lemma latch_later:
  assumes "reachable registry_init (registry_step cs cc) s" "(registry_step cs cc)\<^sup>*\<^sup>* s t"
  shows "registry_inv (fst s)" "registry_inv (fst t)" "latched (fst s) (fst t)"
  using latch.always[OF assms(1)] latch.always[OF latch.reachable_steps[OF assms(2,1)]]
    latch.reachable_later[OF assms(2,1)] by auto

lemma op_registry_steps: "(op_step cs cc)\<^sup>*\<^sup>* s t \<Longrightarrow> (registry_step cs cc)\<^sup>*\<^sup>* s t"
  by (induction rule: rtranclp_induct) (auto intro: rtranclp.rtrancl_into_rtrancl step_op)

text \<open>
  C16: a mode claim is a latch. Whatever the registry does afterwards (claims, transitions,
  reversals, resolutions, rehydration), the payment keeps the claim it first got: its mode, its
  allocation, its digest, its version and its evidence; and no other payment ever holds a claim on
  the same allocation.
\<close>

theorem mode_claim_is_a_latch:
  assumes "reachable registry_init (registry_step cs cc) s" "(registry_step cs cc)\<^sup>*\<^sup>* s t"
    and "registry_Lookup (fst s) p = Some c"
  shows "\<exists>c'. registry_Lookup (fst t) p = Some c' \<and> identity c' = identity c \<and>
     (\<forall>q d. registry_Lookup (fst t) q = Some d \<and> cl_AllocationID d = cl_AllocationID c \<longrightarrow> q = p)"
proof -
  note inv = latch_later[OF assms(1,2)]
  from latchedD[OF inv(3)] assms(3) obtain c' where
    c': "mget (r_byPayment (fst t)) p = Some c'" "identity c' = identity c"
    by (auto simp: registry_Lookup_def)
  have "q = p" if "mget (r_byPayment (fst t)) q = Some d" "cl_AllocationID d = cl_AllocationID c" for q d
    using registry_inv_allocation[OF inv(2), of "cl_AllocationID c" q]
      registry_inv_allocation[OF inv(2), of "cl_AllocationID c" p] that c' identity_fields[OF c'(2)] by auto
  with c' show ?thesis by (auto simp: registry_Lookup_def)
qed

definition sample_commit :: "unit commit" where
  "sample_commit w = (Inr (), w)"

definition sample_empty :: "MemoryStore Registry \<times> unit" where
  "sample_empty = (\<lparr>r_byPayment = [], r_byAllocation = [], r_reversed = [], r_store = []\<rparr>, ())"

definition sample_claim :: "CanonicalState \<Rightarrow> Claim" where
  "sample_claim s = \<lparr>cl_ClaimID = ''phase7c:a'', cl_PaymentID = ''p'', cl_AllocationID = ''a'',
     cl_Mode = ModeCanonicalGateway, cl_Digest = ''d'', cl_State = s, cl_ExpectedVersion = 1,
     cl_EvidenceHash = ''e'', cl_ClaimedAt = 5\<rparr>"

definition sample_registry :: "CanonicalState \<Rightarrow> MemoryStore Registry \<times> unit" where
  "sample_registry s = (\<lparr>r_byPayment = [(''p'', sample_claim s)], r_byAllocation = [(''a'', ''p'')],
     r_reversed = [], r_store = [(''p'', sample_claim CanonicalPrepared)]\<rparr>, ())"

abbreviation memory_step :: "MemoryStore Registry \<times> unit \<Rightarrow> MemoryStore Registry \<times> unit \<Rightarrow> bool" where
  "memory_step \<equiv> op_step memory_ClaimSynthetic memory_ClaimCanonical"

lemma sample_claimed: "memory_step sample_empty (sample_registry CanonicalPrepared)"
  unfolding sample_empty_def sample_registry_def
  by (rule step_ClaimModeWithCommit[where p = "''p''" and a = "''a''" and m = ModeCanonicalGateway and
        d = "''d''" and v = 1 and e = "''e''" and t = 5 and f = "Some (\<lambda>_. sample_commit)"])
     (simp add: ClaimModeWithCommit_def IsReversed_def memory_ClaimCanonical_def validDurableClaim_def
        sample_commit_def publish_def sample_claim_def allocation_taken_def Let_def)

lemma sample_moved:
  assumes "allowedCanonicalTransition s n" "validCanonicalState s" "validCanonicalState n"
  shows "memory_step (sample_registry s) (sample_registry n)"
  unfolding sample_registry_def
  by (rule step_Transition[where p = "''p''" and a = "''a''" and d = "''d''" and s = s and n = n and
        f = "Some (\<lambda>_. sample_commit)"])
     (use assms in \<open>simp add: TransitionWithCommit_def sample_claim_def sample_commit_def Let_def\<close>)

lemma sample_lookup [simp]: "registry_Lookup (fst (sample_registry s)) ''p'' = Some (sample_claim s)"
  by (simp add: registry_Lookup_def sample_registry_def)

lemma sample_init: "registry_init sample_empty"
  by (simp add: registry_init_def sample_empty_def)

lemma sample_mode_reachable:
  "reachable registry_init memory_step (sample_registry CanonicalPrepared)"
  "reachable registry_init (registry_step memory_ClaimSynthetic memory_ClaimCanonical)
     (sample_registry CanonicalPrepared)"
  using sample_claimed by (auto intro: reach_init reach_step sample_init step_op)

lemma sample_confirmed:
  "memory_step\<^sup>*\<^sup>* (sample_registry CanonicalPrepared) (sample_registry CanonicalConfirmed)"
  "memory_step\<^sup>*\<^sup>* (sample_registry CanonicalConfirmed) (sample_registry CanonicalIncident)"
proof -
  have "memory_step (sample_registry CanonicalPrepared) (sample_registry CanonicalSubmitted)"
    "memory_step (sample_registry CanonicalSubmitted) (sample_registry CanonicalConfirmed)"
    "memory_step (sample_registry CanonicalConfirmed) (sample_registry CanonicalIncident)"
    by (simp_all add: sample_moved)
  then show "memory_step\<^sup>*\<^sup>* (sample_registry CanonicalPrepared) (sample_registry CanonicalConfirmed)"
    "memory_step\<^sup>*\<^sup>* (sample_registry CanonicalConfirmed) (sample_registry CanonicalIncident)"
    by (auto intro: converse_rtranclp_into_rtranclp)
qed

theorem mode_claim_is_a_latch_witness:
  "\<exists>c'. registry_Lookup (fst (sample_registry CanonicalConfirmed)) ''p'' = Some c' \<and>
     identity c' = identity (sample_claim CanonicalPrepared)"
  using mode_claim_is_a_latch[OF sample_mode_reachable(2) op_registry_steps[OF sample_confirmed(1)]
      sample_lookup] by blast

text \<open>
  C17: a canonical claim that is confirmed is released by nothing but a rehydration. Whatever else the
  registry does afterwards (claims, transitions, reversals, resolutions, tombstones, rehydration of other
  payments, and rehydration of this one from a \<open>CONFIRMED\<close> or \<open>INCIDENT\<close> record), the payment keeps the
  same claim and it stays \<open>CONFIRMED\<close> or becomes \<open>INCIDENT\<close>. \<open>Restore\<close> does not consult the transition
  table: a record of the claim in any valid state replaces its state.
\<close>

theorem confirmed_claim_is_never_released:
  assumes "reachable registry_init (registry_step cs cc) s"
    and "(\<lambda>x y. registry_step cs cc x y \<and> \<not> unsettles p x y)\<^sup>*\<^sup>* s t"
    and "registry_Lookup (fst s) p = Some c" "cl_State c = CanonicalConfirmed"
  shows "\<exists>c'. registry_Lookup (fst t) p = Some c' \<and> identity c' = identity c \<and>
     cl_State c' \<in> {CanonicalConfirmed, CanonicalIncident} \<and>
     (\<forall>n. validCanonicalState n \<longrightarrow>
        (\<exists>r'. Restore (fst t) (c'\<lparr>cl_State := n\<rparr>) (IsReversed (fst t) p) = (Inr (), r') \<and>
           registry_Lookup r' p = Some (c'\<lparr>cl_State := n\<rparr>)))"
proof -
  have "(registry_step cs cc)\<^sup>*\<^sup>* s t \<and> (\<exists>c'. mget (r_byPayment (fst t)) p = Some c' \<and> settled (cl_State c'))"
    using assms(2)
  proof (induction rule: rtranclp_induct)
    case base
    then show ?case using assms(3,4) by (auto simp: registry_Lookup_def)
  next
    case (step t u)
    then have run: "(registry_step cs cc)\<^sup>*\<^sup>* s t" by blast
    from step registry_step_settled[OF _ _ latch_later(2)[OF assms(1) run]] show ?case
      by (meson rtranclp.rtrancl_into_rtrancl)
  qed
  then obtain c' where run: "(registry_step cs cc)\<^sup>*\<^sup>* s t"
    and c': "mget (r_byPayment (fst t)) p = Some c'" "settled (cl_State c')" by blast
  have "identity c' = identity c"
    using latchedD[OF latch_later(3)[OF assms(1) run], of p c] c' assms(3) by (auto simp: registry_Lookup_def)
  moreover have "cl_State c' \<in> {CanonicalConfirmed, CanonicalIncident}" using c'(2) by (cases "cl_State c'") auto
  moreover have "registry_inv (fst t) \<and> rehydratable (fst t)"
    by (rule rehydration.always[OF rehydration.reachable_steps[OF run assms(1)]])
  ultimately show ?thesis
    using c'(1) Restore_overwrites[OF c'(1)] by (auto simp: registry_Lookup_def)
qed

lemma sample_reachable_confirmed:
  "reachable registry_init (registry_step memory_ClaimSynthetic memory_ClaimCanonical) (sample_registry CanonicalConfirmed)"
  by (rule latch.reachable_steps[OF op_registry_steps[OF sample_confirmed(1)] sample_mode_reachable(2)])

lemma sample_incident:
  "registry_step memory_ClaimSynthetic memory_ClaimCanonical (sample_registry CanonicalConfirmed)
     (sample_registry CanonicalIncident)"
  "\<not> unsettles ''p'' (sample_registry CanonicalConfirmed) (sample_registry CanonicalIncident)"
proof -
  show "registry_step memory_ClaimSynthetic memory_ClaimCanonical (sample_registry CanonicalConfirmed)
     (sample_registry CanonicalIncident)"
    by (intro step_op sample_moved) simp_all
  have "settled (cl_State d)"
    if "Restore (fst (sample_registry CanonicalConfirmed)) d b = (Inr (), fst (sample_registry CanonicalIncident))"
      "cl_PaymentID d = ''p''" for d b
    using that Restore_claim[OF that(1), of "''p''" "sample_claim CanonicalConfirmed"]
    by (auto simp: sample_registry_def sample_claim_def)
  then show "\<not> unsettles ''p'' (sample_registry CanonicalConfirmed) (sample_registry CanonicalIncident)"
    by (auto simp: unsettles_def)
qed

theorem confirmed_claim_is_never_released_witness:
  "\<exists>c' r'. registry_Lookup (fst (sample_registry CanonicalIncident)) ''p'' = Some c' \<and>
     cl_State c' \<in> {CanonicalConfirmed, CanonicalIncident} \<and>
     Restore (fst (sample_registry CanonicalIncident)) (c'\<lparr>cl_State := CanonicalPrepared\<rparr>) False = (Inr (), r') \<and>
     registry_Lookup r' ''p'' = Some (c'\<lparr>cl_State := CanonicalPrepared\<rparr>)"
proof -
  have run: "(\<lambda>x y. registry_step memory_ClaimSynthetic memory_ClaimCanonical x y \<and> \<not> unsettles ''p'' x y)\<^sup>*\<^sup>*
      (sample_registry CanonicalConfirmed) (sample_registry CanonicalIncident)"
    using sample_incident by (intro r_into_rtranclp) blast
  have st: "cl_State (sample_claim CanonicalConfirmed) = CanonicalConfirmed" by (simp add: sample_claim_def)
  obtain c' where "registry_Lookup (fst (sample_registry CanonicalIncident)) ''p'' = Some c'"
    "cl_State c' \<in> {CanonicalConfirmed, CanonicalIncident}"
    and any: "\<forall>n. validCanonicalState n \<longrightarrow>
        (\<exists>r'. Restore (fst (sample_registry CanonicalIncident)) (c'\<lparr>cl_State := n\<rparr>)
              (IsReversed (fst (sample_registry CanonicalIncident)) ''p'') = (Inr (), r') \<and>
           registry_Lookup r' ''p'' = Some (c'\<lparr>cl_State := n\<rparr>))"
    using confirmed_claim_is_never_released[OF sample_reachable_confirmed run sample_lookup st] by blast
  moreover have "IsReversed (fst (sample_registry CanonicalIncident)) ''p'' = False"
    by (simp add: IsReversed_def sample_registry_def)
  with any[rule_format, of CanonicalPrepared]
  have "\<exists>r'. Restore (fst (sample_registry CanonicalIncident)) (c'\<lparr>cl_State := CanonicalPrepared\<rparr>) False = (Inr (), r') \<and>
      registry_Lookup r' ''p'' = Some (c'\<lparr>cl_State := CanonicalPrepared\<rparr>)" by simp
  ultimately show ?thesis by blast
qed

text \<open>
  a reversed payment can never be claimed. Once a payment carries the tombstone of a reversal
  every later attempt to claim a mode for it fails with a conflict and leaves the registry, its
  store and the callback's world as they were, whatever happened in between.
\<close>

theorem tombstone_bars_every_claim:
  assumes "reachable registry_init (registry_step cs cc) s" "(registry_step cs cc)\<^sup>*\<^sup>* s t"
    and "IsReversed (fst s) p" "p \<noteq> []" "a \<noteq> []" "d \<noteq> []" "e \<noteq> []" "tm \<noteq> 0"
  shows "ClaimMode cs (fst t) p a ModeSyntheticProjection d v e tm = (Inl ErrClaimConflict, fst t) \<and>
     ClaimModeWithCommit cc (fst t) p a ModeCanonicalGateway d v e tm (Some f) w =
       (Inl ErrClaimConflict, fst t, w)"
proof -
  have "IsReversed (fst t) p" using latch_later(3)[OF assms(1,2)] assms(3) by (simp add: latched_def)
  with assms(4-8) show ?thesis by (simp add: ClaimMode_def ClaimModeWithCommit_def)
qed

definition sample_tombstoned :: "MemoryStore Registry \<times> unit" where
  "sample_tombstoned = (mark_reversed ''p'' (fst sample_empty), ())"

lemma sample_tombstone:
  "reachable registry_init (registry_step memory_ClaimSynthetic memory_ClaimCanonical) sample_tombstoned"
proof (rule reach_step[OF reach_init])
  show "registry_init sample_empty" by (rule sample_init)
next
  show "registry_step memory_ClaimSynthetic memory_ClaimCanonical sample_empty sample_tombstoned"
    unfolding sample_tombstoned_def sample_empty_def fst_conv
    by (rule step_RestoreTombstone[where p = "''p''"]) (simp add: RestoreTombstone_def)
qed

theorem tombstone_bars_every_claim_witness:
  "ClaimMode memory_ClaimSynthetic (fst sample_tombstoned) ''p'' ''a'' ModeSyntheticProjection ''d'' 1 ''e'' 5 =
     (Inl ErrClaimConflict, fst sample_tombstoned)"
  by (rule tombstone_bars_every_claim[OF sample_tombstone rtranclp.rtrancl_refl, THEN conjunct1])
     (simp_all add: sample_tombstoned_def mark_reversed_def IsReversed_def)

text \<open>
  C18: a restart brings the registry back. Take any run of the registry, rehydrations included, on a store
  that meets the contract and was empty. Then \<open>New\<close> on that store succeeds; and when the coordinator
  rehydrates the new registry as it does at start-up, from records that hold the current claim of their
  payment and its tombstone flag and that cover every claim that is no longer as it was made durable, and
  from the tombstones, each step succeeds and the registry is what it was: the same claim for every
  payment, in the same state, and the same tombstones.
\<close>

theorem restart_recovers_registry:
  assumes "claim_store cs cc load good view" "registry_init s" "good (r_store (fst s))" "view (r_store (fst s)) = Map.empty"
    and "(registry_step cs cc)\<^sup>*\<^sup>* s (r, w)"
    and "\<forall>(c, b) \<in> set records. registry_Lookup r (cl_PaymentID c) = Some c \<and> b = IsReversed r (cl_PaymentID c)"
    and "\<forall>p c. registry_Lookup r p = Some c \<and> view (r_store r) p \<noteq> Some c \<longrightarrow> (c, IsReversed r p) \<in> set records"
    and "set tombstones = {p. IsReversed r p}"
  shows "\<exists>m1 m2 m3. registry_New load (r_store r) = Inr m1 \<and> restore_claims records m1 = Inr m2 \<and>
    restore_tombstones tombstones m2 = Inr m3 \<and> registry_Lookup m3 = registry_Lookup r \<and> IsReversed m3 = IsReversed r"
proof (rule claim_store.restart_and_rehydrate[OF assms(1) _ _ _ assms(6-8)])
  have "reachable registry_init (registry_step cs cc) (r, w)"
    by (rule latch.reachable_steps[OF assms(5) reach_init[where init = registry_init, OF assms(2)]])
  from rehydration.always[OF this] show inv: "registry_inv r" "rehydratable r" by simp_all
  have start: "registry_inv (fst s) \<and> durable_in good view (fst s)"
    using rehydration.init_inv[OF assms(2)] assms(3,4) by (simp add: durable_in_def)
  have "registry_inv (fst t) \<and> durable_in good view (fst t)" if "(registry_step cs cc)\<^sup>*\<^sup>* s t" for t
    using that start
    by (induction rule: rtranclp_induct)
       (blast intro: claim_store.registry_step_durable[OF assms(1)] dest: registry_step_keeps)+
  from this[OF assms(5)] show "durable_in good view r" by simp
qed

theorem restart_recovers_registry_witness:
  "\<exists>m1 m2 m3. registry_New memory_LoadClaims (r_store (fst (sample_registry CanonicalIncident))) = Inr m1 \<and>
     registry_Lookup m1 ''p'' = Some (sample_claim CanonicalPrepared) \<and>
     restore_claims [(sample_claim CanonicalIncident, False)] m1 = Inr m2 \<and> restore_tombstones [] m2 = Inr m3 \<and>
     registry_Lookup m3 ''p'' = Some (sample_claim CanonicalIncident)"
proof -
  let ?r = "fst (sample_registry CanonicalIncident)"
  have p: "registry_Lookup ?r q = (if q = ''p'' then Some (sample_claim CanonicalIncident) else None)"
    "IsReversed ?r q = False" "cl_PaymentID (sample_claim n) = ''p''"
    "r_store ?r = [(''p'', sample_claim CanonicalPrepared)]" for q n
    by (simp_all add: sample_registry_def registry_Lookup_def IsReversed_def sample_claim_def)
  have run: "(registry_step memory_ClaimSynthetic memory_ClaimCanonical)\<^sup>*\<^sup>* sample_empty (?r, ())"
    using op_registry_steps[OF converse_rtranclp_into_rtranclp[where r = memory_step, OF sample_claimed
        rtranclp_trans[OF sample_confirmed]]] by (simp add: sample_registry_def)
  have "memory_inv (r_store (fst sample_empty))" "mget (r_store (fst sample_empty)) = Map.empty"
    by (simp_all add: sample_empty_def memory_inv_def fun_eq_iff)
  note claim = restart_recovers_registry[OF memory.claim_store_axioms sample_init this run,
      of "[(sample_claim CanonicalIncident, False)]" "[]"]
  have "\<forall>q c. registry_Lookup ?r q = Some c \<and> mget (r_store ?r) q \<noteq> Some c \<longrightarrow>
      (c, IsReversed ?r q) \<in> set [(sample_claim CanonicalIncident, False)]"
    by (auto simp: p split: if_splits)
  from claim[OF _ this] obtain m1 m2 m3 where m: "registry_New memory_LoadClaims (r_store ?r) = Inr m1"
    "restore_claims [(sample_claim CanonicalIncident, False)] m1 = Inr m2" "restore_tombstones [] m2 = Inr m3"
    "registry_Lookup m3 = registry_Lookup ?r"
    by (force simp: p simp del: restore_claims.simps restore_tombstones.simps)
  have "registry_Lookup m1 ''p'' = Some (sample_claim CanonicalPrepared)"
    using m(1) by (auto simp: p registry_New_def memory_LoadClaims_def registry_Lookup_def sample_claim_def split: if_splits)
  with m show ?thesis by (intro exI[of _ m1] exI[of _ m2] exI[of _ m3]) (simp add: p)
qed

end
