(* ===== verification/Payment_Orchestrator.thy ===== *)
theory Payment_Orchestrator
  imports Payment_Accounting Allocation_Mode Chain_Types
begin

text \<open>
  The payment orchestrator, \<^verbatim>\<open>payment-orchestrator/payment/payment.go\<close>: intents, authenticated provider
  callbacks, canonical reversals, quarantine, and the local reversal coordinator of
  \<^verbatim>\<open>local_reversal_coordinator.go\<close>.

  \<^item> The environment is the record \<open>PaymentEnv\<close>: SHA-256, \<open>ed25519.Verify\<close> and the JSON codec.
  \<^item> \<open>Accounting\<close> is an argument \<open>applyT\<close> on the state \<open>or_accounting\<close>, the interface is the locale
    \<open>payment_accounting\<close>.
  \<^item> \<open>CanonicalReversalCoordinator\<close> is a record of its five methods on the state \<open>or_canonical\<close>; its
    interface is the locale \<open>canonical_coordinator\<close>. A callback handed to the coordinator works on the
    variables it captures: the accounting state, \<open>journalIDs\<close> and \<open>reversalCommitted\<close>.
  \<^item> The registry of allocation modes is shared with the coordinator, the only one here that uses it, so
    it is part of the coordinator's state.
  \<^item> An error that is wrapped or joined is the error that \<open>errors.Is\<close> finds first. Bytes are characters.
\<close>

section \<open>Data\<close>

datatype payment_error =
    ErrInvalidIntent | ErrInvalidProvider | ErrIdempotencyConflict | ErrUnknownPayment
  | ErrUnauthorizedCallback | ErrInvalidCallback | ErrCallbackConflict | ErrInvalidPaymentTransition
  | ErrAccounting | ErrInvalidPaymentResolution | ErrCanonicalPending | ErrCanonicalConfirmed
  | ErrCanonicalPersistence | FromCoordinator mode_error

record Provider =
  pv_ID :: string
  pv_Rail :: Rail
  pv_PublicKey :: string
  pv_Active :: bool
  pv_AssetID :: string
  pv_SupportsReversal :: bool
  pv_Version :: "32 word"

record CallbackResult =
  cr_ProviderID :: string
  cr_ProviderEventID :: string
  cr_RawHash :: string
  cr_Payment :: PaymentIntent
  cr_JournalIDs :: "string list"
  cr_Replayed :: bool
  cr_Disposition :: string

record RawCallback =
  rw_IngressID :: "64 word"
  rw_ProviderID :: string
  rw_ProviderEventID :: string
  rw_RawPayload :: string
  rw_RawHash :: string
  rw_SignatureHash :: string
  rw_ReceivedAt :: gotime

record Quarantine =
  qu_QuarantineID :: string
  qu_ProviderID :: string
  qu_ProviderEventID :: string
  qu_PaymentID :: string
  qu_RawHash :: string
  qu_EvidenceHash :: string
  qu_ReasonCode :: string
  qu_ReceivedAt :: gotime
  qu_Owner :: string
  qu_ResolutionDeadline :: gotime

record QuarantineResolution =
  qr_ResolutionID :: string
  qr_QuarantineID :: string
  qr_CanonicalFailureEvidenceHash :: string
  qr_EvidenceHash :: string
  qr_ResolvedBy :: string
  qr_ResolvedAt :: gotime

record CanonicalReversalResolutionRequest =
  rr_QuarantineID :: string
  rr_ResolutionID :: string
  rr_PaymentID :: string
  rr_AllocationID :: string
  rr_InstructionDigest :: string
  rr_FailureProof :: TransactionFailureEvidence
  rr_ResolutionEvidenceHash :: string
  rr_ResolvedBy :: string
  rr_ResolvedAt :: gotime

record CanonicalIncidentRecord =
  ci_IncidentID :: string
  ci_PaymentID :: string
  ci_AllocationID :: string
  ci_ClaimDigest :: string
  ci_ProviderID :: string
  ci_ProviderEventID :: string
  ci_ProviderReference :: string
  ci_RawHash :: string
  ci_EvidenceHash :: string
  ci_ReasonCode :: string
  ci_OccurredAt :: gotime
  ci_ReceivedAt :: gotime

record storedEvent =
  se_rawHash :: string
  se_result :: CallbackResult
  se_err :: "payment_error option"

record pendingCanonicalReversal =
  pr_eventKey :: string
  pr_ingressID :: "64 word"
  pr_callback :: Callback
  pr_rawHash :: string
  pr_signatureHash :: string
  pr_receivedAt :: gotime
  pr_claim :: Claim

record CanonicalReversalRecord =
  rv_QuarantineID :: string
  rv_ResolutionID :: string
  rv_IngressID :: "64 word"
  rv_PaymentID :: string
  rv_AllocationID :: string
  rv_InstructionDigest :: string
  rv_ProviderID :: string
  rv_ProviderEventID :: string
  rv_ReversalEventID :: string
  rv_ProviderReference :: string
  rv_AssetID :: string
  rv_Units :: string
  rv_RawHash :: string
  rv_SignatureHash :: string
  rv_CallbackEvidenceHash :: string
  rv_CallbackExpiresAt :: gotime
  rv_FailureProof :: TransactionFailureEvidence
  rv_ResolutionEvidence :: string
  rv_ResolvedBy :: string
  rv_OccurredAt :: gotime
  rv_ReceivedAt :: gotime

record CanonicalReversalResolution =
  cs_JournalIDs :: "string list"
  cs_FailureEvidenceHash :: string

record CanonicalReversalResolutionRecord =
  rl_QuarantineID :: string
  rl_ResolutionID :: string
  rl_PaymentID :: string
  rl_AllocationID :: string
  rl_InstructionDigest :: string
  rl_ProviderID :: string
  rl_ProviderEventID :: string
  rl_ProviderReference :: string
  rl_AssetID :: string
  rl_Units :: string
  rl_RawHash :: string
  rl_RequestDigest :: string
  rl_CanonicalFailureEvidenceHash :: string
  rl_ResolutionEvidenceHash :: string
  rl_ResolvedBy :: string
  rl_ResolvedAt :: gotime
  rl_JournalIDs :: "string list"

record CanonicalReversalConsumption =
  cc_QuarantineID :: string
  cc_IngressID :: "64 word"
  cc_PaymentID :: string
  cc_AllocationID :: string
  cc_InstructionDigest :: string
  cc_ProviderID :: string
  cc_ProviderEventID :: string
  cc_ProviderReference :: string
  cc_AssetID :: string
  cc_Units :: string
  cc_RawHash :: string
  cc_SignatureHash :: string
  cc_CallbackEvidenceHash :: string
  cc_CallbackExpiresAt :: gotime
  cc_CallbackOccurredAt :: gotime
  cc_CallbackReceivedAt :: gotime
  cc_ResolutionID :: string
  cc_ResolutionEvidenceHash :: string
  cc_ResolvedBy :: string
  cc_ResolvedAt :: gotime
  cc_GatewayEventID :: string
  cc_GatewayTransactionHash :: string
  cc_GatewayRawPayloadHash :: string
  cc_FinalityEvidenceHash :: string

text \<open>What the commit callback captures: the accounting state, \<open>journalIDs\<close>, \<open>reversalCommitted\<close>.\<close>

type_synonym 'acc captured = "'acc \<times> string list \<times> bool"

record ('c, 'acc) Coordinator =
  co_HandleProviderReversal :: "'c \<Rightarrow> CanonicalReversalRecord \<Rightarrow> 'acc captured commit \<Rightarrow> 'acc captured
     \<Rightarrow> (Claim \<times> ReversalDisposition \<times> mode_error option) \<times> 'c \<times> 'acc captured"
  co_ResolveProviderReversal :: "'c \<Rightarrow> CanonicalReversalRecord \<Rightarrow> ('acc \<Rightarrow> (mode_error + string list) \<times> 'acc)
     \<Rightarrow> 'acc \<Rightarrow> (mode_error + CanonicalReversalResolution) \<times> 'c \<times> 'acc"
  co_ResolvedProviderReversal ::
    "'c \<Rightarrow> CanonicalReversalResolutionRequest \<Rightarrow> mode_error + CanonicalReversalResolutionRecord option"
  co_PendingProviderReversals :: "'c \<Rightarrow> CanonicalReversalRecord list"
  co_ConsumedProviderReversals :: "'c \<Rightarrow> CanonicalReversalConsumption list"

record ('c, 'acc) Orchestrator =
  or_providers :: "(string, Provider) gomap"
  or_payments :: "(string, PaymentIntent) gomap"
  or_intentKeys :: "(string, string) gomap"
  or_intentHashes :: "(string, string) gomap"
  or_events :: "(string, storedEvent) gomap"
  or_rawCallbacks :: "RawCallback list"
  or_quarantines :: "Quarantine list"
  or_canonicalIncidents :: "CanonicalIncidentRecord list"
  or_quarantineResolutions :: "(string, QuarantineResolution) gomap"
  or_pendingReversals :: "(string, pendingCanonicalReversal) gomap"
  or_consumedReversals :: "(string, CanonicalReversalConsumption) gomap"
  or_accounting :: 'acc
  or_canonical :: 'c

text \<open>The terms of an intent that its hash covers.\<close>

record IntentTerms =
  it_PaymentID :: string
  it_LegalEntityID :: string
  it_IdempotencyKey :: string
  it_CorrelationID :: string
  it_PayerReference :: string
  it_LoanID :: string
  it_ProviderID :: string
  it_Rail :: Rail
  it_Purpose :: string
  it_AssetID :: string
  it_Units :: string
  it_ExpiresAt :: gotime
  it_SchemaVersion :: "32 word"

text \<open>
  The environment. \<open>pe_hashBytes\<close> is the hexadecimal SHA-256, \<open>pe_sha256\<close> the digest itself; \<open>pe_marshal\<close>
  and \<open>pe_unmarshal\<close> are \<open>json.Marshal\<close> of a callback and the strict decoder (no unknown field, nothing
  after the value).
\<close>

record PaymentEnv =
  pe_hashBytes :: "string \<Rightarrow> string"
  pe_sha256 :: "string \<Rightarrow> string"
  pe_verify :: "string \<Rightarrow> string \<Rightarrow> string \<Rightarrow> bool"
  pe_marshal :: "Callback \<Rightarrow> string option"
  pe_unmarshal :: "string \<Rightarrow> Callback option"
  pe_marshalTerms :: "IntentTerms \<Rightarrow> string"

definition zero_intent :: PaymentIntent where
  "zero_intent = \<lparr>in_PaymentID = [], in_LegalEntityID = [], in_IdempotencyKey = [], in_CorrelationID = [],
     in_PayerReference = [], in_LoanID = [], in_ProviderID = [], in_ProviderReference = [],
     in_Rail = UnknownRail [], in_Purpose = [], in_AssetID = [], in_Units = [], in_ExpiresAt = 0,
     in_SchemaVersion = 0, in_Status = NoStatus, in_Version = 0, in_CreatedAt = 0, in_UpdatedAt = 0,
     in_ProvisionalAt = 0, in_FinalizedAt = 0, in_ReversedAt = 0\<rparr>"

definition zero_result :: CallbackResult where
  "zero_result = \<lparr>cr_ProviderID = [], cr_ProviderEventID = [], cr_RawHash = [], cr_Payment = zero_intent,
     cr_JournalIDs = [], cr_Replayed = False, cr_Disposition = []\<rparr>"

definition zero_resolution :: QuarantineResolution where
  "zero_resolution = \<lparr>qr_ResolutionID = [], qr_QuarantineID = [], qr_CanonicalFailureEvidenceHash = [],
     qr_EvidenceHash = [], qr_ResolvedBy = [], qr_ResolvedAt = 0\<rparr>"

definition zero_failure :: TransactionFailureEvidence where
  "zero_failure = \<lparr>tf_ChainID = 0, tf_Gateway = [], tf_TransactionHash = [], tf_ReceiptPayloadHash = [],
     tf_Status = UnknownReceiptStatus [], tf_TransactionIndex = 0, tf_BlockNumber = 0, tf_BlockHash = [],
     tf_ReceiptsRoot = [], tf_InclusionProofHash = [], tf_FinalityPolicyHash = [], tf_HeaderAuthorityHash = [],
     tf_ReceiptHeaderSignatureHash = [], tf_HeadHeaderSignatureHash = [], tf_ConfirmationDepth = 0,
     tf_HeadBlockNumber = 0, tf_HeadBlockHash = [], tf_EvidenceHash = [], tf_ObservedAt = 0\<rparr>"

section \<open>Helpers\<close>

definition positiveInteger :: "string \<Rightarrow> int option" where
  "positiveInteger s = (case big_set_string s of None \<Rightarrow> None | Some n \<Rightarrow> if big_string n = s then Some n else None)"

definition positive_units :: "string \<Rightarrow> bool" where
  "positive_units s \<longleftrightarrow> (case positiveInteger s of None \<Rightarrow> False | Some n \<Rightarrow> \<not> n \<le> 0)"

definition intent_terms :: "PaymentIntent \<Rightarrow> IntentTerms" where
  "intent_terms i = \<lparr>it_PaymentID = in_PaymentID i, it_LegalEntityID = in_LegalEntityID i,
     it_IdempotencyKey = in_IdempotencyKey i, it_CorrelationID = in_CorrelationID i,
     it_PayerReference = in_PayerReference i, it_LoanID = in_LoanID i, it_ProviderID = in_ProviderID i,
     it_Rail = in_Rail i, it_Purpose = in_Purpose i, it_AssetID = in_AssetID i, it_Units = in_Units i,
     it_ExpiresAt = in_ExpiresAt i, it_SchemaVersion = in_SchemaVersion i\<rparr>"

definition intentHash :: "PaymentEnv \<Rightarrow> PaymentIntent \<Rightarrow> string" where
  "intentHash env i = pe_hashBytes env (pe_marshalTerms env (intent_terms i))"

definition canonicalPaymentEventID :: "string \<Rightarrow> string \<Rightarrow> string" where
  "canonicalPaymentEventID providerID providerEventID = providerID @ '':'' @ providerEventID"

definition callbackDomain :: string where
  "callbackDomain = ''UNIFIED_PHASE7A_CALLBACK_V1''"

definition MaxCallbackBytes :: nat where
  "MaxCallbackBytes = 64 * 1024"

definition SigningMessage :: "PaymentEnv \<Rightarrow> string \<Rightarrow> string" where
  "SigningMessage env raw = pe_sha256 env (callbackDomain @ [CHR 0x00] @ raw)"

definition EncodeCallback :: "PaymentEnv \<Rightarrow> Callback \<Rightarrow> payment_error + string" where
  "EncodeCallback env cb =
     (if cb_ProviderID cb = [] \<or> cb_ProviderEventID cb = [] \<or> cb_PaymentID cb = [] \<or>
         cb_ProviderReference cb = [] \<or> \<not> callbackStatus (cb_Status cb) \<or> cb_AssetID cb = [] \<or>
         cb_OccurredAt cb = 0 \<or> cb_ExpiresAt cb = 0 \<or> cb_ExpiresAt cb < cb_OccurredAt cb \<or>
         cb_EvidenceHash cb = []
      then Inl ErrInvalidCallback
      else if \<not> positive_units (cb_Units cb) then Inl ErrInvalidCallback
      else case pe_marshal env cb of None \<Rightarrow> Inl ErrInvalidCallback | Some bytes \<Rightarrow> Inr bytes)"

definition decodeCallback :: "PaymentEnv \<Rightarrow> string \<Rightarrow> payment_error + Callback" where
  "decodeCallback env raw =
     (case pe_unmarshal env raw of
        None \<Rightarrow> Inl ErrInvalidCallback
      | Some cb \<Rightarrow> if EncodeCallback env cb = Inr raw then Inr cb else Inl ErrInvalidCallback)"

text \<open>\<open>fmt.Sprintf("%06d", n)\<close>\<close>

definition pad6 :: "nat \<Rightarrow> string" where
  "pad6 n = replicate (6 - length (show_nat n)) (CHR ''0'') @ show_nat n"

definition new_quarantine ::
  "nat \<Rightarrow> string \<Rightarrow> string \<Rightarrow> string \<Rightarrow> string \<Rightarrow> string \<Rightarrow> string \<Rightarrow> gotime \<Rightarrow> Quarantine" where
  "new_quarantine sequence providerID eventID paymentID rawHash evidenceHash reason receivedAt =
     \<lparr>qu_QuarantineID = ''quarantine-'' @ pad6 sequence, qu_ProviderID = providerID,
      qu_ProviderEventID = eventID, qu_PaymentID = paymentID, qu_RawHash = rawHash,
      qu_EvidenceHash = evidenceHash, qu_ReasonCode = reason, qu_ReceivedAt = receivedAt,
      qu_Owner = ''payment-operations'', qu_ResolutionDeadline = receivedAt + 24 * hour\<rparr>"

definition quarantine ::
  "('c, 'acc) Orchestrator \<Rightarrow> string \<Rightarrow> string \<Rightarrow> string \<Rightarrow> string \<Rightarrow> string \<Rightarrow> string \<Rightarrow> gotime
     \<Rightarrow> Quarantine \<times> ('c, 'acc) Orchestrator" where
  "quarantine o' providerID eventID paymentID rawHash evidenceHash reason receivedAt =
     (let rec = new_quarantine (length (or_quarantines o') + 1) providerID eventID paymentID rawHash evidenceHash
                  reason receivedAt
      in (rec, o'\<lparr>or_quarantines := or_quarantines o' @ [rec]\<rparr>))"

section \<open>Canonical consumptions\<close>

definition validCanonicalConsumption :: "CanonicalReversalConsumption \<Rightarrow> bool" where
  "validCanonicalConsumption c \<longleftrightarrow>
     cc_QuarantineID c \<noteq> [] \<and> 0 < cc_IngressID c \<and> cc_PaymentID c \<noteq> [] \<and> cc_AllocationID c \<noteq> [] \<and>
     cc_InstructionDigest c \<noteq> [] \<and> cc_ProviderID c \<noteq> [] \<and> cc_ProviderEventID c \<noteq> [] \<and>
     cc_ProviderReference c \<noteq> [] \<and> cc_AssetID c \<noteq> [] \<and> cc_Units c \<noteq> [] \<and> cc_RawHash c \<noteq> [] \<and>
     cc_SignatureHash c \<noteq> [] \<and> cc_CallbackEvidenceHash c \<noteq> [] \<and> cc_CallbackExpiresAt c \<noteq> 0 \<and>
     cc_CallbackOccurredAt c \<noteq> 0 \<and> cc_CallbackReceivedAt c \<noteq> 0 \<and>
     \<not> cc_CallbackReceivedAt c < cc_CallbackOccurredAt c \<and>
     \<not> cc_CallbackExpiresAt c < cc_CallbackReceivedAt c \<and>
     cc_ResolutionID c = ''canonical-success:'' @ cc_GatewayEventID c \<and>
     cc_ResolutionEvidenceHash c \<noteq> [] \<and> cc_ResolvedBy c = ''canonical-chain-indexer'' \<and>
     cc_ResolvedAt c \<noteq> 0 \<and> \<not> cc_ResolvedAt c < cc_CallbackReceivedAt c \<and> cc_GatewayEventID c \<noteq> [] \<and>
     cc_GatewayTransactionHash c \<noteq> [] \<and> cc_GatewayRawPayloadHash c \<noteq> [] \<and>
     cc_FinalityEvidenceHash c = cc_ResolutionEvidenceHash c"

definition consumed_event :: "CanonicalReversalConsumption \<Rightarrow> PaymentIntent \<Rightarrow> storedEvent" where
  "consumed_event c current =
     \<lparr>se_rawHash = cc_RawHash c,
      se_result = \<lparr>cr_ProviderID = cc_ProviderID c, cr_ProviderEventID = cc_ProviderEventID c,
        cr_RawHash = cc_RawHash c, cr_Payment = current, cr_JournalIDs = [], cr_Replayed = False,
        cr_Disposition = ''INCIDENT''\<rparr>,
      se_err = Some ErrCanonicalConfirmed\<rparr>"

fun apply_consumptions ::
  "string \<Rightarrow> PaymentIntent \<Rightarrow> CanonicalReversalConsumption list \<Rightarrow> ('c, 'acc) Orchestrator
     \<Rightarrow> payment_error option \<times> ('c, 'acc) Orchestrator" where
  "apply_consumptions paymentID current [] o' = (None, o')"
| "apply_consumptions paymentID current (c # cs) o' =
     (if cc_PaymentID c \<noteq> paymentID then apply_consumptions paymentID current cs o'
      else if in_Status current \<noteq> StatusFinal \<or> in_ProviderID current \<noteq> cc_ProviderID c \<or>
              in_ProviderReference current \<noteq> cc_ProviderReference c \<or> in_AssetID current \<noteq> cc_AssetID c \<or>
              in_Units current \<noteq> cc_Units c
      then (Some ErrCanonicalPersistence, o')
      else apply_consumptions paymentID current cs
             (o'\<lparr>or_events := mput (event_key (cc_ProviderID c) (cc_ProviderEventID c)) (consumed_event c current)
                   (or_events o')\<rparr>))"

definition applyCanonicalConsumptionsLocked ::
  "string \<Rightarrow> ('c, 'acc) Orchestrator \<Rightarrow> payment_error option \<times> ('c, 'acc) Orchestrator" where
  "applyCanonicalConsumptionsLocked paymentID o' =
     (case mget (or_payments o') paymentID of
        None \<Rightarrow> (None, o')
      | Some current \<Rightarrow> apply_consumptions paymentID current (map snd (or_consumedReversals o')) o')"

definition consumed_quarantine :: "CanonicalReversalConsumption \<Rightarrow> Quarantine" where
  "consumed_quarantine c =
     \<lparr>qu_QuarantineID = cc_QuarantineID c, qu_ProviderID = cc_ProviderID c,
      qu_ProviderEventID = cc_ProviderEventID c, qu_PaymentID = cc_PaymentID c, qu_RawHash = cc_RawHash c,
      qu_EvidenceHash = cc_CallbackEvidenceHash c, qu_ReasonCode = ''CANONICAL_SETTLEMENT_SUBMITTED'',
      qu_ReceivedAt = cc_CallbackReceivedAt c, qu_Owner = ''payment-operations'',
      qu_ResolutionDeadline = cc_CallbackReceivedAt c + 24 * hour\<rparr>"

definition consumed_incident :: "CanonicalReversalConsumption \<Rightarrow> CanonicalIncidentRecord" where
  "consumed_incident c =
     \<lparr>ci_IncidentID = ''canonical-success:'' @ cc_QuarantineID c, ci_PaymentID = cc_PaymentID c,
      ci_AllocationID = cc_AllocationID c, ci_ClaimDigest = cc_InstructionDigest c,
      ci_ProviderID = cc_ProviderID c, ci_ProviderEventID = cc_ProviderEventID c,
      ci_ProviderReference = cc_ProviderReference c, ci_RawHash = cc_RawHash c,
      ci_EvidenceHash = cc_ResolutionEvidenceHash c,
      ci_ReasonCode = ''PROVIDER_REVERSAL_CONTRADICTED_BY_CANONICAL_SETTLEMENT'',
      ci_OccurredAt = cc_CallbackOccurredAt c, ci_ReceivedAt = cc_ResolvedAt c\<rparr>"

definition record_consumption ::
  "CanonicalReversalConsumption \<Rightarrow> ('c, 'acc) Orchestrator \<Rightarrow> ('c, 'acc) Orchestrator" where
  "record_consumption c o' =
     o'\<lparr>or_consumedReversals := mput (cc_QuarantineID c) c (or_consumedReversals o'),
        or_pendingReversals := mdel (cc_QuarantineID c) (or_pendingReversals o'),
        or_quarantines := or_quarantines o' @
          (if list_ex (\<lambda>q. qu_QuarantineID q = cc_QuarantineID c) (or_quarantines o') then []
           else [consumed_quarantine c]),
        or_quarantineResolutions := mput (cc_QuarantineID c)
          \<lparr>qr_ResolutionID = cc_ResolutionID c, qr_QuarantineID = cc_QuarantineID c,
           qr_CanonicalFailureEvidenceHash = [], qr_EvidenceHash = cc_ResolutionEvidenceHash c,
           qr_ResolvedBy = cc_ResolvedBy c, qr_ResolvedAt = cc_ResolvedAt c\<rparr> (or_quarantineResolutions o'),
        or_canonicalIncidents := or_canonicalIncidents o' @
          (if list_ex (\<lambda>i. ci_IncidentID i = ''canonical-success:'' @ cc_QuarantineID c) (or_canonicalIncidents o')
           then [] else [consumed_incident c])\<rparr>"

fun refresh_consumptions ::
  "CanonicalReversalConsumption list \<Rightarrow> ('c, 'acc) Orchestrator
     \<Rightarrow> payment_error option \<times> ('c, 'acc) Orchestrator" where
  "refresh_consumptions [] o' = (None, o')"
| "refresh_consumptions (c # cs) o' =
     (if \<not> validCanonicalConsumption c \<or> \<not> mhas (or_providers o') (cc_ProviderID c)
      then (Some ErrCanonicalPersistence, o')
      else case mget (or_consumedReversals o') (cc_QuarantineID c) of
        Some existing \<Rightarrow>
          if existing \<noteq> c then (Some ErrCanonicalPersistence, o')
          else (case applyCanonicalConsumptionsLocked (cc_PaymentID c) o' of
                  (Some e, o1) \<Rightarrow> (Some e, o1)
                | (None, o1) \<Rightarrow> refresh_consumptions cs o1)
      | None \<Rightarrow>
          (case applyCanonicalConsumptionsLocked (cc_PaymentID c) (record_consumption c o') of
             (Some e, o1) \<Rightarrow> (Some e, o1)
           | (None, o1) \<Rightarrow> refresh_consumptions cs o1))"

definition refreshCanonicalConsumptionsLocked ::
  "('c, 'acc) Coordinator \<Rightarrow> ('c, 'acc) Orchestrator \<Rightarrow> payment_error option \<times> ('c, 'acc) Orchestrator" where
  "refreshCanonicalConsumptionsLocked co o' =
     refresh_consumptions (co_ConsumedProviderReversals co (or_canonical o')) o'"

section \<open>Construction and restart\<close>

definition invalid_provider :: "Provider \<Rightarrow> bool" where
  "invalid_provider v \<longleftrightarrow>
     pv_ID v = [] \<or> \<not> validRail (pv_Rail v) \<or> length (pv_PublicKey v) \<noteq> 32 \<or> pv_AssetID v = [] \<or> pv_Version v = 0"

fun configure_providers ::
  "Provider list \<Rightarrow> (string, Provider) gomap \<Rightarrow> payment_error + (string, Provider) gomap" where
  "configure_providers [] m = Inr m"
| "configure_providers (v # vs) m =
     (if invalid_provider v \<or> mhas m (pv_ID v) then Inl ErrInvalidProvider
      else configure_providers vs (mput (pv_ID v) v m))"

definition incomplete_reversal :: "CanonicalReversalRecord \<Rightarrow> bool" where
  "incomplete_reversal r \<longleftrightarrow>
     rv_QuarantineID r = [] \<or> rv_IngressID r = 0 \<or> rv_PaymentID r = [] \<or> rv_AllocationID r = [] \<or>
     rv_InstructionDigest r = [] \<or> rv_ProviderID r = [] \<or> rv_ProviderEventID r = [] \<or> rv_AssetID r = [] \<or>
     rv_Units r = [] \<or> rv_RawHash r = [] \<or> rv_SignatureHash r = [] \<or> rv_CallbackEvidenceHash r = [] \<or>
     rv_CallbackExpiresAt r = 0 \<or> rv_OccurredAt r = 0 \<or> rv_ReceivedAt r = 0"

definition restored_callback :: "CanonicalReversalRecord \<Rightarrow> Callback" where
  "restored_callback r =
     \<lparr>cb_ProviderID = rv_ProviderID r, cb_ProviderEventID = rv_ProviderEventID r, cb_PaymentID = rv_PaymentID r,
      cb_ProviderReference = rv_ProviderReference r, cb_Status = StatusReversed, cb_AssetID = rv_AssetID r,
      cb_Units = rv_Units r, cb_OccurredAt = rv_OccurredAt r, cb_ExpiresAt = rv_CallbackExpiresAt r,
      cb_EvidenceHash = rv_CallbackEvidenceHash r\<rparr>"

definition restored_pending :: "CanonicalReversalRecord \<Rightarrow> pendingCanonicalReversal" where
  "restored_pending r =
     \<lparr>pr_eventKey = event_key (rv_ProviderID r) (rv_ProviderEventID r), pr_ingressID = rv_IngressID r,
      pr_callback = restored_callback r, pr_rawHash = rv_RawHash r, pr_signatureHash = rv_SignatureHash r,
      pr_receivedAt = rv_ReceivedAt r,
      pr_claim = zero_claim\<lparr>cl_PaymentID := rv_PaymentID r, cl_AllocationID := rv_AllocationID r,
        cl_Mode := ModeCanonicalGateway, cl_Digest := rv_InstructionDigest r,
        cl_State := CanonicalQuarantined\<rparr>\<rparr>"

definition restored_quarantine :: "CanonicalReversalRecord \<Rightarrow> Quarantine" where
  "restored_quarantine r =
     \<lparr>qu_QuarantineID = rv_QuarantineID r, qu_ProviderID = rv_ProviderID r,
      qu_ProviderEventID = rv_ProviderEventID r, qu_PaymentID = rv_PaymentID r, qu_RawHash = rv_RawHash r,
      qu_EvidenceHash = rv_CallbackEvidenceHash r, qu_ReasonCode = ''CANONICAL_SETTLEMENT_SUBMITTED'',
      qu_ReceivedAt = rv_ReceivedAt r, qu_Owner = ''payment-operations'',
      qu_ResolutionDeadline = rv_ReceivedAt r + 24 * hour\<rparr>"

fun restore_pending ::
  "CanonicalReversalRecord list \<Rightarrow> ('c, 'acc) Orchestrator \<Rightarrow> payment_error + ('c, 'acc) Orchestrator" where
  "restore_pending [] o' = Inr o'"
| "restore_pending (r # rs) o' =
     (if incomplete_reversal r \<or> \<not> mhas (or_providers o') (rv_ProviderID r) \<or>
         mhas (or_pendingReversals o') (rv_QuarantineID r)
      then Inl ErrCanonicalPersistence
      else restore_pending rs
             (o'\<lparr>or_quarantines := or_quarantines o' @ [restored_quarantine r],
                 or_pendingReversals := mput (rv_QuarantineID r) (restored_pending r) (or_pendingReversals o')\<rparr>))"

definition orchestrator_New ::
  "('c, 'acc) Coordinator \<Rightarrow> Provider list \<Rightarrow> 'acc \<Rightarrow> 'c \<Rightarrow> payment_error + ('c, 'acc) Orchestrator" where
  "orchestrator_New co providers accounting canonical' =
     (if providers = [] then Inl ErrInvalidProvider
      else ebind (configure_providers providers []) (\<lambda>configured.
        ebind (restore_pending (co_PendingProviderReversals co canonical')
          \<lparr>or_providers = configured, or_payments = [], or_intentKeys = [], or_intentHashes = [], or_events = [],
           or_rawCallbacks = [], or_quarantines = [], or_canonicalIncidents = [], or_quarantineResolutions = [],
           or_pendingReversals = [], or_consumedReversals = [], or_accounting = accounting,
           or_canonical = canonical'\<rparr>) (\<lambda>o'.
          case refreshCanonicalConsumptionsLocked co o' of
            (Some e, _) \<Rightarrow> Inl e
          | (None, o'') \<Rightarrow> Inr o'')))"

definition RestorePayment ::
  "('c, 'acc) Orchestrator \<Rightarrow> PaymentIntent \<Rightarrow> payment_error option \<times> ('c, 'acc) Orchestrator" where
  "RestorePayment o' i =
     (if in_PaymentID i = [] \<or> in_ProviderID i = [] \<or> in_AssetID i = [] \<or> in_Units i = [] \<or> in_Version i = 0 \<or>
         in_CreatedAt i = 0 \<or> in_UpdatedAt i = 0
      then (Some ErrInvalidIntent, o')
      else case mget (or_providers o') (in_ProviderID i) of
        None \<Rightarrow> (Some ErrInvalidIntent, o')
      | Some v \<Rightarrow>
          if pv_Rail v \<noteq> in_Rail i \<or> pv_AssetID v \<noteq> in_AssetID i then (Some ErrInvalidIntent, o')
          else case mget (or_payments o') (in_PaymentID i) of
            Some existing \<Rightarrow> if existing = i then (None, o') else (Some ErrIdempotencyConflict, o')
          | None \<Rightarrow>
              (case applyCanonicalConsumptionsLocked (in_PaymentID i)
                      (o'\<lparr>or_payments := mput (in_PaymentID i) i (or_payments o')\<rparr>) of
                 (Some e, o1) \<Rightarrow> (Some e, o1\<lparr>or_payments := mdel (in_PaymentID i) (or_payments o1)\<rparr>)
               | (None, o1) \<Rightarrow> (None, o1)))"

section \<open>Intents\<close>

definition invalid_intent :: "PaymentIntent \<Rightarrow> gotime \<Rightarrow> bool" where
  "invalid_intent i now \<longleftrightarrow>
     now = 0 \<or> in_PaymentID i = [] \<or> in_LegalEntityID i = [] \<or> in_IdempotencyKey i = [] \<or>
     in_CorrelationID i = [] \<or> in_PayerReference i = [] \<or> in_ProviderID i = [] \<or> in_ProviderReference i \<noteq> [] \<or>
     in_Purpose i = [] \<or> in_AssetID i = [] \<or> in_SchemaVersion i = 0 \<or> \<not> now < in_ExpiresAt i \<or>
     in_Status i \<noteq> NoStatus \<or> in_Version i \<noteq> 0 \<or> in_CreatedAt i \<noteq> 0 \<or> in_UpdatedAt i \<noteq> 0 \<or>
     in_ProvisionalAt i \<noteq> 0 \<or> in_FinalizedAt i \<noteq> 0 \<or> in_ReversedAt i \<noteq> 0"

definition intent_scope :: "PaymentIntent \<Rightarrow> string" where
  "intent_scope i = in_LegalEntityID i @ [CHR 0x00] @ in_IdempotencyKey i"

definition created_intent :: "PaymentIntent \<Rightarrow> gotime \<Rightarrow> PaymentIntent" where
  "created_intent i now = i\<lparr>in_Status := StatusCreated, in_Version := 1, in_CreatedAt := now, in_UpdatedAt := now\<rparr>"

definition CreateIntent ::
  "PaymentEnv \<Rightarrow> ('c, 'acc) Orchestrator \<Rightarrow> PaymentIntent \<Rightarrow> gotime
     \<Rightarrow> (payment_error + PaymentIntent) \<times> ('c, 'acc) Orchestrator" where
  "CreateIntent env o' i now =
     (if invalid_intent i now \<or> \<not> positive_units (in_Units i) then (Inl ErrInvalidIntent, o')
      else case mget (or_providers o') (in_ProviderID i) of
        None \<Rightarrow> (Inl ErrInvalidIntent, o')
      | Some v \<Rightarrow>
          if \<not> pv_Active v \<or> pv_Rail v \<noteq> in_Rail i \<or> pv_AssetID v \<noteq> in_AssetID i then (Inl ErrInvalidIntent, o')
          else
            let contentHash = intentHash env i; scope = intent_scope i
            in (case mget (or_intentKeys o') scope of
                  Some paymentID \<Rightarrow>
                    if the_default [] (mget (or_intentHashes o') paymentID) \<noteq> contentHash
                    then (Inl ErrIdempotencyConflict, o')
                    else (Inr (the_default zero_intent (mget (or_payments o') paymentID)), o')
                | None \<Rightarrow>
                    if mhas (or_payments o') (in_PaymentID i) then (Inl ErrIdempotencyConflict, o')
                    else
                      let i' = created_intent i now
                      in (Inr i', o'\<lparr>or_payments := mput (in_PaymentID i) i' (or_payments o'),
                                     or_intentKeys := mput scope (in_PaymentID i) (or_intentKeys o'),
                                     or_intentHashes := mput (in_PaymentID i) contentHash (or_intentHashes o')\<rparr>)))"

section \<open>Callbacks\<close>

text \<open>The payment after an accepted callback; only the timestamp of the new status is set.\<close>

definition advanced :: "PaymentIntent \<Rightarrow> Callback \<Rightarrow> gotime \<Rightarrow> PaymentIntent" where
  "advanced current cb receivedAt =
     (let next = current\<lparr>in_Status := cb_Status cb, in_Version := in_Version current + 1,
                   in_UpdatedAt := receivedAt,
                   in_ProviderReference := (if in_ProviderReference current = [] then cb_ProviderReference cb
                                            else in_ProviderReference current)\<rparr>
      in case cb_Status cb of
           StatusProvisional \<Rightarrow> next\<lparr>in_ProvisionalAt := receivedAt\<rparr>
         | StatusFinal \<Rightarrow> next\<lparr>in_FinalizedAt := receivedAt\<rparr>
         | StatusReversed \<Rightarrow> next\<lparr>in_ReversedAt := receivedAt\<rparr>
         | _ \<Rightarrow> next)"

definition callback_transition :: "PaymentIntent \<Rightarrow> PaymentIntent \<Rightarrow> Callback \<Rightarrow> gotime \<Rightarrow> PaymentTransition" where
  "callback_transition current next cb receivedAt =
     \<lparr>tr_Payment = next, tr_From = in_Status current, tr_To = cb_Status cb,
      tr_ProviderEventID = cb_ProviderEventID cb, tr_OccurredAt = cb_OccurredAt cb, tr_ReceivedAt = receivedAt,
      tr_EvidenceHash = cb_EvidenceHash cb\<rparr>"

definition reversal_record ::
  "nat \<Rightarrow> 64 word \<Rightarrow> Callback \<Rightarrow> string \<Rightarrow> string \<Rightarrow> gotime \<Rightarrow> CanonicalReversalRecord" where
  "reversal_record sequence ingressID cb rawHash signatureHash receivedAt =
     \<lparr>rv_QuarantineID = ''quarantine-'' @ pad6 sequence, rv_ResolutionID = [], rv_IngressID = ingressID,
      rv_PaymentID = cb_PaymentID cb, rv_AllocationID = [], rv_InstructionDigest = [],
      rv_ProviderID = cb_ProviderID cb, rv_ProviderEventID = cb_ProviderEventID cb,
      rv_ReversalEventID = canonicalPaymentEventID (cb_ProviderID cb) (cb_ProviderEventID cb),
      rv_ProviderReference = cb_ProviderReference cb, rv_AssetID = cb_AssetID cb, rv_Units = cb_Units cb,
      rv_RawHash = rawHash, rv_SignatureHash = signatureHash, rv_CallbackEvidenceHash = cb_EvidenceHash cb,
      rv_CallbackExpiresAt = cb_ExpiresAt cb, rv_FailureProof = zero_failure, rv_ResolutionEvidence = [],
      rv_ResolvedBy = [], rv_OccurredAt = cb_OccurredAt cb, rv_ReceivedAt = receivedAt\<rparr>"

text \<open>The commit callback of a reversal: \<open>Apply\<close>, then \<open>journalIDs\<close> and \<open>reversalCommitted\<close>.\<close>

definition reversal_apply ::
  "('acc \<Rightarrow> PaymentTransition \<Rightarrow> ('e + string list) \<times> 'acc) \<Rightarrow> PaymentTransition \<Rightarrow> 'acc captured commit" where
  "reversal_apply applyT t w =
     (case w of (acc, ids, committed) \<Rightarrow>
        (case applyT acc t of
           (Inl e, acc') \<Rightarrow> (Inl CommitError, acc', [], committed)
         | (Inr ids', acc') \<Rightarrow> (Inr (), acc', ids', True)))"

definition disposition_text :: "ReversalDisposition \<Rightarrow> string" where
  "disposition_text d =
     (case d of ReversalUnclaimed \<Rightarrow> ''UNCLAIMED'' | ReversalSynthetic \<Rightarrow> ''SYNTHETIC''
      | ReversalReleased \<Rightarrow> ''RELEASED'' | ReversalQuarantined \<Rightarrow> ''QUARANTINED'' | ReversalIncident \<Rightarrow> ''INCIDENT'')"

definition callback_result ::
  "Callback \<Rightarrow> string \<Rightarrow> PaymentIntent \<Rightarrow> string list \<Rightarrow> string \<Rightarrow> CallbackResult" where
  "callback_result cb rawHash i ids disposition =
     \<lparr>cr_ProviderID = cb_ProviderID cb, cr_ProviderEventID = cb_ProviderEventID cb, cr_RawHash = rawHash,
      cr_Payment = i, cr_JournalIDs = ids, cr_Replayed = False, cr_Disposition = disposition\<rparr>"

definition contradiction_incident ::
  "nat \<Rightarrow> Callback \<Rightarrow> Claim \<Rightarrow> string \<Rightarrow> gotime \<Rightarrow> CanonicalIncidentRecord" where
  "contradiction_incident sequence cb claim rawHash receivedAt =
     \<lparr>ci_IncidentID = ''canonical-incident-'' @ pad6 sequence, ci_PaymentID = cb_PaymentID cb,
      ci_AllocationID = cl_AllocationID claim, ci_ClaimDigest = cl_Digest claim,
      ci_ProviderID = cb_ProviderID cb, ci_ProviderEventID = cb_ProviderEventID cb,
      ci_ProviderReference = cb_ProviderReference cb, ci_RawHash = rawHash, ci_EvidenceHash = cb_EvidenceHash cb,
      ci_ReasonCode = ''PROVIDER_CONTRADICTION_AFTER_CANONICAL_SETTLEMENT'', ci_OccurredAt = cb_OccurredAt cb,
      ci_ReceivedAt = receivedAt\<rparr>"

text \<open>The branch of \<open>IngestCallback\<close> for a reversal: the coordinator decides what becomes of it.\<close>

definition ingest_reversal ::
  "('acc \<Rightarrow> PaymentTransition \<Rightarrow> ('e + string list) \<times> 'acc) \<Rightarrow> ('c, 'acc) Coordinator \<Rightarrow> ('c, 'acc) Orchestrator \<Rightarrow>
   64 word \<Rightarrow> Callback \<Rightarrow> PaymentIntent \<Rightarrow> string \<Rightarrow> string \<Rightarrow> gotime
     \<Rightarrow> (CallbackResult \<times> payment_error option) \<times> ('c, 'acc) Orchestrator" where
  "ingest_reversal applyT co o' ingressID cb current rawHash signatureHash receivedAt =
     (let next = advanced current cb receivedAt;
          key = event_key (cb_ProviderID cb) (cb_ProviderEventID cb);
          rec = reversal_record (length (or_quarantines o') + 1) ingressID cb rawHash signatureHash receivedAt
      in case co_HandleProviderReversal co (or_canonical o') rec
                (reversal_apply applyT (callback_transition current next cb receivedAt))
                (or_accounting o', [], False) of
        ((claim, disposition, err), c, acc, ids, committed) \<Rightarrow>
          let o1 = o'\<lparr>or_canonical := c, or_accounting := acc\<rparr> in
          if err \<noteq> None then ((zero_result, Some ErrCanonicalPersistence), o1)
          else case disposition of
            ReversalQuarantined \<Rightarrow>
              (case quarantine o1 (cb_ProviderID cb) (cb_ProviderEventID cb) (cb_PaymentID cb) rawHash
                      (cb_EvidenceHash cb) ''CANONICAL_SETTLEMENT_SUBMITTED'' receivedAt of
                 (q, o2) \<Rightarrow>
                   let result = callback_result cb rawHash current [] ''QUARANTINED''
                   in ((result, Some ErrCanonicalPending),
                       o2\<lparr>or_events := mput key
                             \<lparr>se_rawHash = rawHash, se_result = result, se_err = Some ErrCanonicalPending\<rparr>
                             (or_events o2),
                          or_pendingReversals := mput (qu_QuarantineID q)
                             \<lparr>pr_eventKey = key, pr_ingressID = ingressID, pr_callback = cb, pr_rawHash = rawHash,
                              pr_signatureHash = signatureHash, pr_receivedAt = receivedAt, pr_claim = claim\<rparr>
                             (or_pendingReversals o2)\<rparr>))
          | ReversalIncident \<Rightarrow>
              let result = callback_result cb rawHash current [] ''INCIDENT''
              in ((result, Some ErrCanonicalConfirmed),
                  o1\<lparr>or_canonicalIncidents := or_canonicalIncidents o1 @
                        [contradiction_incident (length (or_canonicalIncidents o1) + 1) cb claim rawHash receivedAt],
                     or_events := mput key
                        \<lparr>se_rawHash = rawHash, se_result = result, se_err = Some ErrCanonicalConfirmed\<rparr>
                        (or_events o1)\<rparr>)
          | _ \<Rightarrow>
              if \<not> committed then ((zero_result, Some ErrCanonicalPersistence), o1)
              else
                let result = callback_result cb rawHash next ids (disposition_text disposition)
                in ((result, None),
                    o1\<lparr>or_payments := mput (in_PaymentID next) next (or_payments o1),
                       or_events := mput key \<lparr>se_rawHash = rawHash, se_result = result, se_err = None\<rparr>
                         (or_events o1)\<rparr>))"

text \<open>The rest of \<open>IngestCallback\<close>: every status but a reversal.\<close>

definition ingest_status ::
  "('acc \<Rightarrow> PaymentTransition \<Rightarrow> ('e + string list) \<times> 'acc) \<Rightarrow> ('c, 'acc) Orchestrator \<Rightarrow>
   Callback \<Rightarrow> PaymentIntent \<Rightarrow> string \<Rightarrow> gotime
     \<Rightarrow> (CallbackResult \<times> payment_error option) \<times> ('c, 'acc) Orchestrator" where
  "ingest_status applyT o' cb current rawHash receivedAt =
     (let key = event_key (cb_ProviderID cb) (cb_ProviderEventID cb);
          finish = (\<lambda>next ids o1.
            let result = callback_result cb rawHash next ids []
            in ((result, None),
                o1\<lparr>or_events := mput key \<lparr>se_rawHash = rawHash, se_result = result, se_err = None\<rparr> (or_events o1)\<rparr>))
      in if cb_Status cb = in_Status current then finish current [] o'
         else
           let next = advanced current cb receivedAt;
               store = (\<lambda>o1. o1\<lparr>or_payments := mput (in_PaymentID next) next (or_payments o1)\<rparr>)
           in if accountingTransition (cb_Status cb)
              then (case applyT (or_accounting o') (callback_transition current next cb receivedAt) of
                      (Inl e, acc) \<Rightarrow> ((zero_result, Some ErrAccounting), o'\<lparr>or_accounting := acc\<rparr>)
                    | (Inr ids, acc) \<Rightarrow> finish next ids (store (o'\<lparr>or_accounting := acc\<rparr>)))
              else finish next [] (store o'))"

definition unbound_payment :: "Provider \<Rightarrow> Callback \<Rightarrow> PaymentIntent \<Rightarrow> gotime \<Rightarrow> bool" where
  "unbound_payment v cb current receivedAt \<longleftrightarrow>
     in_ProviderID current \<noteq> cb_ProviderID cb \<or> in_Rail current \<noteq> pv_Rail v \<or>
     in_AssetID current \<noteq> cb_AssetID cb \<or> in_Units current \<noteq> cb_Units cb \<or>
     (in_ProviderReference current \<noteq> [] \<and> in_ProviderReference current \<noteq> cb_ProviderReference cb) \<or>
     (in_Status current = StatusCreated \<and> in_ExpiresAt current < receivedAt)"

definition refuse ::
  "('c, 'acc) Orchestrator \<Rightarrow> string \<Rightarrow> string \<Rightarrow> string \<Rightarrow> string \<Rightarrow> string \<Rightarrow> string \<Rightarrow> gotime \<Rightarrow> payment_error
     \<Rightarrow> (CallbackResult \<times> payment_error option) \<times> ('c, 'acc) Orchestrator" where
  "refuse o' providerID eventID paymentID rawHash evidenceHash reason receivedAt e =
     ((zero_result, Some e), snd (quarantine o' providerID eventID paymentID rawHash evidenceHash reason receivedAt))"

text \<open>From the lookup of the event on: the callback is authentic and bound to its provider.\<close>

definition ingest_callback ::
  "('acc \<Rightarrow> PaymentTransition \<Rightarrow> ('e + string list) \<times> 'acc) \<Rightarrow> ('c, 'acc) Coordinator \<Rightarrow> ('c, 'acc) Orchestrator \<Rightarrow>
   64 word \<Rightarrow> Provider \<Rightarrow> Callback \<Rightarrow> string \<Rightarrow> string \<Rightarrow> gotime
     \<Rightarrow> (CallbackResult \<times> payment_error option) \<times> ('c, 'acc) Orchestrator" where
  "ingest_callback applyT co o' ingressID v cb rawHash signatureHash receivedAt =
     (let refused = (\<lambda>reason e. refuse o' (cb_ProviderID cb) (cb_ProviderEventID cb) (cb_PaymentID cb) rawHash
                        (cb_EvidenceHash cb) reason receivedAt e)
      in case mget (or_events o') (event_key (cb_ProviderID cb) (cb_ProviderEventID cb)) of
           Some existing \<Rightarrow>
             if se_rawHash existing \<noteq> rawHash then refused ''CALLBACK_EVENT_CONFLICT'' ErrCallbackConflict
             else (((se_result existing)\<lparr>cr_Replayed := True\<rparr>, se_err existing), o')
         | None \<Rightarrow>
             (case mget (or_payments o') (cb_PaymentID cb) of
                None \<Rightarrow> refused ''UNKNOWN_PAYMENT'' ErrUnknownPayment
              | Some current \<Rightarrow>
                  if unbound_payment v cb current receivedAt
                  then refused ''PAYMENT_BINDING_INVALID'' ErrInvalidCallback
                  else if cb_Status cb = StatusReversed \<and> \<not> pv_SupportsReversal v
                  then refused ''REVERSAL_UNSUPPORTED'' ErrInvalidPaymentTransition
                  else if cb_Status cb = StatusReversed \<and> in_Status current = StatusReversed
                  then refused ''CALLBACK_ORDER_INVALID'' ErrInvalidPaymentTransition
                  else if cb_Status cb \<noteq> in_Status current \<and> \<not> allowedTransition (in_Status current) (cb_Status cb)
                  then refused ''CALLBACK_ORDER_INVALID'' ErrInvalidPaymentTransition
                  else if cb_Status cb = StatusReversed
                  then ingest_reversal applyT co o' ingressID cb current rawHash signatureHash receivedAt
                  else ingest_status applyT o' cb current rawHash receivedAt))"

definition raw_callback ::
  "PaymentEnv \<Rightarrow> nat \<Rightarrow> string \<Rightarrow> string \<Rightarrow> string \<Rightarrow> string \<Rightarrow> gotime \<Rightarrow> RawCallback" where
  "raw_callback env ingressID providerID providerEventID raw signature receivedAt =
     \<lparr>rw_IngressID = of_nat ingressID, rw_ProviderID = providerID, rw_ProviderEventID = providerEventID,
      rw_RawPayload = (if MaxCallbackBytes < length raw then [] else raw), rw_RawHash = pe_hashBytes env raw,
      rw_SignatureHash = pe_hashBytes env signature, rw_ReceivedAt = receivedAt\<rparr>"

definition authentic :: "PaymentEnv \<Rightarrow> ('c, 'acc) Orchestrator \<Rightarrow> string \<Rightarrow> string \<Rightarrow> string \<Rightarrow> Provider option" where
  "authentic env o' providerID raw signature =
     (case mget (or_providers o') providerID of
        None \<Rightarrow> None
      | Some v \<Rightarrow>
          if \<not> pv_Active v \<or> \<not> pe_verify env (pv_PublicKey v) (SigningMessage env raw) signature then None else Some v)"

definition IngestCallback ::
  "PaymentEnv \<Rightarrow> ('acc \<Rightarrow> PaymentTransition \<Rightarrow> ('e + string list) \<times> 'acc) \<Rightarrow> ('c, 'acc) Coordinator \<Rightarrow>
   ('c, 'acc) Orchestrator \<Rightarrow> string \<Rightarrow> string \<Rightarrow> string \<Rightarrow> string \<Rightarrow> gotime
     \<Rightarrow> (CallbackResult \<times> payment_error option) \<times> ('c, 'acc) Orchestrator" where
  "IngestCallback env applyT co o0 providerID providerEventID raw signature receivedAt =
     (if receivedAt = 0 then ((zero_result, Some ErrInvalidCallback), o0)
      else case refreshCanonicalConsumptionsLocked co o0 of
        (Some e, o1) \<Rightarrow> ((zero_result, Some e), o1)
      | (None, o1) \<Rightarrow>
          let ingressID = length (or_rawCallbacks o1) + 1;
              rawHash = pe_hashBytes env raw;
              o2 = o1\<lparr>or_rawCallbacks := or_rawCallbacks o1 @
                        [raw_callback env ingressID providerID providerEventID raw signature receivedAt]\<rparr>
          in if providerID = [] \<or> providerEventID = [] \<or> length raw = 0 \<or> MaxCallbackBytes < length raw
             then refuse o2 providerID providerEventID [] rawHash [] ''CALLBACK_ENVELOPE_INVALID'' receivedAt
                    ErrInvalidCallback
             else case authentic env o2 providerID raw signature of
               None \<Rightarrow> refuse o2 providerID providerEventID [] rawHash [] ''CALLBACK_AUTHENTICATION_FAILED'' receivedAt
                         ErrUnauthorizedCallback
             | Some v \<Rightarrow>
                 (case decodeCallback env raw of
                    Inl e \<Rightarrow> refuse o2 providerID providerEventID [] rawHash [] ''CALLBACK_BINDING_INVALID'' receivedAt
                              ErrInvalidCallback
                  | Inr cb \<Rightarrow>
                      if cb_ProviderID cb \<noteq> providerID \<or> cb_ProviderEventID cb \<noteq> providerEventID \<or>
                         cb_AssetID cb \<noteq> pv_AssetID v \<or> cb_ExpiresAt cb < receivedAt
                      then refuse o2 providerID providerEventID (cb_PaymentID cb) rawHash (cb_EvidenceHash cb)
                             ''CALLBACK_BINDING_INVALID'' receivedAt ErrInvalidCallback
                      else ingest_callback applyT co o2 (of_nat ingressID) v cb rawHash (pe_hashBytes env signature)
                             receivedAt))"

section \<open>Resolving quarantined callbacks\<close>

definition invalid_resolution_request :: "CanonicalReversalResolutionRequest \<Rightarrow> bool" where
  "invalid_resolution_request q \<longleftrightarrow>
     rr_QuarantineID q = [] \<or> rr_ResolutionID q = [] \<or> rr_PaymentID q = [] \<or> rr_AllocationID q = [] \<or>
     rr_InstructionDigest q = [] \<or> rr_ResolutionEvidenceHash q = [] \<or> rr_ResolvedBy q = [] \<or> rr_ResolvedAt q = 0"

text \<open>The payment that a resolution already on record leads to.\<close>

definition replayed_payment :: "CanonicalReversalResolutionRecord \<Rightarrow> PaymentIntent \<Rightarrow> PaymentIntent option" where
  "replayed_payment r current =
     (if in_ProviderID current \<noteq> rl_ProviderID r \<or> in_AssetID current \<noteq> rl_AssetID r \<or>
         in_Units current \<noteq> rl_Units r \<or>
         (in_ProviderReference current \<noteq> [] \<and> in_ProviderReference current \<noteq> rl_ProviderReference r)
      then None
      else case in_Status current of
        StatusFinal \<Rightarrow>
          Some (current\<lparr>in_Status := StatusReversed, in_Version := in_Version current + 1,
                  in_UpdatedAt := rl_ResolvedAt r, in_ReversedAt := rl_ResolvedAt r,
                  in_ProviderReference := (if in_ProviderReference current = [] then rl_ProviderReference r
                                           else in_ProviderReference current)\<rparr>)
      | StatusReversed \<Rightarrow>
          if in_ReversedAt current \<noteq> rl_ResolvedAt r \<or> in_UpdatedAt current \<noteq> rl_ResolvedAt r then None
          else Some current
      | _ \<Rightarrow> None)"

definition replayed_resolution :: "CanonicalReversalResolutionRecord \<Rightarrow> QuarantineResolution" where
  "replayed_resolution r =
     \<lparr>qr_ResolutionID = rl_ResolutionID r, qr_QuarantineID = rl_QuarantineID r,
      qr_CanonicalFailureEvidenceHash = rl_CanonicalFailureEvidenceHash r,
      qr_EvidenceHash = rl_ResolutionEvidenceHash r, qr_ResolvedBy = rl_ResolvedBy r,
      qr_ResolvedAt = rl_ResolvedAt r\<rparr>"

definition replayed_result :: "CanonicalReversalResolutionRecord \<Rightarrow> PaymentIntent \<Rightarrow> CallbackResult" where
  "replayed_result r next =
     \<lparr>cr_ProviderID = rl_ProviderID r, cr_ProviderEventID = rl_ProviderEventID r, cr_RawHash = rl_RawHash r,
      cr_Payment = next, cr_JournalIDs = rl_JournalIDs r, cr_Replayed = True, cr_Disposition = ''REVERSED''\<rparr>"

text \<open>Both ways to settle a quarantined reversal end with the same writes.\<close>

definition settle_reversal ::
  "string \<Rightarrow> string \<Rightarrow> string \<Rightarrow> CallbackResult \<Rightarrow> QuarantineResolution \<Rightarrow> ('c, 'acc) Orchestrator
     \<Rightarrow> ('c, 'acc) Orchestrator" where
  "settle_reversal quarantineID key rawHash result resolution o' =
     o'\<lparr>or_payments := mput (in_PaymentID (cr_Payment result)) (cr_Payment result) (or_payments o'),
        or_events := mput key \<lparr>se_rawHash = rawHash, se_result = result, se_err = None\<rparr> (or_events o'),
        or_quarantineResolutions := mput quarantineID resolution (or_quarantineResolutions o'),
        or_pendingReversals := mdel quarantineID (or_pendingReversals o')\<rparr>"

definition resolution_record ::
  "CanonicalReversalResolutionRequest \<Rightarrow> pendingCanonicalReversal \<Rightarrow> CanonicalReversalRecord" where
  "resolution_record q pending =
     (let cb = pr_callback pending in
      \<lparr>rv_QuarantineID = rr_QuarantineID q, rv_ResolutionID = rr_ResolutionID q,
       rv_IngressID = pr_ingressID pending, rv_PaymentID = rr_PaymentID q, rv_AllocationID = rr_AllocationID q,
       rv_InstructionDigest = rr_InstructionDigest q, rv_ProviderID = cb_ProviderID cb,
       rv_ProviderEventID = cb_ProviderEventID cb,
       rv_ReversalEventID = canonicalPaymentEventID (cb_ProviderID cb) (cb_ProviderEventID cb),
       rv_ProviderReference = cb_ProviderReference cb, rv_AssetID = cb_AssetID cb, rv_Units = cb_Units cb,
       rv_RawHash = pr_rawHash pending, rv_SignatureHash = pr_signatureHash pending,
       rv_CallbackEvidenceHash = cb_EvidenceHash cb, rv_CallbackExpiresAt = cb_ExpiresAt cb,
       rv_FailureProof = rr_FailureProof q, rv_ResolutionEvidence = rr_ResolutionEvidenceHash q,
       rv_ResolvedBy = rr_ResolvedBy q, rv_OccurredAt = cb_OccurredAt cb, rv_ReceivedAt = rr_ResolvedAt q\<rparr>)"

definition reversed_by_resolution :: "PaymentIntent \<Rightarrow> gotime \<Rightarrow> PaymentIntent" where
  "reversed_by_resolution current resolvedAt =
     current\<lparr>in_Status := StatusReversed, in_Version := in_Version current + 1, in_UpdatedAt := resolvedAt,
       in_ReversedAt := resolvedAt\<rparr>"

definition fallback_apply ::
  "('acc \<Rightarrow> PaymentTransition \<Rightarrow> ('e + string list) \<times> 'acc) \<Rightarrow> PaymentTransition \<Rightarrow> 'acc
     \<Rightarrow> (mode_error + string list) \<times> 'acc" where
  "fallback_apply applyT t acc =
     (case applyT acc t of (Inl e, acc') \<Rightarrow> (Inl CommitError, acc') | (Inr ids, acc') \<Rightarrow> (Inr ids, acc'))"

definition mismatched_pending :: "CanonicalReversalResolutionRequest \<Rightarrow> pendingCanonicalReversal \<Rightarrow> bool" where
  "mismatched_pending q pending \<longleftrightarrow>
     cl_PaymentID (pr_claim pending) \<noteq> rr_PaymentID q \<or> cl_AllocationID (pr_claim pending) \<noteq> rr_AllocationID q \<or>
     cl_Digest (pr_claim pending) \<noteq> rr_InstructionDigest q \<or> rr_ResolvedAt q < pr_receivedAt pending"

text \<open>The part of \<open>ResolveCanonicalReversal\<close> that settles a pending reversal.\<close>

definition resolve_pending ::
  "('acc \<Rightarrow> PaymentTransition \<Rightarrow> ('e + string list) \<times> 'acc) \<Rightarrow> ('c, 'acc) Coordinator \<Rightarrow> ('c, 'acc) Orchestrator \<Rightarrow>
   CanonicalReversalResolutionRequest \<Rightarrow> pendingCanonicalReversal \<Rightarrow> PaymentIntent
     \<Rightarrow> (payment_error + CallbackResult \<times> QuarantineResolution) \<times> ('c, 'acc) Orchestrator" where
  "resolve_pending applyT co o' q pending current =
     (let next = reversed_by_resolution current (rr_ResolvedAt q);
          t = callback_transition current next ((pr_callback pending)\<lparr>cb_Status := StatusReversed\<rparr>)
                (pr_receivedAt pending)
      in case co_ResolveProviderReversal co (or_canonical o') (resolution_record q pending)
                (fallback_apply applyT t) (or_accounting o') of
           (Inl e, c, acc) \<Rightarrow> (Inl (FromCoordinator e), o'\<lparr>or_canonical := c, or_accounting := acc\<rparr>)
         | (Inr outcome, c, acc) \<Rightarrow>
             let resolution = \<lparr>qr_ResolutionID = rr_ResolutionID q, qr_QuarantineID = rr_QuarantineID q,
                   qr_CanonicalFailureEvidenceHash = cs_FailureEvidenceHash outcome,
                   qr_EvidenceHash = rr_ResolutionEvidenceHash q, qr_ResolvedBy = rr_ResolvedBy q,
                   qr_ResolvedAt = rr_ResolvedAt q\<rparr>;
                 result = callback_result (pr_callback pending) (pr_rawHash pending) next (cs_JournalIDs outcome)
                   ''REVERSED''
             in (Inr (result, resolution),
                 settle_reversal (rr_QuarantineID q) (pr_eventKey pending) (pr_rawHash pending) result resolution
                   (o'\<lparr>or_canonical := c, or_accounting := acc\<rparr>)))"

definition ResolveCanonicalReversal ::
  "('acc \<Rightarrow> PaymentTransition \<Rightarrow> ('e + string list) \<times> 'acc) \<Rightarrow> ('c, 'acc) Coordinator \<Rightarrow> ('c, 'acc) Orchestrator \<Rightarrow>
   CanonicalReversalResolutionRequest
     \<Rightarrow> (payment_error + CallbackResult \<times> QuarantineResolution) \<times> ('c, 'acc) Orchestrator" where
  "ResolveCanonicalReversal applyT co o0 q =
     (if invalid_resolution_request q then (Inl ErrInvalidPaymentResolution, o0)
      else case refreshCanonicalConsumptionsLocked co o0 of
        (Some e, o1) \<Rightarrow> (Inl e, o1)
      | (None, o1) \<Rightarrow>
          (case co_ResolvedProviderReversal co (or_canonical o1) q of
             Inl e \<Rightarrow> (Inl ErrInvalidPaymentResolution, o1)
           | Inr (Some r) \<Rightarrow>
               (case mget (or_payments o1) (rr_PaymentID q) of
                  None \<Rightarrow> (Inl ErrInvalidPaymentTransition, o1)
                | Some current \<Rightarrow>
                    (case replayed_payment r current of
                       None \<Rightarrow> (Inl ErrInvalidPaymentTransition, o1)
                     | Some next \<Rightarrow>
                         (Inr (replayed_result r next, replayed_resolution r),
                          settle_reversal (rr_QuarantineID q) (event_key (rl_ProviderID r) (rl_ProviderEventID r))
                            (rl_RawHash r) (replayed_result r next) (replayed_resolution r) o1)))
           | Inr None \<Rightarrow>
               if mhas (or_quarantineResolutions o1) (rr_QuarantineID q) then (Inl ErrInvalidPaymentResolution, o1)
               else (case mget (or_pendingReversals o1) (rr_QuarantineID q) of
                       None \<Rightarrow> (Inl ErrInvalidPaymentResolution, o1)
                     | Some pending \<Rightarrow>
                         if mismatched_pending q pending then (Inl ErrInvalidPaymentResolution, o1)
                         else case mget (or_payments o1) (rr_PaymentID q) of
                           None \<Rightarrow> (Inl ErrInvalidPaymentTransition, o1)
                         | Some current \<Rightarrow>
                             if in_Status current \<noteq> StatusFinal then (Inl ErrInvalidPaymentTransition, o1)
                             else resolve_pending applyT co o1 q pending current)))"

definition ResolveQuarantine ::
  "('c, 'acc) Orchestrator \<Rightarrow> string \<Rightarrow> string \<Rightarrow> string \<Rightarrow> string \<Rightarrow> gotime
     \<Rightarrow> (payment_error + QuarantineResolution) \<times> ('c, 'acc) Orchestrator" where
  "ResolveQuarantine o' quarantineID resolutionID evidenceHash resolvedBy resolvedAt =
     (if quarantineID = [] \<or> resolutionID = [] \<or> evidenceHash = [] \<or> resolvedBy = [] \<or> resolvedAt = 0 \<or>
         mhas (or_pendingReversals o') quarantineID \<or> mhas (or_quarantineResolutions o') quarantineID \<or>
         \<not> list_ex (\<lambda>r. qu_QuarantineID r = quarantineID \<and> \<not> resolvedAt < qu_ReceivedAt r) (or_quarantines o')
      then (Inl ErrInvalidPaymentResolution, o')
      else
        let resolution = \<lparr>qr_ResolutionID = resolutionID, qr_QuarantineID = quarantineID,
              qr_CanonicalFailureEvidenceHash = [], qr_EvidenceHash = evidenceHash, qr_ResolvedBy = resolvedBy,
              qr_ResolvedAt = resolvedAt\<rparr>
        in (Inr resolution,
            o'\<lparr>or_quarantineResolutions := mput quarantineID resolution (or_quarantineResolutions o')\<rparr>))"

definition orchestrator_Payment :: "('c, 'acc) Orchestrator \<Rightarrow> string \<Rightarrow> PaymentIntent option" where
  "orchestrator_Payment o' paymentID = mget (or_payments o') paymentID"

definition orchestrator_Payments :: "('c, 'acc) Orchestrator \<Rightarrow> PaymentIntent list" where
  "orchestrator_Payments o' = sort_key in_PaymentID (map snd (or_payments o'))"

section \<open>The local coordinator\<close>

definition local_HandleProviderReversal ::
  "'st Registry \<Rightarrow> CanonicalReversalRecord \<Rightarrow> 'w commit \<Rightarrow> 'w
     \<Rightarrow> (Claim \<times> ReversalDisposition \<times> mode_error option) \<times> 'st Registry \<times> 'w" where
  "local_HandleProviderReversal modes rec commit w =
     HandleReversalWithCommit modes (rv_PaymentID rec)
       (Some (\<lambda>_ disposition _ w'.
          if disposition \<in> {ReversalUnclaimed, ReversalSynthetic, ReversalReleased} then commit w' else (Inr (), w'))) w"

definition local_ResolveProviderReversal ::
  "'st Registry \<Rightarrow> CanonicalReversalRecord \<Rightarrow> ('w \<Rightarrow> (mode_error + string list) \<times> 'w) \<Rightarrow> 'w
     \<Rightarrow> (mode_error + CanonicalReversalResolution) \<times> 'st Registry \<times> 'w" where
  "local_ResolveProviderReversal modes rec localFallback w =
     (case ResolveQuarantinedReversal modes
             (zero_claim\<lparr>cl_PaymentID := rv_PaymentID rec, cl_AllocationID := rv_AllocationID rec,
                cl_Mode := ModeCanonicalGateway, cl_Digest := rv_InstructionDigest rec,
                cl_State := CanonicalQuarantined\<rparr>)
             (Some (\<lambda>(w', result).
                case localFallback w' of
                  (Inl e, w'') \<Rightarrow> (Inl e, w'', result)
                | (Inr ids, w'') \<Rightarrow>
                    (Inr (), w'', \<lparr>cs_JournalIDs = ids,
                       cs_FailureEvidenceHash =
                         (if tf_EvidenceHash (rv_FailureProof rec) = [] then rv_CallbackEvidenceHash rec
                          else tf_EvidenceHash (rv_FailureProof rec))\<rparr>)))
             (w, \<lparr>cs_JournalIDs = [], cs_FailureEvidenceHash = []\<rparr>) of
        (Inl e, modes', w', result) \<Rightarrow> (Inl e, modes', w')
      | (Inr u, modes', w', result) \<Rightarrow> (Inr result, modes', w'))"

definition local_coordinator :: "('st Registry, 'acc) Coordinator" where
  "local_coordinator =
     \<lparr>co_HandleProviderReversal = local_HandleProviderReversal,
      co_ResolveProviderReversal = local_ResolveProviderReversal,
      co_ResolvedProviderReversal = (\<lambda>_ _. Inr None),
      co_PendingProviderReversals = (\<lambda>_. []),
      co_ConsumedProviderReversals = (\<lambda>_. [])\<rparr>"

end
