(* ===== verification/Payment_Books.thy ===== *)
theory Payment_Books
  imports Payment_Orchestrator
begin

text \<open>
  What the payment orchestrator guarantees: its operations by cases, the transition discipline of a
  payment, the authenticity of every change, and the agreement of payments and ledger, proved once for
  any accounting and any coordinator that meet their contracts and then used for the poster of
  \<open>Payment_Accounting\<close> and the local coordinator.
\<close>

section \<open>What most of the code leaves alone\<close>

text \<open>Nothing but logs, quarantines, incidents and stored outcomes changes.\<close>

definition quiet :: "('c, 'acc) Orchestrator \<Rightarrow> ('c, 'acc) Orchestrator \<Rightarrow> bool" where
  "quiet o1 o2 \<longleftrightarrow>
     or_payments o2 = or_payments o1 \<and> or_accounting o2 = or_accounting o1 \<and> or_canonical o2 = or_canonical o1 \<and>
     or_providers o2 = or_providers o1 \<and>
     (\<forall>k. mhas (or_events o1) k \<longrightarrow> mhas (or_events o2) k) \<and>
     (\<forall>q p. mget (or_pendingReversals o2) q = Some p \<longrightarrow> mget (or_pendingReversals o1) q = Some p)"

lemma quiet_refl [simp]: "quiet o1 o1"
  by (simp add: quiet_def)

lemma quiet_trans [trans]: "quiet o1 o2 \<Longrightarrow> quiet o2 o3 \<Longrightarrow> quiet o1 o3"
  by (simp add: quiet_def)

lemma quietD:
  assumes "quiet o1 o2"
  shows "or_payments o2 = or_payments o1" "or_accounting o2 = or_accounting o1"
    "or_canonical o2 = or_canonical o1" "or_providers o2 = or_providers o1"
  using assms by (simp_all add: quiet_def)

lemma quiet_event [simp]: "quiet o1 (o1\<lparr>or_events := mput k e (or_events o1)\<rparr>)"
  by (simp add: quiet_def)

lemma apply_consumptions_quiet: "apply_consumptions pid i cs o1 = (e, o2) \<Longrightarrow> quiet o1 o2"
proof (induction cs arbitrary: o1)
  case (Cons c cs)
  then show ?case by (auto split: if_splits intro: quiet_trans[OF quiet_event])
qed simp

lemma applyCanonicalConsumptionsLocked_quiet: "applyCanonicalConsumptionsLocked pid o1 = (e, o2) \<Longrightarrow> quiet o1 o2"
  by (auto simp: applyCanonicalConsumptionsLocked_def split: option.splits intro: apply_consumptions_quiet)

lemma record_consumption_quiet [simp]: "quiet o1 (record_consumption c o1)"
  by (simp add: quiet_def record_consumption_def)

lemma refresh_consumptions_quiet: "refresh_consumptions cs o1 = (e, o2) \<Longrightarrow> quiet o1 o2"
proof (induction cs arbitrary: o1)
  case (Cons c cs)
  show ?case
  proof (cases "\<not> validCanonicalConsumption c \<or> \<not> mhas (or_providers o1) (cc_ProviderID c)")
    case True
    with Cons.prems show ?thesis by (auto split: if_splits)
  next
    case False
    let ?o = "case mget (or_consumedReversals o1) (cc_QuarantineID c) of Some _ \<Rightarrow> o1 | None \<Rightarrow> record_consumption c o1"
    have o: "quiet o1 ?o" by (simp split: option.split)
    obtain e1 o3 where a: "applyCanonicalConsumptionsLocked (cc_PaymentID c) ?o = (e1, o3)" by fastforce
    note q = quiet_trans[OF o applyCanonicalConsumptionsLocked_quiet[OF a]]
    from Cons.prems False a have "quiet o1 o2 \<or> (e1 = None \<and> refresh_consumptions cs o3 = (e, o2))"
      using q by (auto split: option.splits if_splits prod.splits)
    then show ?thesis using Cons.IH[of o3] quiet_trans[OF q] by blast
  qed
qed simp

lemma refresh_quiet: "refreshCanonicalConsumptionsLocked co o1 = (e, o2) \<Longrightarrow> quiet o1 o2"
  by (auto simp: refreshCanonicalConsumptionsLocked_def intro: refresh_consumptions_quiet)

lemma quarantine_quiet: "quiet o1 (snd (quarantine o1 p e i r h why t))"
  by (simp add: quarantine_def quiet_def Let_def)

lemma refuse_quiet: "refuse o1 p e i r h why t err = (res, o2) \<Longrightarrow> quiet o1 o2"
  using quarantine_quiet[of o1] by (auto simp: refuse_def)

section \<open>The operations by cases\<close>

lemma advanced_simps [simp]:
  "in_PaymentID (advanced i cb t) = in_PaymentID i" "in_ProviderID (advanced i cb t) = in_ProviderID i"
  "in_Status (advanced i cb t) = cb_Status cb" "in_Rail (advanced i cb t) = in_Rail i"
  "in_AssetID (advanced i cb t) = in_AssetID i" "in_Units (advanced i cb t) = in_Units i"
  "in_Version (advanced i cb t) = in_Version i + 1" "in_CreatedAt (advanced i cb t) = in_CreatedAt i"
  "in_UpdatedAt (advanced i cb t) = t" "intent_terms (advanced i cb t) = intent_terms i"
  "in_ProviderReference (advanced i cb t) =
     (if in_ProviderReference i = [] then cb_ProviderReference cb else in_ProviderReference i)"
  by (cases "cb_Status cb"; simp add: advanced_def Let_def intent_terms_def)+

text \<open>A callback that was accepted for a payment: authentic, bound to it, and in order.\<close>

definition accepted :: "('c, 'acc) Orchestrator \<Rightarrow> Provider \<Rightarrow> Callback \<Rightarrow> PaymentIntent \<Rightarrow> gotime \<Rightarrow> bool" where
  "accepted o1 v cb current receivedAt \<longleftrightarrow>
     mget (or_events o1) (event_key (cb_ProviderID cb) (cb_ProviderEventID cb)) = None \<and>
     mget (or_payments o1) (cb_PaymentID cb) = Some current \<and> \<not> unbound_payment v cb current receivedAt \<and>
     (cb_Status cb = in_Status current \<or> allowedTransition (in_Status current) (cb_Status cb))"

lemma ingest_callback_cases:
  assumes "ingest_callback applyT co o1 ing v cb rawHash sigHash t = (res, o2)"
  obtains (quiet) "quiet o1 o2"
  | (reversal) current where "accepted o1 v cb current t" "cb_Status cb = StatusReversed"
      "allowedTransition (in_Status current) StatusReversed" "pv_SupportsReversal v"
      "ingest_reversal applyT co o1 ing cb current rawHash sigHash t = (res, o2)"
  | (status) current where "accepted o1 v cb current t" "cb_Status cb \<noteq> StatusReversed"
      "ingest_status applyT o1 cb current rawHash t = (res, o2)"
proof (cases "mget (or_events o1) (event_key (cb_ProviderID cb) (cb_ProviderEventID cb))")
  case (Some e)
  with assms show thesis
    by (auto simp: ingest_callback_def Let_def split: if_splits dest: refuse_quiet intro: quiet)
next
  case new: None
  note run = assms[unfolded ingest_callback_def Let_def new option.case]
  show thesis
  proof (cases "mget (or_payments o1) (cb_PaymentID cb)")
    case None
    with run show thesis by (auto dest: refuse_quiet intro: quiet)
  next
    case (Some current)
    note run = run[unfolded Some option.case]
    show thesis
    proof (cases "accepted o1 v cb current t \<and> \<not> (cb_Status cb = StatusReversed \<and> \<not> pv_SupportsReversal v) \<and>
        \<not> (cb_Status cb = StatusReversed \<and> in_Status current = StatusReversed)")
      case True
      show thesis
      proof (cases "cb_Status cb = StatusReversed")
        case rev: True
        with True run show thesis by (intro reversal[of current]) (auto simp: accepted_def)
      next
        case False
        with True run show thesis by (intro status[of current]) (auto simp: accepted_def)
      qed
    next
      case False
      with run new Some show thesis
        by (auto simp: accepted_def dest!: refuse_quiet split: if_splits intro: quiet)
    qed
  qed
qed

lemma IngestCallback_cases:
  assumes "IngestCallback env applyT co o1 providerID eventID raw signature t = (res, o2)"
  obtains (quiet) "quiet o1 o2"
  | (bound) o3 ing v cb where "quiet o1 o3" "authentic env o1 providerID raw signature = Some v"
      "decodeCallback env raw = Inr cb" "cb_ProviderID cb = providerID" "cb_ProviderEventID cb = eventID"
      "cb_AssetID cb = pv_AssetID v" "t \<noteq> 0" "\<not> cb_ExpiresAt cb < t"
      "ingest_callback applyT co o3 ing v cb (pe_hashBytes env raw) (pe_hashBytes env signature) t = (res, o2)"
proof -
  obtain e o3 where r: "refreshCanonicalConsumptionsLocked co o1 = (e, o3)" by fastforce
  note q3 = refresh_quiet[OF r]
  define o4 where "o4 = o3\<lparr>or_rawCallbacks := or_rawCallbacks o3 @
    [raw_callback env (length (or_rawCallbacks o3) + 1) providerID eventID raw signature t]\<rparr>"
  have q4: "quiet o1 o4" using q3 by (simp add: quiet_def o4_def)
  have auth: "authentic env o4 = authentic env o1"
    using quietD(4)[OF q4] by (simp add: authentic_def fun_eq_iff)
  have ref: "quiet o1 o2" if "refuse o4 p e i h x why u err = (res, o2)" for p e i h x why u err
    using quiet_trans[OF q4 refuse_quiet[OF that]] .
  show thesis
  proof (cases "t = 0 \<or> e \<noteq> None")
    case True
    have "o2 = o1 \<or> o2 = o3"
    proof (cases "t = 0")
      case False
      with True obtain x where "e = Some x" by auto
      with assms[unfolded IngestCallback_def r if_not_P[OF False]] show ?thesis by simp
    qed (use assms in \<open>simp add: IngestCallback_def\<close>)
    with q3 show thesis by (auto intro: quiet)
  next
    case False
    then have t: "t \<noteq> 0" "e = None" by auto
    note run = assms[unfolded IngestCallback_def if_not_P[OF t(1)] r[unfolded t(2)] prod.case option.case Let_def,
        folded o4_def]
    show thesis
    proof (cases "authentic env o4 providerID raw signature")
      case None
      with run show thesis by (auto split: if_splits intro: quiet dest!: ref)
    next
      case v: (Some v)
      show thesis
      proof (cases "decodeCallback env raw")
        case (Inl x)
        with run v show thesis by (auto split: if_splits intro: quiet dest!: ref)
      next
        case (Inr cb)
        with run v auth q4 t(1) show thesis
          by (auto split: if_splits intro: quiet bound dest!: ref)
      qed
    qed
  qed
qed

lemma ingest_status_cases:
  assumes "ingest_status applyT o1 cb current rawHash t = (res, o2)"
  obtains (same) "cb_Status cb = in_Status current" "quiet o1 o2"
  | (unbooked) e where "cb_Status cb \<noteq> in_Status current" "\<not> accountingTransition (cb_Status cb)"
      "o2 = o1\<lparr>or_payments := mput (in_PaymentID current) (advanced current cb t) (or_payments o1),
         or_events := mput (event_key (cb_ProviderID cb) (cb_ProviderEventID cb)) e (or_events o1)\<rparr>"
  | (failed) x acc where "cb_Status cb \<noteq> in_Status current" "accountingTransition (cb_Status cb)"
      "applyT (or_accounting o1) (callback_transition current (advanced current cb t) cb t) = (Inl x, acc)"
      "o2 = o1\<lparr>or_accounting := acc\<rparr>"
  | (booked) ids acc e where "cb_Status cb \<noteq> in_Status current" "accountingTransition (cb_Status cb)"
      "applyT (or_accounting o1) (callback_transition current (advanced current cb t) cb t) = (Inr ids, acc)"
      "o2 = o1\<lparr>or_accounting := acc,
         or_payments := mput (in_PaymentID current) (advanced current cb t) (or_payments o1),
         or_events := mput (event_key (cb_ProviderID cb) (cb_ProviderEventID cb)) e (or_events o1)\<rparr>"
proof (cases "cb_Status cb = in_Status current")
  case True
  with assms show thesis by (auto simp: ingest_status_def Let_def intro!: same)
next
  case ne: False
  note run = assms[unfolded ingest_status_def Let_def if_not_P[OF ne]]
  show thesis
  proof (cases "accountingTransition (cb_Status cb)")
    case False
    with run ne show thesis by (auto intro!: unbooked)
  next
    case acct: True
    obtain r acc where a: "applyT (or_accounting o1) (callback_transition current (advanced current cb t) cb t) = (r, acc)"
      by fastforce
    show thesis
    proof (cases r)
      case (Inl x)
      with run a acct ne show thesis by (intro failed[of x acc]) auto
    next
      case (Inr ids)
      with run a acct ne show thesis by (auto intro!: booked)
    qed
  qed
qed

abbreviation reversal_call ::
  "('acc \<Rightarrow> PaymentTransition \<Rightarrow> ('e + string list) \<times> 'acc) \<Rightarrow> ('c, 'acc) Coordinator \<Rightarrow> ('c, 'acc) Orchestrator \<Rightarrow>
   64 word \<Rightarrow> Callback \<Rightarrow> PaymentIntent \<Rightarrow> string \<Rightarrow> string \<Rightarrow> gotime
     \<Rightarrow> (Claim \<times> ReversalDisposition \<times> mode_error option) \<times> 'c \<times> 'acc captured" where
  "reversal_call applyT co o1 ing cb current rawHash sigHash t \<equiv>
     co_HandleProviderReversal co (or_canonical o1)
       (reversal_record (length (or_quarantines o1) + 1) ing cb rawHash sigHash t)
       (reversal_apply applyT (callback_transition current (advanced current cb t) cb t))
       (or_accounting o1, [], False)"

lemma ingest_reversal_cases:
  assumes "ingest_reversal applyT co o1 ing cb current rawHash sigHash t = (res, o2)"
    and "key = event_key (cb_ProviderID cb) (cb_ProviderEventID cb)"
  obtains (refused) claim d err c acc ids committed where
      "reversal_call applyT co o1 ing cb current rawHash sigHash t = ((claim, d, err), c, acc, ids, committed)"
      "err \<noteq> None \<or> \<not> committed \<and> d \<notin> {ReversalQuarantined, ReversalIncident}"
      "o2 = o1\<lparr>or_canonical := c, or_accounting := acc\<rparr>"
  | (quarantined) claim c acc ids committed e q where
      "reversal_call applyT co o1 ing cb current rawHash sigHash t =
         ((claim, ReversalQuarantined, None), c, acc, ids, committed)"
      "o2 = o1\<lparr>or_canonical := c, or_accounting := acc, or_quarantines := or_quarantines o1 @ [q],
         or_events := mput key e (or_events o1),
         or_pendingReversals := mput (qu_QuarantineID q)
           \<lparr>pr_eventKey = key, pr_ingressID = ing, pr_callback = cb, pr_rawHash = rawHash,
            pr_signatureHash = sigHash, pr_receivedAt = t, pr_claim = claim\<rparr> (or_pendingReversals o1)\<rparr>"
  | (incident) claim c acc ids committed e inc where
      "reversal_call applyT co o1 ing cb current rawHash sigHash t =
         ((claim, ReversalIncident, None), c, acc, ids, committed)"
      "o2 = o1\<lparr>or_canonical := c, or_accounting := acc, or_canonicalIncidents := or_canonicalIncidents o1 @ [inc],
         or_events := mput key e (or_events o1)\<rparr>"
  | (reversed) claim d c acc ids e where
      "reversal_call applyT co o1 ing cb current rawHash sigHash t = ((claim, d, None), c, acc, ids, True)"
      "d \<notin> {ReversalQuarantined, ReversalIncident}"
      "o2 = o1\<lparr>or_canonical := c, or_accounting := acc,
         or_payments := mput (in_PaymentID current) (advanced current cb t) (or_payments o1),
         or_events := mput key e (or_events o1)\<rparr>"
proof -
  obtain claim d err c acc ids committed where
    call: "reversal_call applyT co o1 ing cb current rawHash sigHash t = ((claim, d, err), c, acc, ids, committed)"
    by (metis prod.collapse)
  note run = assms(1)[unfolded ingest_reversal_def Let_def call prod.case]
  show thesis
  proof (cases "err \<noteq> None \<or> \<not> committed \<and> d \<notin> {ReversalQuarantined, ReversalIncident}")
    case True
    with run have "o2 = o1\<lparr>or_canonical := c, or_accounting := acc\<rparr>"
      by (cases err; cases d) auto
    with call True show thesis by (intro refused)
  next
    case False
    then have err: "err = None" "committed \<or> d \<in> {ReversalQuarantined, ReversalIncident}" by auto
    note run = run[unfolded err(1) not_True_eq_False simp_thms if_False]
    show thesis
    proof (cases d)
      case ReversalQuarantined
      with run call err show thesis
        by (intro quarantined) (auto simp: quarantine_def Let_def assms(2))
    next
      case ReversalIncident
      with run call err show thesis by (intro incident) (auto simp: assms(2))
    qed (use run call err in \<open>auto simp: assms(2) intro!: reversed\<close>)
  qed
qed

lemma ResolveCanonicalReversal_cases:
  assumes "ResolveCanonicalReversal applyT co o1 q = (res, o2)"
  obtains (quiet) "quiet o1 o2"
  | (replayed) o3 r current "next" where "quiet o1 o3"
      "co_ResolvedProviderReversal co (or_canonical o3) q = Inr (Some r)"
      "mget (or_payments o3) (rr_PaymentID q) = Some current" "replayed_payment r current = Some next"
      "o2 = settle_reversal (rr_QuarantineID q) (event_key (rl_ProviderID r) (rl_ProviderEventID r))
              (rl_RawHash r) (replayed_result r next) (replayed_resolution r) o3"
  | (pending) o3 p current where "quiet o1 o3" "mget (or_pendingReversals o3) (rr_QuarantineID q) = Some p"
      "\<not> mismatched_pending q p" "mget (or_payments o3) (rr_PaymentID q) = Some current"
      "in_Status current = StatusFinal" "rr_ResolvedAt q \<noteq> 0"
      "resolve_pending applyT co o3 q p current = (res, o2)"
proof (cases "invalid_resolution_request q")
  case True
  with assms show thesis by (auto simp: ResolveCanonicalReversal_def intro: quiet)
next
  case valid: False
  then have at: "rr_ResolvedAt q \<noteq> 0" by (simp add: invalid_resolution_request_def)
  obtain e o3 where r: "refreshCanonicalConsumptionsLocked co o1 = (e, o3)" by fastforce
  note q3 = refresh_quiet[OF r]
  note run = assms[unfolded ResolveCanonicalReversal_def if_not_P[OF valid] r prod.case]
  consider (bad) x where "e = Some x" | (err) x where "e = None" "co_ResolvedProviderReversal co (or_canonical o3) q = Inl x"
    | (again) x where "e = None" "co_ResolvedProviderReversal co (or_canonical o3) q = Inr (Some x)"
    | (new) "e = None" "co_ResolvedProviderReversal co (or_canonical o3) q = Inr None"
    by (metis obj_sumE option.exhaust)
  then show thesis
  proof cases
    case (again x)
    note run = run[unfolded again option.case sum.case]
    show thesis
    proof (cases "\<exists>current next. mget (or_payments o3) (rr_PaymentID q) = Some current \<and> replayed_payment x current = Some next")
      case True
      then obtain current "next" where c: "mget (or_payments o3) (rr_PaymentID q) = Some current"
        "replayed_payment x current = Some next" by blast
      with run show thesis by (intro replayed[OF q3 again(2) c]) simp
    next
      case False
      with run q3 show thesis by (auto split: option.splits intro: quiet)
    qed
  next
    case new
    note run = run[unfolded new option.case sum.case]
    show thesis
    proof (cases "mget (or_pendingReversals o3) (rr_QuarantineID q)")
      case None
      with run q3 show thesis by (auto split: if_splits intro: quiet)
    next
      case (Some p)
      with run q3 at show thesis
        by (auto split: if_splits option.splits intro: quiet pending)
    qed
  qed (use run q3 in \<open>auto intro: quiet\<close>)
qed

lemma resolve_pending_cases:
  assumes "resolve_pending applyT co o1 q p current = (res, o2)"
    and "next = reversed_by_resolution current (rr_ResolvedAt q)"
    and "t = callback_transition current next ((pr_callback p)\<lparr>cb_Status := StatusReversed\<rparr>) (pr_receivedAt p)"
  obtains (failed) x c acc where
      "co_ResolveProviderReversal co (or_canonical o1) (resolution_record q p) (fallback_apply applyT t)
         (or_accounting o1) = (Inl x, c, acc)" "o2 = o1\<lparr>or_canonical := c, or_accounting := acc\<rparr>"
  | (settled) out c acc e r where
      "co_ResolveProviderReversal co (or_canonical o1) (resolution_record q p) (fallback_apply applyT t)
         (or_accounting o1) = (Inr out, c, acc)"
      "o2 = o1\<lparr>or_canonical := c, or_accounting := acc,
         or_payments := mput (in_PaymentID current) next (or_payments o1),
         or_events := mput (pr_eventKey p) e (or_events o1),
         or_quarantineResolutions := mput (rr_QuarantineID q) r (or_quarantineResolutions o1),
         or_pendingReversals := mdel (rr_QuarantineID q) (or_pendingReversals o1)\<rparr>"
proof -
  obtain r c acc where call: "co_ResolveProviderReversal co (or_canonical o1) (resolution_record q p)
      (fallback_apply applyT t) (or_accounting o1) = (r, c, acc)" by (metis prod.collapse)
  note run = assms(1)[unfolded resolve_pending_def Let_def, folded assms(2), folded assms(3), unfolded call prod.case]
  have pid: "in_PaymentID next = in_PaymentID current" by (simp add: assms(2) reversed_by_resolution_def)
  show thesis
  proof (cases r)
    case (Inl x)
    with run call show thesis by (intro failed) auto
  next
    case (Inr out)
    with run call pid show thesis
      by (intro settled) (auto simp: settle_reversal_def callback_result_def)
  qed
qed

section \<open>The orchestrator as a state machine\<close>

text \<open>
  The operations in any order; \<open>ok\<close> restricts what the payment repository hands to \<open>RestorePayment\<close>,
  \<open>otherAcc\<close> and \<open>otherCan\<close> are what other services do to the books and to the coordinator's state.
\<close>

inductive orchestrator_step ::
  "PaymentEnv \<Rightarrow> ('acc \<Rightarrow> PaymentTransition \<Rightarrow> ('e + string list) \<times> 'acc) \<Rightarrow> ('c, 'acc) Coordinator \<Rightarrow>
   (('c, 'acc) Orchestrator \<Rightarrow> PaymentIntent \<Rightarrow> bool) \<Rightarrow> ('acc \<Rightarrow> 'acc \<Rightarrow> bool) \<Rightarrow> ('c \<Rightarrow> 'c \<Rightarrow> bool) \<Rightarrow>
   ('c, 'acc) Orchestrator \<Rightarrow> ('c, 'acc) Orchestrator \<Rightarrow> bool"
  for env applyT co ok otherAcc otherCan where
  step_CreateIntent: "CreateIntent env o1 i now = (r, o2) \<Longrightarrow> orchestrator_step env applyT co ok otherAcc otherCan o1 o2"
| step_IngestCallback: "IngestCallback env applyT co o1 pid eid raw sig t = (res, o2) \<Longrightarrow>
    orchestrator_step env applyT co ok otherAcc otherCan o1 o2"
| step_ResolveCanonicalReversal: "ResolveCanonicalReversal applyT co o1 q = (res', o2) \<Longrightarrow>
    orchestrator_step env applyT co ok otherAcc otherCan o1 o2"
| step_ResolveQuarantine: "ResolveQuarantine o1 qid rid h who t = (res'', o2) \<Longrightarrow>
    orchestrator_step env applyT co ok otherAcc otherCan o1 o2"
| step_RestorePayment: "ok o1 i \<Longrightarrow> RestorePayment o1 i = (err, o2) \<Longrightarrow>
    orchestrator_step env applyT co ok otherAcc otherCan o1 o2"
| step_books: "otherAcc (or_accounting o1) acc \<Longrightarrow>
    orchestrator_step env applyT co ok otherAcc otherCan o1 (o1\<lparr>or_accounting := acc\<rparr>)"
| step_coordinator: "otherCan (or_canonical o1) c \<Longrightarrow>
    orchestrator_step env applyT co ok otherAcc otherCan o1 (o1\<lparr>or_canonical := c\<rparr>)"

text \<open>A new payment is bound to a configured provider; a payment that changes follows the table.\<close>

definition payment_bound :: "(string, Provider) gomap \<Rightarrow> string \<Rightarrow> PaymentIntent \<Rightarrow> bool" where
  "payment_bound providers pid i \<longleftrightarrow>
     in_PaymentID i = pid \<and> pid \<noteq> [] \<and> in_Units i \<noteq> [] \<and> in_CreatedAt i \<noteq> 0 \<and>
     (\<exists>v. mget providers (in_ProviderID i) = Some v \<and> in_Rail i = pv_Rail v \<and> in_AssetID i = pv_AssetID v)"

definition payment_moves :: "PaymentIntent \<Rightarrow> PaymentIntent \<Rightarrow> bool" where
  "payment_moves i i' \<longleftrightarrow>
     intent_terms i' = intent_terms i \<and> in_CreatedAt i' = in_CreatedAt i \<and>
     in_Version i' = in_Version i + 1 \<and> allowedTransition (in_Status i) (in_Status i') \<and>
     (in_ProviderReference i \<noteq> [] \<longrightarrow> in_ProviderReference i' = in_ProviderReference i)"

definition payment_change ::
  "(string, Provider) gomap \<Rightarrow> string \<Rightarrow> PaymentIntent option \<Rightarrow> PaymentIntent option \<Rightarrow> bool" where
  "payment_change providers pid x y \<longleftrightarrow>
     y = x \<or> (\<exists>i. x = None \<and> y = Some i \<and> payment_bound providers pid i) \<or>
     (\<exists>i i'. x = Some i \<and> y = Some i' \<and> payment_moves i i')"

definition providers_ok :: "(string, Provider) gomap \<Rightarrow> bool" where
  "providers_ok m \<longleftrightarrow> (\<forall>k v. mget m k = Some v \<longrightarrow> pv_ID v = k \<and> \<not> invalid_provider v)"

definition orchestrator_wf :: "('c, 'acc) Orchestrator \<Rightarrow> bool" where
  "orchestrator_wf o1 \<longleftrightarrow>
     providers_ok (or_providers o1) \<and>
     (\<forall>pid i. mget (or_payments o1) pid = Some i \<longrightarrow> payment_bound (or_providers o1) pid i)"

lemma orchestrator_wf_payment:
  "orchestrator_wf o1 \<Longrightarrow> mget (or_payments o1) pid = Some i \<Longrightarrow> in_PaymentID i = pid"
  by (auto simp: orchestrator_wf_def payment_bound_def)

lemma payment_moves_terms:
  "payment_moves i i' \<Longrightarrow> in_PaymentID i' = in_PaymentID i \<and> in_ProviderID i' = in_ProviderID i \<and>
     in_Rail i' = in_Rail i \<and> in_AssetID i' = in_AssetID i \<and> in_Units i' = in_Units i"
  by (auto simp: payment_moves_def intent_terms_def)

lemma payment_change_refl [simp]: "payment_change v pid x x"
  by (simp add: payment_change_def)

lemma payment_moves_bound: "payment_moves i i' \<Longrightarrow> payment_bound v pid i \<Longrightarrow> payment_bound v pid i'"
  using payment_moves_terms[of i i'] by (simp add: payment_bound_def payment_moves_def)

lemma payment_change_bound:
  assumes "payment_change v pid x (Some i')" "\<And>i. x = Some i \<Longrightarrow> payment_bound v pid i"
  shows "payment_bound v pid i'"
  using assms payment_moves_bound by (auto simp: payment_change_def)

lemma payment_moves_advanced:
  "allowedTransition (in_Status i) (cb_Status cb) \<Longrightarrow> payment_moves i (advanced i cb t)"
  by (simp add: payment_moves_def)

lemma payment_moves_resolution:
  "in_Status i = StatusFinal \<Longrightarrow> payment_moves i (reversed_by_resolution i t)"
  by (simp add: payment_moves_def reversed_by_resolution_def intent_terms_def)

lemma replayed_payment_moves:
  "replayed_payment r i = Some i' \<Longrightarrow> i' = i \<or> payment_moves i i'"
  by (cases "in_Status i") (auto simp: replayed_payment_def payment_moves_def intent_terms_def split: if_splits)

definition step_shape :: "('c, 'acc) Orchestrator \<Rightarrow> ('c, 'acc) Orchestrator \<Rightarrow> bool" where
  "step_shape o1 o2 \<longleftrightarrow>
     or_providers o2 = or_providers o1 \<and>
     (\<forall>pid. payment_change (or_providers o1) pid (mget (or_payments o1) pid) (mget (or_payments o2) pid))"

lemma shape_quiet: "quiet o1 o2 \<Longrightarrow> step_shape o1 o2"
  by (simp add: step_shape_def quiet_def)

lemma shape_same: "or_providers o2 = or_providers o1 \<Longrightarrow> or_payments o2 = or_payments o1 \<Longrightarrow> step_shape o1 o2"
  by (simp add: step_shape_def)

lemma shape_quiet_trans: "quiet o1 o2 \<Longrightarrow> step_shape o2 o3 \<Longrightarrow> step_shape o1 o3"
  by (simp add: step_shape_def quiet_def)

lemma shape_move:
  assumes "mget (or_payments o1) pid = Some i" "i' = i \<or> payment_moves i i'"
    "or_providers o2 = or_providers o1" "or_payments o2 = mput pid i' (or_payments o1)"
  shows "step_shape o1 o2"
  using assms by (auto simp: step_shape_def payment_change_def)

lemma CreateIntent_cases:
  assumes "CreateIntent env o1 i now = (r, o2)"
  obtains (same) "o2 = o1"
  | (created) v k h where "mget (or_payments o1) (in_PaymentID i) = None" "mget (or_providers o1) (in_ProviderID i) = Some v"
      "pv_Rail v = in_Rail i" "pv_AssetID v = in_AssetID i" "\<not> invalid_intent i now" "positive_units (in_Units i)"
      "o2 = o1\<lparr>or_payments := mput (in_PaymentID i) (created_intent i now) (or_payments o1),
              or_intentKeys := k, or_intentHashes := h\<rparr>"
proof (cases "invalid_intent i now \<or> \<not> positive_units (in_Units i)")
  case True
  with assms show thesis by (auto simp: CreateIntent_def intro: same)
next
  case valid: False
  note run = assms[unfolded CreateIntent_def if_not_P[OF valid] Let_def]
  show thesis
  proof (cases "mget (or_providers o1) (in_ProviderID i)")
    case (Some v)
    with run valid show thesis
      by (auto split: if_splits option.splits simp: mhas_def intro: same created)
  qed (use run in \<open>auto intro: same\<close>)
qed

lemma shape_create: "CreateIntent env o1 i now = (r, o2) \<Longrightarrow> step_shape o1 o2"
proof (erule CreateIntent_cases)
  fix v k h
  assume a: "mget (or_payments o1) (in_PaymentID i) = None" "mget (or_providers o1) (in_ProviderID i) = Some v"
      "pv_Rail v = in_Rail i" "pv_AssetID v = in_AssetID i" "\<not> invalid_intent i now" "positive_units (in_Units i)"
      "o2 = o1\<lparr>or_payments := mput (in_PaymentID i) (created_intent i now) (or_payments o1),
              or_intentKeys := k, or_intentHashes := h\<rparr>"
  have "in_Units i \<noteq> []" using a(6) by (auto simp: positive_units_def positiveInteger_def split: option.splits if_splits)
  with a show "step_shape o1 o2"
    by (auto simp: step_shape_def payment_change_def payment_bound_def created_intent_def invalid_intent_def)
qed (simp add: shape_same)

lemma RestorePayment_cases:
  assumes "RestorePayment o1 i = (err, o2)"
  obtains (same) "mget (or_payments o2) = mget (or_payments o1)" "or_accounting o2 = or_accounting o1"
      "or_canonical o2 = or_canonical o1" "or_providers o2 = or_providers o1"
      "\<And>k. mhas (or_events o1) k \<Longrightarrow> mhas (or_events o2) k" "or_pendingReversals o2 = or_pendingReversals o1"
  | (restored) v where "mget (or_payments o1) (in_PaymentID i) = None" "mget (or_providers o1) (in_ProviderID i) = Some v"
      "pv_Rail v = in_Rail i" "pv_AssetID v = in_AssetID i" "in_PaymentID i \<noteq> []" "in_Units i \<noteq> []" "in_CreatedAt i \<noteq> 0"
      "quiet (o1\<lparr>or_payments := mput (in_PaymentID i) i (or_payments o1)\<rparr>) o2"
      "or_pendingReversals o2 = or_pendingReversals o1" "err = None"
proof -
  let ?o = "o1\<lparr>or_payments := mput (in_PaymentID i) i (or_payments o1)\<rparr>"
  have pend: "or_pendingReversals o3 = or_pendingReversals o'"
    if "apply_consumptions pid j cs o' = (e, o3)" for pid j cs and o' o3 :: "('a, 'b) Orchestrator" and e
    using that by (induction cs arbitrary: o') (auto split: if_splits)
  obtain e o3 where a: "applyCanonicalConsumptionsLocked (in_PaymentID i) ?o = (e, o3)" by fastforce
  note q = applyCanonicalConsumptionsLocked_quiet[OF a]
  have p3: "or_pendingReversals o3 = or_pendingReversals o1"
    using a pend by (fastforce simp: applyCanonicalConsumptionsLocked_def split: option.splits)
  show thesis
  proof (cases "o2 = o1")
    case True
    then show thesis by (intro same) auto
  next
    case False
    with assms a obtain v where v: "mget (or_payments o1) (in_PaymentID i) = None"
      "mget (or_providers o1) (in_ProviderID i) = Some v"
      "pv_Rail v = in_Rail i" "pv_AssetID v = in_AssetID i" "in_PaymentID i \<noteq> []" "in_Units i \<noteq> []" "in_CreatedAt i \<noteq> 0"
      and r: "(case e of Some x \<Rightarrow> (Some x, o3\<lparr>or_payments := mdel (in_PaymentID i) (or_payments o3)\<rparr>)
                | None \<Rightarrow> (None, o3)) = (err, o2)"
      by (auto simp: RestorePayment_def split: if_splits option.splits)
    show thesis
    proof (cases e)
      case None
      with r q p3 v show thesis by (intro restored) auto
    next
      case (Some x)
      with r have o2: "o2 = o3\<lparr>or_payments := mdel (in_PaymentID i) (or_payments o3)\<rparr>" by simp
      with q v(1) p3 show thesis by (intro same) (auto simp: quiet_def fun_eq_iff)
    qed
  qed
qed

lemma RestorePayment_new:
  assumes "RestorePayment o1 i = (None, o2)" "mget (or_payments o1) (in_PaymentID i) = None"
  shows "mget (or_payments o2) (in_PaymentID i) = Some i" "or_accounting o2 = or_accounting o1"
proof -
  obtain e o3 where a: "applyCanonicalConsumptionsLocked (in_PaymentID i)
      (o1\<lparr>or_payments := mput (in_PaymentID i) i (or_payments o1)\<rparr>) = (e, o3)" by fastforce
  with assms have "o2 = o3" by (auto simp: RestorePayment_def split: if_splits option.splits)
  with quietD[OF applyCanonicalConsumptionsLocked_quiet[OF a]]
  show "mget (or_payments o2) (in_PaymentID i) = Some i" "or_accounting o2 = or_accounting o1" by simp_all
qed

lemma shape_restore: "RestorePayment o1 i = (err, o2) \<Longrightarrow> step_shape o1 o2"
proof (erule RestorePayment_cases)
  fix v
  assume a: "mget (or_payments o1) (in_PaymentID i) = None" "mget (or_providers o1) (in_ProviderID i) = Some v"
    "pv_Rail v = in_Rail i" "pv_AssetID v = in_AssetID i" "in_PaymentID i \<noteq> []" "in_Units i \<noteq> []" "in_CreatedAt i \<noteq> 0"
    "quiet (o1\<lparr>or_payments := mput (in_PaymentID i) i (or_payments o1)\<rparr>) o2"
  then show "step_shape o1 o2"
    by (auto simp: step_shape_def quiet_def payment_change_def payment_bound_def)
qed (simp add: step_shape_def)

lemma shape_ingest:
  assumes "IngestCallback env applyT co o1 pid eid raw sig t = (res, o2)" "orchestrator_wf o1"
  shows "step_shape o1 o2"
  using assms(1)
proof (cases rule: IngestCallback_cases)
  case quiet
  then show ?thesis by (rule shape_quiet)
next
  case (bound o3 ing v cb)
  have wf: "in_PaymentID i = k" if "mget (or_payments o3) k = Some i" for k i
    using that orchestrator_wf_payment[OF assms(2), of k] quietD(1)[OF bound(1)] by simp
  from bound(9) have "step_shape o3 o2"
  proof (cases rule: ingest_callback_cases)
    case quiet
    then show ?thesis by (rule shape_quiet)
  next
    case (reversal current)
    then have c: "mget (or_payments o3) (cb_PaymentID cb) = Some current" by (simp add: accepted_def)
    note move = payment_moves_advanced[of current cb t, unfolded reversal(2), OF reversal(3)]
    from reversal(5) refl show ?thesis
      by (cases rule: ingest_reversal_cases)
         (auto intro: shape_same shape_move[OF c, OF disjI2[OF move]] simp: wf[OF c])
  next
    case (status current)
    then have c: "mget (or_payments o3) (cb_PaymentID cb) = Some current"
      and ord: "cb_Status cb = in_Status current \<or> allowedTransition (in_Status current) (cb_Status cb)"
      by (simp_all add: accepted_def)
    from status(3) show ?thesis
    proof (cases rule: ingest_status_cases)
      case same
      then show ?thesis by (intro shape_quiet)
    next
      case (unbooked e)
      with ord have "payment_moves current (advanced current cb t)" by (intro payment_moves_advanced) simp
      with unbooked wf[OF c] show ?thesis by (intro shape_move[OF c]) auto
    next
      case (booked ids acc e)
      with ord have "payment_moves current (advanced current cb t)" by (intro payment_moves_advanced) simp
      with booked wf[OF c] show ?thesis by (intro shape_move[OF c]) auto
    qed (simp add: shape_same)
  qed
  with bound(1) show ?thesis by (rule shape_quiet_trans)
qed

lemma shape_resolve:
  assumes "ResolveCanonicalReversal applyT co o1 q = (res, o2)" "orchestrator_wf o1"
  shows "step_shape o1 o2"
  using assms(1)
proof (cases rule: ResolveCanonicalReversal_cases)
  case quiet
  then show ?thesis by (rule shape_quiet)
next
  case (replayed o3 r current "next")
  have pid: "in_PaymentID current = rr_PaymentID q"
    using orchestrator_wf_payment[OF assms(2)] quietD(1)[OF replayed(1)] replayed(3) by metis
  have "next = current \<or> payment_moves current next" by (rule replayed_payment_moves[OF replayed(4)])
  moreover from this have "in_PaymentID next = rr_PaymentID q" using pid payment_moves_terms[of current "next"] by auto
  ultimately have "step_shape o3 o2"
    by (intro shape_move[OF replayed(3)]) (auto simp: replayed(5) settle_reversal_def replayed_result_def)
  with replayed(1) show ?thesis by (rule shape_quiet_trans)
next
  case (pending o3 p current)
  have pid: "in_PaymentID current = rr_PaymentID q"
    using orchestrator_wf_payment[OF assms(2)] quietD(1)[OF pending(1)] pending(4) by metis
  from pending(7) refl refl have "step_shape o3 o2"
    by (cases rule: resolve_pending_cases)
       (auto intro: shape_same shape_move[OF pending(4) disjI2[OF payment_moves_resolution[OF pending(5)]]] simp: pid)
  with pending(1) show ?thesis by (rule shape_quiet_trans)
qed

lemma step_has_shape:
  "orchestrator_step env applyT co ok oa oc o1 o2 \<Longrightarrow> orchestrator_wf o1 \<Longrightarrow> step_shape o1 o2"
proof (induction rule: orchestrator_step.induct)
  case (step_ResolveQuarantine o1 qid rid h who t res'' o2)
  then show ?case by (intro shape_same) (auto simp: ResolveQuarantine_def Let_def split: if_splits)
qed (auto intro: shape_create shape_ingest shape_resolve shape_restore shape_same)

lemma shape_wf:
  assumes "step_shape o1 o2" "orchestrator_wf o1"
  shows "orchestrator_wf o2"
  unfolding orchestrator_wf_def
proof (intro conjI allI impI)
  fix pid i
  assume "mget (or_payments o2) pid = Some i"
  then have "payment_change (or_providers o1) pid (mget (or_payments o1) pid) (Some i)"
    using assms(1) unfolding step_shape_def by metis
  from payment_change_bound[OF this] assms show "payment_bound (or_providers o2) pid i"
    by (simp add: step_shape_def orchestrator_wf_def)
qed (use assms in \<open>auto simp: step_shape_def orchestrator_wf_def\<close>)

text \<open>The history of a payment: its terms stand, and its status only moves along the table.\<close>

definition payment_later :: "PaymentIntent \<Rightarrow> PaymentIntent \<Rightarrow> bool" where
  "payment_later i i' \<longleftrightarrow>
     intent_terms i' = intent_terms i \<and> in_CreatedAt i' = in_CreatedAt i \<and>
     allowedTransition\<^sup>*\<^sup>* (in_Status i) (in_Status i') \<and>
     (in_Status i' = in_Status i \<longrightarrow> i' = i) \<and>
     (in_ProviderReference i \<noteq> [] \<longrightarrow> in_ProviderReference i' = in_ProviderReference i)"

definition history :: "('c, 'acc) Orchestrator \<Rightarrow> ('c, 'acc) Orchestrator \<Rightarrow> bool" where
  "history o1 o2 \<longleftrightarrow>
     (\<forall>pid i. mget (or_payments o1) pid = Some i \<longrightarrow> (\<exists>i'. mget (or_payments o2) pid = Some i' \<and> payment_later i i'))"

lemma allowedTransitions_rank: "allowedTransition\<^sup>*\<^sup>* s u \<Longrightarrow> s = u \<or> status_rank s < status_rank u"
  by (induction rule: rtranclp_induct) (auto dest: allowedTransition_rank intro: less_trans)

lemma payment_later_refl [simp]: "payment_later i i"
  by (simp add: payment_later_def)

lemma payment_laterD:
  assumes "payment_later i j"
  shows "intent_terms j = intent_terms i" "in_CreatedAt j = in_CreatedAt i"
    "allowedTransition\<^sup>*\<^sup>* (in_Status i) (in_Status j)" "in_Status j = in_Status i \<Longrightarrow> j = i"
    "in_ProviderReference i \<noteq> [] \<Longrightarrow> in_ProviderReference j = in_ProviderReference i"
  using assms by (auto simp: payment_later_def)

lemma payment_later_trans:
  assumes ij: "payment_later i j" and jk: "payment_later j k"
  shows "payment_later i k"
  unfolding payment_later_def
proof (intro conjI impI)
  show "intent_terms k = intent_terms i" using payment_laterD(1)[OF ij] payment_laterD(1)[OF jk] by simp
  show "in_CreatedAt k = in_CreatedAt i" using payment_laterD(2)[OF ij] payment_laterD(2)[OF jk] by simp
  show "allowedTransition\<^sup>*\<^sup>* (in_Status i) (in_Status k)"
    by (rule rtranclp_trans[OF payment_laterD(3)[OF ij] payment_laterD(3)[OF jk]])
  show "in_ProviderReference k = in_ProviderReference i" if "in_ProviderReference i \<noteq> []"
    using payment_laterD(5)[OF ij that] payment_laterD(5)[OF jk] that by simp
  show "k = i" if e: "in_Status k = in_Status i"
  proof -
    have "in_Status i = in_Status j \<or> status_rank (in_Status i) < status_rank (in_Status j)"
      "in_Status j = in_Status k \<or> status_rank (in_Status j) < status_rank (in_Status k)"
      by (rule allowedTransitions_rank[OF payment_laterD(3)[OF ij]], rule allowedTransitions_rank[OF payment_laterD(3)[OF jk]])
    with e have s: "in_Status j = in_Status i" by (metis less_asym less_irrefl)
    with payment_laterD(4)[OF ij] payment_laterD(4)[OF jk] e show ?thesis by metis
  qed
qed

lemma payment_moves_later: "payment_moves i j \<Longrightarrow> payment_later i j"
  by (auto simp: payment_moves_def payment_later_def dest: allowedTransition_rank)

lemma shape_history: "step_shape o1 o2 \<Longrightarrow> history o1 o2"
  unfolding step_shape_def history_def payment_change_def
  by (metis option.inject option.distinct(1) payment_later_refl payment_moves_later)

text \<open>The orchestrator as it leaves its constructor, with or without reversals to resume.\<close>

definition orchestrator_start ::
  "('c, 'acc) Coordinator \<Rightarrow> ('c, 'acc) Orchestrator \<Rightarrow> bool" where
  "orchestrator_start co o1 \<longleftrightarrow> (\<exists>providers acc c. orchestrator_New co providers acc c = Inr o1)"

lemma providers_ok_mput: "providers_ok m \<Longrightarrow> \<not> invalid_provider v \<Longrightarrow> providers_ok (mput (pv_ID v) v m)"
  by (simp add: providers_ok_def)

lemma configure_providers_ok: "configure_providers vs m = Inr m' \<Longrightarrow> providers_ok m \<Longrightarrow> providers_ok m'"
  by (induction vs arbitrary: m) (auto split: if_splits intro: providers_ok_mput)

lemma restore_pending_keeps:
  "restore_pending rs o1 = Inr o2 \<Longrightarrow> or_providers o2 = or_providers o1 \<and> or_payments o2 = or_payments o1 \<and>
     or_accounting o2 = or_accounting o1 \<and> or_canonical o2 = or_canonical o1 \<and> or_events o2 = or_events o1"
  by (induction rs arbitrary: o1) (auto split: if_splits)

lemma orchestrator_New_ok:
  assumes "orchestrator_New co vs acc c = Inr o1"
  shows "or_payments o1 = []" "or_accounting o1 = acc" "or_canonical o1 = c" "orchestrator_wf o1"
    "co_PendingProviderReversals co c = [] \<Longrightarrow> mget (or_pendingReversals o1) q = None"
proof -
  from assms obtain m o0 where m: "configure_providers vs [] = Inr m" and r: "restore_pending (co_PendingProviderReversals co c)
          \<lparr>or_providers = m, or_payments = [], or_intentKeys = [], or_intentHashes = [], or_events = [],
           or_rawCallbacks = [], or_quarantines = [], or_canonicalIncidents = [], or_quarantineResolutions = [],
           or_pendingReversals = [], or_consumedReversals = [], or_accounting = acc,
           or_canonical = c\<rparr> = Inr o0"
    and x: "(case refreshCanonicalConsumptionsLocked co o0 of (Some e, _) \<Rightarrow> Inl e | (None, o'') \<Rightarrow> Inr o'') = Inr o1"
    by (auto simp: orchestrator_New_def split: if_splits)
  from x have f: "refreshCanonicalConsumptionsLocked co o0 = (None, o1)"
    by (cases "refreshCanonicalConsumptionsLocked co o0") (auto split: option.splits)
  note q = refresh_quiet[OF f] and k = restore_pending_keeps[OF r]
  show p: "or_payments o1 = []" "or_accounting o1 = acc" "or_canonical o1 = c" using quietD[OF q] k by simp_all
  show "orchestrator_wf o1"
    using quietD(4)[OF q] k p(1) configure_providers_ok[OF m] by (simp add: orchestrator_wf_def providers_ok_def)
  show "mget (or_pendingReversals o1) q = None" if "co_PendingProviderReversals co c = []"
    using q r that by (cases "mget (or_pendingReversals o1) q") (auto simp: quiet_def)
qed

interpretation payments: monotone_history "orchestrator_start co" "orchestrator_step env applyT co ok oa oc"
  orchestrator_wf history for env applyT co ok oa oc
proof (unfold_locales, goal_cases)
  case (1 s)
  then show ?case by (auto simp: orchestrator_start_def dest: orchestrator_New_ok(4))
next
  case (2 s t)
  then show ?case by (auto intro: shape_wf step_has_shape)
next
  case (3 s)
  then show ?case by (simp add: history_def)
next
  case (4 s t u)
  then show ?case unfolding history_def by (meson payment_later_trans)
next
  case (5 s t)
  then show ?case by (auto intro: shape_history step_has_shape)
qed

section \<open>Payments and books agree\<close>

text \<open>
  The coordinator's contract. A reversal that it lets through runs the commit callback, once, and
  succeeds with it; otherwise the callback did not run or failed. \<open>resolved\<close> is the set of payments it
  remembers a resolution of.
\<close>

locale canonical_coordinator =
  fixes co :: "('c, 'acc) Coordinator"
    and resolved :: "'c \<Rightarrow> string \<Rightarrow> bool"
    and cgood :: "'c \<Rightarrow> bool"
    and cinterfere :: "'c \<Rightarrow> 'c \<Rightarrow> bool"
  assumes handle: "cgood c \<Longrightarrow>
      co_HandleProviderReversal co c rec commit w = ((claim, d, err), c', w') \<Longrightarrow>
      cgood c' \<and> resolved c' = resolved c \<and>
      (if err = None \<and> d \<notin> {ReversalQuarantined, ReversalIncident} then commit w = (Inr (), w')
       else w' = w \<or> (\<exists>e. commit w = (Inl e, w'))) \<and>
      (err = None \<and> d = ReversalQuarantined \<longrightarrow> cl_PaymentID claim = rv_PaymentID rec)"
    and resolve_error: "cgood c \<Longrightarrow> co_ResolveProviderReversal co c rec fallback acc = (Inl x, c', acc') \<Longrightarrow>
      cgood c' \<and> resolved c' = resolved c \<and> (acc' = acc \<or> (\<exists>e. fallback acc = (Inl e, acc')))"
    and resolve_ok: "cgood c \<Longrightarrow> co_ResolveProviderReversal co c rec fallback acc = (Inr out, c', acc') \<Longrightarrow>
      cgood c' \<and> (\<exists>ids. fallback acc = (Inr ids, acc')) \<and>
      (\<forall>pid. resolved c' pid \<longrightarrow> resolved c pid \<or> pid = rv_PaymentID rec)"
    and replay: "co_ResolvedProviderReversal co c q = Inr (Some r) \<Longrightarrow> resolved c (rr_PaymentID q)"
    and other: "cgood c \<Longrightarrow> cinterfere c c' \<Longrightarrow> cgood c' \<and> resolved c' = resolved c"

text \<open>
  For every payment of a set \<open>W\<close> the books stand where its status says, and for every identifier that is no
  payment at zero. Nothing is said about payments outside \<open>W\<close>: those that \<open>RestorePayment\<close> was given.
\<close>

definition booked_as :: "Status \<Rightarrow> (string \<Rightarrow> string \<Rightarrow> int) \<Rightarrow> PaymentIntent option \<Rightarrow> bool" where
  "booked_as st bal x \<longleftrightarrow>
     (case x of
        None \<Rightarrow> st = NoStatus \<and> bal = (\<lambda>_ _. 0)
      | Some i \<Rightarrow> st = booked_status (in_Status i) \<and> bal = intent_position i)"

definition payments_booked ::
  "string set \<Rightarrow> (string \<Rightarrow> Status) \<Rightarrow> (string \<Rightarrow> string \<Rightarrow> string \<Rightarrow> int) \<Rightarrow> (string \<Rightarrow> PaymentIntent option) \<Rightarrow> bool" where
  "payments_booked W stage pos payments \<longleftrightarrow>
     (\<forall>pid. pid \<in> W \<or> payments pid = None \<longrightarrow> booked_as (stage pid) (pos pid) (payments pid))"

definition pending_ok ::
  "(string \<Rightarrow> bool) \<Rightarrow> (string, storedEvent) gomap \<Rightarrow> (string, PaymentIntent) gomap \<Rightarrow>
   (string, pendingCanonicalReversal) gomap \<Rightarrow> bool" where
  "pending_ok applied events payments pending \<longleftrightarrow>
     (\<forall>q p. mget pending q = Some p \<longrightarrow>
        mhas events (pr_eventKey p) \<and> \<not> applied (pr_eventKey p) \<and>
        pr_eventKey p = event_key (cb_ProviderID (pr_callback p)) (cb_ProviderEventID (pr_callback p)) \<and>
        (\<exists>i. mget payments (cl_PaymentID (pr_claim p)) = Some i \<and> in_ProviderID i = cb_ProviderID (pr_callback p)) \<and>
        (\<forall>q'. q' \<noteq> q \<longrightarrow> (\<forall>p'. mget pending q' = Some p' \<longrightarrow> pr_eventKey p' \<noteq> pr_eventKey p)))"

lemma payments_bookedD:
  "payments_booked W stage pos payments \<Longrightarrow> pid \<in> W \<or> payments pid = None \<Longrightarrow>
   booked_as (stage pid) (pos pid) (payments pid)"
  unfolding payments_booked_def by blast

lemma booked_as_Some [simp]:
  "booked_as st bal (Some i) \<longleftrightarrow> st = booked_status (in_Status i) \<and> bal = intent_position i"
  by (simp add: booked_as_def)

lemma booked_as_None [simp]: "booked_as st bal None \<longleftrightarrow> st = NoStatus \<and> bal = (\<lambda>_ _. 0)"
  by (simp add: booked_as_def)

lemma payments_booked_change:
  assumes "payments_booked W stage pos payments" "\<And>q. q \<noteq> pid \<Longrightarrow> stage' q = stage q \<and> pos' q = pos q"
    and "pid \<in> W \<Longrightarrow> booked_as (stage' pid) (pos' pid) (Some i)"
  shows "payments_booked W stage' pos' (payments(pid \<mapsto> i))"
  using assms by (auto simp: payments_booked_def)

lemmas payments_booked_same = payments_booked_change[where stage' = stage and stage = stage and pos' = pos and pos = pos
  for stage pos, OF _ conjI[OF refl refl]]

lemma pending_okD:
  assumes "pending_ok applied events payments pending" "mget pending q = Some p"
  shows "mhas events (pr_eventKey p)" "\<not> applied (pr_eventKey p)"
    "pr_eventKey p = event_key (cb_ProviderID (pr_callback p)) (cb_ProviderEventID (pr_callback p))"
    "\<exists>i. mget payments (cl_PaymentID (pr_claim p)) = Some i \<and> in_ProviderID i = cb_ProviderID (pr_callback p)"
    "q' \<noteq> q \<Longrightarrow> mget pending q' = Some p' \<Longrightarrow> pr_eventKey p' \<noteq> pr_eventKey p"
  using assms unfolding pending_ok_def by blast+

text \<open>Events are only added, payments keep their provider, pending reversals go.\<close>

lemma pending_ok_weaken:
  assumes ok: "pending_ok applied events payments pending"
    and "\<And>k. mhas events k \<Longrightarrow> mhas events' k"
    and "\<And>pid i. mget payments pid = Some i \<Longrightarrow> \<exists>i'. mget payments' pid = Some i' \<and> in_ProviderID i' = in_ProviderID i"
    and sub: "\<And>q p. mget pending' q = Some p \<Longrightarrow> mget pending q = Some p \<and> applied' (pr_eventKey p) = applied (pr_eventKey p)"
  shows "pending_ok applied' events' payments' pending'"
  unfolding pending_ok_def
proof (intro allI impI)
  fix q p
  assume p': "mget pending' q = Some p"
  then have p: "mget pending q = Some p" "applied' (pr_eventKey p) = applied (pr_eventKey p)" using sub by blast+
  note d = pending_okD[OF ok p(1)]
  from d(4) assms(3) obtain i where "mget payments' (cl_PaymentID (pr_claim p)) = Some i" "in_ProviderID i = cb_ProviderID (pr_callback p)"
    by metis
  moreover have "\<forall>q'. q' \<noteq> q \<longrightarrow> (\<forall>p'. mget pending' q' = Some p' \<longrightarrow> pr_eventKey p' \<noteq> pr_eventKey p)"
    using d(5) sub by blast
  ultimately show "mhas events' (pr_eventKey p) \<and> \<not> applied' (pr_eventKey p) \<and>
        pr_eventKey p = event_key (cb_ProviderID (pr_callback p)) (cb_ProviderEventID (pr_callback p)) \<and>
        (\<exists>i. mget payments' (cl_PaymentID (pr_claim p)) = Some i \<and> in_ProviderID i = cb_ProviderID (pr_callback p)) \<and>
        (\<forall>q'. q' \<noteq> q \<longrightarrow> (\<forall>p'. mget pending' q' = Some p' \<longrightarrow> pr_eventKey p' \<noteq> pr_eventKey p))"
    using d(1-3) p(2) assms(2) by blast
qed

lemma pending_ok_add:
  assumes ok: "pending_ok applied events payments pending" and new: "\<not> mhas events (pr_eventKey p)"
    and p: "\<not> applied (pr_eventKey p)"
    "pr_eventKey p = event_key (cb_ProviderID (pr_callback p)) (cb_ProviderEventID (pr_callback p))"
    "mget payments (cl_PaymentID (pr_claim p)) = Some i" "in_ProviderID i = cb_ProviderID (pr_callback p)"
  shows "pending_ok applied (mput (pr_eventKey p) e events) payments (mput q p pending)"
  unfolding pending_ok_def
proof (intro allI impI)
  fix q1 p1
  assume a: "mget (mput q p pending) q1 = Some p1"
  have other: "pr_eventKey p2 \<noteq> pr_eventKey p" if "mget pending q2 = Some p2" for q2 p2
    using pending_okD(1)[OF ok that] new by metis
  show "mhas (mput (pr_eventKey p) e events) (pr_eventKey p1) \<and> \<not> applied (pr_eventKey p1) \<and>
        pr_eventKey p1 = event_key (cb_ProviderID (pr_callback p1)) (cb_ProviderEventID (pr_callback p1)) \<and>
        (\<exists>i. mget payments (cl_PaymentID (pr_claim p1)) = Some i \<and> in_ProviderID i = cb_ProviderID (pr_callback p1)) \<and>
        (\<forall>q'. q' \<noteq> q1 \<longrightarrow> (\<forall>p'. mget (mput q p pending) q' = Some p' \<longrightarrow> pr_eventKey p' \<noteq> pr_eventKey p1))"
  proof (cases "q1 = q")
    case True
    with a p other show ?thesis by auto
  next
    case False
    with a have "mget pending q1 = Some p1" by simp
    from pending_okD[OF ok this] other[OF this] show ?thesis by (auto split: if_splits)
  qed
qed

definition books_ok ::
  "string set \<Rightarrow> ('acc \<Rightarrow> string \<Rightarrow> Status) \<Rightarrow> ('acc \<Rightarrow> string \<Rightarrow> string \<Rightarrow> string \<Rightarrow> int) \<Rightarrow> ('acc \<Rightarrow> string \<Rightarrow> bool) \<Rightarrow>
   ('acc \<Rightarrow> bool) \<Rightarrow> ('c \<Rightarrow> string \<Rightarrow> bool) \<Rightarrow> ('c \<Rightarrow> bool) \<Rightarrow> ('c, 'acc) Orchestrator \<Rightarrow> bool" where
  "books_ok W stage pos applied good resolved cgood o1 \<longleftrightarrow>
     orchestrator_wf o1 \<and> good (or_accounting o1) \<and> cgood (or_canonical o1) \<and>
     payments_booked W (stage (or_accounting o1)) (pos (or_accounting o1)) (mget (or_payments o1)) \<and>
     (\<forall>k. applied (or_accounting o1) k \<longrightarrow> mhas (or_events o1) k) \<and>
     pending_ok (applied (or_accounting o1)) (or_events o1) (or_payments o1) (or_pendingReversals o1) \<and>
     (\<forall>pid \<in> W. resolved (or_canonical o1) pid \<longrightarrow> stage (or_accounting o1) pid = StatusReversed)"

lemma books_okD:
  assumes "books_ok W stage pos applied good resolved cgood o1"
  shows "orchestrator_wf o1" "good (or_accounting o1)" "cgood (or_canonical o1)"
    "payments_booked W (stage (or_accounting o1)) (pos (or_accounting o1)) (mget (or_payments o1))"
    "applied (or_accounting o1) k \<Longrightarrow> mhas (or_events o1) k"
    "pending_ok (applied (or_accounting o1)) (or_events o1) (or_payments o1) (or_pendingReversals o1)"
    "resolved (or_canonical o1) pid \<Longrightarrow> pid \<in> W \<Longrightarrow> stage (or_accounting o1) pid = StatusReversed"
  using assms unfolding books_ok_def by blast+

lemma books_ok_quiet:
  assumes ok: "books_ok W stage pos applied good resolved cgood o1" and q: "quiet o1 o2"
  shows "books_ok W stage pos applied good resolved cgood o2"
proof -
  note d = books_okD[OF ok]
  have "orchestrator_wf o2" using shape_wf[OF shape_quiet[OF q] d(1)] .
  moreover have "pending_ok (applied (or_accounting o2)) (or_events o2) (or_payments o2) (or_pendingReversals o2)"
    by (rule pending_ok_weaken[OF d(6)]) (use q in \<open>auto simp: quiet_def\<close>)
  ultimately show ?thesis using d q unfolding books_ok_def quiet_def by auto
qed

locale payment_system =
  payment_accounting applyT stage pos applied good interfere + canonical_coordinator co resolved cgood cinterfere
  for applyT :: "'acc \<Rightarrow> PaymentTransition \<Rightarrow> ('e + string list) \<times> 'acc"
    and stage :: "'acc \<Rightarrow> string \<Rightarrow> Status"
    and pos :: "'acc \<Rightarrow> string \<Rightarrow> string \<Rightarrow> string \<Rightarrow> int"
    and applied :: "'acc \<Rightarrow> string \<Rightarrow> bool"
    and good :: "'acc \<Rightarrow> bool"
    and interfere :: "'acc \<Rightarrow> 'acc \<Rightarrow> bool"
    and co :: "('c, 'acc) Coordinator"
    and resolved :: "'c \<Rightarrow> string \<Rightarrow> bool"
    and cgood :: "'c \<Rightarrow> bool"
    and cinterfere :: "'c \<Rightarrow> 'c \<Rightarrow> bool"
begin

text \<open>A booked transition of one payment keeps payments and books together.\<close>

lemma booked_transition:
  assumes ok: "books_ok W stage pos applied good resolved cgood o1"
    and cur: "mget (or_payments o1) pid = Some current" and mv: "payment_moves current next"
    and t: "tr_Payment t = next" "tr_From t = in_Status current" "tr_To t = in_Status next"
    and key: "key = event_key (in_ProviderID current) (tr_ProviderEventID t)" "\<not> applied (or_accounting o1) key"
    and run: "applyT (or_accounting o1) t = (Inr ids, acc)"
  shows "good acc" "payments_booked W (stage acc) (pos acc) (mget (mput pid next (or_payments o1)))"
    "applied acc = (applied (or_accounting o1))(key := True)"
    "resolved (or_canonical o1) p \<Longrightarrow> p \<in> W \<Longrightarrow> stage acc p = StatusReversed"
proof -
  note d = books_okD[OF ok]
  have pid: "in_PaymentID current = pid" by (rule orchestrator_wf_payment[OF d(1) cur])
  note terms = payment_moves_terms[OF mv]
  have frame: "good acc" "applied acc = (applied (or_accounting o1))(key := True)"
    "\<And>q. q \<noteq> pid \<Longrightarrow> stage acc q = stage (or_accounting o1) q \<and> pos acc q = pos (or_accounting o1) q"
    using apply_frame[OF d(2) run] pid terms t key by simp_all
  have own: "stage (or_accounting o1) pid = booked_status (in_Status current) \<and>
      booked_as (stage acc pid) (pos acc pid) (Some next)" if "pid \<in> W"
  proof -
    have b: "stage (or_accounting o1) pid = booked_status (in_Status current)"
      "pos (or_accounting o1) pid = intent_position current"
      using payments_bookedD[OF d(4), of pid] that by (simp_all add: cur)
    have "intent_position (next\<lparr>in_Status := in_Status current\<rparr>) = intent_position current"
      using terms by (simp add: intent_position_def payment_units_def)
    with apply_ok[OF d(2) run] b pid terms t key show ?thesis
      by (simp add: intent_position_def payment_units_def)
  qed
  show "good acc" "applied acc = (applied (or_accounting o1))(key := True)" by (rule frame)+
  show "payments_booked W (stage acc) (pos acc) (mget (mput pid next (or_payments o1)))"
    using payments_booked_change[OF d(4) frame(3)] own by (simp add: mget_mput_fun)
  show "stage acc p = StatusReversed" if "resolved (or_canonical o1) p" "p \<in> W"
  proof (cases "p = pid")
    case True
    with d(7)[OF that] own that(2) have "in_Status current = StatusReversed"
      by (auto simp: booked_status_def split: if_splits)
    with mv show ?thesis by (simp add: payment_moves_def)
  qed (use d(7)[OF that] frame(3)[of p] in simp)
qed

text \<open>The state after such a transition, for an event that was new or pending.\<close>

lemma books_ok_transition:
  assumes ok: "books_ok W stage pos applied good resolved cgood o1"
    and cur: "mget (or_payments o1) pid = Some current" and mv: "payment_moves current next"
    and t: "tr_Payment t = next" "tr_From t = in_Status current" "tr_To t = in_Status next"
    and key: "key = event_key (in_ProviderID current) (tr_ProviderEventID t)" "\<not> applied (or_accounting o1) key"
    and run: "applyT (or_accounting o1) t = (Inr ids, acc)"
    and o2: "or_accounting o2 = acc" "or_payments o2 = mput pid next (or_payments o1)"
      "or_events o2 = mput key e (or_events o1)" "or_providers o2 = or_providers o1" "cgood (or_canonical o2)"
      "\<And>p. resolved (or_canonical o2) p \<Longrightarrow> resolved (or_canonical o1) p \<or> p = pid \<and> in_Status next = StatusReversed"
    and pend: "\<And>q p. mget (or_pendingReversals o2) q = Some p \<Longrightarrow>
       mget (or_pendingReversals o1) q = Some p \<and> pr_eventKey p \<noteq> key"
  shows "books_ok W stage pos applied good resolved cgood o2"
proof -
  note d = books_okD[OF ok] and b = booked_transition[OF ok cur mv t key run]
  have "orchestrator_wf o2" by (rule shape_wf[OF shape_move[OF cur disjI2[OF mv] o2(4,2)] d(1)])
  moreover have "pending_ok (applied acc) (or_events o2) (or_payments o2) (or_pendingReversals o2)"
    by (rule pending_ok_weaken[OF d(6)])
       (use o2 cur pend payment_moves_terms[OF mv] b(3) in \<open>auto split: if_splits\<close>)
  moreover have "stage acc p = StatusReversed" if "resolved (or_canonical o2) p" "p \<in> W" for p
    using o2(6)[OF that(1)] that(2) b(4)[of p] payments_bookedD[OF b(2), of pid]
    by (auto simp: booked_status_def accountingTransition_def)
  ultimately show ?thesis
    unfolding books_ok_def using b(1-3) o2 d(5) by (auto simp: o2 split: if_splits)
qed

text \<open>A transition that is not booked, between statuses the books do not know.\<close>

lemma books_ok_unbooked:
  assumes ok: "books_ok W stage pos applied good resolved cgood o1"
    and cur: "mget (or_payments o1) pid = Some current" and mv: "payment_moves current next"
    and "\<not> accountingTransition (in_Status next)"
    and o2: "or_accounting o2 = or_accounting o1" "or_payments o2 = mput pid next (or_payments o1)"
      "or_events o2 = mput key e (or_events o1)" "or_providers o2 = or_providers o1"
      "or_canonical o2 = or_canonical o1" "or_pendingReversals o2 = or_pendingReversals o1"
  shows "books_ok W stage pos applied good resolved cgood o2"
proof -
  note d = books_okD[OF ok]
  have na: "\<not> accountingTransition (in_Status current)"
    using mv assms(4) by (cases "in_Status current") (auto simp: payment_moves_def accountingTransition_def)
  have "intent_position next = intent_position current"
    using na assms(4)
    by (cases "in_Status current"; cases "in_Status next")
       (auto simp: intent_position_def booked_position_def accountingTransition_def fun_eq_iff)
  then have "booked_as (stage (or_accounting o1) pid) (pos (or_accounting o1) pid) (Some next)" if "pid \<in> W"
    using payments_bookedD[OF d(4), of pid] na assms(4) that by (simp add: cur booked_status_def)
  from payments_booked_same[OF d(4) this]
  have "payments_booked W (stage (or_accounting o2)) (pos (or_accounting o2)) (mget (or_payments o2))"
    by (simp add: o2 mget_mput_fun)
  moreover have "orchestrator_wf o2" by (rule shape_wf[OF shape_move[OF cur disjI2[OF mv] o2(4,2)] d(1)])
  moreover have "pending_ok (applied (or_accounting o2)) (or_events o2) (or_payments o2) (or_pendingReversals o2)"
    by (rule pending_ok_weaken[OF d(6)]) (use o2 cur payment_moves_terms[OF mv] in \<open>auto split: if_splits\<close>)
  ultimately show ?thesis unfolding books_ok_def using d(2,3,5,7) by (auto simp: o2)
qed

lemma books_ok_keep:
  assumes ok: "books_ok W stage pos applied good resolved cgood o1"
    and o2: "or_accounting o2 = or_accounting o1" "mget (or_payments o2) = mget (or_payments o1)"
      "or_providers o2 = or_providers o1" "cgood (or_canonical o2)"
      "resolved (or_canonical o2) = resolved (or_canonical o1)"
      "\<And>k. mhas (or_events o1) k \<Longrightarrow> mhas (or_events o2) k"
    and pend: "pending_ok (applied (or_accounting o1)) (or_events o2) (or_payments o1) (or_pendingReversals o2)"
  shows "books_ok W stage pos applied good resolved cgood o2"
proof -
  note d = books_okD[OF ok]
  have "orchestrator_wf o2" using d(1) o2 by (simp add: orchestrator_wf_def)
  moreover have "pending_ok (applied (or_accounting o1)) (or_events o2) (or_payments o2) (or_pendingReversals o2)"
    using pend by (simp only: pending_ok_def o2(2))
  ultimately show ?thesis unfolding books_ok_def using d(2,4,5,7) o2 by auto
qed

lemma pending_ok_events:
  assumes "pending_ok P events payments pending" "\<And>k. mhas events k \<Longrightarrow> mhas events' k"
  shows "pending_ok P events' payments pending"
  by (rule pending_ok_weaken[OF assms(1)]) (use assms(2) in auto)

lemma reversal_apply_error: "reversal_apply applyT t (acc, ids, b) = (Inl e, acc', x) \<Longrightarrow> acc' = acc"
  by (auto simp: reversal_apply_def split: prod.splits sum.splits dest: apply_error)

lemma reversal_apply_ok:
  "reversal_apply applyT t (acc, ids, b) = (Inr u, acc', ids', b') \<Longrightarrow> applyT acc t = (Inr ids', acc') \<and> b'"
  by (auto simp: reversal_apply_def split: prod.splits sum.splits)

lemma fallback_apply_error: "fallback_apply applyT t acc = (Inl e, acc') \<Longrightarrow> acc' = acc"
  by (auto simp: fallback_apply_def split: prod.splits sum.splits dest: apply_error)

lemma fallback_apply_ok: "fallback_apply applyT t acc = (Inr ids, acc') \<Longrightarrow> applyT acc t = (Inr ids, acc')"
  by (auto simp: fallback_apply_def split: prod.splits sum.splits)

lemma acceptedD:
  assumes ok: "books_ok W stage pos applied good resolved cgood o1" and acc: "accepted o1 v cb current t"
    and key: "key = event_key (cb_ProviderID cb) (cb_ProviderEventID cb)"
  shows "mget (or_payments o1) (cb_PaymentID cb) = Some current" "in_PaymentID current = cb_PaymentID cb"
    "in_ProviderID current = cb_ProviderID cb" "\<not> mhas (or_events o1) key" "\<not> applied (or_accounting o1) key"
    "mget (or_pendingReversals o1) q = Some p \<Longrightarrow> pr_eventKey p \<noteq> key"
    "cb_Status cb \<noteq> in_Status current \<Longrightarrow> payment_moves current (advanced current cb t)"
proof -
  note d = books_okD[OF ok]
  show c: "mget (or_payments o1) (cb_PaymentID cb) = Some current" using acc by (simp add: accepted_def)
  show "in_PaymentID current = cb_PaymentID cb" by (rule orchestrator_wf_payment[OF d(1) c])
  show "in_ProviderID current = cb_ProviderID cb" using acc by (simp add: accepted_def unbound_payment_def)
  show n: "\<not> mhas (or_events o1) key" using acc by (simp add: accepted_def mhas_def key)
  then show "\<not> applied (or_accounting o1) key" using d(5) by blast
  show "pr_eventKey p \<noteq> key" if "mget (or_pendingReversals o1) q = Some p"
    using pending_okD(1)[OF d(6) that] n by metis
  show "cb_Status cb \<noteq> in_Status current \<Longrightarrow> payment_moves current (advanced current cb t)"
    using acc by (intro payment_moves_advanced) (simp add: accepted_def)
qed

lemma books_ok_ingest_status:
  assumes ok: "books_ok W stage pos applied good resolved cgood o1" and acc: "accepted o1 v cb current t"
    and run: "ingest_status applyT o1 cb current rawHash t = (res, o2)"
  shows "books_ok W stage pos applied good resolved cgood o2"
  using run
proof (cases rule: ingest_status_cases)
  case same
  with ok show ?thesis by (rule_tac books_ok_quiet)
next
  case (unbooked e)
  note a = acceptedD[OF ok acc refl]
  show ?thesis
    by (rule books_ok_unbooked[OF ok a(1) a(7)[OF unbooked(1)]]) (use unbooked a(2) in simp_all)
next
  case (failed x acc')
  with apply_error have "acc' = or_accounting o1" by blast
  with failed(4) ok show ?thesis by simp
next
  case (booked ids acc' e)
  note a = acceptedD[OF ok acc refl]
  show ?thesis
    by (rule books_ok_transition[OF ok a(1) a(7)[OF booked(1)] _ _ _ _ a(5) booked(3)])
       (use booked a books_okD(3)[OF ok] in \<open>simp_all add: callback_transition_def\<close>)
qed

lemma books_ok_ingest_reversal:
  assumes ok: "books_ok W stage pos applied good resolved cgood o1" and acc: "accepted o1 v cb current t"
    and st: "cb_Status cb = StatusReversed" "allowedTransition (in_Status current) StatusReversed"
    and run: "ingest_reversal applyT co o1 ing cb current rawHash sigHash t = (res, o2)"
  shows "books_ok W stage pos applied good resolved cgood o2"
proof -
  note a = acceptedD[OF ok acc refl] and d = books_okD[OF ok]
  have ne: "cb_Status cb \<noteq> in_Status current" using st by (cases "in_Status current") auto
  note h = handle[OF d(3)]
  from run refl show ?thesis
  proof (cases rule: ingest_reversal_cases)
    case (refused claim dp err c acc' ids committed)
    have "acc' = or_accounting o1"
      using h[OF refused(1)] refused(2) by (auto split: if_splits dest: reversal_apply_error reversal_apply_ok)
    with refused h[OF refused(1)] d(6) show ?thesis by (intro books_ok_keep[OF ok]) auto
  next
    case (quarantined claim c acc' ids committed e q)
    note k = h[OF quarantined(1)]
    have acc': "acc' = or_accounting o1" using k by (auto split: if_splits dest: reversal_apply_error)
    let ?p = "\<lparr>pr_eventKey = event_key (cb_ProviderID cb) (cb_ProviderEventID cb), pr_ingressID = ing, pr_callback = cb,
      pr_rawHash = rawHash, pr_signatureHash = sigHash, pr_receivedAt = t, pr_claim = claim\<rparr>"
    have "cl_PaymentID claim = cb_PaymentID cb" using k by (simp add: reversal_record_def)
    then have "pending_ok (applied (or_accounting o1)) (mput (pr_eventKey ?p) e (or_events o1)) (or_payments o1)
        (mput (qu_QuarantineID q) ?p (or_pendingReversals o1))"
      by (intro pending_ok_add[OF d(6), where i = current]) (use a in simp_all)
    with quarantined acc' k show ?thesis by (intro books_ok_keep[OF ok]) simp_all
  next
    case (incident claim c acc' ids committed e inc)
    note k = h[OF incident(1)]
    have acc': "acc' = or_accounting o1" using k by (auto split: if_splits dest: reversal_apply_error)
    with incident k show ?thesis
      by (intro books_ok_keep[OF ok]) (auto intro!: pending_ok_events[OF d(6)])
  next
    case (reversed claim dp c acc' ids e)
    note k = h[OF reversed(1)]
    have ap: "applyT (or_accounting o1) (callback_transition current (advanced current cb t) cb t) = (Inr ids, acc')"
      using k reversed(2) reversal_apply_ok by (simp split: if_splits) blast
    show ?thesis
      by (rule books_ok_transition[OF ok a(1) a(7)[OF ne] _ _ _ _ a(5) ap])
         (use reversed(3) a k st in \<open>simp_all add: callback_transition_def\<close>)
  qed
qed

lemma books_ok_ingest:
  assumes ok: "books_ok W stage pos applied good resolved cgood o1"
    and run: "IngestCallback env applyT co o1 pid eid raw sig t = (res, o2)"
  shows "books_ok W stage pos applied good resolved cgood o2"
  using run
proof (cases rule: IngestCallback_cases)
  case quiet
  with ok show ?thesis by (rule_tac books_ok_quiet)
next
  case (bound o3 ing v cb)
  have ok3: "books_ok W stage pos applied good resolved cgood o3" by (rule books_ok_quiet[OF ok bound(1)])
  from bound(9) show ?thesis
  proof (cases rule: ingest_callback_cases)
    case quiet
    with ok3 show ?thesis by (rule_tac books_ok_quiet)
  next
    case (reversal current)
    then show ?thesis by (intro books_ok_ingest_reversal[OF ok3 reversal(1,2,3,5)])
  next
    case (status current)
    then show ?thesis by (intro books_ok_ingest_status[OF ok3 status(1,3)])
  qed
qed

lemma books_ok_resolve:
  assumes ok: "books_ok W stage pos applied good resolved cgood o1"
    and run: "ResolveCanonicalReversal applyT co o1 q = (res, o2)"
  shows "books_ok W stage pos applied good resolved cgood o2"
  using run
proof (cases rule: ResolveCanonicalReversal_cases)
  case quiet
  with ok show ?thesis by (rule_tac books_ok_quiet)
next
  case (replayed o3 r current "next")
  have ok3: "books_ok W stage pos applied good resolved cgood o3" by (rule books_ok_quiet[OF ok replayed(1)])
  note d = books_okD[OF ok3]
  have wf: "orchestrator_wf o2" by (rule shape_wf[OF shape_resolve[OF run books_okD(1)[OF ok]] books_okD(1)[OF ok]])
  have same: "next = current" if "rr_PaymentID q \<in> W"
  proof -
    have "booked_status (in_Status current) = StatusReversed"
      using d(7)[OF replay[OF replayed(2)] that] payments_bookedD[OF d(4), of "rr_PaymentID q"] that
      by (simp add: replayed(3))
    then have "in_Status current = StatusReversed" by (auto simp: booked_status_def split: if_splits)
    with replayed(4) show ?thesis by (auto simp: replayed_payment_def split: if_splits)
  qed
  have pid: "in_PaymentID next = rr_PaymentID q" "in_ProviderID next = in_ProviderID current"
    using orchestrator_wf_payment[OF d(1) replayed(3)] replayed_payment_moves[OF replayed(4)]
      payment_moves_terms[of current "next"] by auto
  have o2: "mget (or_payments o2) = (mget (or_payments o3))(rr_PaymentID q \<mapsto> next)" "or_accounting o2 = or_accounting o3"
    "or_canonical o2 = or_canonical o3"
    by (simp_all add: replayed(5) settle_reversal_def replayed_result_def mget_mput_fun pid(1))
  have "payments_booked W (stage (or_accounting o2)) (pos (or_accounting o2)) (mget (or_payments o2))"
    unfolding o2 using same payments_bookedD[OF d(4), of "rr_PaymentID q"] replayed(3)
    by (intro payments_booked_same[OF d(4)]) auto
  moreover have "pending_ok (applied (or_accounting o2)) (or_events o2) (or_payments o2) (or_pendingReversals o2)"
    by (rule pending_ok_weaken[OF d(6)])
       (use o2 replayed(3) pid in \<open>auto simp: replayed(5) settle_reversal_def split: if_splits\<close>)
  ultimately show ?thesis
    unfolding books_ok_def using wf d(2,3,5,7) by (auto simp: o2) (auto simp: replayed(5) settle_reversal_def)
next
  case (pending o3 p current)
  have ok3: "books_ok W stage pos applied good resolved cgood o3" by (rule books_ok_quiet[OF ok pending(1)])
  note d = books_okD[OF ok3] and pd = pending_okD[OF books_okD(6)[OF ok3] pending(2)]
  have pid: "in_PaymentID current = rr_PaymentID q" by (rule orchestrator_wf_payment[OF d(1) pending(4)])
  have "cl_PaymentID (pr_claim p) = rr_PaymentID q" using pending(3) by (simp add: mismatched_pending_def)
  with pd(4) pending(4) have pv: "in_ProviderID current = cb_ProviderID (pr_callback p)" by simp
  from pending(7) refl refl show ?thesis
  proof (cases rule: resolve_pending_cases)
    case (failed x c acc)
    note e = resolve_error[OF d(3) failed(1)]
    then have "acc = or_accounting o3" by (auto dest: fallback_apply_error)
    with failed(2) e d(6) show ?thesis by (intro books_ok_keep[OF ok3]) simp_all
  next
    case (settled out c acc e r)
    note k = resolve_ok[OF d(3) settled(1)]
    then obtain ids where "fallback_apply applyT (callback_transition current (reversed_by_resolution current (rr_ResolvedAt q))
        ((pr_callback p)\<lparr>cb_Status := StatusReversed\<rparr>) (pr_receivedAt p)) (or_accounting o3) = (Inr ids, acc)" by blast
    note ap = fallback_apply_ok[OF this]
    show ?thesis
      by (rule books_ok_transition[OF ok3 pending(4) payment_moves_resolution[OF pending(5)] _ _ _ _ pd(2) ap])
         (use settled(2) k pd(3) pv pid in \<open>auto simp: callback_transition_def reversed_by_resolution_def
             resolution_record_def Let_def split: if_splits dest: pd(5)[rotated]\<close>)
  qed
qed

text \<open>A new payment whose books are where its status says.\<close>

lemma books_ok_new:
  assumes ok: "books_ok W stage pos applied good resolved cgood o1"
    and new: "mget (or_payments o1) pid = None"
      "pid \<in> W \<Longrightarrow> booked_as (stage (or_accounting o1) pid) (pos (or_accounting o1) pid) (Some i)"
    and shape: "step_shape o1 o2"
    and o2: "or_accounting o2 = or_accounting o1" "or_payments o2 = mput pid i (or_payments o1)"
      "or_events o2 = or_events o1" "or_providers o2 = or_providers o1"
      "or_canonical o2 = or_canonical o1" "or_pendingReversals o2 = or_pendingReversals o1"
  shows "books_ok W stage pos applied good resolved cgood o2"
proof -
  note d = books_okD[OF ok]
  have "pending_ok (applied (or_accounting o2)) (or_events o2) (or_payments o2) (or_pendingReversals o2)"
    by (rule pending_ok_weaken[OF d(6)]) (use o2 new in \<open>auto split: if_splits\<close>)
  moreover have "payments_booked W (stage (or_accounting o2)) (pos (or_accounting o2)) (mget (or_payments o2))"
    using payments_booked_same[OF d(4), where i = i and pid = pid] new(2) by (simp add: o2 mget_mput_fun)
  ultimately show ?thesis unfolding books_ok_def using shape_wf[OF shape d(1)] d(2,3,5,7) by (auto simp: o2)
qed

lemma books_ok_create:
  assumes ok: "books_ok W stage pos applied good resolved cgood o1" and run: "CreateIntent env o1 i now = (r, o2)"
  shows "books_ok W stage pos applied good resolved cgood o2"
  using run
proof (cases rule: CreateIntent_cases)
  case (created v k h)
  have "booked_as (stage (or_accounting o1) (in_PaymentID i)) (pos (or_accounting o1) (in_PaymentID i))
      (Some (created_intent i now))"
    using payments_bookedD[OF books_okD(4)[OF ok], of "in_PaymentID i"] created(1)
    by (simp add: created_intent_def booked_status_def accountingTransition_def intent_position_def booked_position_def
        fun_eq_iff)
  from books_ok_new[OF ok created(1) this shape_create[OF run]] created(7) show ?thesis by simp
qed (use ok in simp)

lemma books_ok_restore:
  assumes ok: "books_ok W stage pos applied good resolved cgood o1" and run: "RestorePayment o1 i = (err, o2)"
    and bk: "mget (or_payments o1) (in_PaymentID i) = None \<Longrightarrow> err = None \<Longrightarrow> in_PaymentID i \<in> W \<Longrightarrow>
      booked_as (stage (or_accounting o1) (in_PaymentID i)) (pos (or_accounting o1) (in_PaymentID i)) (Some i)"
  shows "books_ok W stage pos applied good resolved cgood o2"
  using run
proof (cases rule: RestorePayment_cases)
  case same
  with books_okD(3)[OF ok] show ?thesis
    by (intro books_ok_keep[OF ok]) (auto intro: pending_ok_events[OF books_okD(6)[OF ok]])
next
  case (restored v)
  let ?o = "o1\<lparr>or_payments := mput (in_PaymentID i) i (or_payments o1)\<rparr>"
  have "step_shape o1 ?o"
    using restored(1-7) by (auto simp: step_shape_def payment_change_def payment_bound_def)
  from books_ok_quiet[OF books_ok_new[OF ok restored(1) bk[OF restored(1,10)] this] restored(8)] show ?thesis by simp
qed

text \<open>Every step, with any payment given to \<open>RestorePayment\<close> as long as it is outside \<open>W\<close> or its books agree.\<close>

lemma books_ok_step:
  assumes "orchestrator_step env applyT co ok interfere cinterfere o1 o2" "books_ok W stage pos applied good resolved cgood o1"
    and "\<And>i. RestorePayment o1 i = (None, o2) \<Longrightarrow> mget (or_payments o1) (in_PaymentID i) = None \<Longrightarrow> in_PaymentID i \<in> W \<Longrightarrow>
      booked_as (stage (or_accounting o1) (in_PaymentID i)) (pos (or_accounting o1) (in_PaymentID i)) (Some i)"
  shows "books_ok W stage pos applied good resolved cgood o2"
  using assms
proof (induction rule: orchestrator_step.induct)
  case (step_ResolveQuarantine o1 qid rid h who t res'' o2)
  then have "quiet o1 o2" by (auto simp: ResolveQuarantine_def Let_def quiet_def split: if_splits)
  with step_ResolveQuarantine show ?case by (rule_tac books_ok_quiet)
next
  case (step_books o1 acc)
  note d = books_okD[OF step_books(2)] and k = interfere_ok[OF books_okD(2)[OF step_books(2)] step_books(1)]
  from d k show ?case by (simp add: books_ok_def orchestrator_wf_def)
next
  case (step_coordinator o1 c)
  note d = books_okD[OF step_coordinator(2)] and k = other[OF books_okD(3)[OF step_coordinator(2)] step_coordinator(1)]
  with step_coordinator(2) d(6) show ?case by (intro books_ok_keep[OF step_coordinator(2)]) simp_all
qed (blast intro: books_ok_create books_ok_ingest books_ok_resolve books_ok_restore)+

end

section \<open>The local coordinator meets the contract\<close>

definition local_other ::
  "('st \<Rightarrow> Claim \<Rightarrow> (mode_error + bool) \<times> 'st) \<Rightarrow>
   ('st \<Rightarrow> Claim \<Rightarrow> 'w commit \<Rightarrow> 'w \<Rightarrow> (mode_error + unit) \<times> 'st \<times> 'w) \<Rightarrow> 'st Registry \<Rightarrow> 'st Registry \<Rightarrow> bool" where
  "local_other cs cc r r' \<longleftrightarrow> (\<exists>w w'. registry_step cs cc (r, w) (r', w'))"

lemma local_handle:
  assumes inv: "registry_inv r"
    and run: "local_HandleProviderReversal r rec commit w = ((claim, d, err), r', w')"
  shows "registry_inv r'"
    "if err = None \<and> d \<notin> {ReversalQuarantined, ReversalIncident} then commit w = (Inr (), w')
     else w' = w \<or> (\<exists>e. commit w = (Inl e, w'))"
    "err = None \<Longrightarrow> d = ReversalQuarantined \<Longrightarrow> cl_PaymentID claim = rv_PaymentID rec"
proof -
  let ?f = "\<lambda>_ disposition _ w'. if disposition \<in> {ReversalUnclaimed, ReversalSynthetic, ReversalReleased}
      then commit w' else (Inr (), w')"
  note run' = run[unfolded local_HandleProviderReversal_def]
  have "registry_step cs cc (r, w) (r', w')" for cs :: "'a \<Rightarrow> Claim \<Rightarrow> (mode_error + bool) \<times> 'a" and cc
    using run' by (intro step_op step_HandleReversal)
  from registry_step_keeps[OF this] inv show "registry_inv r'" by fastforce
  have rc: "reversal_commit (Some ?f) c dp b w =
      (if dp \<in> {ReversalQuarantined, ReversalIncident} then (None, w)
       else (case commit w of (Inl e, w') \<Rightarrow> (Some ErrResolutionFailed, w') | (Inr u, w') \<Rightarrow> (None, w')))" for c dp b
    by (cases dp) (auto simp: reversal_commit_def split: prod.splits sum.splits)
  show "if err = None \<and> d \<notin> {ReversalQuarantined, ReversalIncident} then commit w = (Inr (), w')
     else w' = w \<or> (\<exists>e. commit w = (Inl e, w'))"
    using run' unfolding HandleReversalWithCommit_def rc
    by (auto split: if_splits option.splits prod.splits sum.splits)
  show "cl_PaymentID claim = rv_PaymentID rec" if "err = None" "d = ReversalQuarantined"
    using run' registry_inv_payment[OF inv, of "rv_PaymentID rec"] that unfolding HandleReversalWithCommit_def rc
    by (auto split: if_splits option.splits prod.splits sum.splits)
qed

lemma ResolveQuarantinedReversal_world:
  assumes "ResolveQuarantinedReversal r c (Some f) w = (q, r', w')"
  shows "q = Inl x \<Longrightarrow> w' = w \<or> (\<exists>e. f w = (Inl e, w'))" "q = Inr u \<Longrightarrow> f w = (Inr (), w')"
  using assms unfolding ResolveQuarantinedReversal_def
  by (auto split: if_splits option.splits prod.splits sum.splits)

lemma local_resolve:
  assumes "local_ResolveProviderReversal r rec fallback w = (res, r', w')" "registry_inv r"
  shows "registry_inv r'" "res = Inl x \<Longrightarrow> w' = w \<or> (\<exists>e. fallback w = (Inl e, w'))"
    "res = Inr out \<Longrightarrow> \<exists>ids. fallback w = (Inr ids, w')"
proof -
  define f where "f = (\<lambda>(w', result). case fallback w' of
                  (Inl e, w'') \<Rightarrow> (Inl e, w'', result)
                | (Inr ids, w'') \<Rightarrow>
                    (Inr (), w'', \<lparr>cs_JournalIDs = ids,
                       cs_FailureEvidenceHash =
                         (if tf_EvidenceHash (rv_FailureProof rec) = [] then rv_CallbackEvidenceHash rec
                          else tf_EvidenceHash (rv_FailureProof rec))\<rparr>))"
  define c where "c = zero_claim\<lparr>cl_PaymentID := rv_PaymentID rec, cl_AllocationID := rv_AllocationID rec,
                cl_Mode := ModeCanonicalGateway, cl_Digest := rv_InstructionDigest rec,
                cl_State := CanonicalQuarantined\<rparr>"
  define z where "z = \<lparr>cs_JournalIDs = [], cs_FailureEvidenceHash = []\<rparr>"
  obtain q r1 w1 out1 where call: "ResolveQuarantinedReversal r c (Some f) (w, z) = (q, r1, w1, out1)"
    by (cases "ResolveQuarantinedReversal r c (Some f) (w, z)") auto
  note run = assms(1)[unfolded local_ResolveProviderReversal_def, folded f_def c_def z_def, unfolded call prod.case]
  have f: "f (w, z) = (Inl e, v, y) \<Longrightarrow> \<exists>e. fallback w = (Inl e, v)"
    "f (w, z) = (Inr u, v, y) \<Longrightarrow> \<exists>ids. fallback w = (Inr ids, v)" for e u v y
    by (auto simp: f_def split: prod.splits sum.splits)
  from run have r1: "r' = r1" "w' = w1" by (cases q; simp)+
  from ResolveQuarantinedReversal_cases[OF call] assms(2) show "registry_inv r'"
    unfolding r1 by (auto intro: set_state_inv)
  note world = ResolveQuarantinedReversal_world[OF call]
  show "w' = w \<or> (\<exists>e. fallback w = (Inl e, w'))" if err: "res = Inl x"
  proof -
    obtain e where "q = Inl e" using run err by (cases q) auto
    from world(1)[OF this] f(1) show ?thesis unfolding r1 by blast
  qed
  show "\<exists>ids. fallback w = (Inr ids, w')" if "res = Inr out"
  proof -
    have "q = Inr ()" using run that by (cases q) auto
    from f(2)[OF world(2)[OF this]] show ?thesis unfolding r1 .
  qed
qed

interpretation local_co: canonical_coordinator local_coordinator "\<lambda>_ _. False" registry_inv "local_other cs cc"
  for cs cc
proof (unfold_locales, goal_cases)
  case (1 c rec commit w claim d err c' w')
  then have "local_HandleProviderReversal c rec commit w = ((claim, d, err), c', w')" by (simp add: local_coordinator_def)
  from local_handle[OF 1(1) this] show ?case by blast
next
  case (2 c rec fallback acc x c' acc')
  then have "local_ResolveProviderReversal c rec fallback acc = (Inl x, c', acc')" by (simp add: local_coordinator_def)
  from local_resolve(1,2)[OF this 2(1)] show ?case by blast
next
  case (3 c rec fallback acc out c' acc')
  then have "local_ResolveProviderReversal c rec fallback acc = (Inr out, c', acc')" by (simp add: local_coordinator_def)
  from local_resolve(1,3)[OF this 3(1)] show ?case by blast
next
  case (4 c q r)
  then show ?case by (simp add: local_coordinator_def)
next
  case (5 c c')
  then show ?case using registry_step_keeps by (fastforce simp: local_other_def)
qed

interpretation desk: payment_system "pay_apply H hashT" "\<lambda>acc. pay_stage (fst acc)" "\<lambda>acc. pay_position (fst acc)"
  pay_applied "\<lambda>acc. payment_poster_inv H (fst acc)" "pay_interfere H" local_coordinator "\<lambda>_ _. False" registry_inv
  "local_other cs cc" for H hashT cs cc
  by unfold_locales

end
