(* ===== verification/Payment_Desk.thy ===== *)
theory Payment_Desk
  imports Payment_Books
begin

text \<open>
  The payment desk: the orchestrator with the poster of \<open>Payment_Accounting\<close> as its accounting and the
  local coordinator over the allocation-mode registry, and the properties of the whole.
\<close>

section \<open>The payment desk: poster, local coordinator and orchestrator together\<close>

text \<open>
  The steps of the desk: every operation of the orchestrator with any arguments, \<open>RestorePayment\<close> with any
  payment included, while other services post to the ledger and move the registry. The comment of
  \<^verbatim>\<open>local_reversal_coordinator.go\<close> calls the local coordinator an explicit test-only adapter that must not
  be used as runtime wiring; the desk is the composition with it. \<open>Payment_Books\<close> proves the steps for
  every coordinator that meets the locale \<open>canonical_coordinator\<close>.
\<close>

abbreviation desk_step ::
  "PaymentEnv \<Rightarrow> journal_hash \<Rightarrow> (PaymentTransition \<Rightarrow> string) \<Rightarrow>
   ('st \<Rightarrow> Claim \<Rightarrow> (mode_error + bool) \<times> 'st) \<Rightarrow>
   ('st \<Rightarrow> Claim \<Rightarrow> 'w commit \<Rightarrow> 'w \<Rightarrow> (mode_error + unit) \<times> 'st \<times> 'w) \<Rightarrow>
   ('st Registry, pay_state) Orchestrator \<Rightarrow> ('st Registry, pay_state) Orchestrator \<Rightarrow> bool" where
  "desk_step env H hashT cs cc \<equiv>
     orchestrator_step env (pay_apply H hashT) local_coordinator (\<lambda>_ _. True) (pay_interfere H) (local_other cs cc)"

text \<open>A new orchestrator, on a ledger that holds no payment journal yet.\<close>

definition desk_start :: "journal_hash \<Rightarrow> ('st Registry, pay_state) Orchestrator \<Rightarrow> bool" where
  "desk_start H o1 \<longleftrightarrow>
     (\<exists>providers book entity bookID p now modes.
        orchestrator_New local_coordinator providers (p, now) modes = Inr o1 \<and>
        payment_poster_New book entity bookID = Inr p \<and> ledger_inv H book \<and> registry_inv modes \<and>
        (\<forall>i q. mget (l_byID book) i = Some q \<longrightarrow> foreign_journal p (p_Journal q)))"

lemma new_poster_unbooked:
  assumes p: "payment_poster_New book entity bookID = Inr p" and L: "ledger_inv H book"
    and f: "\<And>i q. mget (l_byID book) i = Some q \<Longrightarrow> foreign_journal p (p_Journal q)"
  shows "payment_poster_inv H p" "s \<in> set stage_names \<Longrightarrow> on_file p pid s = None" "pp_events p = []"
proof -
  from p have pe: "p = \<lparr>pp_book = book, pp_legalEntityID = entity, pp_bookID = bookID, pp_records = [], pp_events = []\<rparr>"
    by (simp add: payment_poster_New_def split: if_splits)
  have of: "on_file p pid s = None" if "s \<in> set stage_names" for pid s
  proof (rule ccontr)
    assume "on_file p pid s \<noteq> None"
    then obtain q where q: "mget (l_byID book) (pay_id pid s) = Some q" by (auto simp: on_file_def pe)
    with f[OF q] ledger_inv_byID[OF L q] that show False by (auto simp: foreign_journal_def)
  qed
  then show "s \<in> set stage_names \<Longrightarrow> on_file p pid s = None" by simp
  have "scopes_ok p"
    unfolding scopes_ok_def
  proof (intro allI impI, elim conjE)
    fix i q pid s
    assume a: "mget (l_byID (pp_book p)) i = Some q" "s \<in> set stage_names"
      "idempotency_scope (p_Journal q) = pay_scope p (pay_id pid s)"
    then have "foreign_journal p (p_Journal q)" using f by (simp add: pe)
    with a show "i = pay_id pid s" by (auto simp: foreign_journal_def)
  qed
  moreover have "record_ok p pid" for pid using of by (simp add: record_ok_def pe zero_record_def)
  ultimately show "payment_poster_inv H p" using L by (simp add: payment_poster_inv_def pe)
  show "pp_events p = []" by (simp add: pe)
qed

abbreviation desk_books :: "string set \<Rightarrow> journal_hash \<Rightarrow> ('st Registry, pay_state) Orchestrator \<Rightarrow> bool" where
  "desk_books W H \<equiv> books_ok W (\<lambda>acc. pay_stage (fst acc)) (\<lambda>acc. pay_position (fst acc)) pay_applied
     (\<lambda>acc. payment_poster_inv H (fst acc)) (\<lambda>_ _. False) registry_inv"

lemma desk_start_books: "desk_start H o1 \<Longrightarrow> desk_books W H o1"
proof -
  assume "desk_start H o1"
  then obtain providers book entity bookID p now modes where
    n: "orchestrator_New local_coordinator providers (p, now) modes = Inr o1"
    and p: "payment_poster_New book entity bookID = Inr p" "ledger_inv H book"
      "\<And>i q. mget (l_byID book) i = Some q \<Longrightarrow> foreign_journal p (p_Journal q)"
    and m: "registry_inv modes"
    unfolding desk_start_def by blast
  note o = orchestrator_New_ok[OF n] and u = new_poster_unbooked[OF p]
  have pend: "mget (or_pendingReversals o1) q = None" for q using o(5) by (simp add: local_coordinator_def)
  have "payments_booked W (pay_stage p) (pay_position p) (mget (or_payments o1))"
    using u(2) by (simp add: payments_booked_def o(1) pay_stage_def pay_position_unfold fun_eq_iff)
  then show ?thesis
    using u(1,3) m o(4) pend by (simp add: books_ok_def o(2,3) pay_applied_def pending_ok_def)
qed

text \<open>\<open>RestorePayment\<close> brings in the payment \<open>pid\<close> with a status that stands for journals.\<close>

definition restored_as_booked :: "string \<Rightarrow> ('c, 'acc) Orchestrator \<Rightarrow> ('c, 'acc) Orchestrator \<Rightarrow> bool" where
  "restored_as_booked pid o1 o2 \<longleftrightarrow>
     orchestrator_Payment o1 pid = None \<and>
     (\<exists>i. RestorePayment o1 i = (None, o2) \<and> in_PaymentID i = pid \<and> accountingTransition (in_Status i))"

lemma desk_step_books:
  assumes "desk_step env H hashT cs cc o1 o2" "\<not> restored_as_booked pid o1 o2" "desk_books {pid} H o1"
  shows "desk_books {pid} H o2"
proof (rule desk.books_ok_step[OF assms(1,3)])
  fix i
  assume i: "RestorePayment o1 i = (None, o2)" "mget (or_payments o1) (in_PaymentID i) = None" "in_PaymentID i \<in> {pid}"
  with assms(2) have "\<not> accountingTransition (in_Status i)" by (auto simp: restored_as_booked_def orchestrator_Payment_def)
  moreover from this have "intent_position i = (\<lambda>_ _. 0)"
    by (cases "in_Status i") (auto simp: intent_position_def booked_position_def accountingTransition_def fun_eq_iff)
  ultimately show "booked_as (pay_stage (fst (or_accounting o1)) (in_PaymentID i))
      (pay_position (fst (or_accounting o1)) (in_PaymentID i)) (Some i)"
    using payments_bookedD[OF books_okD(4)[OF assms(3)], of "in_PaymentID i"] i(2) by (simp add: booked_status_def)
qed

interpretation desk_run: kept_invariant "desk_start H"
  "\<lambda>x y. desk_step env H hashT cs cc x y \<and> \<not> restored_as_booked pid x y" "desk_books {pid} H" for env H hashT cs cc pid
  by unfold_locales (auto intro: desk_start_books desk_step_books)

text \<open>
  C24: the ledger says what the payments say. Take any run of the payment desk: intents, provider
  callbacks, canonical reversals, resolutions, and \<open>RestorePayment\<close> of any payments, with other services
  posting to the same ledger and moving the same registry in between. As long as \<open>RestorePayment\<close> does not
  bring in the payment itself with a provisional, final or reversed status, the journals on file for a
  payment net to exactly the position of its status: pending for a provisional payment, settled for a
  final one, nothing for any other; and to nothing for an identifier that is no payment. \<open>RestorePayment\<close>
  does not look at the books: a payment it brings in has none, whatever status it is given.
\<close>

theorem ledger_follows_payments:
  assumes "desk_start H o1"
    and "(\<lambda>x y. desk_step env H hashT cs cc x y \<and> \<not> restored_as_booked pid x y)\<^sup>*\<^sup>* o1 o2"
  shows "case orchestrator_Payment o2 pid of
      Some i \<Rightarrow> pay_position (fst (or_accounting o2)) pid account asset = intent_position i account asset
    | None \<Rightarrow> pay_position (fst (or_accounting o2)) pid account asset = 0 \<and>
        (\<forall>i o3. RestorePayment o2 i = (None, o3) \<and> in_PaymentID i = pid \<longrightarrow>
           orchestrator_Payment o3 pid = Some i \<and> pay_position (fst (or_accounting o3)) pid account asset = 0)"
proof -
  have "desk_books {pid} H o2" by (rule desk_run.steps_inv[OF assms(2) desk_start_books[OF assms(1)]])
  note booked = payments_bookedD[OF books_okD(4)[OF this], of pid]
  show ?thesis
  proof (cases "orchestrator_Payment o2 pid")
    case (Some i)
    with booked show ?thesis by (simp add: orchestrator_Payment_def)
  next
    case None
    with booked have zero: "pay_position (fst (or_accounting o2)) pid account asset = 0"
      by (simp add: orchestrator_Payment_def)
    have "orchestrator_Payment o3 pid = Some i \<and> or_accounting o3 = or_accounting o2"
      if "RestorePayment o2 i = (None, o3)" "in_PaymentID i = pid" for i o3
      using RestorePayment_new[OF that(1)] None that(2) by (simp add: orchestrator_Payment_def)
    with None zero show ?thesis by auto
  qed
qed

section \<open>A desk at work\<close>

text \<open>One provider, one payment of seven units, and callbacks that take it to processing and provisional.\<close>

definition desk_provider :: Provider where
  "desk_provider = \<lparr>pv_ID = ''V'', pv_Rail = RailBank, pv_PublicKey = replicate 32 (CHR ''k''), pv_Active = True,
     pv_AssetID = ''UFT'', pv_SupportsReversal = True, pv_Version = 1\<rparr>"

definition desk_callback :: "string \<Rightarrow> Callback" where
  "desk_callback raw = \<lparr>cb_ProviderID = ''V'', cb_ProviderEventID = ''e'' @ raw, cb_PaymentID = ''P'',
     cb_ProviderReference = ''R'', cb_Status = (if raw = ''1'' then StatusProcessing else StatusProvisional),
     cb_AssetID = ''UFT'', cb_Units = ''7'', cb_OccurredAt = 20, cb_ExpiresAt = 90, cb_EvidenceHash = ''h''\<rparr>"

definition desk_env :: PaymentEnv where
  "desk_env = \<lparr>pe_hashBytes = (\<lambda>x. x), pe_sha256 = (\<lambda>x. x), pe_verify = (\<lambda>key message signature. signature = ''sig''),
     pe_marshal = (\<lambda>cb. Some (drop 1 (cb_ProviderEventID cb))), pe_unmarshal = (\<lambda>raw. Some (desk_callback raw)),
     pe_marshalTerms = (\<lambda>_. ''t'')\<rparr>"

definition desk_intent :: PaymentIntent where
  "desk_intent = \<lparr>in_PaymentID = ''P'', in_LegalEntityID = ''E'', in_IdempotencyKey = ''K'',
     in_CorrelationID = ''C'', in_PayerReference = ''B'', in_LoanID = ''L'', in_ProviderID = ''V'',
     in_ProviderReference = [], in_Rail = RailBank, in_Purpose = ''REPAYMENT'', in_AssetID = ''UFT'',
     in_Units = ''7'', in_ExpiresAt = 90, in_SchemaVersion = 1, in_Status = NoStatus, in_Version = 0,
     in_CreatedAt = 0, in_UpdatedAt = 0, in_ProvisionalAt = 0, in_FinalizedAt = 0, in_ReversedAt = 0\<rparr>"

definition desk_poster :: PaymentPoster where
  "desk_poster = \<lparr>pp_book = ledger_New, pp_legalEntityID = ''E'', pp_bookID = ''BK'', pp_records = [], pp_events = []\<rparr>"

definition desk_modes :: "MemoryStore Registry" where
  "desk_modes = \<lparr>r_byPayment = [], r_byAllocation = [], r_reversed = [], r_store = []\<rparr>"

definition desk0 :: "(MemoryStore Registry, pay_state) Orchestrator" where
  "desk0 = \<lparr>or_providers = [(''V'', desk_provider)], or_payments = [], or_intentKeys = [], or_intentHashes = [],
     or_events = [], or_rawCallbacks = [], or_quarantines = [], or_canonicalIncidents = [],
     or_quarantineResolutions = [], or_pendingReversals = [], or_consumedReversals = [],
     or_accounting = (desk_poster, 5), or_canonical = desk_modes\<rparr>"

definition desk1 :: "(MemoryStore Registry, pay_state) Orchestrator" where
  "desk1 = snd (CreateIntent desk_env desk0 desk_intent 10)"

definition desk_ingest ::
  "string \<Rightarrow> gotime \<Rightarrow> (MemoryStore Registry, pay_state) Orchestrator
     \<Rightarrow> (CallbackResult \<times> payment_error option) \<times> (MemoryStore Registry, pay_state) Orchestrator" where
  "desk_ingest raw t o1 =
     IngestCallback desk_env (pay_apply (\<lambda>_. Some ''x'') (\<lambda>_. ''y'')) local_coordinator o1 ''V'' (''e'' @ raw) raw ''sig'' t"

definition desk2 :: "(MemoryStore Registry, pay_state) Orchestrator" where
  "desk2 = snd (desk_ingest ''1'' 20 desk1)"

definition desk3 :: "(MemoryStore Registry, pay_state) Orchestrator" where
  "desk3 = snd (desk_ingest ''2'' 30 desk2)"

lemma desk_started: "orchestrator_New local_coordinator [desk_provider] (desk_poster, 5) desk_modes = Inr desk0"
  by (simp add: orchestrator_New_def desk_provider_def invalid_provider_def validRail_def local_coordinator_def
      refreshCanonicalConsumptionsLocked_def desk0_def)

lemma desk_start_desk0: "desk_start H desk0"
proof -
  have "payment_poster_New ledger_New ''E'' ''BK'' = Inr desk_poster"
    by (simp add: payment_poster_New_def desk_poster_def)
  moreover have "registry_inv desk_modes" by (simp add: registry_inv_def desk_modes_def)
  moreover have "ledger_inv H ledger_New" by (rule ledger_inv_New)
  ultimately show ?thesis
    using desk_started unfolding desk_start_def by (fastforce simp: ledger_New_def)
qed

lemma desk1_payment:
  "or_payments desk1 = [(''P'', created_intent desk_intent 10)]" "or_events desk1 = []" "or_accounting desk1 = (desk_poster, 5)"
  "or_providers desk1 = [(''V'', desk_provider)]" "or_canonical desk1 = desk_modes"
  by (simp_all add: desk1_def CreateIntent_def desk_intent_def invalid_intent_def positive_units_def positiveInteger_def
      desk0_def desk_provider_def Let_def big_eval mhas_def)

lemmas desk_eval = desk_env_def desk_callback_def desk_provider_def desk_intent_def desk_modes_def

lemma desk_decode: "raw = ''1'' \<or> raw = ''2'' \<Longrightarrow> decodeCallback desk_env raw = Inr (desk_callback raw)"
  by (auto simp: decodeCallback_def EncodeCallback_def positive_units_def positiveInteger_def desk_eval big_eval)

lemma desk_ingest_bound:
  assumes "raw = ''1'' \<or> raw = ''2''" "or_providers o1 = [(''V'', desk_provider)]" "0 < t" "t \<le> 90"
  shows "\<exists>x. desk_ingest raw t o1 = ingest_callback (pay_apply (\<lambda>_. Some ''x'') (\<lambda>_. ''y'')) local_coordinator
     (o1\<lparr>or_rawCallbacks := x\<rparr>) (of_nat (length (or_rawCallbacks o1) + 1)) desk_provider (desk_callback raw) raw ''sig'' t"
proof -
  have "authentic desk_env (o1\<lparr>or_rawCallbacks := x\<rparr>) ''V'' raw ''sig'' = Some desk_provider" for x
    using assms(2) by (simp add: authentic_def desk_env_def desk_provider_def)
  moreover have "refreshCanonicalConsumptionsLocked local_coordinator o1 = (None, o1)"
    by (simp add: refreshCanonicalConsumptionsLocked_def local_coordinator_def)
  moreover have "length raw = 1" using assms(1) by auto
  ultimately show ?thesis
    unfolding desk_ingest_def IngestCallback_def
    using assms(3,4) desk_decode[OF assms(1)]
    by (simp add: Let_def MaxCallbackBytes_def) (auto simp: desk_callback_def desk_provider_def desk_env_def)
qed

definition desk_processing :: PaymentIntent where
  "desk_processing = advanced (created_intent desk_intent 10) (desk_callback ''1'') 20"

definition desk_provisional :: PaymentIntent where
  "desk_provisional = advanced desk_processing (desk_callback ''2'') 30"

lemma desk2_payment:
  "or_payments desk2 = [(''P'', desk_processing)]" "mget (or_events desk2) (event_key ''V'' ''e2'') = None"
  "or_accounting desk2 = (desk_poster, 5)" "or_providers desk2 = [(''V'', desk_provider)]"
proof -
  obtain x where x: "desk_ingest ''1'' 20 desk1 = ingest_callback (pay_apply (\<lambda>_. Some ''x'') (\<lambda>_. ''y'')) local_coordinator
     (desk1\<lparr>or_rawCallbacks := x\<rparr>) (of_nat (length (or_rawCallbacks desk1) + 1)) desk_provider (desk_callback ''1'') ''1'' ''sig'' 20"
    using desk_ingest_bound[of "''1''" desk1 20] desk1_payment(4) by auto
  note e = desk2_def x ingest_callback_def ingest_status_def Let_def unbound_payment_def desk_processing_def
    created_intent_def accountingTransition_def event_key_def
  show "or_payments desk2 = [(''P'', desk_processing)]" by (simp add: e desk1_payment desk_eval)
  show "mget (or_events desk2) (event_key ''V'' ''e2'') = None" by (simp add: e desk1_payment desk_eval)
  show "or_accounting desk2 = (desk_poster, 5)" by (simp add: e desk1_payment desk_eval)
  show "or_providers desk2 = [(''V'', desk_provider)]" by (simp add: e desk1_payment desk_eval)
qed

lemma desk_provisional_simps [simp]:
  "in_PaymentID desk_provisional = ''P''" "in_ProviderID desk_provisional = ''V''" "in_Status desk_provisional = StatusProvisional"
  "in_Rail desk_provisional = RailBank" "in_AssetID desk_provisional = ''UFT''" "in_Units desk_provisional = ''7''"
  "in_Status desk_processing = StatusProcessing" "in_CorrelationID desk_provisional = ''C''"
  "in_LoanID desk_provisional = ''L''" "in_PayerReference desk_provisional = ''B''"
  by (simp_all add: desk_provisional_def desk_processing_def desk_eval created_intent_def advanced_def Let_def)

lemma desk_applied:
  "\<exists>ids acc. pay_apply (\<lambda>_. Some ''x'') (\<lambda>_. ''y'') (desk_poster, 5)
     (callback_transition desk_processing desk_provisional (desk_callback ''2'') 30) = (Inr ids, acc)"
  by (simp add: pay_apply_def payment_Apply_def desk_poster_def invalid_transition_def callback_transition_def
      transition_batch_def provisionalJournal_def payment_journal_def payment_entry_def mk_entry_def zero_record_def
      PostBatch_def postValidated_def ledger_New_def desk_callback_def Let_def sample_eval
      reversalReason_def pendingAccount_def)

lemma desk3_payment: "orchestrator_Payment desk3 ''P'' = Some desk_provisional"
  "\<exists>r. desk_ingest ''2'' 30 desk2 = ((r, None), desk3)"
proof -
  obtain x where x: "desk_ingest ''2'' 30 desk2 = ingest_callback (pay_apply (\<lambda>_. Some ''x'') (\<lambda>_. ''y'')) local_coordinator
     (desk2\<lparr>or_rawCallbacks := x\<rparr>) (of_nat (length (or_rawCallbacks desk2) + 1)) desk_provider (desk_callback ''2'') ''2'' ''sig'' 30"
    using desk_ingest_bound[of "''2''" desk2 30] desk2_payment(4) by auto
  obtain ids acc where a: "pay_apply (\<lambda>_. Some ''x'') (\<lambda>_. ''y'') (desk_poster, 5)
     (callback_transition desk_processing desk_provisional (desk_callback ''2'') 30) = (Inr ids, acc)"
    using desk_applied by blast
  have u: "\<not> unbound_payment desk_provider (desk_callback ''2'') desk_processing 30"
    by (simp add: unbound_payment_def desk_processing_def created_intent_def desk_eval)
  have cb: "cb_ProviderID (desk_callback ''2'') = ''V''" "cb_ProviderEventID (desk_callback ''2'') = ''e2''"
    "cb_PaymentID (desk_callback ''2'') = ''P''" "cb_Status (desk_callback ''2'') = StatusProvisional"
    by (simp_all add: desk_callback_def)
  have "ingest_status (pay_apply (\<lambda>_. Some ''x'') (\<lambda>_. ''y'')) (desk2\<lparr>or_rawCallbacks := x\<rparr>) (desk_callback ''2'')
      desk_processing ''2'' 30 = ((r, None), o2) \<longrightarrow> orchestrator_Payment o2 ''P'' = Some desk_provisional" for r o2
    by (simp add: ingest_status_def Let_def desk2_payment(1,3) cb accountingTransition_def desk_provisional_def[symmetric] a
        orchestrator_Payment_def) auto
  moreover have "\<exists>r o2. ingest_status (pay_apply (\<lambda>_. Some ''x'') (\<lambda>_. ''y'')) (desk2\<lparr>or_rawCallbacks := x\<rparr>) (desk_callback ''2'')
      desk_processing ''2'' 30 = ((r, None), o2)"
    by (simp add: ingest_status_def Let_def desk2_payment(1,3) cb accountingTransition_def desk_provisional_def[symmetric] a)
  moreover have "desk_ingest ''2'' 30 desk2 = ingest_status (pay_apply (\<lambda>_. Some ''x'') (\<lambda>_. ''y''))
      (desk2\<lparr>or_rawCallbacks := x\<rparr>) (desk_callback ''2'') desk_processing ''2'' 30"
    by (simp add: x ingest_callback_def Let_def cb desk2_payment(1,2) u)
  ultimately show "orchestrator_Payment desk3 ''P'' = Some desk_provisional"
    "\<exists>r. desk_ingest ''2'' 30 desk2 = ((r, None), desk3)"
    unfolding desk3_def by (metis snd_conv)+
qed

abbreviation sample_desk_step ::
  "(MemoryStore Registry, pay_state) Orchestrator \<Rightarrow> (MemoryStore Registry, pay_state) Orchestrator \<Rightarrow> bool" where
  "sample_desk_step \<equiv> desk_step desk_env (\<lambda>_. Some ''x'') (\<lambda>_. ''y'') memory_ClaimSynthetic
     (memory_ClaimCanonical :: MemoryStore \<Rightarrow> Claim \<Rightarrow> unit commit \<Rightarrow> unit \<Rightarrow> (mode_error + unit) \<times> MemoryStore \<times> unit)"

lemma desk_steps: "sample_desk_step desk0 desk1" "sample_desk_step desk1 desk2" "sample_desk_step desk2 desk3"
  unfolding desk1_def desk2_def desk3_def desk_ingest_def
  by (rule step_CreateIntent, rule prod.collapse[symmetric], (rule step_IngestCallback, rule prod.collapse[symmetric])+)

lemma desk_run_steps: "sample_desk_step\<^sup>*\<^sup>* desk2 desk3"
  using desk_steps by blast

lemma desk_unrestored:
  "(\<lambda>x y. sample_desk_step x y \<and> \<not> restored_as_booked ''P'' x y)\<^sup>*\<^sup>* desk0 desk3"
proof -
  have p: "orchestrator_Payment desk1 ''P'' = Some (created_intent desk_intent 10)"
    "orchestrator_Payment desk2 ''P'' = Some desk_processing"
    by (simp_all add: orchestrator_Payment_def desk1_payment(1) desk2_payment(1))
  have "\<not> restored_as_booked ''P'' desk0 desk1"
  proof
    assume "restored_as_booked ''P'' desk0 desk1"
    then obtain i where i: "RestorePayment desk0 i = (None, desk1)" "in_PaymentID i = ''P''" "accountingTransition (in_Status i)"
      "mget (or_payments desk0) ''P'' = None"
      by (auto simp: restored_as_booked_def orchestrator_Payment_def)
    from RestorePayment_new[OF i(1)] i p(1) have "i = created_intent desk_intent 10" by (simp add: orchestrator_Payment_def)
    with i(3) show False by (simp add: created_intent_def accountingTransition_def)
  qed
  moreover have "\<not> restored_as_booked ''P'' desk1 desk2" "\<not> restored_as_booked ''P'' desk2 desk3"
    using p by (simp_all add: restored_as_booked_def)
  ultimately show ?thesis
    using desk_steps
    by (intro converse_rtranclp_into_rtranclp[OF _ converse_rtranclp_into_rtranclp[OF _ r_into_rtranclp]]) blast+
qed

theorem ledger_follows_payments_witness:
  "pay_position (fst (or_accounting desk3)) ''P'' ''9140'' ''UFT'' = 7 \<and>
   pay_position (fst (or_accounting desk3)) ''P'' ''9120'' ''UFT'' = - 7"
proof -
  have u: "payment_units desk_provisional = 7" by (simp add: payment_units_def sample_eval)
  from ledger_follows_payments[OF desk_start_desk0 desk_unrestored] desk3_payment(1) u show ?thesis
    by (simp add: intent_position_def booked_position_def at_def pendingAccount_def)
qed

section \<open>Delivery at least once\<close>

lemma ingest_reversal_stored:
  assumes "ingest_reversal applyT co o1 ing cb current rawHash sigHash t = ((r, None), o2)"
  shows "mget (or_events o2) (event_key (cb_ProviderID cb) (cb_ProviderEventID cb)) =
     Some \<lparr>se_rawHash = rawHash, se_result = r, se_err = None\<rparr>"
proof -
  obtain claim d err c acc ids committed where
    call: "reversal_call applyT co o1 ing cb current rawHash sigHash t = ((claim, d, err), c, acc, ids, committed)"
    by (metis prod.collapse)
  note run = assms[unfolded ingest_reversal_def Let_def call prod.case]
  show ?thesis using run by (cases err; cases d) (auto simp: quarantine_def Let_def split: if_splits)
qed

lemma ingest_status_stored:
  assumes "ingest_status applyT o1 cb current rawHash t = ((r, None), o2)"
  shows "mget (or_events o2) (event_key (cb_ProviderID cb) (cb_ProviderEventID cb)) =
     Some \<lparr>se_rawHash = rawHash, se_result = r, se_err = None\<rparr>"
  using assms by (auto simp: ingest_status_def Let_def split: if_splits prod.splits sum.splits)

definition remembers :: "('c, 'acc) Orchestrator \<Rightarrow> Callback \<Rightarrow> string \<Rightarrow> CallbackResult \<Rightarrow> bool" where
  "remembers o1 cb rawHash r \<longleftrightarrow>
     (\<exists>e. mget (or_events o1) (event_key (cb_ProviderID cb) (cb_ProviderEventID cb)) = Some e \<and>
        se_rawHash e = rawHash \<and> se_err e = None \<and> (se_result e)\<lparr>cr_Replayed := True\<rparr> = r\<lparr>cr_Replayed := True\<rparr>)"

lemma ingest_callback_remembered:
  assumes "ingest_callback applyT co o1 ing v cb rawHash sigHash t = ((r, None), o2)"
  shows "remembers o2 cb rawHash r"
proof (cases "mget (or_events o1) (event_key (cb_ProviderID cb) (cb_ProviderEventID cb))")
  case (Some e)
  with assms show ?thesis
    by (auto simp: ingest_callback_def Let_def remembers_def refuse_def split: if_splits)
next
  case new: None
  note run = assms[unfolded ingest_callback_def Let_def new option.case]
  show ?thesis
  proof (cases "mget (or_payments o1) (cb_PaymentID cb)")
    case None
    with run show ?thesis by (auto simp: refuse_def)
  next
    case (Some current)
    with run show ?thesis
      by (auto simp: refuse_def remembers_def split: if_splits dest!: ingest_reversal_stored ingest_status_stored)
  qed
qed

lemma IngestCallback_bound:
  assumes run: "IngestCallback env applyT local_coordinator o1 providerID eventID raw signature t = ((r, None), o2)"
  obtains v cb ing o3 where "authentic env o1 providerID raw signature = Some v" "decodeCallback env raw = Inr cb"
    "cb_ProviderID cb = providerID" "cb_ProviderEventID cb = eventID" "cb_AssetID cb = pv_AssetID v" "t \<noteq> 0"
    "\<not> cb_ExpiresAt cb < t" "providerID \<noteq> []" "eventID \<noteq> []" "length raw \<noteq> 0" "\<not> MaxCallbackBytes < length raw"
    "quiet o1 o3"
    "ingest_callback applyT local_coordinator o3 ing v cb (pe_hashBytes env raw) (pe_hashBytes env signature) t = ((r, None), o2)"
proof -
  have t: "t \<noteq> 0" using run by (auto simp: IngestCallback_def)
  have fresh: "refreshCanonicalConsumptionsLocked local_coordinator o1 = (None, o1)"
    by (simp add: refreshCanonicalConsumptionsLocked_def local_coordinator_def)
  define o3 where "o3 = o1\<lparr>or_rawCallbacks := or_rawCallbacks o1 @
    [raw_callback env (length (or_rawCallbacks o1) + 1) providerID eventID raw signature t]\<rparr>"
  have q: "quiet o1 o3" and au: "authentic env o3 = authentic env o1"
    by (simp_all add: quiet_def o3_def authentic_def fun_eq_iff)
  note run = run[unfolded IngestCallback_def if_not_P[OF t] fresh prod.case option.case Let_def, folded o3_def, unfolded au]
  have nr: "refuse o3 a b c d e f g h \<noteq> ((r, None), o2)" for a b c d e f g h by (simp add: refuse_def)
  show thesis
  proof (cases "authentic env o1 providerID raw signature")
    case None
    with run nr show thesis by (auto split: if_splits)
  next
    case v: (Some v)
    show thesis
    proof (cases "decodeCallback env raw")
      case (Inl e)
      with run v nr show thesis by (auto split: if_splits)
    next
      case (Inr cb)
      with run v nr q t that show thesis by (auto split: if_splits)
    qed
  qed
qed

lemma ingest_callback_providers:
  "ingest_callback applyT co o1 ing v cb rawHash sigHash t = (res, o2) \<Longrightarrow> or_providers o2 = or_providers o1"
  by (erule ingest_callback_cases)
     (auto simp: quietD(4) elim!: ingest_reversal_cases[OF _ refl] ingest_status_cases)

text \<open>
  a callback may be delivered any number of times. If the provider's callback was accepted, then
  delivering the same bytes and signature again, at any time before the callback expires, returns the
  same outcome marked as replayed, and changes no payment, no journal and no stored event: only the log
  of raw callbacks grows.
\<close>

theorem callback_replay:
  assumes first: "IngestCallback env applyT local_coordinator o1 providerID eventID raw signature t = ((r, None), o2)"
    and cb: "decodeCallback env raw = Inr cb" and t': "t' \<noteq> 0" "t' \<le> cb_ExpiresAt cb"
  shows "\<exists>entry. IngestCallback env applyT local_coordinator o2 providerID eventID raw signature t' =
     ((r\<lparr>cr_Replayed := True\<rparr>, None), o2\<lparr>or_rawCallbacks := or_rawCallbacks o2 @ [entry]\<rparr>)"
  using first
proof (cases rule: IngestCallback_bound)
  case (1 v cb' ing o3)
  then have cb': "cb' = cb" using cb by simp
  from ingest_callback_remembered[OF 1(13)] obtain e where
    e: "mget (or_events o2) (event_key providerID eventID) = Some e" "se_rawHash e = pe_hashBytes env raw"
      "se_err e = None" "(se_result e)\<lparr>cr_Replayed := True\<rparr> = r\<lparr>cr_Replayed := True\<rparr>"
    unfolding remembers_def 1(3,4) by blast
  have "or_providers o2 = or_providers o1"
    using ingest_callback_providers[OF 1(13)] quietD(4)[OF 1(12)] by simp
  then have au: "authentic env (o2\<lparr>or_rawCallbacks := x\<rparr>) providerID raw signature = Some v" for x
    using 1(1) by (simp add: authentic_def)
  have "refreshCanonicalConsumptionsLocked local_coordinator o2 = (None, o2)"
    by (simp add: refreshCanonicalConsumptionsLocked_def local_coordinator_def)
  moreover have "ingest_callback applyT local_coordinator (o2\<lparr>or_rawCallbacks := x\<rparr>) n v cb (pe_hashBytes env raw) h t' =
      ((r\<lparr>cr_Replayed := True\<rparr>, None), o2\<lparr>or_rawCallbacks := x\<rparr>)" for x n h
    using e 1(3,4) by (simp add: ingest_callback_def cb')
  ultimately show ?thesis
    using 1(2-11) t' au by (simp add: IngestCallback_def Let_def cb') blast
qed

section \<open>The life of a payment\<close>

text \<open>
  C25: a payment is bound for life. In every state an orchestrator can reach, whatever its accounting and
  its coordinator do, each payment is stored under its own identifier, names a configured and valid
  provider, and has that provider's rail and asset.
\<close>

theorem payments_well_formed:
  assumes "reachable (orchestrator_start co) (orchestrator_step env applyT co ok otherAcc otherCan) o1"
    and "orchestrator_Payment o1 pid = Some i"
  shows "in_PaymentID i = pid \<and> pid \<noteq> [] \<and> in_CreatedAt i \<noteq> 0 \<and>
    (\<exists>v. mget (or_providers o1) (in_ProviderID i) = Some v \<and> pv_ID v = in_ProviderID i \<and> \<not> invalid_provider v \<and>
       in_Rail i = pv_Rail v \<and> in_AssetID i = pv_AssetID v)"
proof -
  have "orchestrator_wf o1" by (rule payments.always[OF assms(1)])
  with assms(2) have "payment_bound (or_providers o1) pid i" "providers_ok (or_providers o1)"
    by (auto simp: orchestrator_wf_def orchestrator_Payment_def)
  then show ?thesis unfolding payment_bound_def providers_ok_def by blast
qed

text \<open>
  C26: the status of a payment only moves along the transition table. From any reachable state on, a
  payment is never lost, its terms and its creation time never change, its provider reference is written
  once, and its status goes forward: a failed or reversed payment stays as it is for ever.
\<close>

theorem payment_discipline:
  assumes "reachable (orchestrator_start co) (orchestrator_step env applyT co ok otherAcc otherCan) o1"
    and "(orchestrator_step env applyT co ok otherAcc otherCan)\<^sup>*\<^sup>* o1 o2"
    and "orchestrator_Payment o1 pid = Some i"
  shows "\<exists>i'. orchestrator_Payment o2 pid = Some i' \<and> intent_terms i' = intent_terms i \<and>
    in_CreatedAt i' = in_CreatedAt i \<and> allowedTransition\<^sup>*\<^sup>* (in_Status i) (in_Status i') \<and>
    (in_ProviderReference i \<noteq> [] \<longrightarrow> in_ProviderReference i' = in_ProviderReference i) \<and>
    (in_Status i = StatusFailed \<or> in_Status i = StatusReversed \<longrightarrow> i' = i)"
proof -
  from payments.reachable_later[OF assms(2,1)] assms(3) obtain i' where
    i': "orchestrator_Payment o2 pid = Some i'" "payment_later i i'"
    by (auto simp: history_def orchestrator_Payment_def)
  note l = payment_laterD[OF i'(2)]
  have "in_Status i' = in_Status i" if "in_Status i = StatusFailed \<or> in_Status i = StatusReversed"
    using l(3) that by (auto elim: converse_rtranclpE)
  with i'(1) l show ?thesis by blast
qed

text \<open>
  C27: nobody but the provider moves a payment. If a callback changes a payment, then it is signed under
  the key of the active provider of that payment, it decodes to a callback for this payment, asset and
  amount, the change is allowed by the transition table, and the payment becomes exactly what the callback
  says.
\<close>

theorem change_is_authentic:
  assumes wf: "orchestrator_wf o1"
    and run: "IngestCallback env applyT co o1 providerID eventID raw signature t = (res, o2)"
    and change: "orchestrator_Payment o2 pid \<noteq> orchestrator_Payment o1 pid"
  shows "\<exists>v cb i. mget (or_providers o1) providerID = Some v \<and> pv_Active v \<and>
    pe_verify env (pv_PublicKey v) (SigningMessage env raw) signature \<and> decodeCallback env raw = Inr cb \<and>
    cb_PaymentID cb = pid \<and> orchestrator_Payment o1 pid = Some i \<and> in_ProviderID i = providerID \<and>
    in_AssetID i = cb_AssetID cb \<and> in_Units i = cb_Units cb \<and> allowedTransition (in_Status i) (cb_Status cb) \<and>
    orchestrator_Payment o2 pid = Some (advanced i cb t)"
  using run
proof (cases rule: IngestCallback_cases)
  case quiet
  with change show ?thesis by (simp add: orchestrator_Payment_def quietD(1))
next
  case (bound o3 ing v cb)
  note p3 = quietD(1)[OF bound(1)]
  have au: "mget (or_providers o1) providerID = Some v" "pv_Active v"
    "pe_verify env (pv_PublicKey v) (SigningMessage env raw) signature"
    using bound(2) by (auto simp: authentic_def split: option.splits if_splits)
  have move: ?thesis if acc: "accepted o3 v cb current t" and al: "allowedTransition (in_Status current) (cb_Status cb)"
    and o2: "or_payments o2 = mput (in_PaymentID current) (advanced current cb t) (or_payments o3)" for current
  proof -
    have c: "mget (or_payments o1) (cb_PaymentID cb) = Some current" using acc p3 by (simp add: accepted_def)
    then have id: "in_PaymentID current = cb_PaymentID cb" by (rule orchestrator_wf_payment[OF wf])
    with change o2 p3 have "pid = cb_PaymentID cb" by (auto simp: orchestrator_Payment_def split: if_splits)
    with c id o2 acc al au bound(3,4) show ?thesis
      by (auto simp: orchestrator_Payment_def accepted_def unbound_payment_def)
  qed
  have same: False if "or_payments o2 = or_payments o3"
    using change that p3 by (simp add: orchestrator_Payment_def)
  from bound(9) show ?thesis
  proof (cases rule: ingest_callback_cases)
    case quiet
    with same show ?thesis by (simp add: quietD(1))
  next
    case (reversal current)
    from reversal(5) refl show ?thesis
      by (cases rule: ingest_reversal_cases) (use same move[OF reversal(1)] reversal(2,3) in auto)
  next
    case (status current)
    from status(3) show ?thesis
    proof (cases rule: ingest_status_cases)
      case same
      with \<open>or_payments o2 = or_payments o3 \<Longrightarrow> False\<close> show ?thesis by (simp add: quietD(1))
    next
      case (unbooked e)
      with status(1) show ?thesis by (intro move[OF status(1)]) (auto simp: accepted_def)
    next
      case (booked ids acc e)
      with status(1) show ?thesis by (intro move[OF status(1)]) (auto simp: accepted_def)
    qed (use same in simp)
  qed
qed

section \<open>The properties on the desk at work\<close>

theorem callback_replay_witness:
  "\<exists>r entry. desk_ingest ''2'' 40 desk3 =
     ((r\<lparr>cr_Replayed := True\<rparr>, None), desk3\<lparr>or_rawCallbacks := or_rawCallbacks desk3 @ [entry]\<rparr>)"
proof -
  obtain r where "desk_ingest ''2'' 30 desk2 = ((r, None), desk3)" using desk3_payment(2) by blast
  from callback_replay[OF this[unfolded desk_ingest_def] desk_decode, of 40] show ?thesis
    by (auto simp: desk_ingest_def desk_callback_def)
qed

lemma desk_start0: "orchestrator_start local_coordinator desk0"
  unfolding orchestrator_start_def by (intro exI, rule desk_started)

lemma desk_reachable:
  "reachable (orchestrator_start local_coordinator) sample_desk_step desk2"
  "reachable (orchestrator_start local_coordinator) sample_desk_step desk3"
proof -
  have r0: "reachable (orchestrator_start local_coordinator) sample_desk_step desk0"
    by (rule reach_init[where init = "orchestrator_start local_coordinator", OF desk_start0])
  have r1: "reachable (orchestrator_start local_coordinator) sample_desk_step desk1" by (rule reach_step, rule r0, rule desk_steps(1))
  show r2: "reachable (orchestrator_start local_coordinator) sample_desk_step desk2" by (rule reach_step, rule r1, rule desk_steps(2))
  show "reachable (orchestrator_start local_coordinator) sample_desk_step desk3" by (rule reach_step, rule r2, rule desk_steps(3))
qed

theorem payments_well_formed_witness:
  "\<exists>v. mget (or_providers desk3) ''V'' = Some v \<and> \<not> invalid_provider v \<and> pv_AssetID v = ''UFT''"
  using payments_well_formed[OF desk_reachable(2) desk3_payment(1)] by auto

theorem payment_discipline_witness:
  "orchestrator_Payment desk2 ''P'' = Some desk_processing \<and> allowedTransition\<^sup>*\<^sup>* StatusProcessing StatusProvisional \<and>
   intent_terms desk_provisional = intent_terms desk_processing"
proof -
  have "orchestrator_Payment desk2 ''P'' = Some desk_processing"
    by (simp add: orchestrator_Payment_def desk2_payment(1))
  with payment_discipline[OF desk_reachable(1) desk_run_steps, of "''P''" desk_processing] desk3_payment(1)
  show ?thesis by simp
qed

theorem change_is_authentic_witness:
  "pe_verify desk_env (pv_PublicKey desk_provider) (SigningMessage desk_env ''2'') ''sig'' \<and>
   orchestrator_Payment desk3 ''P'' = Some (advanced desk_processing (desk_callback ''2'') 30)"
proof -
  have "desk_processing \<noteq> desk_provisional" by (rule notI, drule arg_cong[where f = in_Status]) simp
  then have ch: "orchestrator_Payment desk3 ''P'' \<noteq> orchestrator_Payment desk2 ''P''"
    unfolding desk3_payment(1) by (simp add: orchestrator_Payment_def desk2_payment(1))
  have wf: "orchestrator_wf desk2" by (rule payments.always[OF desk_reachable(1)])
  obtain r where "desk_ingest ''2'' 30 desk2 = ((r, None), desk3)" using desk3_payment(2) by blast
  from change_is_authentic[OF wf this[unfolded desk_ingest_def] ch] desk2_payment(1,4) desk_decode[of "''2''"]
  show ?thesis by (auto simp: orchestrator_Payment_def)
qed

end
