(* ===== verification/Interest.thy ===== *)
theory Interest
  imports Big_Int
begin

text \<open>
  Simple interest in integer arithmetic, \<^verbatim>\<open>risk-engine/internal/calculation/interest.go\<close>.

  Amounts and rates are decimal text, rates scaled by the ray (10 to the 27), times are unsigned
  64-bit seconds. Every division truncates. A division by zero panics in Go; it is the error
  \<open>DivideByZero\<close> here, and the lemmas show where it cannot occur.
\<close>

datatype calc_error = ErrInvalidCalculation | DivideByZero

record InterestTerms =
  t_AnnualRateRay :: string
  t_SpreadRay :: string
  t_FloorRateRay :: string
  t_CapRateRay :: string
  t_MaximumBenchmarkAge :: "64 word"

definition YearSeconds :: "64 word" where
  "YearSeconds = 365 * 24 * 60 * 60"

definition ray :: int where
  "ray = 1000000000000000000000000000"

definition maxAnnualRateRay :: int where
  "maxAnnualRateRay = 10000000000000000000000000000"

section \<open>Parsing and division\<close>

definition nonNegativeInteger :: "string \<Rightarrow> int option" where
  "nonNegativeInteger s = (case canonical s of None \<Rightarrow> None | Some i \<Rightarrow> if 0 \<le> i then Some i else None)"

definition positiveInteger :: "string \<Rightarrow> int option" where
  "positiveInteger s =
     (case nonNegativeInteger s of None \<Rightarrow> None | Some i \<Rightarrow> if 0 < i then Some i else None)"

definition mulDiv :: "int \<Rightarrow> int \<Rightarrow> int \<Rightarrow> calc_error + int" where
  "mulDiv left right denominator =
     (case quo (left * right) denominator of None \<Rightarrow> Inl DivideByZero | Some q \<Rightarrow> Inr q)"

definition accrue :: "int \<Rightarrow> int \<Rightarrow> 64 word \<Rightarrow> calc_error + int" where
  "accrue principal' annualRateRay elapsed =
     ebind (mulDiv principal' annualRateRay ray) (\<lambda>annualInterest.
       mulDiv annualInterest (uint elapsed) (uint YearSeconds))"

section \<open>Accrual\<close>

definition AccrueFixed ::
  "string \<Rightarrow> 64 word \<Rightarrow> 64 word \<Rightarrow> InterestTerms \<Rightarrow> calc_error + string" where
  "AccrueFixed principal' from to terms =
     (case positiveInteger principal' of
        None \<Rightarrow> Inl ErrInvalidCalculation
      | Some principalUnits \<Rightarrow>
          if to < from then Inl ErrInvalidCalculation
          else case (nonNegativeInteger (t_AnnualRateRay terms),
                     nonNegativeInteger (t_FloorRateRay terms),
                     positiveInteger (t_CapRateRay terms)) of
            (Some rate, Some floorRate, Some capRate) \<Rightarrow>
              if rate > maxAnnualRateRay \<or> t_SpreadRay terms \<noteq> ''0'' \<or>
                 t_MaximumBenchmarkAge terms \<noteq> 0 \<or> floorRate > rate \<or> rate > capRate
              then Inl ErrInvalidCalculation
              else ebind (accrue principalUnits rate (to - from)) (\<lambda>i. Inr (big_string i))
          | _ \<Rightarrow> Inl ErrInvalidCalculation)"

definition BoundedRate :: "string \<Rightarrow> InterestTerms \<Rightarrow> calc_error + int" where
  "BoundedRate benchmarkRateRay terms =
     (case (nonNegativeInteger benchmarkRateRay, nonNegativeInteger (t_SpreadRay terms),
            nonNegativeInteger (t_FloorRateRay terms), positiveInteger (t_CapRateRay terms)) of
        (Some benchmark, Some spread, Some floorRate, Some capRate) \<Rightarrow>
          if floorRate > capRate \<or> capRate > maxAnnualRateRay then Inl ErrInvalidCalculation
          else
            let rate = benchmark + spread;
                rate = (if rate < floorRate then floorRate else rate);
                rate = (if rate > capRate then capRate else rate)
            in Inr rate
      | _ \<Rightarrow> Inl ErrInvalidCalculation)"

definition AccrueVariable ::
  "string \<Rightarrow> 64 word \<Rightarrow> 64 word \<Rightarrow> string \<Rightarrow> 64 word \<Rightarrow> InterestTerms
     \<Rightarrow> calc_error + string \<times> string" where
  "AccrueVariable principal' from to benchmarkRateRay benchmarkObservedAt terms =
     (case positiveInteger principal' of
        None \<Rightarrow> Inl ErrInvalidCalculation
      | Some principalUnits \<Rightarrow>
          if to < from \<or> t_AnnualRateRay terms \<noteq> ''0'' \<or> t_MaximumBenchmarkAge terms = 0 \<or>
             benchmarkObservedAt > to \<or> to - benchmarkObservedAt > t_MaximumBenchmarkAge terms
          then Inl ErrInvalidCalculation
          else ebind (BoundedRate benchmarkRateRay terms) (\<lambda>rate.
                 ebind (accrue principalUnits rate (to - from)) (\<lambda>i.
                   Inr (big_string i, big_string rate))))"

section \<open>Facts\<close>

lemma nonNegativeInteger_iff [canon]:
  "nonNegativeInteger s = Some i \<longleftrightarrow> s = big_string i \<and> 0 \<le> i"
  by (auto simp: nonNegativeInteger_def canonical_iff split: option.splits)

lemma positiveInteger_iff [canon]: "positiveInteger s = Some i \<longleftrightarrow> s = big_string i \<and> 0 < i"
  by (auto simp: positiveInteger_def nonNegativeInteger_def canonical_iff split: option.splits)

lemma integer_text [simp]:
  "0 \<le> i \<Longrightarrow> nonNegativeInteger (big_string i) = Some i"
  "0 < i \<Longrightarrow> positiveInteger (big_string i) = Some i"
  by (simp_all add: canon)

lemma ray_pos [simp]: "0 < ray"
  by (simp add: ray_def)

lemma ray_nonneg [simp]: "0 \<le> ray"
  by (simp add: ray_def)

lemma YearSeconds_value [simp]: "uint YearSeconds = 31536000"
  by (simp add: YearSeconds_def)

lemma mulDiv_nonneg: "0 \<le> a \<Longrightarrow> 0 \<le> b \<Longrightarrow> 0 < d \<Longrightarrow> mulDiv a b d = Inr (a * b div d)"
  by (simp add: mulDiv_def quo_nonneg)

lemma accrue_value:
  "0 \<le> p \<Longrightarrow> 0 \<le> r \<Longrightarrow> accrue p r t = Inr (p * r div ray * uint t div 31536000)"
  by (simp add: accrue_def mulDiv_nonneg pos_imp_zdiv_nonneg_iff)

lemma div_times_le: "0 < (d :: int) \<Longrightarrow> a div d * d \<le> a"
  by (simp add: minus_mod_eq_div_mult[symmetric])

text \<open>Truncated division is superadditive, and a split in two loses at most one unit.\<close>

lemma div_split:
  fixes a b :: int
  assumes "0 < d"
  shows "a div d + b div d \<le> (a + b) div d" "(a + b) div d \<le> a div d + b div d + 1"
proof -
  have split: "(a + b) div d = a div d + b div d + (a mod d + b mod d) div d"
    by (rule div_add1_eq)
  have "0 \<le> a mod d + b mod d" "a mod d + b mod d < 2 * d"
    using assms pos_mod_bound[of d a] pos_mod_bound[of d b] by (simp, linarith)
  moreover have "(a mod d + b mod d) div d * d \<le> a mod d + b mod d"
    using assms by (rule div_times_le)
  ultimately have "0 \<le> (a mod d + b mod d) div d" "(a mod d + b mod d) div d * d < 2 * d"
    using assms by (simp add: pos_imp_zdiv_nonneg_iff, linarith)
  then have "0 \<le> (a mod d + b mod d) div d" "(a mod d + b mod d) div d < 2"
    using assms by simp_all
  with split show "a div d + b div d \<le> (a + b) div d" "(a + b) div d \<le> a div d + b div d + 1"
    by simp_all
qed

text \<open>Two truncating divisions in a row stay below the exact quotient.\<close>

lemma truncated_twice:
  fixes a d e y :: int
  assumes "0 \<le> a" "0 < d" "0 \<le> e" "0 < y"
  shows "0 \<le> a div d * e div y \<and> a div d * e div y * (d * y) \<le> a * e"
proof -
  have "a div d * d \<le> a" "a div d * e div y * y \<le> a div d * e"
    using assms by (simp_all add: div_times_le)
  then have "a div d * e div y * y * d \<le> a div d * e * d" "a div d * d * e \<le> a * e"
    using assms by (simp_all only: mult_right_mono less_imp_le)
  moreover have "a div d * e div y * (d * y) = a div d * e div y * y * d"
    "a div d * e * d = a div d * d * e" by simp_all
  ultimately have "a div d * e div y * (d * y) \<le> a * e" by linarith
  with assms show ?thesis by (simp add: pos_imp_zdiv_nonneg_iff)
qed

lemma uint_sub_le: "u \<le> (t :: 64 word) \<Longrightarrow> uint (t - u) = uint t - uint u"
  by (simp add: uint_sub_lem word_le_def)

lemma BoundedRate_iff:
  "BoundedRate b terms = Inr rate \<longleftrightarrow>
     (\<exists>benchmark spread floorRate capRate.
        b = big_string benchmark \<and> 0 \<le> benchmark \<and>
        t_SpreadRay terms = big_string spread \<and> 0 \<le> spread \<and>
        t_FloorRateRay terms = big_string floorRate \<and> 0 \<le> floorRate \<and>
        t_CapRateRay terms = big_string capRate \<and> 0 < capRate \<and>
        floorRate \<le> capRate \<and> capRate \<le> maxAnnualRateRay \<and>
        rate = min capRate (max floorRate (benchmark + spread)))"
proof
  assume "BoundedRate b terms = Inr rate"
  then show "\<exists>benchmark spread floorRate capRate.
        b = big_string benchmark \<and> 0 \<le> benchmark \<and>
        t_SpreadRay terms = big_string spread \<and> 0 \<le> spread \<and>
        t_FloorRateRay terms = big_string floorRate \<and> 0 \<le> floorRate \<and>
        t_CapRateRay terms = big_string capRate \<and> 0 < capRate \<and>
        floorRate \<le> capRate \<and> capRate \<le> maxAnnualRateRay \<and>
        rate = min capRate (max floorRate (benchmark + spread))"
    unfolding BoundedRate_def
    by (auto simp: canon Let_def split: option.splits if_splits)
qed (auto simp: BoundedRate_def Let_def)

lemma AccrueFixed_iff:
  "AccrueFixed p f t terms = Inr i \<longleftrightarrow>
     (\<exists>units rate floorRate capRate.
        p = big_string units \<and> 0 < units \<and> f \<le> t \<and>
        t_AnnualRateRay terms = big_string rate \<and> 0 \<le> rate \<and> rate \<le> maxAnnualRateRay \<and>
        t_FloorRateRay terms = big_string floorRate \<and> 0 \<le> floorRate \<and>
        t_CapRateRay terms = big_string capRate \<and> 0 < capRate \<and>
        t_SpreadRay terms = ''0'' \<and> t_MaximumBenchmarkAge terms = 0 \<and>
        floorRate \<le> rate \<and> rate \<le> capRate \<and>
        i = big_string (units * rate div ray * (uint t - uint f) div 31536000))"
  (is "?L \<longleftrightarrow> ?R")
proof
  assume ?L
  then show ?R
    unfolding AccrueFixed_def
    by (auto simp: canon accrue_value uint_sub_le split: option.splits if_splits)
next
  assume ?R
  then show ?L by (auto simp: AccrueFixed_def accrue_value uint_sub_le)
qed

section \<open>Concrete terms\<close>

definition sample_fixed :: InterestTerms where
  "sample_fixed = \<lparr>t_AnnualRateRay = big_string 100000000000000000000000000, t_SpreadRay = ''0'',
     t_FloorRateRay = ''0'', t_CapRateRay = big_string ray, t_MaximumBenchmarkAge = 0\<rparr>"

definition sample_variable :: InterestTerms where
  "sample_variable = \<lparr>t_AnnualRateRay = ''0'', t_SpreadRay = big_string 10000000000000000000000000,
     t_FloorRateRay = ''0'', t_CapRateRay = big_string 50000000000000000000000000,
     t_MaximumBenchmarkAge = 3600\<rparr>"

lemma parse_0 [simp]: "nonNegativeInteger ''0'' = Some 0"
  using integer_text(1)[of 0] by simp

lemma sample_fixed_accrual:
  "AccrueFixed (big_string 1000001) 0 31536000 sample_fixed = Inr (big_string 100000)"
  by (simp add: AccrueFixed_def sample_fixed_def accrue_value ray_def maxAnnualRateRay_def)

lemma sample_variable_accrual:
  "AccrueVariable (big_string 1000000) 0 31536000 (big_string 60000000000000000000000000) 31535000
     sample_variable = Inr (big_string 50000, big_string 50000000000000000000000000)"
  by (simp add: AccrueVariable_def BoundedRate_def sample_variable_def accrue_value ray_def
      maxAnnualRateRay_def Let_def)

section \<open>Properties\<close>

text \<open>
  C6: accruing a period in two parts never charges more than accruing it at once, and at most one
  unit less. For fixed terms and times \<open>from \<le> mid \<le> to\<close>, whenever the whole period can be accrued
  both parts can, and the interest of the parts adds up to the interest of the whole or to one
  unit less.
\<close>

theorem AccrueFixed_split:
  assumes "AccrueFixed p f t terms = Inr whole" and "f \<le> m" and "m \<le> t"
  shows "\<exists>a b w. AccrueFixed p f m terms = Inr (big_string a) \<and>
      AccrueFixed p m t terms = Inr (big_string b) \<and> whole = big_string w \<and>
      0 \<le> a \<and> 0 \<le> b \<and> a + b \<le> w \<and> w \<le> a + b + 1"
proof -
  from assms(1) obtain units rate floorRate capRate where h:
    "p = big_string units" "0 < units" "t_AnnualRateRay terms = big_string rate"
    "0 \<le> rate" "rate \<le> maxAnnualRateRay" "t_FloorRateRay terms = big_string floorRate"
    "0 \<le> floorRate" "t_CapRateRay terms = big_string capRate" "0 < capRate"
    "t_SpreadRay terms = ''0''" "t_MaximumBenchmarkAge terms = 0"
    "floorRate \<le> rate" "rate \<le> capRate"
    "whole = big_string (units * rate div ray * (uint t - uint f) div 31536000)"
    unfolding AccrueFixed_iff by blast
  define y where "y = units * rate div ray"
  define a where "a = y * (uint m - uint f)"
  define b where "b = y * (uint t - uint m)"
  have y: "0 \<le> y" using h by (simp add: y_def pos_imp_zdiv_nonneg_iff)
  have "0 \<le> a" "0 \<le> b" using y assms(2,3) by (simp_all add: a_def b_def word_le_def)
  moreover have "whole = big_string ((a + b) div 31536000)"
    unfolding h(14) y_def[symmetric] by (simp add: a_def b_def algebra_simps)
  moreover have "AccrueFixed p f m terms = Inr (big_string (a div 31536000))"
    "AccrueFixed p m t terms = Inr (big_string (b div 31536000))"
    unfolding AccrueFixed_iff a_def b_def y_def using h(1-13) assms(2,3) by blast+
  ultimately show ?thesis
    using div_split[of 31536000 a b]
    by - (rule exI[of _ "a div 31536000"], rule exI[of _ "b div 31536000"],
        rule exI[of _ "(a + b) div 31536000"], simp add: pos_imp_zdiv_nonneg_iff)
qed

theorem AccrueFixed_split_witness:
  "\<exists>a b w. AccrueFixed (big_string 1000001) 0 10000000 sample_fixed = Inr (big_string a) \<and>
      AccrueFixed (big_string 1000001) 10000000 31536000 sample_fixed = Inr (big_string b) \<and>
      big_string 100000 = big_string w \<and> 0 \<le> a \<and> 0 \<le> b \<and> a + b \<le> w \<and> w \<le> a + b + 1"
  by (rule AccrueFixed_split[OF sample_fixed_accrual]) simp_all

text \<open>
  a variable accrual applies the clamped rate. \<open>AccrueVariable\<close> succeeds only with a benchmark
  that is not from the future and not older than the terms allow; the applied rate is benchmark plus
  spread, clamped to the floor and the cap, hence within the global maximum; and the interest is
  the truncated simple interest at that rate, never more than the exact value.
\<close>

theorem AccrueVariable_clamped:
  assumes "AccrueVariable p f t b observed terms = Inr (interest, applied)"
  shows "\<exists>units rate i benchmark spread floorRate capRate.
      p = big_string units \<and> interest = big_string i \<and> applied = big_string rate \<and>
      b = big_string benchmark \<and> t_SpreadRay terms = big_string spread \<and>
      t_FloorRateRay terms = big_string floorRate \<and> t_CapRateRay terms = big_string capRate \<and>
      rate = min capRate (max floorRate (benchmark + spread)) \<and>
      floorRate \<le> rate \<and> rate \<le> capRate \<and> 0 \<le> rate \<and> rate \<le> maxAnnualRateRay \<and>
      observed \<le> t \<and> uint t - uint observed \<le> uint (t_MaximumBenchmarkAge terms) \<and>
      0 \<le> i \<and> i * (ray * 31536000) \<le> units * rate * (uint t - uint f)"
proof -
  from assms obtain units rate i where h:
    "p = big_string units" "0 < units" "f \<le> t" "observed \<le> t"
    "t - observed \<le> t_MaximumBenchmarkAge terms"
    "BoundedRate b terms = Inr rate" "accrue units rate (t - f) = Inr i"
    "interest = big_string i" "applied = big_string rate"
    by (auto simp: AccrueVariable_def canon not_less split: option.splits if_splits)
  from h(6) obtain benchmark spread floorRate capRate where r:
    "b = big_string benchmark" "t_SpreadRay terms = big_string spread"
    "t_FloorRateRay terms = big_string floorRate" "t_CapRateRay terms = big_string capRate"
    "0 \<le> floorRate" "floorRate \<le> capRate" "capRate \<le> maxAnnualRateRay"
    "rate = min capRate (max floorRate (benchmark + spread))"
    unfolding BoundedRate_iff by blast
  have rate: "0 \<le> rate" "floorRate \<le> rate" "rate \<le> capRate" using r by auto
  have elapsed: "uint (t - f) = uint t - uint f" "0 \<le> uint t - uint f"
    using uint_sub_le[OF h(3)] h(3) by (simp, simp add: word_le_def)
  have i: "i = units * rate div ray * (uint t - uint f) div 31536000"
    using h(2,7) rate(1) elapsed by (simp add: accrue_value)
  have "uint t - uint observed \<le> uint (t_MaximumBenchmarkAge terms)"
    using h(5) unfolding word_le_def uint_sub_le[OF h(4)] .
  moreover have "0 \<le> i \<and> i * (ray * 31536000) \<le> units * rate * (uint t - uint f)"
    unfolding i by (rule truncated_twice) (use h(2) rate(1) elapsed(2) in simp_all)
  ultimately show ?thesis
    using h(1,4,8,9) r rate
    by - (rule exI[of _ units], rule exI[of _ rate], rule exI[of _ i],
        rule exI[of _ benchmark], rule exI[of _ spread], rule exI[of _ floorRate],
        rule exI[of _ capRate], simp)
qed

theorem AccrueVariable_clamped_witness:
  "\<exists>i rate. big_string 50000 = big_string i \<and> big_string 50000000000000000000000000 = big_string rate \<and>
     rate \<le> maxAnnualRateRay \<and> i * (ray * 31536000) \<le> 1000000 * rate * 31536000"
  using AccrueVariable_clamped[OF sample_variable_accrual] by auto

end
