(* ===== verification/Schedule.thy ===== *)
theory Schedule
  imports Interest
begin

text \<open>
  Repayment schedules, \<^verbatim>\<open>risk-engine/internal/calculation/schedule.go\<close>.

  \<open>Generate\<close> is the Go function: validation, the annuity payment, one loop iteration per
  installment and the final check. Indices are 32-bit and due times 64-bit words with Go's
  wrap-around; amounts are unbounded integers printed as decimal text.
\<close>

section \<open>Data\<close>

datatype ScheduleKind =
    Bullet | EqualPrincipal | Annuity | InterestOnly | Balloon | UnknownKind string

record SchedulePlan =
  sp_Kind :: ScheduleKind
  sp_Principal :: string
  sp_TotalInterest :: string
  sp_PeriodicRateRay :: string
  sp_BalloonPrincipal :: string
  sp_StartTime :: "64 word"
  sp_PeriodSeconds :: "64 word"
  sp_InstallmentCount :: "32 word"
  sp_PaymentHolidayCount :: "32 word"

record Installment =
  in_Index :: "32 word"
  in_DueTime :: "64 word"
  in_PrincipalDue :: string
  in_InterestDue :: string

section \<open>The annuity payment\<close>

unbundle bit_operations_syntax

lemma drop_bit_less: "p \<noteq> (0 :: 32 word) \<Longrightarrow> unat (drop_bit 1 p) < unat p"
  by (simp add: drop_bit_eq_div unat_div unat_gt_0)

function ray_power_loop :: "int \<Rightarrow> int \<Rightarrow> 32 word \<Rightarrow> calc_error + int" where
  "ray_power_loop result base pow =
     (if pow = 0 then Inr result
      else ebind (if pow AND 1 \<noteq> 0 then mulDiv result base ray else Inr result) (\<lambda>result'.
        (let pow' = drop_bit 1 pow in
         ebind (if pow' \<noteq> 0 then mulDiv base base ray else Inr base) (\<lambda>base'.
           ray_power_loop result' base' pow'))))"
  by pat_completeness auto
termination
  by (relation "measure (\<lambda>(result, base, pow). unat pow)") (auto simp: drop_bit_less[simplified])

declare ray_power_loop.simps [simp del]

definition rayPower :: "int \<Rightarrow> 32 word \<Rightarrow> calc_error + int" where
  "rayPower baseRay exponent = ray_power_loop ray baseRay exponent"

definition annuityPayment :: "int \<Rightarrow> int \<Rightarrow> 32 word \<Rightarrow> calc_error + int" where
  "annuityPayment principal' periodicRateRay periods =
     ebind (rayPower (ray + periodicRateRay) periods) (\<lambda>factor.
       ebind (mulDiv principal' periodicRateRay ray) (\<lambda>numerator.
         mulDiv numerator factor (factor - ray)))"

section \<open>Validation\<close>

definition validateSchedule :: "SchedulePlan \<Rightarrow> calc_error + int \<times> int \<times> int \<times> int" where
  "validateSchedule plan =
     (case (positiveInteger (sp_Principal plan), nonNegativeInteger (sp_TotalInterest plan),
            nonNegativeInteger (sp_BalloonPrincipal plan),
            nonNegativeInteger (sp_PeriodicRateRay plan)) of
        (Some principal', Some totalInterest, Some balloon, Some periodicRate) \<Rightarrow>
          if sp_StartTime plan = 0 \<or> sp_PeriodSeconds plan = 0 \<or> sp_InstallmentCount plan = 0 \<or>
             sp_InstallmentCount plan > 600 \<or> sp_PaymentHolidayCount plan > 120
          then Inl ErrInvalidCalculation
          else if sp_Kind plan = Balloon \<and>
             (sp_InstallmentCount plan < 2 \<or> balloon = 0 \<or> balloon \<ge> principal')
          then Inl ErrInvalidCalculation
          else if sp_Kind plan \<noteq> Balloon \<and> balloon \<noteq> 0
          then Inl ErrInvalidCalculation
          else if sp_Kind plan = Annuity \<and> (periodicRate = 0 \<or> totalInterest \<noteq> 0)
          then Inl ErrInvalidCalculation
          else if sp_Kind plan \<noteq> Annuity \<and> periodicRate \<noteq> 0
          then Inl ErrInvalidCalculation
          else Inr (principal', totalInterest, balloon, periodicRate)
      | _ \<Rightarrow> Inl ErrInvalidCalculation)"

section \<open>The loop\<close>

text \<open>The variables that the loop reads and does not write.\<close>

record schedule_vars =
  v_plan :: SchedulePlan
  v_principal :: int
  v_totalInterest :: int
  v_balloon :: int
  v_periodicRate :: int
  v_annuity :: int

definition Quo :: "int \<Rightarrow> int \<Rightarrow> calc_error + int" where
  "Quo a b = (case quo a b of None \<Rightarrow> Inl DivideByZero | Some q \<Rightarrow> Inr q)"

text \<open>The \<open>switch\<close> on the kind: principal and interest due, before the last installment is adjusted.\<close>

definition switch_kind :: "schedule_vars \<Rightarrow> bool \<Rightarrow> int \<Rightarrow> calc_error + int \<times> int" where
  "switch_kind v isLast balance =
     (let count = uint (sp_InstallmentCount (v_plan v)) in
      case sp_Kind (v_plan v) of
        Bullet \<Rightarrow> Inr (if isLast then (v_principal v, v_totalInterest v) else (0, 0))
      | EqualPrincipal \<Rightarrow>
          ebind (Quo (v_principal v) count) (\<lambda>p.
            ebind (Quo (v_totalInterest v) count) (\<lambda>i. Inr (p, i)))
      | InterestOnly \<Rightarrow>
          ebind (Quo (v_totalInterest v) count) (\<lambda>i.
            Inr (if isLast then v_principal v else 0, i))
      | Balloon \<Rightarrow>
          ebind (if isLast then Inr (v_balloon v) else Quo (v_principal v - v_balloon v) (count - 1)) (\<lambda>p.
            ebind (Quo (v_totalInterest v) count) (\<lambda>i. Inr (p, i)))
      | Annuity \<Rightarrow>
          ebind (mulDiv balance (v_periodicRate v) ray) (\<lambda>i.
            (let p = (if v_annuity v > i then v_annuity v - i else 0);
                 p = (if p > balance then balance else p)
             in Inr (p, i)))
      | UnknownKind _ \<Rightarrow> Inl ErrInvalidCalculation)"

definition due_time :: "SchedulePlan \<Rightarrow> 32 word \<Rightarrow> 64 word" where
  "due_time plan index =
     sp_StartTime plan + ucast (index + 1 + sp_PaymentHolidayCount plan) * sp_PeriodSeconds plan"

lemma word_next:
  assumes "i < (n :: 32 word)"
  shows "unat (i + 1) = unat i + 1" "uint (i + 1) = uint i + 1" "i + 1 \<le> n"
proof -
  have "unat i < unat n" "unat n < 2 ^ 32"
    using assms unsigned_less[of n] by (simp_all add: word_less_nat_alt)
  then show u: "unat (i + 1) = unat i + 1" by (simp add: unat_word_ariths)
  then show "uint (i + 1) = uint i + 1"
    by (metis of_nat_1 of_nat_add of_nat_unat)
  from u \<open>unat i < unat n\<close> show "i + 1 \<le> n" by (simp add: word_le_nat_alt)
qed

lemma loop_measure: "i < (n :: 32 word) \<Longrightarrow> unat (n - (i + 1)) < unat (n - i)"
  by (simp add: word_next unat_sub word_less_nat_alt word_le_nat_alt)

function generate_loop ::
  "schedule_vars \<Rightarrow> 32 word \<Rightarrow> int \<Rightarrow> int \<Rightarrow> int \<Rightarrow> calc_error + Installment list \<times> int" where
  "generate_loop v index allocatedPrincipal allocatedInterest balance =
     (if index < sp_InstallmentCount (v_plan v) then
        (let isLast = (index + 1 = sp_InstallmentCount (v_plan v)) in
         ebind (switch_kind v isLast balance) (\<lambda>(p, i).
           (let principalDue = (if isLast then v_principal v - allocatedPrincipal else p);
                interestDue = (if isLast \<and> sp_Kind (v_plan v) \<noteq> Annuity
                               then v_totalInterest v - allocatedInterest else i) in
            ebind (generate_loop v (index + 1) (allocatedPrincipal + principalDue)
                     (allocatedInterest + interestDue) (balance - principalDue)) (\<lambda>(rest, total).
              Inr (\<lparr>in_Index = index, in_DueTime = due_time (v_plan v) index,
                    in_PrincipalDue = big_string principalDue,
                    in_InterestDue = big_string interestDue\<rparr> # rest, total)))))
      else Inr ([], allocatedPrincipal))"
  by pat_completeness auto
termination
  by (relation "measure (\<lambda>(v, index, _). unat (sp_InstallmentCount (v_plan v) - index))")
     (auto simp: loop_measure)

declare generate_loop.simps [simp del]

definition Generate :: "SchedulePlan \<Rightarrow> calc_error + Installment list" where
  "Generate plan =
     ebind (validateSchedule plan) (\<lambda>(principal', totalInterest, balloon, periodicRate).
       ebind (if sp_Kind plan = Annuity
              then annuityPayment principal' periodicRate (sp_InstallmentCount plan) else Inr 0)
         (\<lambda>annuity.
           ebind (generate_loop
                    \<lparr>v_plan = plan, v_principal = principal', v_totalInterest = totalInterest,
                     v_balloon = balloon, v_periodicRate = periodicRate, v_annuity = annuity\<rparr>
                    0 0 0 principal')
             (\<lambda>(installments, allocatedPrincipal).
               if allocatedPrincipal \<noteq> principal' then Inl ErrInvalidCalculation
               else Inr installments)))"

section \<open>The compounding factor\<close>

lemma odd_halves: "unat p = 2 * unat (drop_bit 1 p) + (if p AND 1 \<noteq> 0 then 1 else 0)"
  for p :: "32 word"
proof -
  have "p AND 1 \<noteq> 0 \<longleftrightarrow> unat (p mod 2) \<noteq> 0"
    by (simp add: and_one_eq unat_eq_zero)
  moreover have "unat (p mod 2) = unat p mod 2"
    unfolding unat_mod by simp
  ultimately have "p AND 1 \<noteq> 0 \<longleftrightarrow> unat p mod 2 = 1"
    by (simp only: not_mod_2_eq_0_eq_1)
  moreover have "unat (drop_bit 1 p) = unat p div 2"
    by (simp add: drop_bit_eq_div unat_div)
  moreover have "unat p = 2 * (unat p div 2) + (if unat p mod 2 = 1 then 1 else 0)"
    by presburger
  ultimately show ?thesis by simp
qed

lemma le_mul_div: "0 \<le> a \<Longrightarrow> 0 < d \<Longrightarrow> d \<le> b \<Longrightarrow> a \<le> a * b div (d :: int)"
  using zdiv_mono1[of "a * d" "a * b" d] by (simp add: mult_left_mono)

text \<open>
  Repeated squaring keeps the factor between its base and the exact power: truncation only lowers
  it, and it never falls below the base.
\<close>

lemma ray_power_loop_bounds:
  assumes "ray \<le> result" "ray \<le> base"
  shows "\<exists>out. ray_power_loop result base pow = Inr out \<and> result \<le> out \<and>
     (pow \<noteq> 0 \<longrightarrow> base \<le> out) \<and> out * ray ^ unat pow \<le> result * base ^ unat pow"
  using assms
proof (induction "unat pow" arbitrary: result base pow rule: less_induct)
  case less
  note r = ray_pos
  have nn: "0 < result" "0 < base" using less.prems r by linarith+
  show ?case
  proof (cases "pow = 0")
    case True
    then show ?thesis by (simp add: ray_power_loop.simps)
  next
    case False
    define pow' where "pow' = drop_bit 1 pow"
    define odd_bit where "odd_bit \<longleftrightarrow> pow AND 1 \<noteq> 0"
    define result' where "result' = (if odd_bit then result * base div ray else result)"
    define base' where "base' = (if pow' \<noteq> 0 then base * base div ray else base)"
    have n: "unat pow = 2 * unat pow' + (if odd_bit then 1 else 0)"
      unfolding pow'_def odd_bit_def by (rule odd_halves)
    have run: "ray_power_loop result base pow = ray_power_loop result' base' pow'"
      unfolding ray_power_loop.simps[of result base pow] using False nn r
      by (simp add: mulDiv_nonneg Let_def result'_def base'_def pow'_def odd_bit_def)
    have up: "result \<le> result'" "base \<le> base'"
      using le_mul_div[OF less_imp_le[OF nn(1)] r less.prems(2)]
        le_mul_div[OF less_imp_le[OF nn(2)] r less.prems(2)]
      by (simp_all add: result'_def base'_def)
    have first: "odd_bit \<longrightarrow> base \<le> result'"
      using nn r less.prems le_mul_div[of base ray result] by (simp add: result'_def mult.commute)
    have "unat pow' < unat pow" unfolding pow'_def using False by (rule drop_bit_less)
    from less.hyps[OF this, of result' base'] up less.prems
    obtain out where out: "ray_power_loop result' base' pow' = Inr out" "result' \<le> out"
      "pow' \<noteq> 0 \<longrightarrow> base' \<le> out" "out * ray ^ unat pow' \<le> result' * base' ^ unat pow'"
      by auto
    have even: "\<not> odd_bit \<Longrightarrow> pow' \<noteq> 0" using False n by (auto simp: unat_eq_zero)
    have rr: "result' * ray ^ (if odd_bit then 1 else 0) \<le> result * base ^ (if odd_bit then 1 else 0)"
      using r by (simp add: result'_def div_times_le)
    have "base' * ray \<le> base * base \<or> unat pow' = 0"
      using r by (auto simp: base'_def div_times_le)
    then have bb: "(base' * ray) ^ unat pow' \<le> (base * base) ^ unat pow'"
    proof
      assume "base' * ray \<le> base * base"
      moreover have "0 \<le> base' * ray"
        using nn(2) up(2) r by (intro mult_nonneg_nonneg) linarith+
      ultimately show ?thesis by (rule power_mono)
    qed simp
    have "out * ray ^ unat pow =
        out * ray ^ unat pow' * (ray ^ unat pow' * ray ^ (if odd_bit then 1 else 0))"
      unfolding n by (simp add: power_add mult_2 mult.assoc)
    also have "\<dots> \<le> result' * base' ^ unat pow' * (ray ^ unat pow' * ray ^ (if odd_bit then 1 else 0))"
      using out(4) r by (intro mult_right_mono) simp_all
    also have "\<dots> = result' * ray ^ (if odd_bit then 1 else 0) * (base' * ray) ^ unat pow'"
      by (simp add: power_mult_distrib)
    also have "\<dots> \<le> result * base ^ (if odd_bit then 1 else 0) * (base * base) ^ unat pow'"
      by (rule mult_mono[OF rr bb]) (use nn up in \<open>simp_all add: zero_le_mult_iff\<close>)
    also have "\<dots> = result * base ^ unat pow"
      unfolding n by (simp add: power_add mult_2 power_mult_distrib)
    finally have "out * ray ^ unat pow \<le> result * base ^ unat pow" .
    with run out up first even show ?thesis by (cases odd_bit) auto
  qed
qed

lemma rayPower_bounds:
  assumes "0 < rate" "n \<noteq> 0"
  shows "\<exists>factor. rayPower (ray + rate) n = Inr factor \<and> ray + rate \<le> factor \<and>
     factor * ray ^ unat n \<le> ray * (ray + rate) ^ unat n"
  using ray_power_loop_bounds[of ray "ray + rate" n] assms by (auto simp: rayPower_def)

text \<open>The level payment is defined, and it covers the first period's interest.\<close>

lemma annuityPayment_covers:
  assumes "0 < p" "0 < rate" "n \<noteq> 0"
  shows "\<exists>a. annuityPayment p rate n = Inr a \<and> p * rate div ray \<le> a"
proof -
  from rayPower_bounds[OF assms(2,3)] obtain f where f:
    "rayPower (ray + rate) n = Inr f" "ray + rate \<le> f" by blast
  have i: "0 \<le> p * rate div ray" using assms by (simp add: pos_imp_zdiv_nonneg_iff)
  have d: "0 < f - ray" "f - ray \<le> f" using f(2) assms ray_pos by linarith+
  have "0 \<le> f" using d(1) ray_pos by linarith
  with f i d have "annuityPayment p rate n = Inr (p * rate div ray * f div (f - ray))"
    using assms by (simp add: annuityPayment_def mulDiv_nonneg)
  with le_mul_div[OF i d] show ?thesis by blast
qed

section \<open>What the loop computes\<close>

abbreviation count_of :: "schedule_vars \<Rightarrow> int" where
  "count_of v \<equiv> uint (sp_InstallmentCount (v_plan v))"

definition wf_vars :: "schedule_vars \<Rightarrow> bool" where
  "wf_vars v \<longleftrightarrow>
     0 < v_principal v \<and> 0 \<le> v_totalInterest v \<and> 1 \<le> count_of v \<and>
     (\<forall>s. sp_Kind (v_plan v) \<noteq> UnknownKind s) \<and>
     (sp_Kind (v_plan v) = Balloon \<longrightarrow>
        2 \<le> count_of v \<and> 0 < v_balloon v \<and> v_balloon v < v_principal v) \<and>
     (sp_Kind (v_plan v) = Annuity \<longrightarrow>
        0 < v_periodicRate v \<and> v_principal v * v_periodicRate v div ray \<le> v_annuity v)"

text \<open>Principal and interest of every installment but the last, for the kinds with equal parts.\<close>

definition regular_due :: "schedule_vars \<Rightarrow> int \<times> int" where
  "regular_due v =
     (case sp_Kind (v_plan v) of
        EqualPrincipal \<Rightarrow> (v_principal v div count_of v, v_totalInterest v div count_of v)
      | InterestOnly \<Rightarrow> (0, v_totalInterest v div count_of v)
      | Balloon \<Rightarrow>
          ((v_principal v - v_balloon v) div (count_of v - 1), v_totalInterest v div count_of v)
      | _ \<Rightarrow> (0, 0))"

lemma share_le:
  fixes a n k :: int
  assumes "0 \<le> a" "0 < n" "0 \<le> k" "k \<le> n"
  shows "0 \<le> k * (a div n)" "k * (a div n) \<le> a"
proof -
  have q: "0 \<le> a div n" using assms by (simp add: pos_imp_zdiv_nonneg_iff)
  then show "0 \<le> k * (a div n)" using assms by simp
  have "k * (a div n) \<le> n * (a div n)" using q assms by (simp add: mult_right_mono)
  also have "\<dots> \<le> a" using assms div_times_le[of n a] by (simp add: mult.commute)
  finally show "k * (a div n) \<le> a" .
qed

lemma regular_due_bounds:
  assumes "wf_vars v" "0 \<le> k" "k < count_of v"
  shows "0 \<le> k * fst (regular_due v)" "k * fst (regular_due v) \<le> v_principal v"
    "0 \<le> k * snd (regular_due v)" "k * snd (regular_due v) \<le> v_totalInterest v"
    "0 \<le> fst (regular_due v)" "0 \<le> snd (regular_due v)"
  using assms share_le[of "v_principal v" "count_of v" k] share_le[of "v_totalInterest v" "count_of v" k]
    share_le[of "v_principal v - v_balloon v" "count_of v - 1" k]
  by (auto simp: regular_due_def wf_vars_def pos_imp_zdiv_nonneg_iff split: ScheduleKind.splits)

lemma switch_regular:
  assumes "wf_vars v" "sp_Kind (v_plan v) \<noteq> Annuity"
  shows "\<exists>p i. switch_kind v isLast balance = Inr (p, i) \<and> (\<not> isLast \<longrightarrow> (p, i) = regular_due v)"
  using assms
  by (cases "sp_Kind (v_plan v)")
     (auto simp: switch_kind_def regular_due_def wf_vars_def Quo_def quo_nonneg Let_def)

lemma switch_annuity:
  assumes "wf_vars v" "sp_Kind (v_plan v) = Annuity" "0 \<le> balance" "balance \<le> v_principal v"
  shows "\<exists>i. switch_kind v isLast balance = Inr (min balance (v_annuity v - i), i) \<and>
     i = balance * v_periodicRate v div ray \<and> 0 \<le> i \<and> i \<le> v_annuity v"
proof -
  let ?i = "balance * v_periodicRate v div ray"
  have r: "0 < v_periodicRate v" using assms by (simp add: wf_vars_def)
  have "?i \<le> v_principal v * v_periodicRate v div ray"
    using assms r by (intro zdiv_mono1 mult_right_mono) auto
  then have i: "0 \<le> ?i" "?i \<le> v_annuity v"
    using assms r by (auto simp: wf_vars_def pos_imp_zdiv_nonneg_iff)
  then show ?thesis
    using assms r by (auto simp: switch_kind_def mulDiv_nonneg Let_def)
qed

text \<open>The loop variables when the installment \<open>k\<close> is about to be computed.\<close>

definition progress :: "schedule_vars \<Rightarrow> int \<Rightarrow> int \<Rightarrow> int \<Rightarrow> int \<Rightarrow> bool" where
  "progress v k aP aI balance \<longleftrightarrow>
     balance = v_principal v - aP \<and> 0 \<le> aP \<and> aP \<le> v_principal v \<and> 0 \<le> aI \<and>
     (sp_Kind (v_plan v) \<noteq> Annuity \<longrightarrow>
        aP = k * fst (regular_due v) \<and> aI = k * snd (regular_due v) \<and> aI \<le> v_totalInterest v)"

definition principal_due :: "Installment \<Rightarrow> int" where
  "principal_due e = (case big_set_string (in_PrincipalDue e) of Some x \<Rightarrow> x | None \<Rightarrow> 0)"

definition interest_due :: "Installment \<Rightarrow> int" where
  "interest_due e = (case big_set_string (in_InterestDue e) of Some x \<Rightarrow> x | None \<Rightarrow> 0)"

definition pays_out :: "schedule_vars \<Rightarrow> int \<Rightarrow> int \<Rightarrow> Installment list \<Rightarrow> bool" where
  "pays_out v aP aI ins \<longleftrightarrow>
     (\<Sum>e\<leftarrow>ins. principal_due e) = v_principal v - aP \<and>
     (sp_Kind (v_plan v) \<noteq> Annuity \<longrightarrow> (\<Sum>e\<leftarrow>ins. interest_due e) = v_totalInterest v - aI) \<and>
     (\<forall>e \<in> set ins. 0 \<le> principal_due e \<and> 0 \<le> interest_due e)"

definition numbered :: "SchedulePlan \<Rightarrow> 32 word \<Rightarrow> Installment list \<Rightarrow> bool" where
  "numbered plan index ins \<longleftrightarrow>
     (\<forall>k < length ins. in_Index (ins ! k) = index + of_nat k \<and>
        in_DueTime (ins ! k) = due_time plan (index + of_nat k))"

lemma numbered_Cons:
  "numbered plan index (e # ins) \<longleftrightarrow>
     in_Index e = index \<and> in_DueTime e = due_time plan index \<and> numbered plan (index + 1) ins"
  by (auto simp: numbered_def nth_Cons less_Suc_eq_0_disj algebra_simps split: nat.splits)

lemma due_text [simp]:
  "principal_due \<lparr>in_Index = k, in_DueTime = t, in_PrincipalDue = big_string p, in_InterestDue = i\<rparr> = p"
  "interest_due \<lparr>in_Index = k, in_DueTime = t, in_PrincipalDue = q, in_InterestDue = big_string j\<rparr> = j"
  by (simp_all add: principal_due_def interest_due_def)

text \<open>One iteration: the amounts due are not negative and the loop variables move on.\<close>

lemma not_last:
  assumes "index < (n :: 32 word)" "index + 1 \<noteq> n"
  shows "index + 1 < n" "uint index + 1 < uint n" "0 \<le> uint index + 1"
proof -
  show less: "index + 1 < n" using assms(2) word_next(3)[OF assms(1)] by (simp add: order_less_le)
  then show "uint index + 1 < uint n" using word_next(2)[OF assms(1)] by (simp add: word_less_def)
qed simp

lemma iteration:
  assumes wf: "wf_vars v" and idx: "index < sp_InstallmentCount (v_plan v)"
    and pr: "progress v (uint index) aP aI balance"
    and last: "isLast \<longleftrightarrow> index + 1 = sp_InstallmentCount (v_plan v)"
  shows "\<exists>p i. switch_kind v isLast balance = Inr (p, i) \<and>
     (sp_Kind (v_plan v) = Annuity \<longrightarrow> 0 \<le> i) \<and>
     (\<not> isLast \<longrightarrow> 0 \<le> p \<and> 0 \<le> i \<and> progress v (uint index + 1) (aP + p) (aI + i) (balance - p))"
proof (cases "sp_Kind (v_plan v) = Annuity")
  case True
  have "0 \<le> balance" "balance \<le> v_principal v" using pr by (auto simp: progress_def)
  from switch_annuity[OF wf True this] obtain i where
    i: "switch_kind v isLast balance = Inr (min balance (v_annuity v - i), i)"
       "0 \<le> i" "i \<le> v_annuity v" by blast
  with pr True show ?thesis by (auto simp: progress_def)
next
  case False
  from switch_regular[OF wf False] obtain p i where
    p: "switch_kind v isLast balance = Inr (p, i)" "\<not> isLast \<longrightarrow> (p, i) = regular_due v" by blast
  have "0 \<le> p \<and> 0 \<le> i \<and> progress v (uint index + 1) (aP + p) (aI + i) (balance - p)" if "\<not> isLast"
  proof -
    have pi: "p = fst (regular_due v)" "i = snd (regular_due v)"
      using p(2) that by (metis fst_conv, metis snd_conv)
    note k = not_last(2,3)[OF idx] last that
    have "0 \<le> uint index + 1" "uint index + 1 < count_of v" using k by auto
    from regular_due_bounds[OF wf this] pi pr False show ?thesis
      by (simp add: progress_def algebra_simps)
  qed
  with p False show ?thesis by blast
qed

lemma generate_loop_pays:
  "wf_vars v \<Longrightarrow> index < sp_InstallmentCount (v_plan v) \<Longrightarrow> progress v (uint index) aP aI balance \<Longrightarrow>
   \<exists>ins. generate_loop v index aP aI balance = Inr (ins, v_principal v) \<and>
     length ins = unat (sp_InstallmentCount (v_plan v)) - unat index \<and>
     pays_out v aP aI ins \<and> numbered (v_plan v) index ins"
proof (induction v index aP aI balance rule: generate_loop.induct)
  case (1 v index aP aI balance)
  define n where "n = sp_InstallmentCount (v_plan v)"
  note next_index = word_next[OF "1.prems"(2), folded n_def]
  from iteration[OF "1.prems" refl] obtain p i where
    sw: "switch_kind v (index + 1 = n) balance = Inr (p, i)"
    and ann: "sp_Kind (v_plan v) = Annuity \<longrightarrow> 0 \<le> i"
    and reg: "index + 1 \<noteq> n \<longrightarrow> 0 \<le> p \<and> 0 \<le> i \<and>
        progress v (uint index + 1) (aP + p) (aI + i) (balance - p)"
    unfolding n_def by blast
  show ?case
  proof (cases "index + 1 = n")
    case True
    with sw "1.prems" ann show ?thesis
      using next_index(1)
      by (auto simp: generate_loop.simps[of v index] generate_loop.simps[of v n] n_def[symmetric]
          pays_out_def progress_def numbered_def)
  next
    case False
    with "1.IH"[OF _ refl, unfolded n_def[symmetric], OF _ sw refl refl refl] "1.prems" sw reg
      not_last(1)[OF "1.prems"(2)[folded n_def] False] next_index
    obtain ins where ins:
      "generate_loop v (index + 1) (aP + p) (aI + i) (balance - p) = Inr (ins, v_principal v)"
      "length ins = unat n - unat (index + 1)" "pays_out v (aP + p) (aI + i) ins"
      "numbered (v_plan v) (index + 1) ins"
      by (auto simp: n_def)
    with False sw "1.prems" reg show ?thesis
      using next_index(1)
      by (auto simp: generate_loop.simps[of v index] n_def[symmetric] pays_out_def numbered_Cons
          word_less_nat_alt)
  qed
qed

section \<open>Valid plans\<close>

text \<open>The plans that \<open>Generate\<close> accepts, as a specification.\<close>

definition valid_plan :: "SchedulePlan \<Rightarrow> int \<Rightarrow> int \<Rightarrow> int \<Rightarrow> int \<Rightarrow> bool" where
  "valid_plan plan p i b r \<longleftrightarrow>
     sp_Principal plan = big_string p \<and> 0 < p \<and> sp_TotalInterest plan = big_string i \<and> 0 \<le> i \<and>
     sp_BalloonPrincipal plan = big_string b \<and> 0 \<le> b \<and>
     sp_PeriodicRateRay plan = big_string r \<and> 0 \<le> r \<and>
     sp_StartTime plan \<noteq> 0 \<and> sp_PeriodSeconds plan \<noteq> 0 \<and>
     sp_InstallmentCount plan \<noteq> 0 \<and> sp_InstallmentCount plan \<le> 600 \<and>
     sp_PaymentHolidayCount plan \<le> 120 \<and>
     (if sp_Kind plan = Balloon then 2 \<le> sp_InstallmentCount plan \<and> b \<noteq> 0 \<and> b < p else b = 0) \<and>
     (if sp_Kind plan = Annuity then r \<noteq> 0 \<and> i = 0 else r = 0)"

lemma validateSchedule_iff: "validateSchedule plan = Inr (p, i, b, r) \<longleftrightarrow> valid_plan plan p i b r"
proof
  assume "validateSchedule plan = Inr (p, i, b, r)"
  then show "valid_plan plan p i b r"
    unfolding validateSchedule_def valid_plan_def
    by (auto simp: canon not_less not_le split: option.splits if_splits)
next
  assume "valid_plan plan p i b r"
  then show "validateSchedule plan = Inr (p, i, b, r)"
    by (auto simp: valid_plan_def validateSchedule_def not_less not_le split: if_splits)
qed

lemma validateSchedule_error: "validateSchedule plan = Inl e \<Longrightarrow> e = ErrInvalidCalculation"
  by (auto simp: validateSchedule_def split: option.splits if_splits)

text \<open>The schedule of a valid plan of a known kind.\<close>

lemma Generate_valid:
  assumes valid: "valid_plan plan p i b r" and kind: "\<And>s. sp_Kind plan \<noteq> UnknownKind s"
  shows "\<exists>ins v. Generate plan = Inr ins \<and> length ins = unat (sp_InstallmentCount plan) \<and>
     v_plan v = plan \<and> v_principal v = p \<and> v_totalInterest v = i \<and>
     pays_out v 0 0 ins \<and> numbered plan 0 ins"
proof -
  have n: "sp_InstallmentCount plan \<noteq> 0" using valid by (simp add: valid_plan_def)
  have "\<exists>a. (if sp_Kind plan = Annuity then annuityPayment p r (sp_InstallmentCount plan) else Inr 0)
      = Inr a \<and> (sp_Kind plan = Annuity \<longrightarrow> p * r div ray \<le> a)"
    using annuityPayment_covers[of p r "sp_InstallmentCount plan"] valid n
    by (auto simp: valid_plan_def)
  then obtain a where a:
    "(if sp_Kind plan = Annuity then annuityPayment p r (sp_InstallmentCount plan) else Inr 0) = Inr a"
    "sp_Kind plan = Annuity \<longrightarrow> p * r div ray \<le> a" by blast
  let ?v = "\<lparr>v_plan = plan, v_principal = p, v_totalInterest = i, v_balloon = b,
             v_periodicRate = r, v_annuity = a\<rparr>"
  have "uint (sp_InstallmentCount plan) \<noteq> 0" using n by (simp add: uint_0_iff)
  then have count: "1 \<le> uint (sp_InstallmentCount plan)"
    using uint_ge_0[of "sp_InstallmentCount plan"] by linarith
  have "wf_vars ?v"
    using valid kind a(2) count by (auto simp: wf_vars_def valid_plan_def word_le_def)
  moreover have "0 < sp_InstallmentCount plan" using n by (simp add: word_neq_0_conv)
  moreover have "progress ?v (uint (0 :: 32 word)) 0 0 p"
    using valid by (simp add: progress_def valid_plan_def)
  ultimately obtain ins where "generate_loop ?v 0 0 0 p = Inr (ins, p)"
    "length ins = unat (sp_InstallmentCount plan)" "pays_out ?v 0 0 ins" "numbered plan 0 ins"
    using generate_loop_pays[of ?v 0 0 0 p] by auto
  then show ?thesis
    using valid a(1) by (intro exI[of _ ins] exI[of _ ?v])
      (auto simp: Generate_def validateSchedule_iff[THEN iffD2])
qed

lemma Generate_unknown:
  assumes "sp_Kind plan = UnknownKind s"
  shows "Generate plan = Inl ErrInvalidCalculation"
proof (cases "validateSchedule plan")
  case (Inl e)
  then show ?thesis by (simp add: Generate_def validateSchedule_error)
next
  case (Inr q)
  obtain p i b r where q: "q = (p, i, b, r)" by (cases q)
  with Inr have "0 < sp_InstallmentCount plan"
    by (simp add: validateSchedule_iff valid_plan_def word_neq_0_conv)
  with Inr q assms show ?thesis
    by (simp add: Generate_def generate_loop.simps switch_kind_def)
qed

section \<open>Due times\<close>

text \<open>The instant an installment is meant to fall due, without the bound of 64 bits.\<close>

definition exact_due :: "SchedulePlan \<Rightarrow> int \<Rightarrow> int" where
  "exact_due plan k = uint (sp_StartTime plan) +
     (k + 1 + uint (sp_PaymentHolidayCount plan)) * uint (sp_PeriodSeconds plan)"

lemma exact_due_less: "sp_PeriodSeconds plan \<noteq> 0 \<Longrightarrow> j < k \<Longrightarrow> exact_due plan j < exact_due plan k"
  by (simp add: exact_due_def word_neq_0_conv word_less_def)

lemma exact_due_nonneg: "0 \<le> k \<Longrightarrow> 0 \<le> exact_due plan k"
  by (simp add: exact_due_def)

lemma due_time_mod:
  assumes "index < sp_InstallmentCount plan" "sp_InstallmentCount plan \<le> 600"
    "sp_PaymentHolidayCount plan \<le> 120"
  shows "uint (due_time plan index) = exact_due plan (uint index) mod 2 ^ 64"
proof -
  let ?h = "sp_PaymentHolidayCount plan"
  have small: "uint index + 1 + uint ?h \<le> 720"
    using assms by (simp add: word_less_def word_le_def)
  have "uint (index + 1 + ?h) = uint index + 1 + uint ?h"
    using small word_next(2)[OF assms(1)] by (simp add: uint_word_ariths(1)[of "index + 1"])
  then have "uint (ucast (index + 1 + ?h) :: 64 word) = uint index + 1 + uint ?h"
    by (simp add: unsigned_ucast_eq take_bit_int_eq_self small order.strict_trans1[OF small])
  then show ?thesis by (simp add: due_time_def exact_due_def uint_word_ariths mod_simps)
qed

section \<open>Concrete plans\<close>

definition sample_plan :: SchedulePlan where
  "sample_plan = \<lparr>sp_Kind = EqualPrincipal, sp_Principal = big_string 100,
     sp_TotalInterest = big_string 10, sp_PeriodicRateRay = ''0'', sp_BalloonPrincipal = ''0'',
     sp_StartTime = 1000, sp_PeriodSeconds = 60, sp_InstallmentCount = 3,
     sp_PaymentHolidayCount = 1\<rparr>"

text \<open>A valid plan that starts near the end of the 64-bit range.\<close>

definition late_plan :: SchedulePlan where
  "late_plan = sample_plan\<lparr>sp_StartTime := - 61\<rparr>"

lemmas schedule_eval = sample_plan_def late_plan_def Generate_def validateSchedule_def
  generate_loop.simps switch_kind_def Quo_def quo_def due_time_def

lemma sample_schedule:
  "Generate sample_plan = Inr
     [\<lparr>in_Index = 0, in_DueTime = 1120, in_PrincipalDue = big_string 33, in_InterestDue = big_string 3\<rparr>,
      \<lparr>in_Index = 1, in_DueTime = 1180, in_PrincipalDue = big_string 33, in_InterestDue = big_string 3\<rparr>,
      \<lparr>in_Index = 2, in_DueTime = 1240, in_PrincipalDue = big_string 34, in_InterestDue = big_string 4\<rparr>]"
  by (simp add: schedule_eval Let_def)

lemma late_schedule:
  "Generate late_plan = Inr
     [\<lparr>in_Index = 0, in_DueTime = 59, in_PrincipalDue = big_string 33, in_InterestDue = big_string 3\<rparr>,
      \<lparr>in_Index = 1, in_DueTime = 119, in_PrincipalDue = big_string 33, in_InterestDue = big_string 3\<rparr>,
      \<lparr>in_Index = 2, in_DueTime = 179, in_PrincipalDue = big_string 34, in_InterestDue = big_string 4\<rparr>]"
  by (simp add: schedule_eval Let_def)

section \<open>Properties\<close>

text \<open>
  C7: a schedule repays exactly the loan. Whatever the kind of the plan, the installments number
  exactly the plan's count, none asks for a negative amount, their principal adds up to the plan's
  principal, and, except for annuities, their interest adds up to the plan's total interest, so
  truncating divisions neither lose nor create a unit.
\<close>

theorem Generate_conserves:
  assumes "Generate plan = Inr ins"
  shows "\<exists>p i. sp_Principal plan = big_string p \<and> sp_TotalInterest plan = big_string i \<and>
     length ins = unat (sp_InstallmentCount plan) \<and>
     (\<Sum>e\<leftarrow>ins. principal_due e) = p \<and>
     (sp_Kind plan \<noteq> Annuity \<longrightarrow> (\<Sum>e\<leftarrow>ins. interest_due e) = i) \<and>
     (\<forall>e \<in> set ins. 0 \<le> principal_due e \<and> 0 \<le> interest_due e)"
proof -
  from assms obtain p i b r where valid: "valid_plan plan p i b r"
    by (auto simp: Generate_def validateSchedule_iff)
  moreover have "sp_Kind plan \<noteq> UnknownKind s" for s
    using assms Generate_unknown by fastforce
  ultimately show ?thesis
    using Generate_valid[of plan p i b r] assms by (auto simp: pays_out_def valid_plan_def)
qed

theorem Generate_conserves_witness:
  "\<exists>p i. big_string 100 = big_string p \<and> big_string 10 = big_string i \<and>
     (\<Sum>x\<leftarrow>[33, 33, 34]. x) = p \<and> (\<Sum>x\<leftarrow>[3, 3, 4]. x) = i"
  using Generate_conserves[OF sample_schedule] by (auto simp: sample_plan_def)

text \<open>
  C8: \<open>Generate\<close> is total on valid plans. It returns a schedule exactly for the plans of a known
  kind that pass validation, and it never divides by zero: in particular the compounding factor of
  an annuity always exceeds one, and the final comparison of allocated and requested principal
  never fails.
\<close>

theorem Generate_total:
  "((\<exists>ins. Generate plan = Inr ins) \<longleftrightarrow>
      (\<exists>p i b r. valid_plan plan p i b r) \<and> (\<nexists>s. sp_Kind plan = UnknownKind s)) \<and>
   Generate plan \<noteq> Inl DivideByZero"
proof (cases "\<exists>s. sp_Kind plan = UnknownKind s")
  case True
  then show ?thesis using Generate_unknown by fastforce
next
  case False
  show ?thesis
  proof (cases "validateSchedule plan")
    case (Inl e)
    then have "\<nexists>p i b r. valid_plan plan p i b r"
      by (metis validateSchedule_iff sum.distinct(1))
    with Inl show ?thesis by (auto simp: Generate_def dest: validateSchedule_error)
  next
    case (Inr q)
    obtain p i b r where "q = (p, i, b, r)" by (cases q)
    with Inr have "valid_plan plan p i b r" by (simp add: validateSchedule_iff)
    with Generate_valid[OF this] False show ?thesis by auto
  qed
qed

lemma Generate_due_mod:
  assumes "Generate plan = Inr ins" "k < length ins"
  shows "uint (in_DueTime (ins ! k)) = exact_due plan (int k) mod 2 ^ 64" "sp_PeriodSeconds plan \<noteq> 0"
proof -
  let ?n = "sp_InstallmentCount plan"
  from assms(1) obtain p i b r where valid: "valid_plan plan p i b r"
    by (auto simp: Generate_def validateSchedule_iff)
  moreover have "sp_Kind plan \<noteq> UnknownKind s" for s
    using assms(1) Generate_unknown by fastforce
  ultimately have len: "length ins = unat ?n" and num: "numbered plan 0 ins"
    using Generate_valid[of plan p i b r] assms(1) by auto
  have small: "unat ?n \<le> 600" using valid by (simp add: valid_plan_def word_le_nat_alt)
  have k: "uint (of_nat k :: 32 word) = int k"
    using assms(2) len small by (simp add: unsigned_of_nat take_bit_nat_eq_self)
  have idx: "of_nat k < ?n"
    using assms(2) len k by (simp add: word_less_def) (metis of_nat_less_iff of_nat_unat)
  show "uint (in_DueTime (ins ! k)) = exact_due plan (int k) mod 2 ^ 64"
    using due_time_mod[OF idx] valid num assms(2) by (simp add: valid_plan_def numbered_def k)
  show "sp_PeriodSeconds plan \<noteq> 0" using valid by (simp add: valid_plan_def)
qed

text \<open>
  C9: when installments fall due. In every schedule, the installment \<open>k\<close> (from 0) is due
  \<open>k + 1 + holidays\<close> periods after the start, reduced modulo two to the 64. While that instant fits in
  64 bits, it is after the start and after every earlier installment. Validation does not bound the start
  time and the period, so it need not fit: when the instant passes the end of the 64-bit range by less
  than the start time, the installment is due before the loan starts.
\<close>

theorem Generate_due_times:
  assumes "Generate plan = Inr ins" and "k < length ins"
  shows "uint (in_DueTime (ins ! k)) = exact_due plan (int k) mod 2 ^ 64 \<and>
    (exact_due plan (int k) < 2 ^ 64 \<longrightarrow>
       sp_StartTime plan < in_DueTime (ins ! k) \<and> (\<forall>j < k. in_DueTime (ins ! j) < in_DueTime (ins ! k))) \<and>
    (2 ^ 64 \<le> exact_due plan (int k) \<and> exact_due plan (int k) < 2 ^ 64 + uint (sp_StartTime plan) \<longrightarrow>
       in_DueTime (ins ! k) < sp_StartTime plan)"
proof (intro conjI impI allI)
  note due = Generate_due_mod[OF assms(1)]
  note period = due(2)[OF assms(2)]
  show k: "uint (in_DueTime (ins ! k)) = exact_due plan (int k) mod 2 ^ 64" by (rule due(1)[OF assms(2)])
  have fits: "uint (in_DueTime (ins ! j)) = exact_due plan (int j)" if "exact_due plan (int k) < 2 ^ 64" "j \<le> k" for j
  proof -
    have "exact_due plan (int j) \<le> exact_due plan (int k)"
      using exact_due_less[OF period, of "int j" "int k"] that(2) by (cases "j = k") auto
    with that due(1)[of j] assms(2) exact_due_nonneg[of "int j"] show ?thesis by simp
  qed
  show "sp_StartTime plan < in_DueTime (ins ! k)" if "exact_due plan (int k) < 2 ^ 64"
  proof -
    have "uint (sp_StartTime plan) = exact_due plan (- 1 - uint (sp_PaymentHolidayCount plan))"
      by (simp add: exact_due_def)
    also have "\<dots> < exact_due plan (int k)" using uint_ge_0[of "sp_PaymentHolidayCount plan"]
      by (intro exact_due_less[OF period]) linarith
    finally show ?thesis using fits[OF that, of k] by (simp add: word_less_def)
  qed
  show "in_DueTime (ins ! j) < in_DueTime (ins ! k)" if "exact_due plan (int k) < 2 ^ 64" "j < k" for j
    using fits[OF that(1), of j] fits[OF that(1), of k] that exact_due_less[OF period, of "int j" "int k"]
    by (simp add: word_less_def)
  show "in_DueTime (ins ! k) < sp_StartTime plan"
    if "2 ^ 64 \<le> exact_due plan (int k) \<and> exact_due plan (int k) < 2 ^ 64 + uint (sp_StartTime plan)"
  proof -
    have "exact_due plan (int k) mod 2 ^ 64 = (exact_due plan (int k) - 2 ^ 64) mod 2 ^ 64" by simp
    also have "\<dots> = exact_due plan (int k) - 2 ^ 64"
      using that uint_lt2p[of "sp_StartTime plan"] by (intro mod_pos_pos_trivial) auto
    finally show ?thesis using k that by (simp add: word_less_def)
  qed
qed

theorem Generate_due_times_witness:
  "(1120 :: 64 word) < 1180 \<and> uint (1180 :: 64 word) = exact_due sample_plan 1 \<and>
   (59 :: 64 word) < sp_StartTime late_plan \<and> 2 ^ 64 \<le> exact_due late_plan 0"
proof -
  have "uint (1180 :: 64 word) = exact_due sample_plan 1 mod 2 ^ 64 \<and> (1120 :: 64 word) < 1180"
    using Generate_due_times[OF sample_schedule, of 1] by (simp add: exact_due_def sample_plan_def)
  moreover have "(59 :: 64 word) < sp_StartTime late_plan"
    using Generate_due_times[OF late_schedule, of 0] by (simp add: exact_due_def late_plan_def sample_plan_def)
  ultimately show ?thesis by (simp add: exact_due_def late_plan_def sample_plan_def)
qed

text \<open>
  the compounding factor. For a positive periodic rate and at least one period, repeated
  squaring ends with a factor of at least one plus the rate and at most the exact power
  (one plus the rate) to the number of periods: truncation errs on the low side only.
\<close>

theorem rayPower_sound:
  assumes "0 < rate" and "n \<noteq> 0"
  shows "\<exists>factor. rayPower (ray + rate) n = Inr factor \<and> ray + rate \<le> factor \<and>
     factor * ray ^ unat n \<le> ray * (ray + rate) ^ unat n"
  using assms by (rule rayPower_bounds)

theorem rayPower_sound_witness:
  "\<exists>factor. rayPower (ray + 10000000000000000000000000) 2 = Inr factor \<and>
     factor * ray ^ 2 \<le> ray * (ray + 10000000000000000000000000) ^ 2"
  using rayPower_sound[of 10000000000000000000000000 2] by auto

end
