(* ===== verification/Underwriting.thy ===== *)
theory Underwriting
  imports Big_Int "HOL-Library.List_Lexorder" "HOL-Library.Char_ord"
begin

text \<open>
  The deterministic underwriting rules, \<^verbatim>\<open>risk-engine/internal/underwriting/engine.go\<close>.

  Arguments for the environment: \<open>sha\<close> is the hexadecimal SHA-256 of a byte string and \<open>fmt\<close> the
  RFC 3339 text of an instant. The byte string that is hashed is built here
  (\<open>writeCanonical\<close>, \<open>evidence_bytes\<close>), a Go string being its sequence of bytes.
\<close>

section \<open>Data\<close>

datatype underwriting_error = ErrInvalidApplication | ErrInvalidEvidence | ErrInvalidPolicy

record FeatureEvidence =
  fe_FeatureID :: string
  fe_ValueUnits :: string
  fe_SourceID :: string
  fe_TransformVersion :: string
  fe_EvidenceHash :: string
  fe_ObservedAt :: gotime

record Policy =
  po_PolicyID :: string
  po_Version :: string
  po_RuleSetHash :: string
  po_FeatureSchemaHash :: string
  po_CredentialScope :: string
  po_SettlementAssetID :: string
  po_ProductID :: string
  po_MaximumExposureUnits :: string
  po_MaximumDurationDays :: "32 word"
  po_MinimumAssurance :: "16 word"
  po_IncomeAdvanceBps :: "32 word"
  po_MaximumFeatureAge :: duration

record Application =
  ap_DecisionID :: string
  ap_SubjectCommitment :: string
  ap_BorrowerAccount :: string
  ap_CredentialScope :: string
  ap_CredentialAssurance :: "16 word"
  ap_SettlementAssetID :: string
  ap_ProductID :: string
  ap_RequestedUnits :: string
  ap_DurationDays :: "32 word"
  ap_Features :: "FeatureEvidence list"

datatype Reason =
    ReasonApproved | ReasonAssuranceLow | ReasonCapacityInsufficient | ReasonDurationExceeded
  | ReasonScopeMismatch

record Decision =
  d_Approved :: bool
  d_MaximumExposureUnits :: string
  d_ReasonCodes :: "Reason list"
  d_FeatureEvidenceRoot :: string
  d_PolicyID :: string
  d_PolicyVersion :: string
  d_RuleSetHash :: string
  d_FeatureSchemaHash :: string
  d_DecidedAt :: gotime

definition FeatureVerifiedIncome :: string where
  "FeatureVerifiedIncome = ''verified_income_units''"

definition FeatureExistingObligation :: string where
  "FeatureExistingObligation = ''existing_obligations_units''"

section \<open>The policy\<close>

text \<open>\<open>positiveInteger\<close> of this package accepts any canonical integer; the callers test the sign.\<close>

definition canonicalInteger :: "string \<Rightarrow> int option" where
  "canonicalInteger s = canonical s"

definition underwriting_New :: "Policy \<Rightarrow> underwriting_error + Policy" where
  "underwriting_New policy =
     (case canonicalInteger (po_MaximumExposureUnits policy) of
        None \<Rightarrow> Inl ErrInvalidPolicy
      | Some mx \<Rightarrow>
          if po_PolicyID policy = [] \<or> po_Version policy = [] \<or> po_RuleSetHash policy = [] \<or>
             po_FeatureSchemaHash policy = [] \<or> po_CredentialScope policy = [] \<or>
             po_SettlementAssetID policy = [] \<or> po_ProductID policy = [] \<or> mx \<le> 0 \<or>
             po_MaximumDurationDays policy = 0 \<or> po_MinimumAssurance policy = 0 \<or>
             po_IncomeAdvanceBps policy = 0 \<or> po_IncomeAdvanceBps policy > 10000 \<or>
             po_MaximumFeatureAge policy \<le> 0
          then Inl ErrInvalidPolicy
          else Inr policy)"

section \<open>Evidence\<close>

definition char_byte :: "byte \<Rightarrow> char" where
  "char_byte b = char_of (unat b)"

text \<open>Eight big-endian bytes of the length, then the bytes of the text.\<close>

definition writeCanonical :: "string \<Rightarrow> string" where
  "writeCanonical s = map char_byte (be_bytes 8 (int (length s) mod 2 ^ 64)) @ s"

definition feature_bytes :: "(gotime \<Rightarrow> string) \<Rightarrow> FeatureEvidence \<Rightarrow> string" where
  "feature_bytes fmt f =
     writeCanonical (fe_FeatureID f) @ writeCanonical (fe_ValueUnits f) @
     writeCanonical (fe_SourceID f) @ writeCanonical (fe_TransformVersion f) @
     writeCanonical (fe_EvidenceHash f) @ writeCanonical (fmt (fe_ObservedAt f))"

definition feature_ok :: "gotime \<Rightarrow> Policy \<Rightarrow> FeatureEvidence \<Rightarrow> int option" where
  "feature_ok asOf policy f =
     (case canonicalInteger (fe_ValueUnits f) of
        None \<Rightarrow> None
      | Some v \<Rightarrow>
          if fe_FeatureID f = [] \<or> fe_SourceID f = [] \<or> fe_TransformVersion f = [] \<or>
             fe_EvidenceHash f = [] \<or> fe_ObservedAt f = 0 \<or> fe_ObservedAt f > asOf \<or>
             time_sub asOf (fe_ObservedAt f) > po_MaximumFeatureAge policy \<or> v < 0
          then None else Some v)"

fun read_features ::
  "(gotime \<Rightarrow> string) \<Rightarrow> gotime \<Rightarrow> Policy \<Rightarrow> FeatureEvidence list \<Rightarrow> (string, int) gomap \<Rightarrow> string
     \<Rightarrow> underwriting_error + (string, int) gomap \<times> string" where
  "read_features fmt asOf policy [] vals buffer = Inr (vals, buffer)"
| "read_features fmt asOf policy (f # fs) vals buffer =
     (case feature_ok asOf policy f of
        None \<Rightarrow> Inl ErrInvalidEvidence
      | Some v \<Rightarrow>
          if mget vals (fe_FeatureID f) \<noteq> None then Inl ErrInvalidEvidence
          else if fe_FeatureID f \<noteq> FeatureVerifiedIncome \<and>
                  fe_FeatureID f \<noteq> FeatureExistingObligation
          then Inl ErrInvalidEvidence
          else read_features fmt asOf policy fs (mput (fe_FeatureID f) v vals)
                 (buffer @ feature_bytes fmt f))"

definition authenticatedFeatures ::
  "(string \<Rightarrow> string) \<Rightarrow> (gotime \<Rightarrow> string) \<Rightarrow> FeatureEvidence list \<Rightarrow> gotime \<Rightarrow> Policy
     \<Rightarrow> underwriting_error + (string, int) gomap \<times> string" where
  "authenticatedFeatures sha fmt evidence asOf policy =
     (if length evidence \<noteq> 2 then Inl ErrInvalidEvidence
      else case read_features fmt asOf policy (sort_key fe_FeatureID evidence) [] [] of
        Inl e \<Rightarrow> Inl e
      | Inr (vals, buffer) \<Rightarrow>
          if mget vals FeatureVerifiedIncome = None \<or> mget vals FeatureExistingObligation = None
          then Inl ErrInvalidEvidence
          else Inr (vals, sha buffer))"

section \<open>The decision\<close>

definition decision_reasons :: "Policy \<Rightarrow> Application \<Rightarrow> int \<Rightarrow> int \<Rightarrow> Reason list" where
  "decision_reasons policy app requested capacity =
     (if ap_CredentialScope app \<noteq> po_CredentialScope policy then [ReasonScopeMismatch] else []) @
     (if ap_CredentialAssurance app < po_MinimumAssurance policy then [ReasonAssuranceLow] else []) @
     (if ap_DurationDays app > po_MaximumDurationDays policy then [ReasonDurationExceeded] else []) @
     (if requested > capacity then [ReasonCapacityInsufficient] else [])"

definition decision_capacity :: "Policy \<Rightarrow> int \<Rightarrow> int \<Rightarrow> int" where
  "decision_capacity policy income obligations =
     (let capacity = the_default 0 (quo (income * uint (po_IncomeAdvanceBps policy)) 10000);
          capacity = capacity - obligations;
          capacity = (if capacity < 0 then 0 else capacity);
          policyMaximum = the_default 0 (canonicalInteger (po_MaximumExposureUnits policy))
      in if capacity > policyMaximum then policyMaximum else capacity)"

definition Decide ::
  "(string \<Rightarrow> string) \<Rightarrow> (gotime \<Rightarrow> string) \<Rightarrow> Policy \<Rightarrow> Application \<Rightarrow> gotime
     \<Rightarrow> underwriting_error + Decision" where
  "Decide sha fmt policy app asOf =
     (if asOf = 0 \<or> ap_DecisionID app = [] \<or> ap_SubjectCommitment app = [] \<or>
         ap_BorrowerAccount app = [] \<or> ap_SettlementAssetID app \<noteq> po_SettlementAssetID policy \<or>
         ap_ProductID app \<noteq> po_ProductID policy \<or> ap_DurationDays app = 0
      then Inl ErrInvalidApplication
      else case canonicalInteger (ap_RequestedUnits app) of
        None \<Rightarrow> Inl ErrInvalidApplication
      | Some requested \<Rightarrow>
          if requested \<le> 0 then Inl ErrInvalidApplication
          else ebind (authenticatedFeatures sha fmt (ap_Features app) asOf policy) (\<lambda>(features, root).
            (let income = the_default 0 (mget features FeatureVerifiedIncome);
                 obligations = the_default 0 (mget features FeatureExistingObligation);
                 capacity = decision_capacity policy income obligations;
                 reasons = decision_reasons policy app requested capacity;
                 approved = (reasons = [])
             in Inr \<lparr>d_Approved = approved, d_MaximumExposureUnits = big_string capacity,
                     d_ReasonCodes = (if approved then [ReasonApproved] else reasons),
                     d_FeatureEvidenceRoot = root, d_PolicyID = po_PolicyID policy,
                     d_PolicyVersion = po_Version policy, d_RuleSetHash = po_RuleSetHash policy,
                     d_FeatureSchemaHash = po_FeatureSchemaHash policy, d_DecidedAt = asOf\<rparr>)))"

section \<open>What the evidence establishes\<close>

lemma feature_ok_iff:
  "feature_ok asOf policy f = Some v \<longleftrightarrow>
     fe_ValueUnits f = big_string v \<and> 0 \<le> v \<and> fe_FeatureID f \<noteq> [] \<and> fe_SourceID f \<noteq> [] \<and>
     fe_TransformVersion f \<noteq> [] \<and> fe_EvidenceHash f \<noteq> [] \<and> fe_ObservedAt f \<noteq> 0 \<and>
     fe_ObservedAt f \<le> asOf \<and> time_sub asOf (fe_ObservedAt f) \<le> po_MaximumFeatureAge policy"
  by (auto simp: feature_ok_def canonicalInteger_def canonical_iff split: option.splits if_splits)

lemma read_features_sound:
  "read_features fmt asOf policy fs vals buffer = Inr (vals', buffer') \<Longrightarrow>
   buffer' = buffer @ concat (map (feature_bytes fmt) fs) \<and>
   (\<forall>k v. mget vals' k = Some v \<longrightarrow> mget vals k = Some v \<or>
      (\<exists>f \<in> set fs. fe_FeatureID f = k \<and> feature_ok asOf policy f = Some v))"
proof (induction fs arbitrary: vals buffer)
  case (Cons f fs)
  from Cons.prems obtain v where v: "feature_ok asOf policy f = Some v"
    "read_features fmt asOf policy fs (mput (fe_FeatureID f) v vals) (buffer @ feature_bytes fmt f) =
      Inr (vals', buffer')"
    by (auto split: option.splits if_splits)
  from Cons.IH[OF v(2)] v(1) show ?case by (auto split: if_splits)
qed simp

text \<open>The evidence of one feature: it is part of the application, complete, fresh and not negative.\<close>

definition evidenced :: "Policy \<Rightarrow> Application \<Rightarrow> gotime \<Rightarrow> string \<Rightarrow> int \<Rightarrow> bool" where
  "evidenced policy app asOf feature v \<longleftrightarrow>
     (\<exists>f \<in> set (ap_Features app). fe_FeatureID f = feature \<and> feature_ok asOf policy f = Some v)"

lemma authenticatedFeatures_sound:
  assumes "authenticatedFeatures sha fmt (ap_Features app) asOf policy = Inr (vals, root)"
  shows "\<exists>income obligations. mget vals FeatureVerifiedIncome = Some income \<and>
     mget vals FeatureExistingObligation = Some obligations \<and>
     evidenced policy app asOf FeatureVerifiedIncome income \<and>
     evidenced policy app asOf FeatureExistingObligation obligations \<and>
     root = sha (concat (map (feature_bytes fmt) (sort_key fe_FeatureID (ap_Features app))))"
proof -
  from assms obtain buffer where b:
    "read_features fmt asOf policy (sort_key fe_FeatureID (ap_Features app)) [] [] = Inr (vals, buffer)"
    "root = sha buffer" "mget vals FeatureVerifiedIncome \<noteq> None"
    "mget vals FeatureExistingObligation \<noteq> None"
    by (auto simp: authenticatedFeatures_def split: if_splits sum.splits)
  from read_features_sound[OF b(1)] b(2-) show ?thesis by (auto simp: evidenced_def)
qed

text \<open>The exposure the rules allow: the advance on the income less the obligations, within bounds.\<close>

definition allowed_exposure :: "Policy \<Rightarrow> int \<Rightarrow> int \<Rightarrow> int \<Rightarrow> int" where
  "allowed_exposure policy income obligations mx =
     min mx (max 0 (income * uint (po_IncomeAdvanceBps policy) div 10000 - obligations))"

section \<open>The encoding of evidence\<close>

lemma char_byte_inject: "char_byte a = char_byte b \<longleftrightarrow> a = b"
proof
  assume "char_byte a = char_byte b"
  then have "of_char (char_of (unat a) :: char) = (of_char (char_of (unat b) :: char) :: nat)"
    by (simp add: char_byte_def)
  moreover have "unat a < 256" "unat b < 256"
    using unsigned_less[of a] unsigned_less[of b] by simp_all
  ultimately show "a = b" by (simp add: of_char_of word_unat_eq_iff)
qed simp

definition fits :: "string \<Rightarrow> bool" where
  "fits s \<longleftrightarrow> length s < 2 ^ 64"

lemma writeCanonical_prefix_free:
  assumes "writeCanonical s @ r = writeCanonical t @ q" "fits s" "fits t"
  shows "s = t \<and> r = q"
proof -
  let ?l = "\<lambda>u. int (length u) mod 2 ^ 64"
  from assms(1) have heads:
    "map char_byte (be_bytes 8 (?l s)) = map char_byte (be_bytes 8 (?l t))" "s @ r = t @ q"
    by (simp_all add: writeCanonical_def)
  then have "be_bytes 8 (?l s) = be_bytes 8 (?l t)"
    by (simp add: char_byte_inject inj_def inj_map_eq_map)
  moreover have "?l s = int (length s)" "?l t = int (length t)"
    using assms(2,3) by (simp_all add: fits_def)
  ultimately have "length s = length t"
    using be_bytes_inject[of 8 "?l s" "?l t"] assms(2,3) by (simp add: fits_def)
  with heads(2) show ?thesis by simp
qed

definition feature_fits :: "(gotime \<Rightarrow> string) \<Rightarrow> FeatureEvidence \<Rightarrow> bool" where
  "feature_fits fmt f \<longleftrightarrow>
     fits (fe_FeatureID f) \<and> fits (fe_ValueUnits f) \<and> fits (fe_SourceID f) \<and>
     fits (fe_TransformVersion f) \<and> fits (fe_EvidenceHash f) \<and> fits (fmt (fe_ObservedAt f))"

lemma feature_bytes_prefix_free:
  assumes "feature_bytes fmt f @ r = feature_bytes fmt g @ q"
    and "feature_fits fmt f" "feature_fits fmt g" "inj fmt"
  shows "f = g \<and> r = q"
  using assms
  by (auto simp: feature_bytes_def feature_fits_def dest!: writeCanonical_prefix_free injD)

lemma evidence_bytes_inject:
  assumes "concat (map (feature_bytes fmt) fs) = concat (map (feature_bytes fmt) gs)"
    and "length fs = length gs" "\<forall>f \<in> set fs. feature_fits fmt f" "\<forall>g \<in> set gs. feature_fits fmt g"
    and "inj fmt"
  shows "fs = gs"
  using assms(2,1,3,4)
proof (induction fs gs rule: list_induct2)
  case (Cons f fs g gs)
  then have "feature_bytes fmt f @ concat (map (feature_bytes fmt) fs) =
      feature_bytes fmt g @ concat (map (feature_bytes fmt) gs)" by simp
  from feature_bytes_prefix_free[OF this] Cons assms(5) show ?case by simp
qed simp

section \<open>A concrete application\<close>

definition sample_policy :: Policy where
  "sample_policy = \<lparr>po_PolicyID = ''P'', po_Version = ''1'', po_RuleSetHash = ''R'',
     po_FeatureSchemaHash = ''F'', po_CredentialScope = ''S'', po_SettlementAssetID = ''USD'',
     po_ProductID = ''L'', po_MaximumExposureUnits = big_string 1000, po_MaximumDurationDays = 30,
     po_MinimumAssurance = 2, po_IncomeAdvanceBps = 5000, po_MaximumFeatureAge = hour\<rparr>"

definition sample_feature :: "string \<Rightarrow> int \<Rightarrow> FeatureEvidence" where
  "sample_feature k v = \<lparr>fe_FeatureID = k, fe_ValueUnits = big_string v, fe_SourceID = ''src'',
     fe_TransformVersion = ''1'', fe_EvidenceHash = ''h'', fe_ObservedAt = 10\<rparr>"

definition sample_application :: Application where
  "sample_application = \<lparr>ap_DecisionID = ''D'', ap_SubjectCommitment = ''C'', ap_BorrowerAccount = ''B'',
     ap_CredentialScope = ''S'', ap_CredentialAssurance = 2, ap_SettlementAssetID = ''USD'',
     ap_ProductID = ''L'', ap_RequestedUnits = big_string 300, ap_DurationDays = 30,
     ap_Features = [sample_feature FeatureVerifiedIncome 1000,
                    sample_feature FeatureExistingObligation 100]\<rparr>"

lemma sample_policy_valid: "underwriting_New sample_policy = Inr sample_policy"
  by (simp add: underwriting_New_def sample_policy_def canonicalInteger_def hour_def)

lemma sample_sorted:
  "sort_key fe_FeatureID (ap_Features sample_application) =
     [sample_feature FeatureExistingObligation 100, sample_feature FeatureVerifiedIncome 1000]"
  by (simp add: sample_application_def sample_feature_def FeatureVerifiedIncome_def
      FeatureExistingObligation_def less_eq_char_def less_char_def)

lemma sample_decision:
  "\<exists>d. Decide sha big_string sample_policy sample_application 20 = Inr d \<and> d_Approved d"
proof -
  have "authenticatedFeatures sha big_string (ap_Features sample_application) 20 sample_policy =
    Inr ([(FeatureExistingObligation, 100), (FeatureVerifiedIncome, 1000)],
         sha (concat (map (feature_bytes big_string)
           [sample_feature FeatureExistingObligation 100, sample_feature FeatureVerifiedIncome 1000])))"
    unfolding authenticatedFeatures_def sample_sorted
    by (simp add: sample_application_def sample_feature_def feature_ok_def canonicalInteger_def
        FeatureVerifiedIncome_def FeatureExistingObligation_def time_sub_def sample_policy_def
        max_duration_def min_duration_def hour_def)
  then show ?thesis
    by (simp add: Decide_def decision_capacity_def decision_reasons_def sample_application_def
        sample_policy_def canonicalInteger_def quo_def
        FeatureVerifiedIncome_def FeatureExistingObligation_def Let_def)
qed

section \<open>Properties\<close>

text \<open>
  C10: a decision follows the policy. When the engine of a valid policy decides, income and
  obligations come from complete, fresh, non-negative evidence in the application; the exposure
  it reports is the advance on the income less the obligations, between zero and the policy's
  maximum; it approves exactly when scope, assurance and duration comply and the request is within that
  exposure; and then request plus obligations stay within the advance on the income.
\<close>

theorem Decide_follows_policy:
  assumes "underwriting_New policy = Inr engine" and "Decide sha fmt engine app asOf = Inr d"
  shows "\<exists>income obligations requested mx.
     evidenced engine app asOf FeatureVerifiedIncome income \<and>
     evidenced engine app asOf FeatureExistingObligation obligations \<and>
     ap_RequestedUnits app = big_string requested \<and> 0 < requested \<and>
     po_MaximumExposureUnits engine = big_string mx \<and>
     d_MaximumExposureUnits d = big_string (allowed_exposure engine income obligations mx) \<and>
     0 \<le> allowed_exposure engine income obligations mx \<and>
     allowed_exposure engine income obligations mx \<le> mx \<and>
     (d_Approved d \<longleftrightarrow>
        ap_CredentialScope app = po_CredentialScope engine \<and>
        po_MinimumAssurance engine \<le> ap_CredentialAssurance app \<and>
        ap_DurationDays app \<le> po_MaximumDurationDays engine \<and>
        requested \<le> allowed_exposure engine income obligations mx) \<and>
     (d_Approved d \<longrightarrow>
        requested + obligations \<le> income * uint (po_IncomeAdvanceBps engine) div 10000) \<and>
     (d_ReasonCodes d = [ReasonApproved] \<longleftrightarrow> d_Approved d)"
proof -
  from assms(1) obtain mx where eng: "engine = policy" "po_MaximumExposureUnits engine = big_string mx" "0 < mx"
    by (auto simp: underwriting_New_def canonicalInteger_def canonical_iff split: option.splits if_splits)
  from assms(2) obtain requested vals root where r:
    "ap_RequestedUnits app = big_string requested" "0 < requested"
    "authenticatedFeatures sha fmt (ap_Features app) asOf engine = Inr (vals, root)"
    by (auto simp: Decide_def canonicalInteger_def canonical_iff split: option.splits if_splits)
  from authenticatedFeatures_sound[OF r(3)] obtain income obligations where f:
    "mget vals FeatureVerifiedIncome = Some income"
    "mget vals FeatureExistingObligation = Some obligations"
    "evidenced engine app asOf FeatureVerifiedIncome income"
    "evidenced engine app asOf FeatureExistingObligation obligations" by blast
  have i: "0 \<le> income" using f(3) by (auto simp: evidenced_def feature_ok_iff)
  have q: "quo (income * uint (po_IncomeAdvanceBps engine)) 10000 =
      Some (income * uint (po_IncomeAdvanceBps engine) div 10000)"
    using i by (simp add: quo_nonneg)
  define cap where "cap = allowed_exposure engine income obligations mx"
  have cap: "0 \<le> cap" "cap \<le> mx" using eng(3) by (auto simp: cap_def allowed_exposure_def)
  have dc: "decision_capacity engine income obligations = cap"
    using eng(2,3) q
    by (auto simp: cap_def allowed_exposure_def decision_capacity_def canonicalInteger_def Let_def)
  have reasons: "decision_reasons engine app requested cap = [] \<longleftrightarrow>
        ap_CredentialScope app = po_CredentialScope engine \<and>
        po_MinimumAssurance engine \<le> ap_CredentialAssurance app \<and>
        ap_DurationDays app \<le> po_MaximumDurationDays engine \<and> requested \<le> cap"
    "decision_reasons engine app requested cap \<noteq> [ReasonApproved]"
    by (auto simp: decision_reasons_def)
  from assms(2) r f dc have d: "d_MaximumExposureUnits d = big_string cap"
    "d_Approved d \<longleftrightarrow> decision_reasons engine app requested cap = []"
    "d_ReasonCodes d = (if decision_reasons engine app requested cap = [] then [ReasonApproved]
       else decision_reasons engine app requested cap)"
    by (auto simp: Decide_def canonicalInteger_def Let_def split: if_split_asm)
  moreover have "d_Approved d \<longrightarrow>
      requested + obligations \<le> income * uint (po_IncomeAdvanceBps engine) div 10000"
    using d(2) r(2) reasons(1) by (auto simp: cap_def allowed_exposure_def)
  ultimately show ?thesis
    using f(3,4) r(1,2) eng(2) cap reasons d unfolding cap_def
    by - (rule exI[of _ income], rule exI[of _ obligations], rule exI[of _ requested],
        rule exI[of _ mx], simp)
qed

theorem Decide_follows_policy_witness:
  "\<exists>income obligations. evidenced sample_policy sample_application 20 FeatureVerifiedIncome income \<and>
     evidenced sample_policy sample_application 20 FeatureExistingObligation obligations \<and>
     300 + obligations \<le> income * 5000 div 10000"
proof -
  obtain d where d: "Decide (\<lambda>s. s) big_string sample_policy sample_application 20 = Inr d" "d_Approved d"
    using sample_decision[of "\<lambda>s. s"] by blast
  from Decide_follows_policy[OF sample_policy_valid d(1)] d(2) show ?thesis
    by (auto simp: sample_application_def sample_policy_def)
qed

text \<open>
  the evidence encoding is unambiguous. Because every field is written with its length, two
  lists of evidence of the same length with the same hashed byte string are the same list, provided
  the fields are shorter than 2 to the 64 bytes and instants are printed injectively; the evidence root
  therefore binds each field of each feature, whatever bytes the fields contain.
\<close>

theorem evidence_encoding_injective:
  assumes "concat (map (feature_bytes fmt) fs) = concat (map (feature_bytes fmt) gs)"
    and "length fs = length gs" and "\<forall>f \<in> set (fs @ gs). feature_fits fmt f" and "inj fmt"
  shows "fs = gs"
  using evidence_bytes_inject[OF assms(1,2) _ _ assms(4)] assms(3) by simp

theorem evidence_encoding_injective_witness:
  "sort_key fe_FeatureID (ap_Features sample_application) =
     [sample_feature FeatureExistingObligation 100, sample_feature FeatureVerifiedIncome 1000]"
proof (rule evidence_encoding_injective[of big_string])
  have "feature_fits big_string (sample_feature k v)" if "fits k" "fits (big_string v)" for k v
    using that by (simp add: feature_fits_def fits_def sample_feature_def big_eval)
  then show "\<forall>f \<in> set (sort_key fe_FeatureID (ap_Features sample_application) @
     [sample_feature FeatureExistingObligation 100, sample_feature FeatureVerifiedIncome 1000]).
       feature_fits big_string f"
    unfolding sample_sorted
    by (simp add: fits_def big_eval FeatureVerifiedIncome_def FeatureExistingObligation_def)
qed (simp_all only: sample_sorted list.size inj_def big_string_inject simp_thms)

end
