(* ===== verification/Message_Types.thy ===== *)
theory Message_Types
  imports Abi_Words
begin

text \<open>
  The cross-chain message of \<^verbatim>\<open>schemas/proto/unified/v1/crosschain.proto\<close>: the envelope, its typed
  action (a \<open>oneof\<close> with one payload record per action), the action numbers and the durable message
  states. Byte fields are byte lists of any length, as protobuf delivers them; numbers keep their
  width. A missing sub-message reads as its zero value, as protobuf's getters do.
\<close>

section \<open>Enumerations\<close>

text \<open>\<open>OTHER_ACTION\<close> is an \<open>int32\<close> the schema gives no name to.\<close>

datatype CrossChainActionType =
    ACTION_UNSPECIFIED
  | CANONICAL_UFT_LOCKED_V1
  | WRAPPED_UFT_MINTED_V1
  | WRAPPED_UFT_BURNED_V1
  | CANONICAL_UFT_RELEASED_V1
  | SATELLITE_COLLATERAL_LOCKED_V1
  | HOME_DISBURSEMENT_AUTHORIZED_V1
  | SATELLITE_DISBURSEMENT_SETTLED_V1
  | SATELLITE_REPAYMENT_BURNED_V1
  | HOME_COLLATERAL_RELEASE_AUTHORIZED_V1
  | SATELLITE_COLLATERAL_RELEASED_V1
  | STATE_ACKNOWLEDGED_V1
  | CANCELLATION_REQUESTED_V1
  | DESTINATION_TOMBSTONED_V1
  | SOURCE_COMPENSATED_V1
  | SATELLITE_UFT_PERMANENT_BURNED_V1
  | ROUTE_GOVERNANCE_V1
  | OTHER_ACTION "32 word"

text \<open>The conversion \<^verbatim>\<open>uint64(envelope.GetActionType())\<close>.\<close>

primrec action_number :: "CrossChainActionType \<Rightarrow> 64 word" where
  "action_number ACTION_UNSPECIFIED = 0"
| "action_number CANONICAL_UFT_LOCKED_V1 = 1"
| "action_number WRAPPED_UFT_MINTED_V1 = 2"
| "action_number WRAPPED_UFT_BURNED_V1 = 3"
| "action_number CANONICAL_UFT_RELEASED_V1 = 4"
| "action_number SATELLITE_COLLATERAL_LOCKED_V1 = 5"
| "action_number HOME_DISBURSEMENT_AUTHORIZED_V1 = 6"
| "action_number SATELLITE_DISBURSEMENT_SETTLED_V1 = 7"
| "action_number SATELLITE_REPAYMENT_BURNED_V1 = 8"
| "action_number HOME_COLLATERAL_RELEASE_AUTHORIZED_V1 = 9"
| "action_number SATELLITE_COLLATERAL_RELEASED_V1 = 10"
| "action_number STATE_ACKNOWLEDGED_V1 = 11"
| "action_number CANCELLATION_REQUESTED_V1 = 12"
| "action_number DESTINATION_TOMBSTONED_V1 = 13"
| "action_number SOURCE_COMPENSATED_V1 = 14"
| "action_number SATELLITE_UFT_PERMANENT_BURNED_V1 = 15"
| "action_number ROUTE_GOVERNANCE_V1 = 16"
| "action_number (OTHER_ACTION n) = scast n"

datatype CrossChainMessageState =
    STATE_UNSPECIFIED
  | CREATED
  | SOURCE_FINALIZING
  | SOURCE_FINAL
  | SENT
  | RELAYED
  | VERIFIED
  | EXECUTED
  | ACK_PENDING
  | ACKNOWLEDGED
  | REJECTED
  | FAILED
  | EXPIRED
  | RECOVERY_PENDING
  | DESTINATION_TOMBSTONED
  | SOURCE_COMPENSATED
  | RECOVERED
  | DISPUTED
  | OTHER_STATE "32 word"

section \<open>Payloads\<close>

record CanonicalUftLockPayload =
  cul_LockId :: "byte list"
  cul_LoanId :: "byte list"
  cul_CanonicalToken :: "byte list"
  cul_HomeBridgeHub :: "byte list"
  cul_WrappedToken :: "byte list"
  cul_DestinationRecipient :: "byte list"
  cul_Amount :: string

record WrappedUftMintedPayload =
  wum_LoanId :: "byte list"
  wum_LockId :: "byte list"
  wum_HomeLoanAccount :: "byte list"
  wum_Borrower :: "byte list"
  wum_Lender :: "byte list"
  wum_WrappedToken :: "byte list"
  wum_Amount :: string
  wum_PolicyHash :: "byte list"

record WrappedUftBurnedPayload =
  wub_BurnId :: "byte list"
  wub_BackingRoutePolicyHash :: "byte list"
  wub_CanonicalToken :: "byte list"
  wub_HomeBridgeHub :: "byte list"
  wub_WrappedToken :: "byte list"
  wub_Recipient :: "byte list"
  wub_Amount :: string

record CanonicalUftReleasedPayload =
  cur_BurnId :: "byte list"
  cur_CanonicalToken :: "byte list"
  cur_Recipient :: "byte list"
  cur_Amount :: string
  cur_WrappedBurnMessageId :: "byte list"

record SatelliteCollateralLockedPayload =
  scl_LoanId :: "byte list"
  scl_CollateralId :: "byte list"
  scl_HomeLoanAccount :: "byte list"
  scl_Borrower :: "byte list"
  scl_Lender :: "byte list"
  scl_CollateralToken :: "byte list"
  scl_Amount :: string
  scl_PolicyHash :: "byte list"

record HomeDisbursementAuthorizedPayload =
  hda_LoanId :: "byte list"
  hda_FundingLockId :: "byte list"
  hda_HomeLoanAccount :: "byte list"
  hda_Borrower :: "byte list"
  hda_Lender :: "byte list"
  hda_WrappedToken :: "byte list"
  hda_Amount :: string
  hda_PolicyHash :: "byte list"

record SatelliteDisbursementSettledPayload =
  sds_LoanId :: "byte list"
  sds_FundingLockId :: "byte list"
  sds_HomeLoanAccount :: "byte list"
  sds_Borrower :: "byte list"
  sds_Lender :: "byte list"
  sds_WrappedToken :: "byte list"
  sds_Amount :: string
  sds_PolicyHash :: "byte list"

record SatelliteRepaymentBurnedPayload =
  srb_BurnId :: "byte list"
  srb_LoanId :: "byte list"
  srb_PaymentId :: "byte list"
  srb_BackingRoutePolicyHash :: "byte list"
  srb_CanonicalToken :: "byte list"
  srb_HomeBridgeHub :: "byte list"
  srb_WrappedToken :: "byte list"
  srb_Lender :: "byte list"
  srb_Amount :: string

record HomeCollateralReleaseAuthorizedPayload =
  hcr_LoanId :: "byte list"
  hcr_CollateralId :: "byte list"
  hcr_HomeLoanAccount :: "byte list"
  hcr_Borrower :: "byte list"
  hcr_Lender :: "byte list"
  hcr_CollateralToken :: "byte list"
  hcr_Amount :: string
  hcr_PolicyHash :: "byte list"

record SatelliteCollateralReleasedPayload =
  scr_LoanId :: "byte list"
  scr_CollateralId :: "byte list"
  scr_HomeLoanAccount :: "byte list"
  scr_Borrower :: "byte list"
  scr_Lender :: "byte list"
  scr_CollateralToken :: "byte list"
  scr_Amount :: string
  scr_PolicyHash :: "byte list"

record LoanCancellationRequestedPayload =
  lcr_CancellationId :: "byte list"
  lcr_LoanId :: "byte list"
  lcr_FundingLockId :: "byte list"
  lcr_DisbursementMessageId :: "byte list"
  lcr_DisbursementTombstoneHash :: "byte list"
  lcr_HomeLoanAccount :: "byte list"
  lcr_Lender :: "byte list"
  lcr_WrappedToken :: "byte list"
  lcr_Amount :: string
  lcr_PolicyHash :: "byte list"
  lcr_ReasonCode :: "byte list"

record SatelliteFundingCancelledPayload =
  sfc_CancellationId :: "byte list"
  sfc_LoanId :: "byte list"
  sfc_FundingLockId :: "byte list"
  sfc_DisbursementMessageId :: "byte list"
  sfc_DisbursementTombstoneHash :: "byte list"
  sfc_EscrowBurnResultHash :: "byte list"
  sfc_HomeLoanAccount :: "byte list"
  sfc_Lender :: "byte list"
  sfc_WrappedToken :: "byte list"
  sfc_Amount :: string
  sfc_PolicyHash :: "byte list"

record SatelliteUftPermanentBurnedPayload =
  spb_BurnId :: "byte list"
  spb_BackingRoutePolicyHash :: "byte list"
  spb_CanonicalToken :: "byte list"
  spb_HomeBridgeHub :: "byte list"
  spb_WrappedToken :: "byte list"
  spb_Amount :: string

record LoanCancellationAuthorization =
  lca_LoanRouter :: "byte list"
  lca_LoanId :: "byte list"
  lca_FundingLockId :: "byte list"
  lca_DisbursementMessageId :: "byte list"
  lca_DisbursementTombstoneHash :: "byte list"
  lca_Amount :: string
  lca_PolicyHash :: "byte list"
  lca_AuthorizationNonce :: "64 word"
  lca_ValidUntil :: "64 word"
  lca_ReasonCode :: "byte list"
  lca_AuthorizerSetHash :: "byte list"
  lca_AuthorizerSetVersion :: "32 word"

datatype TypedAction =
    NoTypedAction
  | CanonicalUftLock CanonicalUftLockPayload
  | WrappedUftMinted WrappedUftMintedPayload
  | WrappedUftBurned WrappedUftBurnedPayload
  | CanonicalUftReleased CanonicalUftReleasedPayload
  | SatelliteCollateralLocked SatelliteCollateralLockedPayload
  | HomeDisbursementAuthorized HomeDisbursementAuthorizedPayload
  | SatelliteDisbursementSettled SatelliteDisbursementSettledPayload
  | SatelliteRepaymentBurned SatelliteRepaymentBurnedPayload
  | HomeCollateralReleaseAuthorized HomeCollateralReleaseAuthorizedPayload
  | SatelliteCollateralReleased SatelliteCollateralReleasedPayload
  | LoanCancellationRequested LoanCancellationRequestedPayload
  | SatelliteFundingCancelled SatelliteFundingCancelledPayload
  | SatelliteUftPermanentBurned SatelliteUftPermanentBurnedPayload

section \<open>Envelope\<close>

record Timestamp =
  ts_Seconds :: "64 word"
  ts_Nanos :: "32 word"

record CrossChainMessageEnvelope =
  en_SchemaVersion :: "32 word"
  en_MessageId :: "byte list"
  en_ProtocolId :: "byte list"
  en_SourceChainId :: string
  en_SourceCoordinator :: "byte list"
  en_SourceComponent :: "byte list"
  en_DestinationChainId :: string
  en_DestinationCoordinator :: "byte list"
  en_DestinationComponent :: "byte list"
  en_LaneId :: "byte list"
  en_SourceNonce :: "64 word"
  en_AggregateId :: "byte list"
  en_ActionType :: CrossChainActionType
  en_TypedActionPayload :: "byte list"
  en_PayloadHash :: "byte list"
  en_CreatedAt :: "Timestamp option"
  en_ExpiresAt :: "Timestamp option"
  en_RoutePolicyHash :: "byte list"
  en_AdapterSetPolicyHash :: "byte list"
  en_SourceFinalityPolicyHash :: "byte list"
  en_DestinationFinalityPolicyHash :: "byte list"
  en_CorrelationId :: "byte list"
  en_CausationMessageId :: "byte list"
  en_SupersededMessageId :: "byte list"
  en_TypedAction :: TypedAction

type_synonym Envelope = CrossChainMessageEnvelope

text \<open>The getters on a possibly missing timestamp.\<close>

definition get_seconds :: "Timestamp option \<Rightarrow> 64 word" where
  "get_seconds t = (case t of None \<Rightarrow> 0 | Some x \<Rightarrow> ts_Seconds x)"

definition get_nanos :: "Timestamp option \<Rightarrow> 32 word" where
  "get_nanos t = (case t of None \<Rightarrow> 0 | Some x \<Rightarrow> ts_Nanos x)"

end
