(* ===== verification/Message_Digest.thy ===== *)
theory Message_Digest
  imports Message_Types
begin

text \<open>
  \<^verbatim>\<open>cross-chain-coordinator/message/digest.go\<close>: the canonical identity of a message. The typed action is
  encoded as Solidity's \<^verbatim>\<open>abi.encode\<close> of its struct; the envelope commits to the hash of those bytes, and
  the message identifier is the hash of the ABI encoding of every other field with a domain tag.

  Environment (\<open>MessageEnv\<close>): \<open>env_keccak\<close> is Keccak-256, \<open>env_marshal\<close> protobuf's deterministic
  serialization (\<open>None\<close> when it fails). Nothing is assumed of them except where a lemma says so.
  Go iterates over a map literal in \<open>validateEnvelope\<close>; the model visits the fields in the order
  they are written, which decides only which field the error names.
\<close>

record MessageEnv =
  env_keccak :: "byte list \<Rightarrow> byte list"
  env_marshal :: "Envelope \<Rightarrow> byte list option"

datatype message_error =
    ErrInvalidEnvelope string
  | ErrDigestMismatch
  | MarshalFailure

section \<open>Words\<close>

definition exactLength :: "byte list \<Rightarrow> nat \<Rightarrow> string \<Rightarrow> message_error + unit" where
  "exactLength value sz name =
     (if length value \<noteq> sz then Inl (ErrInvalidEnvelope name) else Inr ())"

definition uint256 :: "string \<Rightarrow> string \<Rightarrow> message_error + byte list" where
  "uint256 value name =
     (case big_set_string value of
        None \<Rightarrow> Inl (ErrInvalidEnvelope name)
      | Some number \<Rightarrow>
          if number \<le> 0 \<or> number \<ge> 2 ^ 256 \<or> big_string number \<noteq> value
          then Inl (ErrInvalidEnvelope name)
          else (case big_fill_bytes 32 number of
                  None \<Rightarrow> Inl (ErrInvalidEnvelope name)
                | Some word \<Rightarrow> Inr word))"

definition uintWord :: "64 word \<Rightarrow> byte list" where
  "uintWord value = replicate 24 0 @ put_uint64 value"

definition addressWord :: "byte list \<Rightarrow> byte list" where
  "addressWord address = replicate 12 0 @ take 20 address @ replicate (20 - length address) 0"

text \<open>An \<open>abiWord\<close> holds a word or the error that prevented it.\<close>

type_synonym abiWord = "message_error + byte list"

definition bytes32ABI :: "byte list \<Rightarrow> string \<Rightarrow> abiWord" where
  "bytes32ABI value name = ebind (exactLength value 32 name) (\<lambda>_. Inr value)"

definition addressABI :: "byte list \<Rightarrow> string \<Rightarrow> abiWord" where
  "addressABI value name = ebind (exactLength value 20 name) (\<lambda>_. Inr (addressWord value))"

definition uint256ABI :: "string \<Rightarrow> string \<Rightarrow> abiWord" where
  "uint256ABI value name = uint256 value name"

fun encode_words :: "byte list \<Rightarrow> abiWord list \<Rightarrow> message_error + byte list" where
  "encode_words encoded [] = Inr encoded"
| "encode_words encoded (word # words) = ebind word (\<lambda>value. encode_words (encoded @ value) words)"

definition encodeStatic :: "abiWord list \<Rightarrow> message_error + byte list" where
  "encodeStatic words = encode_words [] words"

definition encodeLoanAction ::
  "byte list \<Rightarrow> byte list \<Rightarrow> byte list \<Rightarrow> byte list \<Rightarrow> byte list \<Rightarrow> byte list \<Rightarrow> string \<Rightarrow>
   byte list \<Rightarrow> string \<Rightarrow> string \<Rightarrow> message_error + byte list" where
  "encodeLoanAction loanID operationID homeLoan borrower lender asset amount policyHash
     operationName assetName = encodeStatic
     [bytes32ABI loanID ''loan_id'',
      bytes32ABI operationID operationName,
      addressABI homeLoan ''home_loan_account'',
      addressABI borrower ''borrower'',
      addressABI lender ''lender'',
      addressABI asset assetName,
      uint256ABI amount ''amount'',
      bytes32ABI policyHash ''policy_hash'']"

section \<open>Typed actions\<close>

definition encodeCanonicalUftLock :: "CanonicalUftLockPayload \<Rightarrow> message_error + byte list" where
  "encodeCanonicalUftLock p = encodeStatic
     [bytes32ABI (cul_LockId p) ''lock_id'',
      bytes32ABI (cul_LoanId p) ''loan_id'',
      addressABI (cul_CanonicalToken p) ''canonical_token'',
      addressABI (cul_HomeBridgeHub p) ''home_bridge_hub'',
      addressABI (cul_WrappedToken p) ''wrapped_token'',
      addressABI (cul_DestinationRecipient p) ''destination_recipient'',
      uint256ABI (cul_Amount p) ''amount'']"

definition encodeWrappedUftMinted :: "WrappedUftMintedPayload \<Rightarrow> message_error + byte list" where
  "encodeWrappedUftMinted p = encodeStatic
     [bytes32ABI (wum_LoanId p) ''loan_id'',
      bytes32ABI (wum_LockId p) ''lock_id'',
      addressABI (wum_HomeLoanAccount p) ''home_loan_account'',
      addressABI (wum_Borrower p) ''borrower'',
      addressABI (wum_Lender p) ''lender'',
      addressABI (wum_WrappedToken p) ''wrapped_token'',
      uint256ABI (wum_Amount p) ''amount'',
      bytes32ABI (wum_PolicyHash p) ''policy_hash'']"

definition encodeWrappedUftBurned :: "WrappedUftBurnedPayload \<Rightarrow> message_error + byte list" where
  "encodeWrappedUftBurned p = encodeStatic
     [bytes32ABI (wub_BurnId p) ''burn_id'',
      bytes32ABI (wub_BackingRoutePolicyHash p) ''backing_route_policy_hash'',
      addressABI (wub_CanonicalToken p) ''canonical_token'',
      addressABI (wub_HomeBridgeHub p) ''home_bridge_hub'',
      addressABI (wub_WrappedToken p) ''wrapped_token'',
      addressABI (wub_Recipient p) ''recipient'',
      uint256ABI (wub_Amount p) ''amount'']"

definition encodeCanonicalUftReleased :: "CanonicalUftReleasedPayload \<Rightarrow> message_error + byte list" where
  "encodeCanonicalUftReleased p = encodeStatic
     [bytes32ABI (cur_BurnId p) ''burn_id'',
      addressABI (cur_CanonicalToken p) ''canonical_token'',
      addressABI (cur_Recipient p) ''recipient'',
      uint256ABI (cur_Amount p) ''amount'',
      bytes32ABI (cur_WrappedBurnMessageId p) ''wrapped_burn_message_id'']"

definition encodeSatelliteCollateralLocked :: "SatelliteCollateralLockedPayload \<Rightarrow> message_error + byte list" where
  "encodeSatelliteCollateralLocked p = encodeLoanAction (scl_LoanId p) (scl_CollateralId p)
     (scl_HomeLoanAccount p) (scl_Borrower p) (scl_Lender p) (scl_CollateralToken p)
     (scl_Amount p) (scl_PolicyHash p)
     ''collateral_id'' ''collateral_token''"

definition encodeHomeDisbursementAuthorized :: "HomeDisbursementAuthorizedPayload \<Rightarrow> message_error + byte list" where
  "encodeHomeDisbursementAuthorized p = encodeLoanAction (hda_LoanId p) (hda_FundingLockId p)
     (hda_HomeLoanAccount p) (hda_Borrower p) (hda_Lender p) (hda_WrappedToken p)
     (hda_Amount p) (hda_PolicyHash p)
     ''funding_lock_id'' ''wrapped_token''"

definition encodeSatelliteDisbursementSettled :: "SatelliteDisbursementSettledPayload \<Rightarrow> message_error + byte list" where
  "encodeSatelliteDisbursementSettled p = encodeLoanAction (sds_LoanId p) (sds_FundingLockId p)
     (sds_HomeLoanAccount p) (sds_Borrower p) (sds_Lender p) (sds_WrappedToken p)
     (sds_Amount p) (sds_PolicyHash p)
     ''funding_lock_id'' ''wrapped_token''"

definition encodeSatelliteRepaymentBurned :: "SatelliteRepaymentBurnedPayload \<Rightarrow> message_error + byte list" where
  "encodeSatelliteRepaymentBurned p = encodeStatic
     [bytes32ABI (srb_BurnId p) ''burn_id'',
      bytes32ABI (srb_LoanId p) ''loan_id'',
      bytes32ABI (srb_PaymentId p) ''payment_id'',
      bytes32ABI (srb_BackingRoutePolicyHash p) ''backing_route_policy_hash'',
      addressABI (srb_CanonicalToken p) ''canonical_token'',
      addressABI (srb_HomeBridgeHub p) ''home_bridge_hub'',
      addressABI (srb_WrappedToken p) ''wrapped_token'',
      addressABI (srb_Lender p) ''lender'',
      uint256ABI (srb_Amount p) ''amount'']"

definition encodeHomeCollateralReleaseAuthorized :: "HomeCollateralReleaseAuthorizedPayload \<Rightarrow> message_error + byte list" where
  "encodeHomeCollateralReleaseAuthorized p = encodeLoanAction (hcr_LoanId p) (hcr_CollateralId p)
     (hcr_HomeLoanAccount p) (hcr_Borrower p) (hcr_Lender p) (hcr_CollateralToken p)
     (hcr_Amount p) (hcr_PolicyHash p)
     ''collateral_id'' ''collateral_token''"

definition encodeSatelliteCollateralReleased :: "SatelliteCollateralReleasedPayload \<Rightarrow> message_error + byte list" where
  "encodeSatelliteCollateralReleased p = encodeLoanAction (scr_LoanId p) (scr_CollateralId p)
     (scr_HomeLoanAccount p) (scr_Borrower p) (scr_Lender p) (scr_CollateralToken p)
     (scr_Amount p) (scr_PolicyHash p)
     ''collateral_id'' ''collateral_token''"

definition encodeLoanCancellationRequested :: "LoanCancellationRequestedPayload \<Rightarrow> message_error + byte list" where
  "encodeLoanCancellationRequested p = encodeStatic
     [bytes32ABI (lcr_CancellationId p) ''cancellation_id'',
      bytes32ABI (lcr_LoanId p) ''loan_id'',
      bytes32ABI (lcr_FundingLockId p) ''funding_lock_id'',
      bytes32ABI (lcr_DisbursementMessageId p) ''disbursement_message_id'',
      bytes32ABI (lcr_DisbursementTombstoneHash p) ''disbursement_tombstone_hash'',
      addressABI (lcr_HomeLoanAccount p) ''home_loan_account'',
      addressABI (lcr_Lender p) ''lender'',
      addressABI (lcr_WrappedToken p) ''wrapped_token'',
      uint256ABI (lcr_Amount p) ''amount'',
      bytes32ABI (lcr_PolicyHash p) ''policy_hash'',
      bytes32ABI (lcr_ReasonCode p) ''reason_code'']"

definition encodeSatelliteFundingCancelled :: "SatelliteFundingCancelledPayload \<Rightarrow> message_error + byte list" where
  "encodeSatelliteFundingCancelled p = encodeStatic
     [bytes32ABI (sfc_CancellationId p) ''cancellation_id'',
      bytes32ABI (sfc_LoanId p) ''loan_id'',
      bytes32ABI (sfc_FundingLockId p) ''funding_lock_id'',
      bytes32ABI (sfc_DisbursementMessageId p) ''disbursement_message_id'',
      bytes32ABI (sfc_DisbursementTombstoneHash p) ''disbursement_tombstone_hash'',
      bytes32ABI (sfc_EscrowBurnResultHash p) ''escrow_burn_result_hash'',
      addressABI (sfc_HomeLoanAccount p) ''home_loan_account'',
      addressABI (sfc_Lender p) ''lender'',
      addressABI (sfc_WrappedToken p) ''wrapped_token'',
      uint256ABI (sfc_Amount p) ''amount'',
      bytes32ABI (sfc_PolicyHash p) ''policy_hash'']"

definition encodeSatelliteUftPermanentBurned :: "SatelliteUftPermanentBurnedPayload \<Rightarrow> message_error + byte list" where
  "encodeSatelliteUftPermanentBurned p = encodeStatic
     [bytes32ABI (spb_BurnId p) ''burn_id'',
      bytes32ABI (spb_BackingRoutePolicyHash p) ''backing_route_policy_hash'',
      addressABI (spb_CanonicalToken p) ''canonical_token'',
      addressABI (spb_HomeBridgeHub p) ''home_bridge_hub'',
      addressABI (spb_WrappedToken p) ''wrapped_token'',
      uint256ABI (spb_Amount p) ''amount'']"

definition actionMismatch :: message_error where
  "actionMismatch = ErrInvalidEnvelope ''action_type and typed_action oneof disagree''"

definition EncodeTypedActionABI :: "Envelope \<Rightarrow> message_error + byte list" where
  "EncodeTypedActionABI envelope =
     (case en_ActionType envelope of
        CANONICAL_UFT_LOCKED_V1 \<Rightarrow>
          (case en_TypedAction envelope of
             CanonicalUftLock action \<Rightarrow> encodeCanonicalUftLock action
           | _ \<Rightarrow> Inl actionMismatch)
      | WRAPPED_UFT_MINTED_V1 \<Rightarrow>
          (case en_TypedAction envelope of
             WrappedUftMinted action \<Rightarrow> encodeWrappedUftMinted action
           | _ \<Rightarrow> Inl actionMismatch)
      | WRAPPED_UFT_BURNED_V1 \<Rightarrow>
          (case en_TypedAction envelope of
             WrappedUftBurned action \<Rightarrow> encodeWrappedUftBurned action
           | _ \<Rightarrow> Inl actionMismatch)
      | CANONICAL_UFT_RELEASED_V1 \<Rightarrow>
          (case en_TypedAction envelope of
             CanonicalUftReleased action \<Rightarrow> encodeCanonicalUftReleased action
           | _ \<Rightarrow> Inl actionMismatch)
      | SATELLITE_COLLATERAL_LOCKED_V1 \<Rightarrow>
          (case en_TypedAction envelope of
             SatelliteCollateralLocked action \<Rightarrow> encodeSatelliteCollateralLocked action
           | _ \<Rightarrow> Inl actionMismatch)
      | HOME_DISBURSEMENT_AUTHORIZED_V1 \<Rightarrow>
          (case en_TypedAction envelope of
             HomeDisbursementAuthorized action \<Rightarrow> encodeHomeDisbursementAuthorized action
           | _ \<Rightarrow> Inl actionMismatch)
      | SATELLITE_DISBURSEMENT_SETTLED_V1 \<Rightarrow>
          (case en_TypedAction envelope of
             SatelliteDisbursementSettled action \<Rightarrow> encodeSatelliteDisbursementSettled action
           | _ \<Rightarrow> Inl actionMismatch)
      | SATELLITE_REPAYMENT_BURNED_V1 \<Rightarrow>
          (case en_TypedAction envelope of
             SatelliteRepaymentBurned action \<Rightarrow> encodeSatelliteRepaymentBurned action
           | _ \<Rightarrow> Inl actionMismatch)
      | HOME_COLLATERAL_RELEASE_AUTHORIZED_V1 \<Rightarrow>
          (case en_TypedAction envelope of
             HomeCollateralReleaseAuthorized action \<Rightarrow> encodeHomeCollateralReleaseAuthorized action
           | _ \<Rightarrow> Inl actionMismatch)
      | SATELLITE_COLLATERAL_RELEASED_V1 \<Rightarrow>
          (case en_TypedAction envelope of
             SatelliteCollateralReleased action \<Rightarrow> encodeSatelliteCollateralReleased action
           | _ \<Rightarrow> Inl actionMismatch)
      | CANCELLATION_REQUESTED_V1 \<Rightarrow>
          (case en_TypedAction envelope of
             LoanCancellationRequested action \<Rightarrow> encodeLoanCancellationRequested action
           | _ \<Rightarrow> Inl actionMismatch)
      | SOURCE_COMPENSATED_V1 \<Rightarrow>
          (case en_TypedAction envelope of
             SatelliteFundingCancelled action \<Rightarrow> encodeSatelliteFundingCancelled action
           | _ \<Rightarrow> Inl actionMismatch)
      | SATELLITE_UFT_PERMANENT_BURNED_V1 \<Rightarrow>
          (case en_TypedAction envelope of
             SatelliteUftPermanentBurned action \<Rightarrow> encodeSatelliteUftPermanentBurned action
           | _ \<Rightarrow> Inl actionMismatch)
      | _ \<Rightarrow> Inl (ErrInvalidEnvelope ''no frozen economic ABI payload''))"

definition EncodeLoanCancellationAuthorizationABI ::
  "LoanCancellationAuthorization option \<Rightarrow> message_error + byte list" where
  "EncodeLoanCancellationAuthorizationABI authorization =
     (case authorization of
        None \<Rightarrow> Inl (ErrInvalidEnvelope ''nil loan cancellation authorization'')
      | Some a \<Rightarrow> encodeStatic
          [addressABI (lca_LoanRouter a) ''loan_router'',
           bytes32ABI (lca_LoanId a) ''loan_id'',
           bytes32ABI (lca_FundingLockId a) ''funding_lock_id'',
           bytes32ABI (lca_DisbursementMessageId a) ''disbursement_message_id'',
           bytes32ABI (lca_DisbursementTombstoneHash a) ''disbursement_tombstone_hash'',
           uint256ABI (lca_Amount a) ''amount'',
           bytes32ABI (lca_PolicyHash a) ''policy_hash'',
           Inr (uintWord (lca_AuthorizationNonce a)),
           Inr (uintWord (lca_ValidUntil a)),
           bytes32ABI (lca_ReasonCode a) ''reason_code'',
           bytes32ABI (lca_AuthorizerSetHash a) ''authorizer_set_hash'',
           Inr (uintWord (ucast (lca_AuthorizerSetVersion a)))])"

definition BindTypedActionABI :: "MessageEnv \<Rightarrow> Envelope \<Rightarrow> message_error + Envelope" where
  "BindTypedActionABI E envelope =
     ebind (EncodeTypedActionABI envelope) (\<lambda>encoded.
       Inr (envelope\<lparr>en_TypedActionPayload := encoded, en_PayloadHash := env_keccak E encoded\<rparr>))"

section \<open>Validation\<close>

fun exact_lengths :: "nat \<Rightarrow> (string \<times> byte list) list \<Rightarrow> message_error + unit" where
  "exact_lengths sz [] = Inr ()"
| "exact_lengths sz ((name, value) # rest) =
     ebind (exactLength value sz name) (\<lambda>_. exact_lengths sz rest)"

definition valid_interval :: "Envelope \<Rightarrow> bool" where
  "valid_interval envelope \<longleftrightarrow> \<not>
     (en_CreatedAt envelope = None \<or> en_ExpiresAt envelope = None \<or>
      get_nanos (en_CreatedAt envelope) \<noteq> 0 \<or> get_nanos (en_ExpiresAt envelope) \<noteq> 0 \<or>
      sint (get_seconds (en_CreatedAt envelope)) < 0 \<or>
      sint (get_seconds (en_ExpiresAt envelope)) \<le> sint (get_seconds (en_CreatedAt envelope)))"

definition validateEnvelope :: "MessageEnv \<Rightarrow> Envelope \<Rightarrow> bool \<Rightarrow> message_error + unit" where
  "validateEnvelope E envelope requireID =
     ebind (require (\<not> (en_SchemaVersion envelope = 0 \<or> en_SourceNonce envelope = 0 \<or>
                        en_ActionType envelope = ACTION_UNSPECIFIED))
              (ErrInvalidEnvelope ''schema, nonce, and action are required'')) (\<lambda>_.
     ebind (if requireID then exactLength (en_MessageId envelope) 32 ''message_id''
            else require (\<not> (length (en_MessageId envelope) \<noteq> 0 \<and> length (en_MessageId envelope) \<noteq> 32))
                   (ErrInvalidEnvelope ''message_id must be empty or 32 bytes'')) (\<lambda>_.
     ebind (exact_lengths 32
              [(''protocol_id'', en_ProtocolId envelope),
               (''lane_id'', en_LaneId envelope),
               (''aggregate_id'', en_AggregateId envelope),
               (''payload_hash'', en_PayloadHash envelope),
               (''route_policy_hash'', en_RoutePolicyHash envelope),
               (''adapter_set_policy_hash'', en_AdapterSetPolicyHash envelope),
               (''source_finality_policy_hash'', en_SourceFinalityPolicyHash envelope),
               (''destination_finality_policy_hash'', en_DestinationFinalityPolicyHash envelope),
               (''correlation_id'', en_CorrelationId envelope),
               (''causation_message_id'', en_CausationMessageId envelope),
               (''superseded_message_id'', en_SupersededMessageId envelope)]) (\<lambda>_.
     ebind (exact_lengths 20
              [(''source_coordinator'', en_SourceCoordinator envelope),
               (''source_component'', en_SourceComponent envelope),
               (''destination_coordinator'', en_DestinationCoordinator envelope),
               (''destination_component'', en_DestinationComponent envelope)]) (\<lambda>_.
     ebind (uint256 (en_SourceChainId envelope) ''source_chain_id'') (\<lambda>_.
     ebind (uint256 (en_DestinationChainId envelope) ''destination_chain_id'') (\<lambda>_.
     ebind (require (valid_interval envelope) (ErrInvalidEnvelope ''timestamps'')) (\<lambda>_.
     ebind (EncodeTypedActionABI envelope) (\<lambda>encodedPayload.
     ebind (require (encodedPayload = en_TypedActionPayload envelope)
              (ErrInvalidEnvelope ''typed_action_payload is not the canonical ABI encoding'')) (\<lambda>_.
     require (env_keccak E encodedPayload = en_PayloadHash envelope)
       (ErrInvalidEnvelope ''typed payload hash mismatch''))))))))))"

section \<open>Message identifier\<close>

definition domainTag :: string where
  "domainTag = ''UNIFIED_XCHAIN_MESSAGE_V1''"

definition message_head :: "Envelope \<Rightarrow> byte list \<Rightarrow> byte list \<Rightarrow> byte list list" where
  "message_head envelope sourceChain destinationChain =
     [uintWord (23 * 32),
      uintWord (ucast (en_SchemaVersion envelope)),
      en_ProtocolId envelope,
      sourceChain,
      addressWord (en_SourceCoordinator envelope),
      addressWord (en_SourceComponent envelope),
      destinationChain,
      addressWord (en_DestinationCoordinator envelope),
      addressWord (en_DestinationComponent envelope),
      en_LaneId envelope,
      uintWord (en_SourceNonce envelope),
      en_AggregateId envelope,
      uintWord (action_number (en_ActionType envelope)),
      en_PayloadHash envelope,
      uintWord (get_seconds (en_CreatedAt envelope)),
      uintWord (get_seconds (en_ExpiresAt envelope)),
      en_RoutePolicyHash envelope,
      en_AdapterSetPolicyHash envelope,
      en_SourceFinalityPolicyHash envelope,
      en_DestinationFinalityPolicyHash envelope,
      en_CorrelationId envelope,
      en_CausationMessageId envelope,
      en_SupersededMessageId envelope]"

definition message_tail :: "byte list" where
  "message_tail = pad32 (uintWord (of_nat (length domainTag)) @ string_bytes domainTag)"

text \<open>The bytes that are hashed.\<close>

definition message_preimage :: "Envelope \<Rightarrow> byte list \<Rightarrow> byte list \<Rightarrow> byte list" where
  "message_preimage envelope sourceChain destinationChain =
     concat (message_head envelope sourceChain destinationChain) @ message_tail"

definition ComputeMessageID :: "MessageEnv \<Rightarrow> Envelope \<Rightarrow> message_error + byte list" where
  "ComputeMessageID E envelope =
     ebind (validateEnvelope E envelope False) (\<lambda>_.
     ebind (uint256 (en_SourceChainId envelope) ''source_chain_id'') (\<lambda>sourceChain.
     ebind (uint256 (en_DestinationChainId envelope) ''destination_chain_id'') (\<lambda>destinationChain.
     Inr (env_keccak E (message_preimage envelope sourceChain destinationChain)))))"

definition ValidateEnvelope :: "MessageEnv \<Rightarrow> Envelope \<Rightarrow> message_error + unit" where
  "ValidateEnvelope E envelope =
     ebind (validateEnvelope E envelope True) (\<lambda>_.
     ebind (ComputeMessageID E envelope) (\<lambda>expected.
     require (en_MessageId envelope = expected) ErrDigestMismatch))"

definition Seal :: "MessageEnv \<Rightarrow> Envelope option \<Rightarrow> message_error + Envelope" where
  "Seal E envelope =
     (case envelope of
        None \<Rightarrow> Inl (ErrInvalidEnvelope ''nil'')
      | Some e \<Rightarrow>
          let sealed = e\<lparr>en_MessageId := []\<rparr>
          in ebind (ComputeMessageID E sealed) (\<lambda>id. Inr (sealed\<lparr>en_MessageId := id\<rparr>)))"

definition DeterministicBytes :: "MessageEnv \<Rightarrow> Envelope \<Rightarrow> message_error + byte list" where
  "DeterministicBytes E envelope =
     ebind (ValidateEnvelope E envelope) (\<lambda>_.
       case env_marshal E envelope of None \<Rightarrow> Inl MarshalFailure | Some bytes \<Rightarrow> Inr bytes)"

end
