(* ===== verification/Message_Identity.thy ===== *)
theory Message_Identity
  imports Message_Digest
begin

text \<open>
  What the message identifier commits to. The encodings of \<^verbatim>\<open>digest.go\<close> lose nothing: a payload is
  determined by its ABI bytes and the signed fields of an envelope by the bytes that are hashed, so
  that two valid envelopes with the same identifier are equal unless Keccak collides on those very
  bytes.
\<close>

section \<open>Words\<close>

lemma exactLength_Inr [simp]: "exactLength v n s = Inr u \<longleftrightarrow> length v = n"
  by (simp add: exactLength_def)

lemma uint256_Inr:
  "uint256 s name = Inr w \<longleftrightarrow> (\<exists>i. s = big_string i \<and> 0 < i \<and> i < 2 ^ 256 \<and> w = be_bytes 32 i)"
proof -
  have "i < 256 ^ 32 \<longleftrightarrow> i < 2 ^ 256" for i :: int by simp
  then show ?thesis
    by (auto simp: uint256_def big_fill_bytes_def not_le split: option.splits if_splits)
qed

lemma uint256_sized: "uint256 s name = Inr w \<Longrightarrow> word_sized w"
  by (auto simp: uint256_Inr word_sized_def)

lemma uint256_inject:
  "uint256 s name = Inr w \<Longrightarrow> uint256 t name' = Inr w \<Longrightarrow> s = t"
  by (auto simp: uint256_Inr dest: be_bytes_inject)

lemma word_sized_simps [simp]: "word_sized (uintWord v)" "word_sized (addressWord a)"
  by (simp_all add: word_sized_def uintWord_def addressWord_def)

lemma uintWord_inject [simp]: "uintWord v = uintWord w \<longleftrightarrow> v = w"
  by (simp add: uintWord_def)

lemma addressWord_inject:
  "length a = 20 \<Longrightarrow> length b = 20 \<Longrightarrow> addressWord a = addressWord b \<longleftrightarrow> a = b"
  by (simp add: addressWord_def)

lemma bytes32ABI_Inr [simp]: "bytes32ABI v n = Inr w \<longleftrightarrow> length v = 32 \<and> w = v"
  by (auto simp: bytes32ABI_def)

lemma addressABI_Inr [simp]: "addressABI v n = Inr w \<longleftrightarrow> length v = 20 \<and> w = addressWord v"
  by (auto simp: addressABI_def)

section \<open>Payload bytes\<close>

lemma encode_words_Inr:
  "encode_words acc ws = Inr b \<longleftrightarrow> (\<exists>vs. ws = map Inr vs \<and> b = acc @ concat vs)"
proof (induction ws arbitrary: acc)
  case (Cons w ws)
  then show ?case by (auto simp: Cons_eq_map_conv)
qed auto

lemma encodeStatic_Inr:
  "encodeStatic ws = Inr b \<longleftrightarrow> (\<exists>vs. ws = map Inr vs \<and> b = concat vs)"
  by (simp add: encodeStatic_def encode_words_Inr)

text \<open>A word function that is injective and yields words: what the fields of a payload need.\<close>

lemma encodeStatic_inject:
  assumes "encodeStatic ws = Inr b" "encodeStatic us = Inr b"
    and "\<And>v. Inr v \<in> set ws \<union> set us \<Longrightarrow> word_sized v"
  shows "ws = us"
proof -
  from assms(1,2) obtain vs zs where "ws = map Inr vs" "us = map Inr zs" "concat vs = concat zs"
    by (auto simp: encodeStatic_Inr)
  moreover from this assms(3) have "list_all word_sized vs" "list_all word_sized zs"
    by (auto simp: list_all_iff)
  ultimately show ?thesis by (simp add: concat_words_inject)
qed

definition sized_word :: "abiWord \<Rightarrow> bool" where
  "sized_word w \<longleftrightarrow> (\<forall>v. w = Inr v \<longrightarrow> word_sized v)"

lemma sized_words [simp]:
  "sized_word (bytes32ABI a n)" "sized_word (addressABI a n)" "sized_word (uint256ABI s n)"
  "sized_word (Inr (uintWord u))"
  by (auto simp: sized_word_def word_sized_def[of a] uint256ABI_def uint256_sized)

lemma encodeStatic_same:
  assumes "encodeStatic ws = Inr b" "encodeStatic us = Inr b"
    and "list_all sized_word ws" "list_all sized_word us"
  shows "list_all isOK us \<and> ws = us"
proof
  show "ws = us"
    using assms(3,4) by (intro encodeStatic_inject[OF assms(1,2)]) (auto simp: list_all_iff sized_word_def)
  show "list_all isOK us"
    using assms(2) by (auto simp: encodeStatic_Inr list_all_iff)
qed

lemma same_bytes32 [simp]:
  "isOK (bytes32ABI b m) \<Longrightarrow> bytes32ABI a n = bytes32ABI b m \<longleftrightarrow> a = b"
  by (auto simp: isOK_iff bytes32ABI_def exactLength_def split: if_splits)

lemma same_address [simp]:
  "isOK (addressABI b m) \<Longrightarrow> addressABI a n = addressABI b m \<longleftrightarrow> a = b"
  by (auto simp: isOK_iff addressABI_def exactLength_def addressWord_inject split: if_splits)

lemma same_uint256 [simp]:
  "isOK (uint256ABI b m) \<Longrightarrow> uint256ABI a m = uint256ABI b m \<longleftrightarrow> a = b"
  by (auto simp: isOK_iff uint256ABI_def dest: uint256_inject)

lemmas encode_defs = encodeCanonicalUftLock_def encodeWrappedUftMinted_def encodeWrappedUftBurned_def
  encodeCanonicalUftReleased_def encodeSatelliteCollateralLocked_def
  encodeHomeDisbursementAuthorized_def encodeSatelliteDisbursementSettled_def
  encodeSatelliteRepaymentBurned_def encodeHomeCollateralReleaseAuthorized_def
  encodeSatelliteCollateralReleased_def encodeLoanCancellationRequested_def
  encodeSatelliteFundingCancelled_def encodeSatelliteUftPermanentBurned_def encodeLoanAction_def

lemmas payload_equality = CanonicalUftLockPayload.equality
  WrappedUftMintedPayload.equality
  WrappedUftBurnedPayload.equality
  CanonicalUftReleasedPayload.equality
  SatelliteCollateralLockedPayload.equality
  HomeDisbursementAuthorizedPayload.equality
  SatelliteDisbursementSettledPayload.equality
  SatelliteRepaymentBurnedPayload.equality
  HomeCollateralReleaseAuthorizedPayload.equality
  SatelliteCollateralReleasedPayload.equality
  LoanCancellationRequestedPayload.equality
  SatelliteFundingCancelledPayload.equality
  SatelliteUftPermanentBurnedPayload.equality

lemma payload_inject:
  "encodeCanonicalUftLock p0 = Inr b \<Longrightarrow> encodeCanonicalUftLock q0 = Inr b \<Longrightarrow> p0 = q0"
  "encodeWrappedUftMinted p1 = Inr b \<Longrightarrow> encodeWrappedUftMinted q1 = Inr b \<Longrightarrow> p1 = q1"
  "encodeWrappedUftBurned p2 = Inr b \<Longrightarrow> encodeWrappedUftBurned q2 = Inr b \<Longrightarrow> p2 = q2"
  "encodeCanonicalUftReleased p3 = Inr b \<Longrightarrow> encodeCanonicalUftReleased q3 = Inr b \<Longrightarrow> p3 = q3"
  "encodeSatelliteCollateralLocked p4 = Inr b \<Longrightarrow> encodeSatelliteCollateralLocked q4 = Inr b \<Longrightarrow> p4 = q4"
  "encodeHomeDisbursementAuthorized p5 = Inr b \<Longrightarrow> encodeHomeDisbursementAuthorized q5 = Inr b \<Longrightarrow> p5 = q5"
  "encodeSatelliteDisbursementSettled p6 = Inr b \<Longrightarrow> encodeSatelliteDisbursementSettled q6 = Inr b \<Longrightarrow> p6 = q6"
  "encodeSatelliteRepaymentBurned p7 = Inr b \<Longrightarrow> encodeSatelliteRepaymentBurned q7 = Inr b \<Longrightarrow> p7 = q7"
  "encodeHomeCollateralReleaseAuthorized p8 = Inr b \<Longrightarrow> encodeHomeCollateralReleaseAuthorized q8 = Inr b \<Longrightarrow> p8 = q8"
  "encodeSatelliteCollateralReleased p9 = Inr b \<Longrightarrow> encodeSatelliteCollateralReleased q9 = Inr b \<Longrightarrow> p9 = q9"
  "encodeLoanCancellationRequested p10 = Inr b \<Longrightarrow> encodeLoanCancellationRequested q10 = Inr b \<Longrightarrow> p10 = q10"
  "encodeSatelliteFundingCancelled p11 = Inr b \<Longrightarrow> encodeSatelliteFundingCancelled q11 = Inr b \<Longrightarrow> p11 = q11"
  "encodeSatelliteUftPermanentBurned p12 = Inr b \<Longrightarrow> encodeSatelliteUftPermanentBurned q12 = Inr b \<Longrightarrow> p12 = q12"
  unfolding encode_defs
  by - ((drule (1) encodeStatic_same, simp, simp, elim conjE, rule payload_equality); simp)+

text \<open>Which action an accepted payload is the encoding of.\<close>

inductive encodes :: "CrossChainActionType \<Rightarrow> TypedAction \<Rightarrow> byte list \<Rightarrow> bool" where
  "encodeCanonicalUftLock p = Inr b \<Longrightarrow> encodes CANONICAL_UFT_LOCKED_V1 (CanonicalUftLock p) b"
| "encodeWrappedUftMinted p = Inr b \<Longrightarrow> encodes WRAPPED_UFT_MINTED_V1 (WrappedUftMinted p) b"
| "encodeWrappedUftBurned p = Inr b \<Longrightarrow> encodes WRAPPED_UFT_BURNED_V1 (WrappedUftBurned p) b"
| "encodeCanonicalUftReleased p = Inr b \<Longrightarrow> encodes CANONICAL_UFT_RELEASED_V1 (CanonicalUftReleased p) b"
| "encodeSatelliteCollateralLocked p = Inr b \<Longrightarrow>
     encodes SATELLITE_COLLATERAL_LOCKED_V1 (SatelliteCollateralLocked p) b"
| "encodeHomeDisbursementAuthorized p = Inr b \<Longrightarrow>
     encodes HOME_DISBURSEMENT_AUTHORIZED_V1 (HomeDisbursementAuthorized p) b"
| "encodeSatelliteDisbursementSettled p = Inr b \<Longrightarrow>
     encodes SATELLITE_DISBURSEMENT_SETTLED_V1 (SatelliteDisbursementSettled p) b"
| "encodeSatelliteRepaymentBurned p = Inr b \<Longrightarrow>
     encodes SATELLITE_REPAYMENT_BURNED_V1 (SatelliteRepaymentBurned p) b"
| "encodeHomeCollateralReleaseAuthorized p = Inr b \<Longrightarrow>
     encodes HOME_COLLATERAL_RELEASE_AUTHORIZED_V1 (HomeCollateralReleaseAuthorized p) b"
| "encodeSatelliteCollateralReleased p = Inr b \<Longrightarrow>
     encodes SATELLITE_COLLATERAL_RELEASED_V1 (SatelliteCollateralReleased p) b"
| "encodeLoanCancellationRequested p = Inr b \<Longrightarrow>
     encodes CANCELLATION_REQUESTED_V1 (LoanCancellationRequested p) b"
| "encodeSatelliteFundingCancelled p = Inr b \<Longrightarrow>
     encodes SOURCE_COMPENSATED_V1 (SatelliteFundingCancelled p) b"
| "encodeSatelliteUftPermanentBurned p = Inr b \<Longrightarrow>
     encodes SATELLITE_UFT_PERMANENT_BURNED_V1 (SatelliteUftPermanentBurned p) b"

lemma EncodeTypedActionABI_Inr:
  "EncodeTypedActionABI e = Inr b \<longleftrightarrow> encodes (en_ActionType e) (en_TypedAction e) b"
proof
  show "EncodeTypedActionABI e = Inr b \<Longrightarrow> encodes (en_ActionType e) (en_TypedAction e) b"
    unfolding EncodeTypedActionABI_def
    by (cases "en_ActionType e"; cases "en_TypedAction e"; simp add: encodes.intros)
  show "encodes (en_ActionType e) (en_TypedAction e) b \<Longrightarrow> EncodeTypedActionABI e = Inr b"
    by (erule encodes.cases) (simp_all add: EncodeTypedActionABI_def)
qed

lemma encodes_inject: "encodes t a b \<Longrightarrow> encodes t a' b \<Longrightarrow> a = a'"
  by (erule encodes.cases; erule encodes.cases; simp add: payload_inject)

lemma encodes_named: "encodes t a b \<Longrightarrow> \<forall>n. t \<noteq> OTHER_ACTION n"
  by (erule encodes.cases) simp_all

lemma action_number_inject:
  "action_number t = action_number t' \<Longrightarrow> \<forall>n. t \<noteq> OTHER_ACTION n \<Longrightarrow>
   \<forall>n. t' \<noteq> OTHER_ACTION n \<Longrightarrow> t = t'"
  by (cases t; cases t'; simp)

section \<open>Envelopes\<close>

text \<open>What validation accepts.\<close>

definition well_formed :: "Envelope \<Rightarrow> bool" where
  "well_formed e \<longleftrightarrow>
     en_SchemaVersion e \<noteq> 0 \<and> en_SourceNonce e \<noteq> 0 \<and> en_ActionType e \<noteq> ACTION_UNSPECIFIED \<and>
     list_all word_sized
       [en_ProtocolId e, en_LaneId e, en_AggregateId e, en_PayloadHash e, en_RoutePolicyHash e,
        en_AdapterSetPolicyHash e, en_SourceFinalityPolicyHash e, en_DestinationFinalityPolicyHash e,
        en_CorrelationId e, en_CausationMessageId e, en_SupersededMessageId e] \<and>
     length (en_SourceCoordinator e) = 20 \<and> length (en_SourceComponent e) = 20 \<and>
     length (en_DestinationCoordinator e) = 20 \<and> length (en_DestinationComponent e) = 20 \<and>
     (\<exists>i. en_SourceChainId e = big_string i \<and> 0 < i \<and> i < 2 ^ 256) \<and>
     (\<exists>i. en_DestinationChainId e = big_string i \<and> 0 < i \<and> i < 2 ^ 256) \<and>
     valid_interval e"

definition payload_bound :: "MessageEnv \<Rightarrow> Envelope \<Rightarrow> bool" where
  "payload_bound E e \<longleftrightarrow>
     encodes (en_ActionType e) (en_TypedAction e) (en_TypedActionPayload e) \<and>
     env_keccak E (en_TypedActionPayload e) = en_PayloadHash e"

lemma validateEnvelope_Inr:
  "validateEnvelope E e requireID = Inr () \<longleftrightarrow>
     well_formed e \<and> payload_bound E e \<and>
     (length (en_MessageId e) = 32 \<or> (\<not> requireID \<and> en_MessageId e = []))"
  by (auto simp: validateEnvelope_def well_formed_def payload_bound_def uint256_Inr
      EncodeTypedActionABI_Inr word_sized_def)

definition chain_word :: "string \<Rightarrow> byte list" where
  "chain_word s = (case big_set_string s of Some i \<Rightarrow> be_bytes 32 i | None \<Rightarrow> [])"

lemma uint256_chain_word:
  "uint256 s n = Inr w \<longleftrightarrow> (\<exists>i. s = big_string i \<and> 0 < i \<and> i < 2 ^ 256) \<and> w = chain_word s"
  by (auto simp: uint256_Inr chain_word_def)

definition signed_head :: "Envelope \<Rightarrow> byte list list" where
  "signed_head e = message_head e (chain_word (en_SourceChainId e)) (chain_word (en_DestinationChainId e))"

definition signed_bytes :: "Envelope \<Rightarrow> byte list" where
  "signed_bytes e = concat (signed_head e) @ message_tail"

lemma ComputeMessageID_Inr:
  "ComputeMessageID E e = Inr i \<longleftrightarrow>
     validateEnvelope E e False = Inr () \<and> i = env_keccak E (signed_bytes e)"
  by (auto simp: ComputeMessageID_def uint256_chain_word signed_bytes_def signed_head_def
      message_preimage_def validateEnvelope_Inr well_formed_def)

lemma ValidateEnvelope_Inr:
  "ValidateEnvelope E e = Inr () \<longleftrightarrow>
     well_formed e \<and> payload_bound E e \<and> length (en_MessageId e) = 32 \<and>
     en_MessageId e = env_keccak E (signed_bytes e)"
  by (auto simp: ValidateEnvelope_def ComputeMessageID_Inr validateEnvelope_Inr)

lemma word_sized_chain_word: "\<exists>i. s = big_string i \<and> 0 < i \<and> i < 2 ^ 256 \<Longrightarrow> word_sized (chain_word s)"
  by (auto simp: chain_word_def word_sized_def)

lemma signed_head_sized: "well_formed e \<Longrightarrow> list_all word_sized (signed_head e)"
  by (simp add: signed_head_def message_head_def well_formed_def word_sized_chain_word)

lemma signed_bytes_inject:
  "well_formed e \<Longrightarrow> well_formed f \<Longrightarrow> signed_bytes e = signed_bytes f \<longleftrightarrow> signed_head e = signed_head f"
  by (simp add: signed_bytes_def concat_words_inject signed_head_sized)

lemma chain_word_inject:
  assumes "chain_word s = chain_word t" "\<exists>i. s = big_string i \<and> 0 < i \<and> i < 2 ^ 256"
    and "\<exists>i. t = big_string i \<and> 0 < i \<and> i < 2 ^ 256"
  shows "s = t"
proof -
  from assms(2,3) obtain i j where "s = big_string i" "0 < i" "i < 2 ^ 256"
    "t = big_string j" "0 < j" "j < 2 ^ 256" by blast
  then show ?thesis
    using assms(1) be_bytes_inject[of 32 i j] by (simp add: chain_word_def)
qed

lemma interval_inject:
  assumes "valid_interval e" "valid_interval f"
    and "get_seconds (en_CreatedAt e) = get_seconds (en_CreatedAt f)"
    and "get_seconds (en_ExpiresAt e) = get_seconds (en_ExpiresAt f)"
  shows "en_CreatedAt e = en_CreatedAt f \<and> en_ExpiresAt e = en_ExpiresAt f"
  using assms by (auto simp: valid_interval_def get_seconds_def get_nanos_def)

lemma signed_head_inject:
  assumes "signed_head e = signed_head f" "well_formed e" "well_formed f"
    and "\<forall>n. en_ActionType e \<noteq> OTHER_ACTION n" "\<forall>n. en_ActionType f \<noteq> OTHER_ACTION n"
    and "en_TypedActionPayload e = en_TypedActionPayload f" "en_TypedAction e = en_TypedAction f"
    and "en_MessageId e = en_MessageId f"
  shows "e = f"
proof (rule CrossChainMessageEnvelope.equality)
  note eq = assms(1)[unfolded signed_head_def message_head_def list.inject]
  note wf = assms(2,3)[unfolded well_formed_def]
  from eq show "en_SchemaVersion e = en_SchemaVersion f"
    by (simp add: ucast64_inject)
  show "en_SourceChainId e = en_SourceChainId f"
    using eq wf by (intro chain_word_inject) simp_all
  show "en_DestinationChainId e = en_DestinationChainId f"
    using eq wf by (intro chain_word_inject) simp_all
  show "en_SourceCoordinator e = en_SourceCoordinator f" "en_SourceComponent e = en_SourceComponent f"
    "en_DestinationCoordinator e = en_DestinationCoordinator f"
    "en_DestinationComponent e = en_DestinationComponent f"
    using eq wf by (simp_all add: addressWord_inject)
  show "en_ActionType e = en_ActionType f"
    using eq assms(4,5) by (simp add: action_number_inject)
  show "en_CreatedAt e = en_CreatedAt f" "en_ExpiresAt e = en_ExpiresAt f"
    using eq wf interval_inject[of e f] by simp_all
qed (use assms in \<open>simp_all add: signed_head_def message_head_def\<close>)

lemma valid_envelope_inject:
  assumes "ValidateEnvelope E e = Inr ()" "ValidateEnvelope E f = Inr ()"
    and "signed_bytes e = signed_bytes f" "en_TypedActionPayload e = en_TypedActionPayload f"
    and "en_MessageId e = en_MessageId f"
  shows "e = f"
proof -
  from assms(1,2) have wf: "well_formed e" "well_formed f"
    and enc: "encodes (en_ActionType e) (en_TypedAction e) (en_TypedActionPayload e)"
      "encodes (en_ActionType f) (en_TypedAction f) (en_TypedActionPayload f)"
    by (simp_all add: ValidateEnvelope_Inr payload_bound_def)
  note named = encodes_named[OF enc(1)] encodes_named[OF enc(2)]
  from assms(3) wf have head: "signed_head e = signed_head f" by (simp add: signed_bytes_inject)
  then have "action_number (en_ActionType e) = action_number (en_ActionType f)"
    by (simp add: signed_head_def message_head_def)
  then have "en_ActionType e = en_ActionType f"
    by (rule action_number_inject[OF _ named])
  with enc assms(4) have "en_TypedAction e = en_TypedAction f" by (metis encodes_inject)
  with head wf named assms(4,5) show ?thesis by (simp add: signed_head_inject)
qed

definition collide :: "(byte list \<Rightarrow> byte list) \<Rightarrow> byte list \<Rightarrow> byte list \<Rightarrow> bool" where
  "collide h x y \<longleftrightarrow> x \<noteq> y \<and> h x = h y"

section \<open>Sealing\<close>

lemma signed_bytes_id [simp]: "signed_bytes (e\<lparr>en_MessageId := i\<rparr>) = signed_bytes e"
  by (simp add: signed_bytes_def signed_head_def message_head_def)

lemma well_formed_id [simp]: "well_formed (e\<lparr>en_MessageId := i\<rparr>) = well_formed e"
  by (simp add: well_formed_def valid_interval_def)

lemma payload_bound_id [simp]: "payload_bound E (e\<lparr>en_MessageId := i\<rparr>) = payload_bound E e"
  by (simp add: payload_bound_def)

text \<open>An envelope whose payload was bound and that is then sealed is valid, and sealing is all it takes.\<close>

lemma Seal_Inr:
  assumes "\<forall>x. length (env_keccak E x) = 32"
  shows "Seal E (Some e) = Inr s \<longleftrightarrow>
    ValidateEnvelope E s = Inr () \<and> s\<lparr>en_MessageId := []\<rparr> = e\<lparr>en_MessageId := []\<rparr>"
proof -
  have "Seal E (Some e) = Inr s \<longleftrightarrow> well_formed e \<and> payload_bound E e \<and>
      s = e\<lparr>en_MessageId := env_keccak E (signed_bytes e)\<rparr>"
    by (auto simp: Seal_def ComputeMessageID_Inr validateEnvelope_Inr)
  moreover have "s = e\<lparr>en_MessageId := env_keccak E (signed_bytes e)\<rparr>"
    if "s\<lparr>en_MessageId := []\<rparr> = e\<lparr>en_MessageId := []\<rparr>" "en_MessageId s = env_keccak E (signed_bytes s)"
    for s
  proof -
    from that(1) have "signed_bytes s = signed_bytes e" by (metis signed_bytes_id)
    with that show ?thesis by (cases s; cases e) simp
  qed
  moreover have "well_formed s = well_formed e \<and> payload_bound E s = payload_bound E e"
    if "s\<lparr>en_MessageId := []\<rparr> = e\<lparr>en_MessageId := []\<rparr>"
    using that by (metis well_formed_id payload_bound_id)
  ultimately show ?thesis
    using assms by (auto simp: ValidateEnvelope_Inr)
qed

section \<open>Sample messages\<close>

definition bytes_of :: "nat \<Rightarrow> nat \<Rightarrow> byte list" where
  "bytes_of n k = replicate (n - 1) 0 @ [of_nat k]"

definition sample_lock :: CanonicalUftLockPayload where
  "sample_lock = \<lparr>cul_LockId = bytes_of 32 1, cul_LoanId = bytes_of 32 2, cul_CanonicalToken = bytes_of 20 3,
     cul_HomeBridgeHub = bytes_of 20 4, cul_WrappedToken = bytes_of 20 5,
     cul_DestinationRecipient = bytes_of 20 6, cul_Amount = ''1000''\<rparr>"

text \<open>A message that locks 1000 units; the nonce and the expiry are arguments.\<close>

definition sample_message :: "64 word \<Rightarrow> 64 word \<Rightarrow> Envelope" where
  "sample_message nonce expires =
     \<lparr>en_SchemaVersion = 1, en_MessageId = [], en_ProtocolId = bytes_of 32 7, en_SourceChainId = ''1'',
      en_SourceCoordinator = bytes_of 20 8, en_SourceComponent = bytes_of 20 9,
      en_DestinationChainId = ''10'', en_DestinationCoordinator = bytes_of 20 10,
      en_DestinationComponent = bytes_of 20 11, en_LaneId = bytes_of 32 12, en_SourceNonce = nonce,
      en_AggregateId = bytes_of 32 13, en_ActionType = CANONICAL_UFT_LOCKED_V1,
      en_TypedActionPayload = [], en_PayloadHash = [],
      en_CreatedAt = Some \<lparr>ts_Seconds = 100, ts_Nanos = 0\<rparr>,
      en_ExpiresAt = Some \<lparr>ts_Seconds = expires, ts_Nanos = 0\<rparr>,
      en_RoutePolicyHash = bytes_of 32 14, en_AdapterSetPolicyHash = bytes_of 32 15,
      en_SourceFinalityPolicyHash = bytes_of 32 16, en_DestinationFinalityPolicyHash = bytes_of 32 17,
      en_CorrelationId = bytes_of 32 18, en_CausationMessageId = bytes_of 32 19,
      en_SupersededMessageId = bytes_of 32 20, en_TypedAction = CanonicalUftLock sample_lock\<rparr>"

text \<open>A hash with collisions: the nonce's last byte and the payload's length survive.\<close>

definition toy_keccak :: "byte list \<Rightarrow> byte list" where
  "toy_keccak bs = replicate 30 0 @ [of_nat (length bs), (if length bs > 351 then bs ! 351 else 0)]"

definition toy_env :: MessageEnv where
  "toy_env = \<lparr>env_keccak = toy_keccak, 
     env_marshal = (\<lambda>e. Some (signed_bytes e @ en_TypedActionPayload e @ en_MessageId e))\<rparr>"

definition sealed_sample :: "64 word \<Rightarrow> 64 word \<Rightarrow> Envelope" where
  "sealed_sample nonce expires =
     (case BindTypedActionABI toy_env (sample_message nonce expires) of
        Inr bound \<Rightarrow> (case Seal toy_env (Some bound) of Inr s \<Rightarrow> s | Inl _ \<Rightarrow> bound)
      | Inl _ \<Rightarrow> sample_message nonce expires)"

lemma sealed_sample_valid:
  "ValidateEnvelope toy_env (sealed_sample 1 200) = Inr ()"
  "ValidateEnvelope toy_env (sealed_sample 1 300) = Inr ()"
  "en_MessageId (sealed_sample 1 200) = en_MessageId (sealed_sample 1 300)"
  "en_ExpiresAt (sealed_sample 1 200) \<noteq> en_ExpiresAt (sealed_sample 1 300)"
  by code_simp+

section \<open>Claim\<close>

text \<open>
  C28: Two envelopes that pass \<open>ValidateEnvelope\<close> and carry the same message identifier are equal in
  every field, typed action included, or Keccak collides on the two byte strings that were hashed
  for them: the ABI encodings of their signed fields, or of their payloads.
\<close>

theorem message_id_binds_envelope:
  assumes "ValidateEnvelope E e = Inr ()" "ValidateEnvelope E f = Inr ()"
    and "en_MessageId e = en_MessageId f"
  shows "e = f \<or> collide (env_keccak E) (signed_bytes e) (signed_bytes f) \<or>
    collide (env_keccak E) (en_TypedActionPayload e) (en_TypedActionPayload f)"
proof (cases "signed_bytes e = signed_bytes f")
  case True
  from assms(1,2) have "well_formed e" "well_formed f"
    and hash: "env_keccak E (en_TypedActionPayload e) = en_PayloadHash e"
      "env_keccak E (en_TypedActionPayload f) = en_PayloadHash f"
    by (simp_all add: ValidateEnvelope_Inr payload_bound_def)
  with True have "signed_head e = signed_head f" by (simp add: signed_bytes_inject)
  then have "en_PayloadHash e = en_PayloadHash f" by (simp add: signed_head_def message_head_def)
  with hash True show ?thesis
    using valid_envelope_inject[OF assms(1,2) True _ assms(3)] by (auto simp: collide_def)
next
  case False
  with assms show ?thesis by (simp add: collide_def ValidateEnvelope_Inr)
qed

theorem message_id_binds_envelope_witness:
  "collide toy_keccak (signed_bytes (sealed_sample 1 200)) (signed_bytes (sealed_sample 1 300)) \<or>
   collide toy_keccak (en_TypedActionPayload (sealed_sample 1 200))
     (en_TypedActionPayload (sealed_sample 1 300))"
  using message_id_binds_envelope[OF sealed_sample_valid(1-3)] sealed_sample_valid(4)
  by (auto simp: toy_env_def)

end
