(* ===== verification/Message_Registry.thy ===== *)
theory Message_Registry
  imports Message_Identity Transition
begin

text \<open>
  \<^verbatim>\<open>cross-chain-coordinator/message/registry.go\<close>: the at-most-once execution of messages, lane by lane.
  A registry keeps one record per message, the message that took each lane nonce and the next nonce
  of each lane; \<open>Execute\<close> validates an envelope, settles replays and conflicts, refuses a message that
  has expired and otherwise calls the handler.

  The handler is an argument: a function of the world it acts on. The clock is read once per call
  and is an argument too. The mutex makes each call one step.
\<close>

section \<open>State\<close>

datatype registry_error =
    MessageError message_error
  | NilHandler
  | ErrNonceConflict
  | ErrOutOfOrder
  | ErrMessageExpired
  | HandlerError string

record Execution =
  ex_MessageID :: "byte list"
  ex_State :: CrossChainMessageState
  ex_Result :: "byte list"
  ex_Replay :: bool
  ex_Version :: "64 word"

record message_record =
  mr_envelope :: "byte list"
  mr_state :: CrossChainMessageState
  mr_result :: "byte list"
  mr_version :: "64 word"

record Registry =
  rg_byMessage :: "(byte list, message_record) gomap"
  rg_byNonce :: "(string, byte list) gomap"
  rg_nextNonce :: "(byte list, 64 word) gomap"

type_synonym 'w Handler = "'w \<Rightarrow> Envelope \<Rightarrow> (string + byte list) \<times> 'w"

definition NewRegistry :: Registry where
  "NewRegistry = \<lparr>rg_byMessage = [], rg_byNonce = [], rg_nextNonce = []\<rparr>"

definition no_execution :: Execution where
  "no_execution = \<lparr>ex_MessageID = [], ex_State = STATE_UNSPECIFIED, ex_Result = [], ex_Replay = False, ex_Version = 0\<rparr>"

definition toExecution :: "byte list \<Rightarrow> message_record \<Rightarrow> bool \<Rightarrow> Execution" where
  "toExecution messageID current replay =
     \<lparr>ex_MessageID = messageID, ex_State = mr_state current, ex_Result = mr_result current,
      ex_Replay = replay, ex_Version = mr_version current\<rparr>"

definition registry_Get :: "Registry \<Rightarrow> byte list \<Rightarrow> Execution \<times> bool" where
  "registry_Get registry messageID =
     (case mget (rg_byMessage registry) messageID of
        None \<Rightarrow> (no_execution, False)
      | Some current \<Rightarrow> (toExecution messageID current True, True))"

section \<open>Execution\<close>

fun IsReportAction :: "CrossChainActionType \<Rightarrow> bool" where
  "IsReportAction WRAPPED_UFT_MINTED_V1 = True"
| "IsReportAction SATELLITE_COLLATERAL_LOCKED_V1 = True"
| "IsReportAction SATELLITE_DISBURSEMENT_SETTLED_V1 = True"
| "IsReportAction SATELLITE_COLLATERAL_RELEASED_V1 = True"
| "IsReportAction _ = False"

text \<open>The instant of a protobuf timestamp, on the clock that counts from the zero \<open>Time\<close>.\<close>

definition unix_epoch :: gotime where
  "unix_epoch = 62135596800 * 1000000000"

definition as_time :: "Timestamp option \<Rightarrow> gotime" where
  "as_time t = unix_epoch + sint (get_seconds t) * 1000000000 + sint (get_nanos t)"

definition nonce_key :: "byte list \<Rightarrow> 64 word \<Rightarrow> string" where
  "nonce_key lane nonce = hex lane @ '':'' @ big_string (uint nonce)"

definition next_nonce :: "Registry \<Rightarrow> byte list \<Rightarrow> 64 word" where
  "next_nonce registry lane =
     (let nextn = the_default 0 (mget (rg_nextNonce registry) lane) in if nextn = 0 then 1 else nextn)"

definition store_record :: "Envelope \<Rightarrow> message_record \<Rightarrow> Registry \<Rightarrow> Registry" where
  "store_record envelope current registry =
     registry\<lparr>rg_byMessage := mput (en_MessageId envelope) current (rg_byMessage registry)\<rparr>"

text \<open>A record made for a new message also takes the lane nonce.\<close>

definition store_new :: "Envelope \<Rightarrow> message_record \<Rightarrow> Registry \<Rightarrow> Registry" where
  "store_new envelope current registry =
     (store_record envelope current registry)\<lparr>rg_byNonce :=
        mput (nonce_key (en_LaneId envelope) (en_SourceNonce envelope)) (en_MessageId envelope)
          (rg_byNonce registry)\<rparr>"

definition expire_message :: "Envelope \<Rightarrow> byte list \<Rightarrow> Registry \<Rightarrow> (Execution \<times> registry_error option) \<times> Registry" where
  "expire_message envelope serialized registry =
     (case mget (rg_byMessage registry) (en_MessageId envelope) of
        None \<Rightarrow>
          (let current = \<lparr>mr_envelope = serialized, mr_state = EXPIRED, mr_result = [], mr_version = 1\<rparr>
           in ((toExecution (en_MessageId envelope) current False, Some ErrMessageExpired),
               store_new envelope current registry))
      | Some found \<Rightarrow>
          (let current = found\<lparr>mr_state := EXPIRED, mr_version := mr_version found + 1\<rparr>
           in ((toExecution (en_MessageId envelope) current False, Some ErrMessageExpired),
               store_record envelope current registry)))"

definition run_handler ::
  "'w Handler \<Rightarrow> Envelope \<Rightarrow> byte list \<Rightarrow> 64 word \<Rightarrow> Registry \<times> 'w \<Rightarrow>
   (Execution \<times> registry_error option) \<times> Registry \<times> 'w" where
  "run_handler handler envelope serialized nextn = (\<lambda>(registry, w).
     let (current, registry1) =
           (case mget (rg_byMessage registry) (en_MessageId envelope) of
              None \<Rightarrow>
                (let fresh = \<lparr>mr_envelope = serialized, mr_state = VERIFIED, mr_result = [], mr_version = 1\<rparr>
                 in (fresh, store_new envelope fresh registry))
            | Some found \<Rightarrow> (found, registry))
     in case handler w envelope of
          (Inl failure, w1) \<Rightarrow>
            (let failed = current\<lparr>mr_state := FAILED, mr_version := mr_version current + 1\<rparr>
             in ((toExecution (en_MessageId envelope) failed False, Some (HandlerError failure)),
                 store_record envelope failed registry1, w1))
        | (Inr result, w1) \<Rightarrow>
            (let executed = current\<lparr>mr_result := result, mr_state := EXECUTED,
                                    mr_version := mr_version current + 1\<rparr>
             in ((toExecution (en_MessageId envelope) executed False, None),
                 (store_record envelope executed registry1)\<lparr>rg_nextNonce :=
                    mput (en_LaneId envelope) (nextn + 1) (rg_nextNonce registry)\<rparr>, w1)))"

text \<open>The part of \<open>Execute\<close> under the lock.\<close>

definition execute_locked ::
  "'w Handler \<Rightarrow> gotime \<Rightarrow> Envelope \<Rightarrow> byte list \<Rightarrow> Registry \<times> 'w \<Rightarrow>
   (Execution \<times> registry_error option) \<times> Registry \<times> 'w" where
  "execute_locked handler now envelope serialized = (\<lambda>(registry, w).
     let messageKey = en_MessageId envelope;
         existing = mget (rg_byMessage registry) messageKey;
         taken = mget (rg_byNonce registry) (nonce_key (en_LaneId envelope) (en_SourceNonce envelope));
         nextn = next_nonce registry (en_LaneId envelope)
     in if existing \<noteq> None \<and> mr_envelope (the existing) \<noteq> serialized
        then ((no_execution, Some (MessageError ErrDigestMismatch)), registry, w)
        else if existing \<noteq> None \<and> mr_state (the existing) = EXECUTED
        then ((toExecution messageKey (the existing) True, None), registry, w)
        else if existing \<noteq> None \<and> mr_state (the existing) = EXPIRED
        then ((toExecution messageKey (the existing) True, Some ErrMessageExpired), registry, w)
        else if taken \<noteq> None \<and> the taken \<noteq> messageKey
        then ((no_execution, Some ErrNonceConflict), registry, w)
        else if en_SourceNonce envelope > nextn
        then ((no_execution, Some ErrOutOfOrder), registry, w)
        else if en_SourceNonce envelope < nextn
        then ((no_execution, Some ErrNonceConflict), registry, w)
        else if \<not> now < as_time (en_ExpiresAt envelope) \<and> \<not> IsReportAction (en_ActionType envelope)
        then (let (outcome, registry1) = expire_message envelope serialized registry
              in (outcome, registry1, w))
        else run_handler handler envelope serialized nextn (registry, w))"

definition Execute ::
  "MessageEnv \<Rightarrow> 'w Handler option \<Rightarrow> gotime \<Rightarrow> Envelope \<Rightarrow> Registry \<times> 'w \<Rightarrow>
   (Execution \<times> registry_error option) \<times> Registry \<times> 'w" where
  "Execute E handler now envelope s =
     (case ValidateEnvelope E envelope of
        Inl e \<Rightarrow> ((no_execution, Some (MessageError e)), s)
      | Inr _ \<Rightarrow>
          (case handler of
             None \<Rightarrow> ((no_execution, Some NilHandler), s)
           | Some h \<Rightarrow>
               (case DeterministicBytes E envelope of
                  Inl e \<Rightarrow> ((no_execution, Some (MessageError e)), s)
                | Inr serialized \<Rightarrow> execute_locked h now envelope serialized s)))"

section \<open>What a call can do\<close>

text \<open>The conditions under which a call changes anything.\<close>

definition admissible :: "Registry \<Rightarrow> Envelope \<Rightarrow> byte list \<Rightarrow> bool" where
  "admissible r e b \<longleftrightarrow>
     (let existing = mget (rg_byMessage r) (en_MessageId e);
          taken = mget (rg_byNonce r) (nonce_key (en_LaneId e) (en_SourceNonce e))
      in \<not> (existing \<noteq> None \<and> mr_envelope (the existing) \<noteq> b) \<and>
         \<not> (existing \<noteq> None \<and> mr_state (the existing) = EXECUTED) \<and>
         \<not> (existing \<noteq> None \<and> mr_state (the existing) = EXPIRED) \<and>
         \<not> (taken \<noteq> None \<and> the taken \<noteq> en_MessageId e) \<and>
         \<not> en_SourceNonce e > next_nonce r (en_LaneId e) \<and>
         \<not> en_SourceNonce e < next_nonce r (en_LaneId e))"

lemma admissible_iff:
  "admissible r e b \<longleftrightarrow>
     (\<forall>c. mget (rg_byMessage r) (en_MessageId e) = Some c \<longrightarrow>
        mr_envelope c = b \<and> mr_state c \<noteq> EXECUTED \<and> mr_state c \<noteq> EXPIRED) \<and>
     (\<forall>m. mget (rg_byNonce r) (nonce_key (en_LaneId e) (en_SourceNonce e)) = Some m \<longrightarrow> m = en_MessageId e) \<and>
     en_SourceNonce e = next_nonce r (en_LaneId e)"
  by (cases "mget (rg_byMessage r) (en_MessageId e)";
      cases "mget (rg_byNonce r) (nonce_key (en_LaneId e) (en_SourceNonce e))")
    (auto simp: admissible_def Let_def not_less)

definition record_written :: "Registry \<Rightarrow> Envelope \<Rightarrow> message_record \<Rightarrow> Registry \<Rightarrow> bool" where
  "record_written r e c r' \<longleftrightarrow>
     rg_byMessage r' = mput (en_MessageId e) c (rg_byMessage r) \<and>
     (mhas (rg_byMessage r) (en_MessageId e) \<and> rg_byNonce r' = rg_byNonce r \<or>
      rg_byNonce r' = mput (nonce_key (en_LaneId e) (en_SourceNonce e)) (en_MessageId e) (rg_byNonce r))"

lemma mput_twice [simp]: "mput k v (mput k w m) = mput k v m"
  by (induction m) auto

lemma expire_message_written:
  assumes "expire_message e b r = (out, r')"
    and "\<And>c. mget (rg_byMessage r) (en_MessageId e) = Some c \<Longrightarrow> mr_envelope c = b"
  obtains c where "record_written r e c r'" "mr_envelope c = b" "mr_state c = EXPIRED"
    and "rg_nextNonce r' = rg_nextNonce r" "snd out = Some ErrMessageExpired"
proof (cases "mget (rg_byMessage r) (en_MessageId e)")
  case None
  show ?thesis
    by (rule that[of "\<lparr>mr_envelope = b, mr_state = EXPIRED, mr_result = [], mr_version = 1\<rparr>"])
      (use None assms(1) in \<open>auto simp: expire_message_def record_written_def store_new_def store_record_def Let_def\<close>)
next
  case (Some c)
  show ?thesis
    by (rule that[of "c\<lparr>mr_state := EXPIRED, mr_version := mr_version c + 1\<rparr>"])
      (use Some assms in \<open>auto simp: expire_message_def record_written_def store_record_def mhas_def Let_def\<close>)
qed

lemma run_handler_written:
  assumes "run_handler h e b n (r, w) = (out, r', w')"
    and "\<And>c. mget (rg_byMessage r) (en_MessageId e) = Some c \<Longrightarrow> mr_envelope c = b"
  obtains (failed) c f where "record_written r e c r'" "mr_envelope c = b" "mr_state c = FAILED"
      "rg_nextNonce r' = rg_nextNonce r" "h w e = (Inl f, w')"
  | (executed) c res where "record_written r e c r'" "mr_envelope c = b" "mr_state c = EXECUTED"
      "rg_nextNonce r' = mput (en_LaneId e) (n + 1) (rg_nextNonce r)" "h w e = (Inr res, w')"
      "mr_result c = res"
proof -
  obtain c0 r1 where c0: "(case mget (rg_byMessage r) (en_MessageId e) of
              None \<Rightarrow>
                (let fresh = \<lparr>mr_envelope = b, mr_state = VERIFIED, mr_result = [], mr_version = 1\<rparr>
                 in (fresh, store_new e fresh r))
            | Some found \<Rightarrow> (found, r)) = (c0, r1)" by (meson surj_pair)
  have r1: "mr_envelope c0 = b" "rg_nextNonce r1 = rg_nextNonce r"
    and written: "record_written r e c (store_record e c r1)" for c
    using c0 assms(2)
    by (auto simp: store_new_def store_record_def record_written_def mhas_def Let_def split: option.splits)
  show thesis
  proof (cases "h w e")
    case (Pair res w1)
    show thesis
    proof (cases res)
      case (Inl f)
      show thesis
        by (rule failed[of "c0\<lparr>mr_state := FAILED, mr_version := mr_version c0 + 1\<rparr>" f])
          (use Pair Inl assms(1) c0 r1 written in \<open>auto simp: run_handler_def store_record_def Let_def\<close>)
    next
      case (Inr x)
      let ?c = "c0\<lparr>mr_result := x, mr_state := EXECUTED, mr_version := mr_version c0 + 1\<rparr>"
      have "r' = (store_record e ?c r1)\<lparr>rg_nextNonce := mput (en_LaneId e) (n + 1) (rg_nextNonce r)\<rparr>"
        using Pair Inr assms(1) c0 by (auto simp: run_handler_def Let_def)
      moreover have "w' = w1" using Pair Inr assms(1) c0 by (auto simp: run_handler_def Let_def)
      ultimately show thesis
        using executed[of ?c x] Pair Inr r1 written[of ?c] by (auto simp: record_written_def)
    qed
  qed
qed

lemma execute_locked_admissible:
  "admissible r e b \<Longrightarrow> execute_locked h now e b (r, w) =
     (if \<not> now < as_time (en_ExpiresAt e) \<and> \<not> IsReportAction (en_ActionType e)
      then (let (outcome, registry1) = expire_message e b r in (outcome, registry1, w))
      else run_handler h e b (next_nonce r (en_LaneId e)) (r, w))"
  unfolding admissible_def Let_def execute_locked_def prod.case by (elim conjE) (simp only: if_False)

lemma execute_locked_cases:
  assumes "execute_locked h now e b (r, w) = (out, r', w')"
  obtains (same) "r' = r" "w' = w"
  | (expired) c where "admissible r e b" "record_written r e c r'" "mr_envelope c = b"
      "mr_state c = EXPIRED" "rg_nextNonce r' = rg_nextNonce r" "w' = w"
  | (failed) c f where "admissible r e b" "record_written r e c r'" "mr_envelope c = b"
      "mr_state c = FAILED" "rg_nextNonce r' = rg_nextNonce r" "h w e = (Inl f, w')"
  | (executed) c res where "admissible r e b" "record_written r e c r'" "mr_envelope c = b"
      "mr_state c = EXECUTED" "h w e = (Inr res, w')"
      "rg_nextNonce r' = mput (en_LaneId e) (next_nonce r (en_LaneId e) + 1) (rg_nextNonce r)"
proof (cases "admissible r e b")
  case False
  then have "r' = r \<and> w' = w"
    using assms unfolding execute_locked_def admissible_def Let_def prod.case
    by (simp split: if_split_asm)
  then show ?thesis using same by simp
next
  case True
  then have found: "mr_envelope c = b" if "mget (rg_byMessage r) (en_MessageId e) = Some c" for c
    using that by (simp add: admissible_iff)
  note adm = execute_locked_admissible[OF True, of h now w]
  show ?thesis
  proof (cases "\<not> now < as_time (en_ExpiresAt e) \<and> \<not> IsReportAction (en_ActionType e)")
    case late: True
    obtain o1 r1 where er: "expire_message e b r = (o1, r1)" by (meson surj_pair)
    with assms adm late have "r1 = r'" and w: "w' = w" by (simp_all split: if_splits)
    with er have "expire_message e b r = (o1, r')" by simp
    from this found show ?thesis
      by (rule expire_message_written) (simp, erule (3) expired[OF True], rule w)
  next
    case False
    with assms adm have "run_handler h e b (next_nonce r (en_LaneId e)) (r, w) = (out, r', w')" by simp
    from this found show ?thesis
      by (rule run_handler_written) (simp, erule (4) failed[OF True], erule (3) executed[OF True])
  qed
qed

section \<open>Deliveries\<close>

text \<open>
  A handler that also keeps the list of the messages it executed, and the delivery of any envelope at
  any time to the registry.
\<close>

definition recording :: "'w Handler \<Rightarrow> ('w \<times> Envelope list) Handler" where
  "recording h = (\<lambda>(w, log) e.
     case h w e of
       (Inl f, w1) \<Rightarrow> (Inl f, (w1, log))
     | (Inr res, w1) \<Rightarrow> (Inr res, (w1, log @ [e])))"

type_synonym 'w destination = "Registry \<times> 'w \<times> Envelope list"

definition delivery :: "MessageEnv \<Rightarrow> 'w Handler \<Rightarrow> 'w destination \<Rightarrow> 'w destination \<Rightarrow> bool" where
  "delivery E h s t \<longleftrightarrow> (\<exists>now e. t = snd (Execute E (Some (recording h)) now e s))"

definition registry_start :: "'w destination \<Rightarrow> bool" where
  "registry_start s \<longleftrightarrow> (\<exists>w. s = (NewRegistry, w, []))"

text \<open>Two valid envelopes that serialize alike are the same: protobuf reads back what it wrote.\<close>

definition marshal_faithful :: "MessageEnv \<Rightarrow> bool" where
  "marshal_faithful E \<longleftrightarrow>
     (\<forall>e f b. ValidateEnvelope E e = Inr () \<longrightarrow> ValidateEnvelope E f = Inr () \<longrightarrow>
        env_marshal E e = Some b \<longrightarrow> env_marshal E f = Some b \<longrightarrow> e = f)"

definition lane_nonces :: "Envelope list \<Rightarrow> byte list \<Rightarrow> 64 word list" where
  "lane_nonces log lane = map en_SourceNonce (filter (\<lambda>e. en_LaneId e = lane) log)"

definition lane_ok :: "Registry \<Rightarrow> Envelope list \<Rightarrow> byte list \<Rightarrow> bool" where
  "lane_ok r log lane \<longleftrightarrow>
     (\<exists>k < 2 ^ 64. lane_nonces log lane = map of_nat [1..<Suc k] \<and>
        mget (rg_nextNonce r) lane = (if k = 0 then None else Some (of_nat (Suc k))))"

definition known :: "MessageEnv \<Rightarrow> Registry \<Rightarrow> byte list \<Rightarrow> message_record \<Rightarrow> bool" where
  "known E r i c \<longleftrightarrow>
     (\<exists>e. ValidateEnvelope E e = Inr () \<and> en_MessageId e = i \<and> env_marshal E e = Some (mr_envelope c) \<and>
        mget (rg_byNonce r) (nonce_key (en_LaneId e) (en_SourceNonce e)) = Some i)"

definition executed_in :: "MessageEnv \<Rightarrow> Registry \<Rightarrow> Envelope \<Rightarrow> bool" where
  "executed_in E r e \<longleftrightarrow> ValidateEnvelope E e = Inr () \<and>
     (\<exists>c. mget (rg_byMessage r) (en_MessageId e) = Some c \<and> mr_state c = EXECUTED \<and>
        env_marshal E e = Some (mr_envelope c))"

definition destination_inv :: "MessageEnv \<Rightarrow> 'w destination \<Rightarrow> bool" where
  "destination_inv E = (\<lambda>(r, w, log).
     (\<forall>i c. mget (rg_byMessage r) i = Some c \<longrightarrow> known E r i c) \<and>
     list_all (executed_in E r) log \<and>
     distinct (map en_MessageId log) \<and>
     (\<forall>lane. lane_ok r log lane))"

lemma lane_nonces_append [simp]:
  "lane_nonces (log @ [e]) lane = lane_nonces log lane @ (if en_LaneId e = lane then [en_SourceNonce e] else [])"
  by (simp add: lane_nonces_def)

text \<open>Records that are not the written one, and nonces already taken, stay as they are.\<close>

lemma written_known:
  assumes "record_written r e c r'" "admissible r e b" "known E r i d"
  shows "known E r' i d"
  using assms unfolding known_def record_written_def admissible_iff by fastforce

lemma written_records:
  assumes inv: "\<And>i c. mget (rg_byMessage r) i = Some c \<Longrightarrow> known E r i c"
    and w: "record_written r e c r'" "admissible r e b" "mr_envelope c = b"
    and e: "ValidateEnvelope E e = Inr ()" "env_marshal E e = Some b" "marshal_faithful E"
    and "mget (rg_byMessage r') i = Some d"
  shows "known E r' i d"
proof (cases "i = en_MessageId e")
  case False
  with assms(8) w(1) have "mget (rg_byMessage r) i = Some d" by (simp add: record_written_def)
  with inv w show ?thesis by (blast intro: written_known)
next
  case True
  with assms(8) w(1) have d: "d = c" by (simp add: record_written_def)
  have "mget (rg_byNonce r') (nonce_key (en_LaneId e) (en_SourceNonce e)) = Some i"
  proof (cases "mget (rg_byMessage r) i")
    case None
    with w(1) True show ?thesis by (auto simp: record_written_def mhas_def)
  next
    case (Some c0)
    with True w(2) have "mr_envelope c0 = b" by (simp add: admissible_iff)
    with inv[OF Some] e have "mget (rg_byNonce r) (nonce_key (en_LaneId e) (en_SourceNonce e)) = Some i"
      unfolding known_def marshal_faithful_def by metis
    with w(1) True show ?thesis by (auto simp: record_written_def)
  qed
  with d w(3) e True show ?thesis unfolding known_def by blast
qed

lemma written_executed:
  assumes "record_written r e c r'" "admissible r e b" "executed_in E r f"
  shows "executed_in E r' f"
  using assms by (auto simp: executed_in_def record_written_def admissible_iff)

lemma next_nonce_counts:
  assumes "mget (rg_nextNonce r) lane = (if k = 0 then None else Some (of_nat (Suc k)))" "k < 2 ^ 64"
  shows "next_nonce r lane = (if Suc k = 2 ^ 64 then 1 else of_nat (Suc k))"
proof -
  have "(of_nat n :: 64 word) = 0 \<longleftrightarrow> 2 ^ 64 dvd n" for n
    by (simp add: word_of_nat_eq_0_iff)
  then have "(of_nat (Suc k) :: 64 word) = 0 \<longleftrightarrow> 2 ^ 64 dvd Suc k" .
  also have "\<dots> \<longleftrightarrow> Suc k = 2 ^ 64"
  proof
    assume "2 ^ 64 dvd Suc k"
    then have "2 ^ 64 \<le> Suc k" by (rule dvd_imp_le) simp
    with assms(2) show "Suc k = 2 ^ 64" by linarith
  qed (simp only: dvd_refl)
  finally have zero: "(of_nat (Suc k) :: 64 word) = 0 \<longleftrightarrow> Suc k = 2 ^ 64" .
  show ?thesis
  proof (cases "k = 0")
    case True
    with assms(1) show ?thesis by (simp add: next_nonce_def)
  next
    case False
    with assms(1) zero show ?thesis by (simp only: next_nonce_def Let_def if_False the_default_simps)
  qed
qed

lemma lane_ok_next:
  assumes "lane_ok r log (en_LaneId e)" "en_SourceNonce e = next_nonce r (en_LaneId e)"
    and "rg_nextNonce r' = mput (en_LaneId e) (next_nonce r (en_LaneId e) + 1) (rg_nextNonce r)"
    and "1 \<notin> set (lane_nonces log (en_LaneId e)) \<or> en_SourceNonce e \<noteq> 1"
  shows "lane_ok r' (log @ [e]) (en_LaneId e)"
proof -
  from assms(1) obtain k where k: "k < 2 ^ 64" "lane_nonces log (en_LaneId e) = map of_nat [1..<Suc k]"
    "mget (rg_nextNonce r) (en_LaneId e) = (if k = 0 then None else Some (of_nat (Suc k)))"
    unfolding lane_ok_def by blast
  note nextn = next_nonce_counts[OF k(3,1)]
  have "Suc k \<noteq> 2 ^ 64"
  proof
    assume top: "Suc k = 2 ^ 64"
    then have "1 < Suc k" by simp
    then have "1 \<in> set [1..<Suc k]" by (simp only: set_upt atLeastLessThan_iff order_refl simp_thms)
    then have "of_nat 1 \<in> set (lane_nonces log (en_LaneId e))"
      unfolding k(2) set_map by (rule imageI)
    with top nextn assms(2,4) show False by simp
  qed
  with nextn have n: "next_nonce r (en_LaneId e) = of_nat (Suc k)" by simp
  show ?thesis
    unfolding lane_ok_def
  proof (intro exI conjI)
    show "Suc k < 2 ^ 64" using k(1) \<open>Suc k \<noteq> 2 ^ 64\<close> by simp
    show "lane_nonces (log @ [e]) (en_LaneId e) = map of_nat [1..<Suc (Suc k)]"
      using n assms(2) k(2) by simp
    show "mget (rg_nextNonce r') (en_LaneId e) = (if Suc k = 0 then None else Some (of_nat (Suc (Suc k))))"
      using n assms(3) by simp
  qed
qed

lemma execute_locked_inv:
  assumes inv: "destination_inv E (r, w, log)"
    and ex: "execute_locked (recording h) now e b (r, w, log) = (out, r', w', log')"
    and e: "ValidateEnvelope E e = Inr ()" "env_marshal E e = Some b" "marshal_faithful E"
  shows "destination_inv E (r', w', log')"
proof -
  from inv have records: "\<And>i c. mget (rg_byMessage r) i = Some c \<Longrightarrow> known E r i c"
    and finished: "list_all (executed_in E r) log" and dist: "distinct (map en_MessageId log)"
    and lanes: "\<And>lane. lane_ok r log lane"
    by (auto simp: destination_inv_def)
  have quiet: "destination_inv E (r', w1, log)"
    if "admissible r e b" "record_written r e c r'" "mr_envelope c = b" "rg_nextNonce r' = rg_nextNonce r"
    for c and w1 :: 'a
    using written_records[OF records that(2,1,3) e] written_executed[OF that(2,1)] finished dist lanes that(4)
    by (auto simp: destination_inv_def list_all_iff lane_ok_def)
  from ex show ?thesis
  proof (cases rule: execute_locked_cases)
    case same
    with inv show ?thesis by simp
  next
    case (expired c)
    with quiet show ?thesis by simp
  next
    case (failed c f)
    then have "log' = log" by (auto simp: recording_def split: prod.splits sum.splits)
    with failed quiet show ?thesis by simp
  next
    case (executed c res)
    then have log': "log' = log @ [e]" by (auto simp: recording_def split: prod.splits sum.splits)
    have fresh: "\<not> executed_in E r f" if "en_MessageId f = en_MessageId e" for f
      using that executed(1) by (auto simp: executed_in_def admissible_iff)
    have "executed_in E r' e"
      using executed(2,3,4) e by (auto simp: executed_in_def record_written_def)
    moreover have "en_MessageId e \<notin> set (map en_MessageId log)"
      using fresh finished by (auto simp: list_all_iff)
    moreover have "lane_ok r' log' lane" for lane
    proof (cases "lane = en_LaneId e")
      case False
      with lanes[of lane] executed(6) log' show ?thesis by (simp add: lane_ok_def)
    next
      case True
      have "1 \<notin> set (lane_nonces log (en_LaneId e)) \<or> en_SourceNonce e \<noteq> 1"
      proof (rule ccontr)
        assume "\<not> ?thesis"
        then obtain f where f: "f \<in> set log" "en_LaneId f = en_LaneId e" "en_SourceNonce f = en_SourceNonce e"
          by (auto simp: lane_nonces_def)
        with finished obtain d where "ValidateEnvelope E f = Inr ()" "executed_in E r f"
          "mget (rg_byMessage r) (en_MessageId f) = Some d" "env_marshal E f = Some (mr_envelope d)"
          by (auto simp: list_all_iff executed_in_def)
        with records e(3) have "mget (rg_byNonce r) (nonce_key (en_LaneId f) (en_SourceNonce f)) = Some (en_MessageId f)"
          unfolding known_def marshal_faithful_def by metis
        with f executed(1) have "en_MessageId f = en_MessageId e" by (auto simp: admissible_iff)
        with fresh \<open>executed_in E r f\<close> show False by blast
      qed
      with True lanes[of lane] executed(1,6) log' show ?thesis
        by (simp add: lane_ok_next admissible_iff)
    qed
    ultimately show ?thesis
      using written_records[OF records executed(2,1,3) e] written_executed[OF executed(2,1)] finished dist log'
      by (auto simp: destination_inv_def list_all_iff)
  qed
qed

lemma Execute_cases:
  assumes "Execute E h now e s = (out, t)"
  obtains (same) "t = s"
  | (locked) k b where "h = Some k" "ValidateEnvelope E e = Inr ()" "env_marshal E e = Some b"
      "execute_locked k now e b s = (out, t)"
  using assms
  by (auto simp: Execute_def DeterministicBytes_def split: sum.splits option.splits)

lemma delivery_inv:
  assumes "destination_inv E s" "delivery E h s t" "marshal_faithful E"
  shows "destination_inv E t"
proof -
  from assms(2) obtain now e out where ex: "Execute E (Some (recording h)) now e s = (out, t)"
    unfolding delivery_def by (metis prod.collapse)
  obtain r w log r' w' log' where st: "s = (r, w, log)" "t = (r', w', log')" by (metis prod.exhaust)
  from ex show ?thesis
  proof (cases rule: Execute_cases)
    case same
    with assms(1) show ?thesis by simp
  next
    case (locked k b)
    then show ?thesis using execute_locked_inv[of E r w log h now e b out r' w' log'] assms(1,3) st by simp
  qed
qed

lemma registry_start_inv: "registry_start s \<Longrightarrow> destination_inv E s"
  by (auto simp: registry_start_def destination_inv_def NewRegistry_def lane_ok_def lane_nonces_def
      intro!: exI[of _ 0])

interpretation destinations: kept_invariant registry_start "delivery E h"
    "\<lambda>s. marshal_faithful E \<longrightarrow> destination_inv E s" for E h
  by unfold_locales (auto intro: registry_start_inv delivery_inv)

lemma executed_replay:
  assumes "executed_in E r e"
  obtains c where "mr_state c = EXECUTED"
    and "\<And>h now w. Execute E (Some h) now e (r, w) = ((toExecution (en_MessageId e) c True, None), (r, w))"
  using assms
  by (auto simp: executed_in_def Execute_def DeterministicBytes_def execute_locked_def)

section \<open>An expired message\<close>

text \<open>\<^verbatim>\<open>CrossChainTypes.isReportAction\<close>, which \<open>IsReportAction\<close> says it mirrors.\<close>

fun isReportAction :: "CrossChainActionType \<Rightarrow> bool" where
  "isReportAction WRAPPED_UFT_MINTED_V1 = True"
| "isReportAction SATELLITE_COLLATERAL_LOCKED_V1 = True"
| "isReportAction SATELLITE_DISBURSEMENT_SETTLED_V1 = True"
| "isReportAction SOURCE_COMPENSATED_V1 = True"
| "isReportAction SATELLITE_COLLATERAL_RELEASED_V1 = True"
| "isReportAction _ = False"

lemma report_actions_differ: "IsReportAction a \<noteq> isReportAction a \<longleftrightarrow> a = SOURCE_COMPENSATED_V1"
  by (cases a) simp_all

text \<open>The lane's next message has expired: no other message can take its nonce.\<close>

definition blocked :: "Registry \<Rightarrow> Envelope \<Rightarrow> bool" where
  "blocked r e \<longleftrightarrow>
     (\<exists>c. mget (rg_byMessage r) (en_MessageId e) = Some c \<and> mr_state c = EXPIRED) \<and>
     mget (rg_byNonce r) (nonce_key (en_LaneId e) (en_SourceNonce e)) = Some (en_MessageId e) \<and>
     en_SourceNonce e = next_nonce r (en_LaneId e)"

lemma blocked_not_admissible:
  "blocked r e \<Longrightarrow> admissible r f b \<Longrightarrow> en_LaneId f \<noteq> en_LaneId e \<and> en_MessageId f \<noteq> en_MessageId e"
  by (auto simp: blocked_def admissible_iff)

lemma blocked_written:
  assumes "blocked r e" "admissible r f b" "record_written r f c r'"
    and "rg_nextNonce r' = rg_nextNonce r \<or>
      rg_nextNonce r' = mput (en_LaneId f) (next_nonce r (en_LaneId f) + 1) (rg_nextNonce r)"
  shows "blocked r' e"
proof -
  note ne = blocked_not_admissible[OF assms(1,2)]
  have "mget (rg_byNonce r') (nonce_key (en_LaneId e) (en_SourceNonce e)) = Some (en_MessageId e)"
    using assms(1-3) ne by (auto simp: blocked_def record_written_def admissible_iff)
  with assms ne show ?thesis
    by (auto simp: blocked_def record_written_def next_nonce_def)
qed

lemma blocked_delivery:
  assumes "delivery E h (r, w, log) (r', w', log')" "blocked r e"
  shows "blocked r' e \<and> lane_nonces log' (en_LaneId e) = lane_nonces log (en_LaneId e)"
proof -
  from assms(1) obtain now f out where
    ex: "Execute E (Some (recording h)) now f (r, w, log) = (out, r', w', log')"
    unfolding delivery_def by (metis prod.collapse)
  then show ?thesis
  proof (cases rule: Execute_cases)
    case same
    with assms(2) show ?thesis by simp
  next
    case (locked k b)
    then have "execute_locked (recording h) now f b (r, w, log) = (out, r', w', log')" by simp
    then show ?thesis
    proof (cases rule: execute_locked_cases)
      case same
      with assms(2) show ?thesis by simp
    next
      case (expired c)
      with assms(2) show ?thesis by (auto intro: blocked_written)
    next
      case (failed c x)
      then have "log' = log" by (auto simp: recording_def split: prod.splits sum.splits)
      with failed assms(2) show ?thesis by (auto intro: blocked_written)
    next
      case (executed c res)
      then have "log' = log @ [f]" by (auto simp: recording_def split: prod.splits sum.splits)
      with executed assms(2) blocked_not_admissible[OF assms(2) executed(1)] show ?thesis
        by (auto intro: blocked_written)
    qed
  qed
qed

lemma blocked_forever:
  assumes "(delivery E h)\<^sup>*\<^sup>* s t" "blocked (fst s) e"
  shows "lane_nonces (snd (snd t)) (en_LaneId e) = lane_nonces (snd (snd s)) (en_LaneId e)"
proof -
  from assms have "blocked (fst t) e \<and>
    lane_nonces (snd (snd t)) (en_LaneId e) = lane_nonces (snd (snd s)) (en_LaneId e)"
  proof (induction rule: rtranclp_induct)
    case (step t u)
    then have "delivery E h (fst t, fst (snd t), snd (snd t)) (fst u, fst (snd u), snd (snd u))"
      and "blocked (fst t) e" by simp_all
    from blocked_delivery[OF this] step.IH step.prems show ?case by simp
  qed simp
  then show ?thesis by simp
qed

lemma execute_at_turn:
  assumes "ValidateEnvelope E e = Inr ()" "DeterministicBytes E e = Inr b" "admissible (fst s) e b"
  shows "IsReportAction (en_ActionType e) \<Longrightarrow>
      Execute E (Some h) now e s = run_handler h e b (en_SourceNonce e) s"
    and "\<not> IsReportAction (en_ActionType e) \<Longrightarrow> \<not> now < as_time (en_ExpiresAt e) \<Longrightarrow>
      \<exists>x t. Execute E (Some h) now e s = ((x, Some ErrMessageExpired), t) \<and> \<not> ex_Replay x"
proof -
  obtain r w where s: "s = (r, w)" by fastforce
  have turn: "next_nonce r (en_LaneId e) = en_SourceNonce e" using assms(3) by (simp add: admissible_iff s)
  have run: "Execute E (Some h) now e (r, w) = execute_locked h now e b (r, w)"
    using assms(1,2) by (simp add: Execute_def)
  show "IsReportAction (en_ActionType e) \<Longrightarrow> Execute E (Some h) now e s = run_handler h e b (en_SourceNonce e) s"
    using assms(3) by (simp add: s run turn execute_locked_admissible)
  show "\<exists>x t. Execute E (Some h) now e s = ((x, Some ErrMessageExpired), t) \<and> \<not> ex_Replay x"
    if "\<not> IsReportAction (en_ActionType e)" "\<not> now < as_time (en_ExpiresAt e)"
    using that assms(3)
    by (simp add: s run execute_locked_admissible expire_message_def Let_def toExecution_def split: option.splits)
qed

lemma expired_is_blocked:
  assumes "Execute E (Some (recording h)) now e s = ((x, Some ErrMessageExpired), t)" "\<not> ex_Replay x"
    and "destination_inv E s" "marshal_faithful E"
  shows "blocked (fst t) e \<and> snd (snd t) = snd (snd s)"
proof -
  obtain r w log where s: "s = (r, w, log)" by (metis prod.exhaust)
  obtain r' w' log' where t: "t = (r', w', log')" by (metis prod.exhaust)
  from assms(1) obtain b where v: "ValidateEnvelope E e = Inr ()" "env_marshal E e = Some b"
    and ex: "execute_locked (recording h) now e b (r, w, log) = ((x, Some ErrMessageExpired), r', w', log')"
    by (auto simp: s t Execute_def DeterministicBytes_def split: sum.splits option.splits)
  from ex assms(2) have adm: "admissible r e b"
    unfolding execute_locked_def admissible_def Let_def prod.case
    by (auto simp: toExecution_def split: if_split_asm)
  have "run_handler (recording h) e b n (r, w, log) \<noteq> ((x, Some ErrMessageExpired), r', w', log')" for n
    by (auto simp: run_handler_def Let_def split: prod.splits sum.splits)
  with ex adm obtain x1 where er: "expire_message e b r = (x1, r')" and log: "log' = log"
    by (auto simp: execute_locked_admissible split: prod.splits if_split_asm)
  from adm have "\<And>c. mget (rg_byMessage r) (en_MessageId e) = Some c \<Longrightarrow> mr_envelope c = b"
    by (simp add: admissible_iff)
  from er this obtain c where c: "record_written r e c r'" "mr_envelope c = b" "mr_state c = EXPIRED"
    "rg_nextNonce r' = rg_nextNonce r" by (rule expire_message_written)
  then have found: "mget (rg_byMessage r') (en_MessageId e) = Some c" by (simp add: record_written_def)
  have "\<And>i c. mget (rg_byMessage r) i = Some c \<Longrightarrow> known E r i c"
    using assms(3) by (auto simp: s destination_inv_def)
  from written_records[OF this c(1) adm c(2) v assms(4) found]
  have "mget (rg_byNonce r') (nonce_key (en_LaneId e) (en_SourceNonce e)) = Some (en_MessageId e)"
    using v assms(4) c(2) unfolding known_def marshal_faithful_def by metis
  moreover have "en_SourceNonce e = next_nonce r' (en_LaneId e)"
    using adm c(4) by (simp add: admissible_iff next_nonce_def)
  ultimately show ?thesis using c(3) found log by (auto simp: blocked_def s t)
qed

section \<open>Sample deliveries\<close>

lemma length_signed_bytes: "well_formed e \<Longrightarrow> length (signed_bytes e) = 800"
  by (simp add: signed_bytes_def length_words signed_head_sized)
    (simp add: signed_head_def message_head_def message_tail_def pad32_def uintWord_def domainTag_def)

lemma toy_marshal_faithful: "marshal_faithful toy_env"
  unfolding marshal_faithful_def
proof (intro allI impI)
  fix e f b
  assume v: "ValidateEnvelope toy_env e = Inr ()" "ValidateEnvelope toy_env f = Inr ()"
    and "env_marshal toy_env e = Some b" "env_marshal toy_env f = Some b"
  then have "signed_bytes e @ en_TypedActionPayload e @ en_MessageId e =
      signed_bytes f @ en_TypedActionPayload f @ en_MessageId f" by (simp add: toy_env_def)
  moreover have "length (signed_bytes g) = 800 \<and> length (en_MessageId g) = 32"
    if "ValidateEnvelope toy_env g = Inr ()" for g
    using that unfolding ValidateEnvelope_Inr by (metis length_signed_bytes)
  note this[OF v(1)] this[OF v(2)]
  ultimately show "e = f"
    using valid_envelope_inject[OF v] by simp
qed

definition sample_handler :: "nat Handler" where
  "sample_handler w e = (Inr (en_MessageId e), Suc w)"

definition sample_clock :: gotime where
  "sample_clock = unix_epoch + 150 * 1000000000"

definition sample_start :: "nat destination" where
  "sample_start = (NewRegistry, 0, [])"

definition sample_delivered :: "nat destination" where
  "sample_delivered = snd (Execute toy_env (Some (recording sample_handler)) sample_clock (sealed_sample 1 200) sample_start)"

lemma sample_delivered_log: "snd (snd sample_delivered) = [sealed_sample 1 200]"
  by code_simp

lemma sample_delivered_reachable: "reachable registry_start (delivery toy_env sample_handler) sample_delivered"
proof (rule reach_step)
  show "reachable registry_start (delivery toy_env sample_handler) sample_start"
    by (rule reach_init) (simp add: registry_start_def sample_start_def)
  show "delivery toy_env sample_handler sample_start sample_delivered"
    unfolding delivery_def sample_delivered_def by blast
qed

text \<open>The report that a funding was cancelled, delivered after its expiry.\<close>

definition sample_cancelled :: SatelliteFundingCancelledPayload where
  "sample_cancelled = \<lparr>sfc_CancellationId = bytes_of 32 1, sfc_LoanId = bytes_of 32 2,
     sfc_FundingLockId = bytes_of 32 3, sfc_DisbursementMessageId = bytes_of 32 4,
     sfc_DisbursementTombstoneHash = bytes_of 32 5, sfc_EscrowBurnResultHash = bytes_of 32 6,
     sfc_HomeLoanAccount = bytes_of 20 7, sfc_Lender = bytes_of 20 8, sfc_WrappedToken = bytes_of 20 9,
     sfc_Amount = ''1000'', sfc_PolicyHash = bytes_of 32 10\<rparr>"

definition late_report :: Envelope where
  "late_report =
     (let m = (sample_message 1 120)\<lparr>en_ActionType := SOURCE_COMPENSATED_V1,
                en_TypedAction := SatelliteFundingCancelled sample_cancelled\<rparr>
      in case BindTypedActionABI toy_env m of
           Inl _ \<Rightarrow> m
         | Inr bound \<Rightarrow> (case Seal toy_env (Some bound) of Inl _ \<Rightarrow> bound | Inr s \<Rightarrow> s))"

definition late_outcome :: "(Execution \<times> registry_error option) \<times> nat destination" where
  "late_outcome = Execute toy_env (Some (recording sample_handler)) sample_clock late_report sample_start"

text \<open>The next message of the lane, delivered after the late report.\<close>

definition after_late_report :: "nat destination" where
  "after_late_report =
     snd (Execute toy_env (Some (recording sample_handler)) sample_clock (sealed_sample 2 200) (snd late_outcome))"

lemma late_report_turn:
  "ValidateEnvelope toy_env late_report = Inr ()"
  "DeterministicBytes toy_env late_report = Inr (the (env_marshal toy_env late_report))"
  "admissible (fst sample_start) late_report (the (env_marshal toy_env late_report))"
  "\<not> sample_clock < as_time (en_ExpiresAt late_report)"
  "en_ActionType late_report = SOURCE_COMPENSATED_V1"
  by code_simp+

section \<open>Claims\<close>

text \<open>
  C29: However envelopes are delivered, in any order, number of times and at any time, the messages a
  lane executes are exactly its nonces 1, 2, 3, ... in that order, without a gap and below the 64-bit
  wrap-around; no message is executed twice; and a message that was executed is answered from its
  record, without calling the handler and without changing anything.
\<close>

theorem lanes_execute_in_order:
  assumes "marshal_faithful E" "reachable registry_start (delivery E h) (r, w, log)"
  shows "(\<exists>k < 2 ^ 64. lane_nonces log lane = map of_nat [1..<Suc k]) \<and>
    distinct (map en_MessageId log) \<and>
    (\<forall>e \<in> set log. \<forall>h' now w'. \<exists>c. mr_state c = EXECUTED \<and>
       Execute E (Some h') now e (r, w') = ((toExecution (en_MessageId e) c True, None), (r, w')))"
proof -
  have inv: "destination_inv E (r, w, log)"
    using destinations.always[OF assms(2)] assms(1) by simp
  then have "\<forall>e \<in> set log. executed_in E r e" by (simp add: destination_inv_def list_all_iff)
  then have "\<forall>e \<in> set log. \<forall>h' now w'. \<exists>c. mr_state c = EXECUTED \<and>
       Execute E (Some h') now e (r, w') = ((toExecution (en_MessageId e) c True, None), (r, w'))"
    by (metis executed_replay)
  moreover from inv have "\<exists>k < 2 ^ 64. lane_nonces log lane = map of_nat [1..<Suc k]"
    unfolding destination_inv_def lane_ok_def by blast
  ultimately show ?thesis using inv by (simp add: destination_inv_def)
qed

theorem lanes_execute_in_order_witness:
  "\<exists>c. mr_state c = EXECUTED \<and>
     Execute toy_env (Some (recording sample_handler)) sample_clock (sealed_sample 1 200) sample_delivered =
       ((toExecution (en_MessageId (sealed_sample 1 200)) c True, None), sample_delivered)"
proof -
  have "reachable registry_start (delivery toy_env sample_handler)
      (fst sample_delivered, fst (snd sample_delivered), snd (snd sample_delivered))"
    using sample_delivered_reachable by simp
  from lanes_execute_in_order[OF toy_marshal_faithful this, THEN conjunct2, THEN conjunct2, rule_format,
      of "sealed_sample 1 200" "recording sample_handler" sample_clock "snd sample_delivered"]
  show ?thesis by (simp add: sample_delivered_log)
qed

text \<open>
  C30: a late message. Let it be a valid message's turn on its lane, after the message has expired. If its
  action is a report of a finished effect, other than the report that a funding was cancelled, the handler
  runs all the same. Otherwise the message is refused as expired and its lane never executes another
  message, whatever is delivered later: the nonce is taken and \<open>nextNonce\<close> only advances on success. So
  \<open>IsReportAction\<close> does not mirror the contract function \<^verbatim>\<open>isReportAction\<close>: the contract takes a late
  cancellation report, here it blocks the lane for good.
\<close>

theorem expired_message_blocks_lane:
  assumes "marshal_faithful E" "reachable registry_start (delivery E h) s"
    and "ValidateEnvelope E e = Inr ()" "DeterministicBytes E e = Inr b" "admissible (fst s) e b"
    and "\<not> now < as_time (en_ExpiresAt e)"
  shows "if isReportAction (en_ActionType e) \<and> en_ActionType e \<noteq> SOURCE_COMPENSATED_V1
    then Execute E (Some (recording h)) now e s = run_handler (recording h) e b (en_SourceNonce e) s
    else \<exists>x t. Execute E (Some (recording h)) now e s = ((x, Some ErrMessageExpired), t) \<and>
      (\<forall>u. (delivery E h)\<^sup>*\<^sup>* t u \<longrightarrow>
         lane_nonces (snd (snd u)) (en_LaneId e) = lane_nonces (snd (snd s)) (en_LaneId e))"
proof -
  have report: "IsReportAction (en_ActionType e) \<longleftrightarrow>
      isReportAction (en_ActionType e) \<and> en_ActionType e \<noteq> SOURCE_COMPENSATED_V1"
    using report_actions_differ[of "en_ActionType e"] by (cases "en_ActionType e = SOURCE_COMPENSATED_V1") auto
  note at_turn = execute_at_turn[OF assms(3-5), where h = "recording h" and now = now]
  show ?thesis
  proof (cases "IsReportAction (en_ActionType e)")
    case True
    with at_turn(1) show ?thesis by (simp add: report)
  next
    case False
    from at_turn(2)[OF False assms(6)] obtain x t where
      x: "Execute E (Some (recording h)) now e s = ((x, Some ErrMessageExpired), t)" "\<not> ex_Replay x"
      by blast
    have "blocked (fst t) e \<and> snd (snd t) = snd (snd s)"
      using destinations.always[OF assms(2)] assms(1) by (intro expired_is_blocked[OF x]) simp_all
    then have "\<forall>u. (delivery E h)\<^sup>*\<^sup>* t u \<longrightarrow>
         lane_nonces (snd (snd u)) (en_LaneId e) = lane_nonces (snd (snd s)) (en_LaneId e)"
      using blocked_forever by fastforce
    with False x(1) report show ?thesis by auto
  qed
qed

theorem expired_message_blocks_lane_witness:
  "isReportAction (en_ActionType late_report) \<and> snd (fst late_outcome) = Some ErrMessageExpired \<and>
   lane_nonces (snd (snd after_late_report)) (en_LaneId late_report) = []"
proof -
  have "reachable registry_start (delivery toy_env sample_handler) sample_start"
    by (rule reach_init) (simp add: registry_start_def sample_start_def)
  note late = expired_message_blocks_lane[OF toy_marshal_faithful this late_report_turn(1-4)]
  from late obtain x t where x: "late_outcome = ((x, Some ErrMessageExpired), t)"
    and later: "\<And>u. (delivery toy_env sample_handler)\<^sup>*\<^sup>* t u \<Longrightarrow>
         lane_nonces (snd (snd u)) (en_LaneId late_report) = lane_nonces (snd (snd sample_start)) (en_LaneId late_report)"
    unfolding late_outcome_def late_report_turn(5) by auto
  have "(delivery toy_env sample_handler)\<^sup>*\<^sup>* t after_late_report"
    unfolding after_late_report_def x by (intro r_into_rtranclp) (auto simp: delivery_def)
  from later[OF this] late_report_turn(5) show ?thesis by (simp add: x sample_start_def lane_nonces_def)
qed

end
