(* ===== verification/Coordinator_Store.thy ===== *)
theory Coordinator_Store
  imports Message_Types Transition
begin

text \<open>
  The durable state of messages: the transition policy \<open>CanTransition\<close> of
  \<^verbatim>\<open>cross-chain-coordinator/message/registry.go\<close> and the in-memory repository of
  \<^verbatim>\<open>cross-chain-coordinator/store/store.go\<close> (immutable route versions, compare-and-set on messages). A
  fixed array \<open>[32]byte\<close> is a byte list compared with \<open>zero32\<close>. The read-write mutex makes each
  method one step. The lemmas follow a message through every sequence of operations.
\<close>

section \<open>Transition policy\<close>

definition allowed_states :: "CrossChainMessageState \<Rightarrow> CrossChainMessageState list" where
  "allowed_states from_state =
     (case from_state of
        CREATED \<Rightarrow> [SOURCE_FINALIZING]
      | SOURCE_FINALIZING \<Rightarrow> [SOURCE_FINAL, EXPIRED, DISPUTED]
      | SOURCE_FINAL \<Rightarrow> [SENT, DISPUTED]
      | SENT \<Rightarrow> [RELAYED, FAILED, REJECTED, EXPIRED, DISPUTED]
      | RELAYED \<Rightarrow> [VERIFIED, FAILED, REJECTED, EXPIRED, DISPUTED]
      | VERIFIED \<Rightarrow> [EXECUTED, FAILED, REJECTED, DISPUTED]
      | EXECUTED \<Rightarrow> [ACK_PENDING, DISPUTED]
      | ACK_PENDING \<Rightarrow> [ACKNOWLEDGED, DISPUTED]
      | REJECTED \<Rightarrow> [RECOVERY_PENDING, DISPUTED]
      | EXPIRED \<Rightarrow> [RECOVERY_PENDING, DISPUTED]
      | RECOVERY_PENDING \<Rightarrow> [DESTINATION_TOMBSTONED, DISPUTED]
      | DESTINATION_TOMBSTONED \<Rightarrow> [SOURCE_COMPENSATED, DISPUTED]
      | SOURCE_COMPENSATED \<Rightarrow> [RECOVERED, DISPUTED]
      | _ \<Rightarrow> [])"

definition CanTransition :: "CrossChainMessageState \<Rightarrow> CrossChainMessageState \<Rightarrow> bool \<Rightarrow> bool" where
  "CanTransition from_state to_state retryable =
     (if from_state = FAILED
      then (if retryable \<and> to_state = SENT then True
            else to_state = RECOVERY_PENDING \<or> to_state = DISPUTED)
      else to_state \<in> set (allowed_states from_state))"

section \<open>Records\<close>

definition zero32 :: "byte list" where
  "zero32 = replicate 32 0"

record RouteVersion =
  rv_RouteID :: string
  rv_Version :: "64 word"
  rv_PolicyHash :: "byte list"
  rv_SourceChain :: string
  rv_DestinationChain :: string
  rv_ActivatedAt :: gotime
  rv_DeprecatedAt :: "gotime option"

record MessageRecord =
  ms_MessageID :: "byte list"
  ms_Envelope :: "byte list"
  ms_State :: CrossChainMessageState
  ms_Version :: "64 word"
  ms_Evidence :: "byte list"
  ms_UpdatedAt :: gotime

record Memory =
  my_routes :: "(string, RouteVersion) gomap"
  my_messages :: "(byte list, MessageRecord) gomap"

datatype store_error =
    ErrConflict
  | ErrImmutableRoute
  | ErrNotFound
  | InvalidRouteVersion
  | InvalidMessageRecord

definition NewMemory :: Memory where
  "NewMemory = \<lparr>my_routes = [], my_messages = []\<rparr>"

section \<open>Routes\<close>

definition routeKey :: "string \<Rightarrow> 64 word \<Rightarrow> string" where
  "routeKey routeID version = routeID @ [CHR 0x00] @ big_string (uint version)"

definition sameRoute :: "RouteVersion \<Rightarrow> RouteVersion \<Rightarrow> bool" where
  "sameRoute left right =
     (if rv_RouteID left \<noteq> rv_RouteID right \<or> rv_Version left \<noteq> rv_Version right \<or>
         rv_PolicyHash left \<noteq> rv_PolicyHash right \<or> rv_SourceChain left \<noteq> rv_SourceChain right \<or>
         rv_DestinationChain left \<noteq> rv_DestinationChain right \<or>
         rv_ActivatedAt left \<noteq> rv_ActivatedAt right
      then False
      else if rv_DeprecatedAt left = None \<or> rv_DeprecatedAt right = None
      then rv_DeprecatedAt left = None \<and> rv_DeprecatedAt right = None
      else the (rv_DeprecatedAt left) = the (rv_DeprecatedAt right))"

definition PutRoute :: "RouteVersion \<Rightarrow> Memory \<Rightarrow> store_error option \<times> Memory" where
  "PutRoute route memory =
     (if rv_RouteID route = [] \<or> rv_Version route = 0 \<or> rv_SourceChain route = [] \<or>
         rv_DestinationChain route = [] \<or> rv_SourceChain route = rv_DestinationChain route \<or>
         rv_PolicyHash route = zero32 \<or> rv_ActivatedAt route = 0 \<or>
         (rv_DeprecatedAt route \<noteq> None \<and> \<not> the (rv_DeprecatedAt route) > rv_ActivatedAt route)
      then (Some InvalidRouteVersion, memory)
      else
        let key = routeKey (rv_RouteID route) (rv_Version route)
        in case mget (my_routes memory) key of
             Some existing \<Rightarrow>
               (if \<not> sameRoute existing route then (Some ErrImmutableRoute, memory) else (None, memory))
           | None \<Rightarrow> (None, memory\<lparr>my_routes := mput key route (my_routes memory)\<rparr>))"

definition Route :: "Memory \<Rightarrow> string \<Rightarrow> 64 word \<Rightarrow> store_error + RouteVersion" where
  "Route memory routeID version =
     (case mget (my_routes memory) (routeKey routeID version) of
        None \<Rightarrow> Inl ErrNotFound
      | Some route \<Rightarrow> Inr route)"

section \<open>Messages\<close>

definition CreateMessage :: "MessageRecord \<Rightarrow> Memory \<Rightarrow> (store_error + MessageRecord) \<times> Memory" where
  "CreateMessage record memory =
     (if ms_Envelope record = [] \<or> ms_Version record \<noteq> 1 \<or> ms_UpdatedAt record = 0
      then (Inl InvalidMessageRecord, memory)
      else case mget (my_messages memory) (ms_MessageID record) of
             Some existing \<Rightarrow>
               (if ms_Envelope existing \<noteq> ms_Envelope record then (Inl ErrConflict, memory)
                else (Inr existing, memory))
           | None \<Rightarrow>
               (Inr record, memory\<lparr>my_messages := mput (ms_MessageID record) record (my_messages memory)\<rparr>))"

definition CompareAndSet ::
  "byte list \<Rightarrow> 64 word \<Rightarrow> CrossChainMessageState \<Rightarrow> bool \<Rightarrow> byte list \<Rightarrow> gotime \<Rightarrow> Memory \<Rightarrow>
   (store_error + MessageRecord) \<times> Memory" where
  "CompareAndSet messageID expectedVersion nextState retryable evidence updatedAt memory =
     (case mget (my_messages memory) messageID of
        None \<Rightarrow> (Inl ErrNotFound, memory)
      | Some current \<Rightarrow>
          (if ms_Version current \<noteq> expectedVersion then (Inl ErrConflict, memory)
           else if evidence = zero32 \<or> updatedAt = 0 \<or> updatedAt < ms_UpdatedAt current \<or>
                   \<not> CanTransition (ms_State current) nextState retryable
           then (Inl ErrConflict, memory)
           else
             let current1 = current\<lparr>ms_Version := ms_Version current + 1, ms_State := nextState,
                                     ms_Evidence := evidence, ms_UpdatedAt := updatedAt\<rparr>
             in (Inr current1, memory\<lparr>my_messages := mput messageID current1 (my_messages memory)\<rparr>)))"

definition store_Message :: "Memory \<Rightarrow> byte list \<Rightarrow> store_error + MessageRecord" where
  "store_Message memory messageID =
     (case mget (my_messages memory) messageID of
        None \<Rightarrow> Inl ErrNotFound
      | Some current \<Rightarrow> Inr current)"

section \<open>Histories\<close>

inductive store_step :: "Memory \<Rightarrow> Memory \<Rightarrow> bool" where
  step_route: "PutRoute route s = (out, t) \<Longrightarrow> store_step s t"
| step_create: "CreateMessage record s = (out, t) \<Longrightarrow> store_step s t"
| step_set: "CompareAndSet i v n retryable ev stamp s = (out, t) \<Longrightarrow> store_step s t"

text \<open>A path of the transition policy with its number of transitions.\<close>

inductive state_path :: "nat \<Rightarrow> CrossChainMessageState \<Rightarrow> CrossChainMessageState \<Rightarrow> bool" where
  path_refl: "state_path 0 a a"
| path_step: "state_path n a b \<Longrightarrow> CanTransition b c retryable \<Longrightarrow> state_path (Suc n) a c"

lemma state_path_trans: "state_path m b c \<Longrightarrow> state_path n a b \<Longrightarrow> state_path (n + m) a c"
  by (induction rule: state_path.induct) (auto intro: path_step)

text \<open>What a later record of a message keeps of an earlier one.\<close>

definition message_later :: "MessageRecord \<Rightarrow> MessageRecord \<Rightarrow> bool" where
  "message_later m m' \<longleftrightarrow>
     ms_MessageID m' = ms_MessageID m \<and> ms_Envelope m' = ms_Envelope m \<and>
     ms_UpdatedAt m \<le> ms_UpdatedAt m' \<and>
     (\<exists>n. state_path n (ms_State m) (ms_State m') \<and> ms_Version m' = ms_Version m + of_nat n)"

definition store_later :: "Memory \<Rightarrow> Memory \<Rightarrow> bool" where
  "store_later s t \<longleftrightarrow>
     mext (my_routes s) (my_routes t) \<and>
     (\<forall>i m. mget (my_messages s) i = Some m \<longrightarrow> (\<exists>m'. mget (my_messages t) i = Some m' \<and> message_later m m'))"

lemma message_later_refl [simp]: "message_later m m"
  by (auto simp: message_later_def intro!: exI[of _ 0] path_refl)

lemma message_later_trans: "message_later m1 m2 \<Longrightarrow> message_later m2 m3 \<Longrightarrow> message_later m1 m3"
  by (fastforce simp: message_later_def intro: state_path_trans)

lemma store_later_refl: "store_later s s"
  by (auto simp: store_later_def)

lemma store_later_trans: "store_later s t \<Longrightarrow> store_later t u \<Longrightarrow> store_later s u"
  unfolding store_later_def by (meson mext_trans message_later_trans)

lemma set_later:
  assumes "CanTransition (ms_State m) st retryable" "ms_UpdatedAt m \<le> stamp"
  shows "message_later m (m\<lparr>ms_Version := ms_Version m + 1, ms_State := st, ms_Evidence := ev, ms_UpdatedAt := stamp\<rparr>)"
proof -
  have "state_path 1 (ms_State m) st"
    using path_step[OF path_refl assms(1)] by simp
  with assms(2) show ?thesis
    unfolding message_later_def by (auto intro!: exI[of _ 1])
qed

lemma store_step_later: "store_step s t \<Longrightarrow> store_later s t"
proof (erule store_step.cases)
  fix route s' out t'
  assume "s = s'" "t = t'" "PutRoute route s' = (out, t')"
  then show ?thesis
    by (auto simp: PutRoute_def store_later_def Let_def split: if_splits option.splits)
next
  fix rec s' out t'
  assume "s = s'" "t = t'" "CreateMessage rec s' = (out, t')"
  then show ?thesis
    by (auto simp: CreateMessage_def store_later_def split: if_splits option.splits)
next
  fix i v n retryable ev stamp s' out t'
  assume "s = s'" "t = t'" "CompareAndSet i v n retryable ev stamp s' = (out, t')"
  then show ?thesis
    by (auto simp: CompareAndSet_def store_later_def Let_def set_later not_less split: if_splits option.splits)
qed

interpretation store_run: monotone_history "\<lambda>s. s = NewMemory" store_step "\<lambda>_. True" store_later
  by unfold_locales (auto intro: store_later_refl store_later_trans store_step_later)

text \<open>The states of a message that was executed, and of one that is being undone.\<close>

definition executed_state :: "CrossChainMessageState \<Rightarrow> bool" where
  "executed_state st \<longleftrightarrow> st \<in> {EXECUTED, ACK_PENDING, ACKNOWLEDGED}"

definition recovery_state :: "CrossChainMessageState \<Rightarrow> bool" where
  "recovery_state st \<longleftrightarrow> st \<in> {RECOVERY_PENDING, DESTINATION_TOMBSTONED, SOURCE_COMPENSATED, RECOVERED}"

lemma CanTransition_closed:
  "CanTransition a b retryable \<Longrightarrow> executed_state a \<Longrightarrow> executed_state b \<or> b = DISPUTED"
  "CanTransition a b retryable \<Longrightarrow> recovery_state a \<Longrightarrow> recovery_state b \<or> b = DISPUTED"
  "\<not> CanTransition DISPUTED b retryable"
  by (auto simp: CanTransition_def allowed_states_def executed_state_def recovery_state_def split: if_splits)

lemma state_path_closed:
  assumes "state_path n a b"
  shows "(executed_state a \<longrightarrow> executed_state b \<or> b = DISPUTED) \<and>
    (recovery_state a \<longrightarrow> recovery_state b \<or> b = DISPUTED)"
  using assms
proof (induction rule: state_path.induct)
  case (path_step n a b c retryable)
  then show ?case by (metis CanTransition_closed)
qed simp

definition sample_record :: MessageRecord where
  "sample_record = \<lparr>ms_MessageID = [1], ms_Envelope = [2], ms_State = VERIFIED, ms_Version = 1,
     ms_Evidence = [], ms_UpdatedAt = 10\<rparr>"

definition sample_store :: "nat \<Rightarrow> Memory" where
  "sample_store n =
     (let s0 = snd (CreateMessage sample_record NewMemory);
          s1 = snd (CompareAndSet [1] 1 EXECUTED False [3] 11 s0);
          s2 = snd (CompareAndSet [1] 2 ACK_PENDING False [4] 12 s1)
      in if n = 0 then s0 else if n = 1 then s1 else s2)"

lemma sample_store_steps: "store_step\<^sup>*\<^sup>* (sample_store 1) (sample_store 2)"
proof -
  have "CompareAndSet [1] 2 ACK_PENDING False [4] 12 (sample_store 1) =
      (fst (CompareAndSet [1] 2 ACK_PENDING False [4] 12 (sample_store 1)), sample_store 2)"
    by (simp add: sample_store_def Let_def)
  then show ?thesis by (blast intro: step_set r_into_rtranclp)
qed

section \<open>Claim\<close>

text \<open>
  C31: Through every sequence of repository operations a stored message stays stored with the same
  envelope; its state moves along the transition policy, its version counts those transitions (modulo
  the 64-bit wrap-around) and its time stamp never decreases; a message that was executed is never
  put into recovery, and one in recovery is never executed; and no stored route version changes.
\<close>

theorem store_message_history:
  assumes "store_step\<^sup>*\<^sup>* s t" "mget (my_messages s) i = Some m"
  shows "mext (my_routes s) (my_routes t) \<and>
    (\<exists>m'. mget (my_messages t) i = Some m' \<and> message_later m m' \<and>
       (executed_state (ms_State m) \<longrightarrow> \<not> recovery_state (ms_State m')) \<and>
       (recovery_state (ms_State m) \<longrightarrow> \<not> executed_state (ms_State m')))"
proof -
  have "\<not> (executed_state st \<and> recovery_state st)" "\<not> executed_state DISPUTED" "\<not> recovery_state DISPUTED" for st
    by (auto simp: executed_state_def recovery_state_def)
  then show ?thesis
    using store_run.later[OF assms(1)] assms(2) state_path_closed
    unfolding store_later_def message_later_def by metis
qed

theorem store_message_history_witness:
  "executed_state EXECUTED \<and>
   (\<exists>m'. mget (my_messages (sample_store 2)) [1] = Some m' \<and> \<not> recovery_state (ms_State m'))"
proof -
  have "\<exists>m. mget (my_messages (sample_store 1)) [1] = Some m \<and> ms_State m = EXECUTED"
    by (simp add: sample_store_def CreateMessage_def CompareAndSet_def NewMemory_def sample_record_def
        zero32_def CanTransition_def allowed_states_def numeral_eq_Suc Let_def)
  then show ?thesis
    using store_message_history[OF sample_store_steps, of "[1]"] by (auto simp: executed_state_def)
qed

end
