(* ===== verification/Provider_Router.thy ===== *)
theory Provider_Router
  imports Big_Int Transition "HOL-Library.Sublist" "HOL-Library.Multiset"
begin

text \<open>
  \<^verbatim>\<open>cross-chain-coordinator/provider/provider.go\<close>: delivery of the exact message bytes over several
  transport providers. A route freezes the order of its providers; \<open>Deliver\<close> persists the bytes on
  first use, refuses other bytes for the same message, and tries the providers in order until one
  accepts or one fails in a way that must not be retried elsewhere.

  A transport is a record of its identifier and its \<open>Submit\<close>, a function of the world of the
  provider. \<open>keccak\<close> is the content hash. Transport errors keep the wrapping chain that
  \<open>errors.Is\<close> and \<open>errors.As\<close> inspect. A nil transport is \<open>None\<close>.

  \<open>Deliver\<close> holds the router's mutex while it persists the bytes and, again, while it appends an attempt,
  and not while a provider is called. So besides \<open>Deliver\<close> as one call (\<open>begin_delivery\<close>, then the loop)
  there is a step relation \<open>router_run\<close> in which any number of deliveries are under way, their locked
  sections and their submissions interleaved in any order; \<open>Deliver_is_run\<close> shows that the call on its
  own is one of these runs, and the claim is about all of them.
\<close>

section \<open>Errors\<close>

datatype transport_error =
    ErrIdentityConflict
  | PlainError string
  | RetryableTransportError transport_error
  | WrappedError string transport_error

definition Retryable :: "transport_error option \<Rightarrow> transport_error option" where
  "Retryable cause = (case cause of None \<Rightarrow> None | Some e \<Rightarrow> Some (RetryableTransportError e))"

fun IsRetryable :: "transport_error \<Rightarrow> bool" where
  "IsRetryable (RetryableTransportError _) = True"
| "IsRetryable (WrappedError _ e) = IsRetryable e"
| "IsRetryable _ = False"

fun is_identity_conflict :: "transport_error \<Rightarrow> bool" where
  "is_identity_conflict ErrIdentityConflict = True"
| "is_identity_conflict (RetryableTransportError e) = is_identity_conflict e"
| "is_identity_conflict (WrappedError _ e) = is_identity_conflict e"
| "is_identity_conflict (PlainError _) = False"

fun error_text :: "transport_error \<Rightarrow> string" where
  "error_text ErrIdentityConflict = ''immutable delivery identity conflict''"
| "error_text (PlainError s) = s"
| "error_text (RetryableTransportError e) = ''retryable transport failure: '' @ error_text e"
| "error_text (WrappedError s e) = s @ '': '' @ error_text e"

datatype router_error =
    ErrNoProvider "transport_error list"
  | DeliveryIdentityConflict
  | InvalidRoute
  | InvalidDelivery
  | ProviderFailed string transport_error

section \<open>State\<close>

record Delivery =
  dl_MessageID :: "byte list"
  dl_RoutePolicy :: "byte list"
  dl_Envelope :: "byte list"
  dl_EnvelopeHash :: "byte list"
  dl_SourceProof :: "byte list"
  dl_ProofHash :: "byte list"
  dl_AttemptedAt :: gotime

record Receipt =
  rc_ProviderID :: string
  rc_Receipt :: "byte list"

record 'w Transport =
  tr_ID :: string
  tr_Submit :: "Delivery \<Rightarrow> 'w \<Rightarrow> (transport_error + Receipt) \<times> 'w"

record Attempt =
  at_MessageID :: "byte list"
  at_ProviderID :: string
  at_Number :: "32 word"
  at_Success :: bool
  at_Receipt :: "byte list"
  at_AttemptedAt :: gotime
  at_Error :: string

record 'w Router =
  ro_approved :: "(byte list, 'w Transport list) gomap"
  ro_payloads :: "(byte list, Delivery) gomap"
  ro_attempts :: "(byte list, Attempt list) gomap"

definition empty_hash :: "byte list" where
  "empty_hash = replicate 32 0"

definition NewRouter :: "'w Router" where
  "NewRouter = \<lparr>ro_approved = [], ro_payloads = [], ro_attempts = []\<rparr>"

section \<open>Routes\<close>

fun check_providers :: "string list \<Rightarrow> 'w Transport option list \<Rightarrow> bool" where
  "check_providers seen [] = True"
| "check_providers seen (None # rest) = False"
| "check_providers seen (Some candidate # rest) =
     (if tr_ID candidate = [] then False
      else if tr_ID candidate \<in> set seen then False
      else check_providers (tr_ID candidate # seen) rest)"

definition sameProviders :: "'w Transport list \<Rightarrow> 'w Transport list \<Rightarrow> bool" where
  "sameProviders left right \<longleftrightarrow>
     (if length left \<noteq> length right then False else list_all2 (\<lambda>a b. tr_ID a = tr_ID b) left right)"

definition RegisterRoute ::
  "byte list \<Rightarrow> 'w Transport option list \<Rightarrow> 'w Router \<Rightarrow> router_error option \<times> 'w Router" where
  "RegisterRoute routePolicy providers router =
     (if routePolicy = empty_hash \<or> length providers = 0 then (Some InvalidRoute, router)
      else if \<not> check_providers [] providers then (Some InvalidRoute, router)
      else case mget (ro_approved router) routePolicy of
             Some existing \<Rightarrow>
               (if \<not> sameProviders existing (map the providers) then (Some DeliveryIdentityConflict, router)
                else (None, router))
           | None \<Rightarrow> (None, router\<lparr>ro_approved := mput routePolicy (map the providers) (ro_approved router)\<rparr>))"

section \<open>Delivery\<close>

definition sameDelivery :: "Delivery \<Rightarrow> Delivery \<Rightarrow> bool" where
  "sameDelivery left right \<longleftrightarrow>
     dl_MessageID left = dl_MessageID right \<and> dl_RoutePolicy left = dl_RoutePolicy right \<and>
     dl_EnvelopeHash left = dl_EnvelopeHash right \<and> dl_ProofHash left = dl_ProofHash right \<and>
     dl_Envelope left = dl_Envelope right \<and> dl_SourceProof left = dl_SourceProof right"

definition Attempts :: "'w Router \<Rightarrow> byte list \<Rightarrow> Attempt list" where
  "Attempts router messageID = the_default [] (mget (ro_attempts router) messageID)"

definition appendAttempt :: "byte list \<Rightarrow> Attempt \<Rightarrow> 'w Router \<Rightarrow> 'w Router" where
  "appendAttempt messageID attempt router =
     router\<lparr>ro_attempts := mput messageID
        (Attempts router messageID @
         [attempt\<lparr>at_Number := of_nat (length (Attempts router messageID) + 1)\<rparr>])
        (ro_attempts router)\<rparr>"

text \<open>One turn of the loop: the outcome of a submission, as the router records it.\<close>

definition submission ::
  "'w Transport \<Rightarrow> Delivery \<Rightarrow> 'w \<Rightarrow> (transport_error + Receipt) \<times> Attempt \<times> 'w" where
  "submission transport delivery w =
     (let (answer, w1) = tr_Submit transport delivery w;
          attempt = \<lparr>at_MessageID = dl_MessageID delivery, at_ProviderID = tr_ID transport, at_Number = 0,
                     at_Success = isOK answer, at_Receipt = [], at_AttemptedAt = dl_AttemptedAt delivery,
                     at_Error = []\<rparr>
      in case answer of
           Inl err \<Rightarrow> (Inl err, attempt\<lparr>at_Error := error_text err\<rparr>, w1)
         | Inr receipt \<Rightarrow>
             (if rc_ProviderID receipt \<noteq> tr_ID transport \<or> length (rc_Receipt receipt) = 0
              then (Inl ErrIdentityConflict,
                    attempt\<lparr>at_Success := False, at_Error := error_text ErrIdentityConflict\<rparr>, w1)
              else (Inr receipt, attempt\<lparr>at_Receipt := rc_Receipt receipt\<rparr>, w1)))"

text \<open>What the loop does with the answer: return, or go on with one more failure collected.\<close>

definition next_turn ::
  "string \<Rightarrow> transport_error list \<Rightarrow> transport_error + Receipt \<Rightarrow> (router_error + Receipt) + transport_error list" where
  "next_turn transportID failures answer =
     (case answer of
        Inr receipt \<Rightarrow> Inl (Inr receipt)
      | Inl err \<Rightarrow>
          (if is_identity_conflict err \<or> \<not> IsRetryable err then Inl (Inl (ProviderFailed transportID err))
           else Inr (failures @ [WrappedError transportID err])))"

fun deliver_loop ::
  "'w Transport list \<Rightarrow> Delivery \<Rightarrow> transport_error list \<Rightarrow> 'w Router \<times> 'w \<Rightarrow>
   (router_error + Receipt) \<times> 'w Router \<times> 'w" where
  "deliver_loop [] delivery failures (router, w) = (Inl (ErrNoProvider failures), router, w)"
| "deliver_loop (transport # rest) delivery failures (router, w) =
     (let (answer, attempt, w1) = submission transport delivery w;
          router1 = appendAttempt (dl_MessageID delivery) attempt router
      in case next_turn (tr_ID transport) failures answer of
           Inl out \<Rightarrow> (out, router1, w1)
         | Inr failures1 \<Rightarrow> deliver_loop rest delivery failures1 (router1, w1))"

text \<open>The checks and the section under the lock, up to the providers to try.\<close>

definition begin_delivery ::
  "(byte list \<Rightarrow> byte list) \<Rightarrow> Delivery \<Rightarrow> 'w Router \<Rightarrow> (router_error + 'w Transport list) \<times> 'w Router" where
  "begin_delivery keccak delivery router =
     (if dl_MessageID delivery = empty_hash \<or> dl_RoutePolicy delivery = empty_hash \<or>
         dl_EnvelopeHash delivery = empty_hash \<or> dl_ProofHash delivery = empty_hash \<or>
         length (dl_Envelope delivery) = 0 \<or> length (dl_SourceProof delivery) = 0 \<or>
         dl_AttemptedAt delivery = 0
      then (Inl InvalidDelivery, router)
      else if keccak (dl_Envelope delivery) \<noteq> dl_EnvelopeHash delivery \<or>
              keccak (dl_SourceProof delivery) \<noteq> dl_ProofHash delivery
      then (Inl DeliveryIdentityConflict, router)
      else
        let providers = the_default [] (mget (ro_approved router) (dl_RoutePolicy delivery))
        in if length providers = 0 then (Inl (ErrNoProvider []), router)
           else case mget (ro_payloads router) (dl_MessageID delivery) of
                  Some persisted \<Rightarrow>
                    (if \<not> sameDelivery persisted delivery then (Inl DeliveryIdentityConflict, router)
                     else (Inr providers, router))
                | None \<Rightarrow>
                    (Inr providers,
                     router\<lparr>ro_payloads := mput (dl_MessageID delivery) delivery (ro_payloads router)\<rparr>))"

definition Deliver ::
  "(byte list \<Rightarrow> byte list) \<Rightarrow> Delivery \<Rightarrow> 'w Router \<times> 'w \<Rightarrow> (router_error + Receipt) \<times> 'w Router \<times> 'w" where
  "Deliver keccak delivery = (\<lambda>(router, w).
     case begin_delivery keccak delivery router of
       (Inl e, router1) \<Rightarrow> (Inl e, router1, w)
     | (Inr providers, router1) \<Rightarrow> deliver_loop providers delivery [] (router1, w))"

section \<open>Deliveries under way\<close>

text \<open>
  A call of \<open>Deliver\<close> in progress: its route, the providers still to try, the failures collected, an answer
  that came back and is not recorded yet, the attempts it recorded, and the result once it has returned.
\<close>

record 'w Call =
  ca_delivery :: Delivery
  ca_route :: "'w Transport list"
  ca_remaining :: "'w Transport list"
  ca_failures :: "transport_error list"
  ca_answer :: "((transport_error + Receipt) \<times> Attempt) option"
  ca_attempts :: "Attempt list"
  ca_result :: "(router_error + Receipt) option"

definition new_call :: "Delivery \<Rightarrow> 'w Transport list \<Rightarrow> 'w Call" where
  "new_call d ts = \<lparr>ca_delivery = d, ca_route = ts, ca_remaining = ts, ca_failures = [], ca_answer = None,
     ca_attempts = [], ca_result = None\<rparr>"

definition recorded :: "'w Call \<Rightarrow> 'w Transport \<Rightarrow> 'w Transport list \<Rightarrow> transport_error + Receipt \<Rightarrow> Attempt \<Rightarrow> 'w Call" where
  "recorded c transport rest answer attempt =
     (let c1 = c\<lparr>ca_answer := None, ca_attempts := ca_attempts c @ [attempt]\<rparr>
      in case next_turn (tr_ID transport) (ca_failures c) answer of
           Inl out \<Rightarrow> c1\<lparr>ca_result := Some out\<rparr>
         | Inr failures \<Rightarrow> c1\<lparr>ca_remaining := rest, ca_failures := failures\<rparr>)"

inductive router_run ::
  "(byte list \<Rightarrow> byte list) \<Rightarrow> 'w Router \<times> 'w \<times> 'w Call list \<Rightarrow> 'w Router \<times> 'w \<times> 'w Call list \<Rightarrow> bool" for keccak where
  run_register: "RegisterRoute policy providers r = (out, r') \<Longrightarrow> router_run keccak (r, w, cs) (r', w, cs)"
| run_world: "router_run keccak (r, w, cs) (r, w', cs)"
| run_refuse: "begin_delivery keccak d r = (Inl e, r') \<Longrightarrow>
    router_run keccak (r, w, cs) (r', w, cs @ [(new_call d [])\<lparr>ca_result := Some (Inl e)\<rparr>])"
| run_begin: "begin_delivery keccak d r = (Inr ts, r') \<Longrightarrow> router_run keccak (r, w, cs) (r', w, cs @ [new_call d ts])"
| run_submit: "i < length cs \<Longrightarrow> ca_result (cs ! i) = None \<Longrightarrow> ca_answer (cs ! i) = None \<Longrightarrow>
    ca_remaining (cs ! i) = t # rest \<Longrightarrow> submission t (ca_delivery (cs ! i)) w = (answer, a, w') \<Longrightarrow>
    router_run keccak (r, w, cs) (r, w', cs[i := (cs ! i)\<lparr>ca_answer := Some (answer, a)\<rparr>])"
| run_record: "i < length cs \<Longrightarrow> ca_answer (cs ! i) = Some (answer, a) \<Longrightarrow> ca_remaining (cs ! i) = t # rest \<Longrightarrow>
    router_run keccak (r, w, cs)
      (appendAttempt (dl_MessageID (ca_delivery (cs ! i))) a r, w, cs[i := recorded (cs ! i) t rest answer a])"
| run_exhaust: "i < length cs \<Longrightarrow> ca_result (cs ! i) = None \<Longrightarrow> ca_answer (cs ! i) = None \<Longrightarrow> ca_remaining (cs ! i) = [] \<Longrightarrow>
    router_run keccak (r, w, cs)
      (r, w, cs[i := (cs ! i)\<lparr>ca_result := Some (Inl (ErrNoProvider (ca_failures (cs ! i))))\<rparr>])"

section \<open>What a call has done\<close>

lemma Attempts_append [simp]:
  "Attempts (appendAttempt i a r) j =
     (if j = i then Attempts r i @ [a\<lparr>at_Number := of_nat (length (Attempts r i) + 1)\<rparr>] else Attempts r j)"
  by (simp add: Attempts_def appendAttempt_def)

lemma appendAttempt_simps [simp]:
  "ro_payloads (appendAttempt i a r) = ro_payloads r" "ro_approved (appendAttempt i a r) = ro_approved r"
  by (simp_all add: appendAttempt_def)

definition answered :: "'w Transport \<Rightarrow> Delivery \<Rightarrow> transport_error + Receipt \<Rightarrow> Attempt \<Rightarrow> bool" where
  "answered t d answer a \<longleftrightarrow> (\<exists>w w'. submission t d w = (answer, a, w'))"

lemma answeredD:
  assumes "answered t d answer a"
  shows "at_ProviderID a = tr_ID t" "at_MessageID a = dl_MessageID d" "at_Success a = isOK answer" "at_Number a = 0"
    "answer = Inr receipt \<Longrightarrow> rc_ProviderID receipt = tr_ID t \<and> rc_Receipt receipt \<noteq> [] \<and> at_Receipt a = rc_Receipt receipt"
proof -
  from assms obtain w w' where "submission t d w = (answer, a, w')" by (auto simp: answered_def)
  then show "at_ProviderID a = tr_ID t" "at_MessageID a = dl_MessageID d" "at_Success a = isOK answer" "at_Number a = 0"
    "answer = Inr receipt \<Longrightarrow> rc_ProviderID receipt = tr_ID t \<and> rc_Receipt receipt \<noteq> [] \<and> at_Receipt a = rc_Receipt receipt"
    by (auto simp: submission_def Let_def split: prod.splits sum.splits if_splits)
qed

text \<open>
  Each provider of a list was tried once, in order, and answered with an error that may be retried
  elsewhere: the failures collected and the attempts recorded are those errors.
\<close>

fun in_vain :: "Delivery \<Rightarrow> 'w Transport list \<Rightarrow> transport_error list \<Rightarrow> Attempt list \<Rightarrow> bool" where
  "in_vain d [] [] [] = True"
| "in_vain d (t # ts) (f # fs) (a # as) =
     ((\<exists>e. answered t d (Inl e) a \<and> f = WrappedError (tr_ID t) e \<and> IsRetryable e \<and> \<not> is_identity_conflict e) \<and>
      in_vain d ts fs as)"
| "in_vain d _ _ _ = False"

lemma in_vain_snoc:
  "in_vain d ts fs as \<Longrightarrow> answered t d (Inl e) a \<Longrightarrow> IsRetryable e \<Longrightarrow> \<not> is_identity_conflict e \<Longrightarrow>
   in_vain d (ts @ [t]) (fs @ [WrappedError (tr_ID t) e]) (as @ [a])"
  by (induction d ts fs as rule: in_vain.induct) auto

text \<open>How a returned result comes about, from the route and the attempts of the call.\<close>

definition explains ::
  "Delivery \<Rightarrow> 'w Transport list \<Rightarrow> Attempt list \<Rightarrow> router_error + Receipt \<Rightarrow> bool" where
  "explains d route as out \<longleftrightarrow>
     (case out of
        Inl (ErrNoProvider fs) \<Rightarrow> in_vain d route fs as
      | Inl (ProviderFailed i e) \<Rightarrow>
          \<exists>pre t post fs as' a. route = pre @ t # post \<and> as = as' @ [a] \<and> in_vain d pre fs as' \<and>
            answered t d (Inl e) a \<and> i = tr_ID t \<and> (is_identity_conflict e \<or> \<not> IsRetryable e)
      | Inl _ \<Rightarrow> route = [] \<and> as = []
      | Inr receipt \<Rightarrow>
          \<exists>pre t post fs as' a. route = pre @ t # post \<and> as = as' @ [a] \<and> in_vain d pre fs as' \<and>
            answered t d (Inr receipt) a)"

definition call_progress :: "'w Call \<Rightarrow> bool" where
  "call_progress c \<longleftrightarrow>
     (case ca_result c of
        Some out \<Rightarrow> ca_answer c = None \<and> explains (ca_delivery c) (ca_route c) (ca_attempts c) out
      | None \<Rightarrow>
          \<exists>pre. ca_route c = pre @ ca_remaining c \<and> in_vain (ca_delivery c) pre (ca_failures c) (ca_attempts c) \<and>
            (\<forall>answer a. ca_answer c = Some (answer, a) \<longrightarrow>
               ca_remaining c \<noteq> [] \<and> answered (hd (ca_remaining c)) (ca_delivery c) answer a))"

lemma recorded_progress:
  assumes "call_progress c" "ca_answer c = Some (answer, a)" "ca_remaining c = t # rest"
  shows "call_progress (recorded c t rest answer a)"
proof -
  have none: "ca_result c = None" using assms(1,2) by (auto simp: call_progress_def split: option.splits)
  with assms obtain pre where p: "ca_route c = pre @ t # rest" "in_vain (ca_delivery c) pre (ca_failures c) (ca_attempts c)"
    "answered t (ca_delivery c) answer a"
    by (auto simp: call_progress_def)
  show ?thesis
  proof (cases answer)
    case (Inr receipt)
    with p none show ?thesis
      by (auto simp: call_progress_def recorded_def next_turn_def explains_def)
  next
    case (Inl e)
    show ?thesis
    proof (cases "is_identity_conflict e \<or> \<not> IsRetryable e")
      case True
      with p none Inl show ?thesis
        by (auto simp: call_progress_def recorded_def next_turn_def explains_def)
    next
      case False
      with in_vain_snoc[OF p(2)] p Inl have "in_vain (ca_delivery c) (pre @ [t])
          (ca_failures c @ [WrappedError (tr_ID t) e]) (ca_attempts c @ [a])" by simp
      with False p(1) none Inl show ?thesis
        by (auto simp: call_progress_def recorded_def next_turn_def intro!: exI[of _ "pre @ [t]"])
    qed
  qed
qed

section \<open>Every interleaving\<close>

definition unnumbered :: "Attempt \<Rightarrow> Attempt" where
  "unnumbered a = a\<lparr>at_Number := 0\<rparr>"

text \<open>The attempts of all calls for a message.\<close>

definition made_for :: "byte list \<Rightarrow> 'w Call \<Rightarrow> Attempt multiset" where
  "made_for i c = (if dl_MessageID (ca_delivery c) = i then mset (ca_attempts c) else {#})"

definition call_bound :: "(byte list \<Rightarrow> byte list) \<Rightarrow> 'w Router \<Rightarrow> 'w Call \<Rightarrow> bool" where
  "call_bound keccak r c \<longleftrightarrow>
     subseq (ca_attempts c) (map unnumbered (Attempts r (dl_MessageID (ca_delivery c)))) \<and>
     (ca_route c \<noteq> [] \<longrightarrow>
        mget (ro_approved r) (dl_RoutePolicy (ca_delivery c)) = Some (ca_route c) \<and>
        keccak (dl_Envelope (ca_delivery c)) = dl_EnvelopeHash (ca_delivery c) \<and>
        keccak (dl_SourceProof (ca_delivery c)) = dl_ProofHash (ca_delivery c) \<and>
        (\<exists>p. mget (ro_payloads r) (dl_MessageID (ca_delivery c)) = Some p \<and> sameDelivery p (ca_delivery c)))"

definition router_inv :: "(byte list \<Rightarrow> byte list) \<Rightarrow> 'w Router \<times> 'w \<times> 'w Call list \<Rightarrow> bool" where
  "router_inv keccak = (\<lambda>(r, w, cs).
     (\<forall>c \<in> set cs. call_progress c \<and> call_bound keccak r c) \<and>
     (\<forall>i. map at_Number (Attempts r i) = map of_nat [1..<Suc (length (Attempts r i))] \<and>
          mset (map unnumbered (Attempts r i)) = sum_list (map (made_for i) cs)))"

lemma begin_delivery_cases:
  assumes "begin_delivery keccak d r = (out, r')"
  obtains (refused) e where "out = Inl e" "r' = r" "e = ErrNoProvider [] \<or> e = InvalidDelivery \<or> e = DeliveryIdentityConflict"
  | (begun) ts where "out = Inr ts" "ts \<noteq> []" "mget (ro_approved r) (dl_RoutePolicy d) = Some ts"
      "ro_approved r' = ro_approved r" "Attempts r' = Attempts r" "mext (ro_payloads r) (ro_payloads r')"
      "keccak (dl_Envelope d) = dl_EnvelopeHash d" "keccak (dl_SourceProof d) = dl_ProofHash d"
      "\<exists>p. mget (ro_payloads r') (dl_MessageID d) = Some p \<and> sameDelivery p d"
proof (cases out)
  case (Inl e)
  with assms refused show thesis by (auto simp: begin_delivery_def Let_def split: if_splits option.splits)
next
  case (Inr ts)
  then have ts: "ts \<noteq> []" "mget (ro_approved r) (dl_RoutePolicy d) = Some ts"
    using assms by (auto simp: begin_delivery_def Let_def split: if_splits option.splits;
        cases "mget (ro_approved r) (dl_RoutePolicy d)"; auto)+
  show thesis
    by (rule begun[OF Inr ts])
      (use assms Inr in \<open>auto simp: begin_delivery_def Let_def sameDelivery_def Attempts_def fun_eq_iff split: if_splits option.splits\<close>)
qed

definition router_later :: "'w Router \<times> 'w \<times> 'w Call list \<Rightarrow> 'w Router \<times> 'w \<times> 'w Call list \<Rightarrow> bool" where
  "router_later s t \<longleftrightarrow>
     mext (ro_approved (fst s)) (ro_approved (fst t)) \<and> mext (ro_payloads (fst s)) (ro_payloads (fst t)) \<and>
     (\<forall>i. prefix (Attempts (fst s) i) (Attempts (fst t) i))"

lemma router_later_refl: "router_later s s"
  by (simp add: router_later_def)

lemma router_later_trans: "router_later s t \<Longrightarrow> router_later t u \<Longrightarrow> router_later s u"
  unfolding router_later_def by (meson mext_trans prefix_order.trans)

lemma RegisterRoute_keeps:
  "RegisterRoute policy providers r = (out, r') \<Longrightarrow>
   mext (ro_approved r) (ro_approved r') \<and> ro_payloads r' = ro_payloads r \<and> Attempts r' = Attempts r"
  by (auto simp: RegisterRoute_def Attempts_def fun_eq_iff split: if_splits option.splits)

lemma router_run_later: "router_run keccak s t \<Longrightarrow> router_later s t"
  by (induction rule: router_run.induct)
     (auto simp: router_later_def dest!: RegisterRoute_keeps elim!: begin_delivery_cases)

lemma call_bound_later:
  assumes "router_later s t" "call_bound keccak (fst s) c"
  shows "call_bound keccak (fst t) c"
proof -
  have "subseq (map unnumbered (Attempts (fst s) i)) (map unnumbered (Attempts (fst t) i))" for i
    using assms(1) by (auto simp: router_later_def intro!: subseq_map dest: prefix_imp_subseq)
  with assms show ?thesis
    unfolding call_bound_def router_later_def by (meson mextD subseq_order.trans)
qed

lemma sum_list_replace:
  fixes g :: "'b \<Rightarrow> 'a::comm_monoid_add"
  assumes "i < length xs" "g y = g (xs ! i) + z"
  shows "sum_list (map g (xs[i := y])) = sum_list (map g xs) + z"
  using assms by (induction xs arbitrary: i) (auto simp: add.assoc add.left_commute add.commute split: nat.splits)

lemma subseq_snoc: "subseq xs ys \<Longrightarrow> subseq (xs @ [z]) (ys @ [z])"
  by (simp add: list_emb_append_mono)

lemma router_inv_new_call:
  assumes "router_inv keccak (r, w, cs)" "router_later (r, w, cs) (r', w', cs')" "Attempts r' = Attempts r"
    and "call_progress c" "call_bound keccak r' c" "ca_attempts c = []"
  shows "router_inv keccak (r', w', cs @ [c])"
proof -
  have "call_bound keccak r' d" if "d \<in> set cs" for d
    using that assms(1) call_bound_later[OF assms(2), where c = d and keccak = keccak] by (simp add: router_inv_def)
  then show ?thesis
    using assms(1,4-6) by (auto simp: router_inv_def made_for_def assms(3) simp del: upt_Suc)
qed

lemma router_invD:
  assumes "router_inv keccak (r, w, cs)"
  shows "c \<in> set cs \<Longrightarrow> call_progress c" "c \<in> set cs \<Longrightarrow> call_bound keccak r c"
    "map at_Number (Attempts r i) = map of_nat [1..<Suc (length (Attempts r i))]"
    "mset (map unnumbered (Attempts r i)) = sum_list (map (made_for i) cs)"
  using assms unfolding router_inv_def prod.case by blast+

lemma router_inv_replace:
  assumes inv: "router_inv keccak (r, w, cs)" and c: "call_progress c" "call_bound keccak r' c"
    and other: "\<And>d. d \<in> set cs \<Longrightarrow> call_bound keccak r' d"
    and att: "\<And>j. map at_Number (Attempts r' j) = map of_nat [1..<Suc (length (Attempts r' j))]"
      "\<And>j. mset (map unnumbered (Attempts r' j)) = sum_list (map (made_for j) (cs[i := c]))"
  shows "router_inv keccak (r', w', cs[i := c])"
proof -
  have "call_progress d \<and> call_bound keccak r' d" if "d \<in> set (cs[i := c])" for d
    using subsetD[OF set_update_subset_insert that] router_invD(1)[OF inv] other c by blast
  with att show ?thesis unfolding router_inv_def prod.case by blast
qed

lemma router_inv_same_attempts:
  assumes inv: "router_inv keccak (r, w, cs)" and i: "i < length cs" and c: "call_progress c"
    "ca_delivery c = ca_delivery (cs ! i)" "ca_route c = ca_route (cs ! i)" "ca_attempts c = ca_attempts (cs ! i)"
  shows "router_inv keccak (r, w', cs[i := c])"
proof (rule router_inv_replace[OF inv c(1)])
  note d = router_invD[OF inv]
  show "call_bound keccak r c" using d(2)[OF nth_mem[OF i]] unfolding call_bound_def c by blast
  have "sum_list (map (made_for j) (cs[i := c])) = sum_list (map (made_for j) cs) + {#}" for j
    by (rule sum_list_replace[OF i]) (simp add: made_for_def c)
  with d(4) show "mset (map unnumbered (Attempts r j)) = sum_list (map (made_for j) (cs[i := c]))" for j by simp
qed (use router_invD[OF inv] in blast)+

lemma recorded_simps [simp]:
  "ca_delivery (recorded c t rest answer a) = ca_delivery c" "ca_route (recorded c t rest answer a) = ca_route c"
  "ca_attempts (recorded c t rest answer a) = ca_attempts c @ [a]"
  by (simp_all add: recorded_def Let_def split: sum.splits)

lemma router_inv_record:
  assumes inv: "router_inv keccak (r, w, cs)"
    and i: "i < length cs" "ca_answer (cs ! i) = Some (answer, a)" "ca_remaining (cs ! i) = t # rest"
  shows "router_inv keccak (appendAttempt (dl_MessageID (ca_delivery (cs ! i))) a r, w,
    cs[i := recorded (cs ! i) t rest answer a])"
proof -
  let ?c = "cs ! i" and ?m = "dl_MessageID (ca_delivery (cs ! i))"
  let ?r = "appendAttempt ?m a r" and ?c' = "recorded ?c t rest answer a"
  have c: "call_progress ?c" "call_bound keccak r ?c" using router_invD(1,2)[OF inv nth_mem[OF i(1)]] by blast+
  then have "answered t (ca_delivery ?c) answer a"
    using i(2,3) by (auto simp: call_progress_def split: option.splits)
  from answeredD(4)[OF this] have a: "unnumbered (a\<lparr>at_Number := n\<rparr>) = a" for n
    by (cases a) (simp add: unnumbered_def)
  have bound: "call_bound keccak ?r c" if "call_bound keccak r c" for c
    using call_bound_later[OF router_run_later[OF run_record[OF i]], where c = c and keccak = keccak] that by simp
  have "call_bound keccak ?r ?c'"
    using bound[OF c(2)] c(2) a by (auto simp: call_bound_def intro: subseq_snoc)
  moreover have "call_progress ?c'" by (rule recorded_progress[OF c(1) i(2,3)])
  moreover have "mset (map unnumbered (Attempts ?r j)) = sum_list (map (made_for j) (cs[i := ?c']))" for j
  proof -
    have "made_for j ?c' = made_for j ?c + (if ?m = j then {#a#} else {#})" by (simp add: made_for_def)
    from sum_list_replace[OF i(1) this] router_invD(4)[OF inv, of j] a show ?thesis by auto
  qed
  moreover have "map at_Number (Attempts ?r j) = map of_nat [1..<Suc (length (Attempts ?r j))]" for j
    using router_invD(3)[OF inv, of j] by (cases "j = ?m") (simp_all add: upt_Suc_append del: upt_Suc)
  ultimately show ?thesis
    using bound router_invD(2)[OF inv] by (intro router_inv_replace[OF inv]) blast+
qed

lemma router_run_inv: "router_run keccak s t \<Longrightarrow> router_inv keccak s \<Longrightarrow> router_inv keccak t"
proof (induction rule: router_run.induct)
  case (run_register policy providers r out r' w cs)
  have later: "router_later (r, w, cs) (r', w, cs)"
    by (rule router_run_later[OF router_run.run_register[OF run_register(1), where keccak = keccak]])
  have "Attempts r' = Attempts r" using RegisterRoute_keeps[OF run_register(1)] by blast
  with run_register(2) call_bound_later[OF later] show ?case by (auto simp: router_inv_def)
next
  case (run_world r w cs w')
  then show ?case by (simp add: router_inv_def)
next
  case (run_refuse d r e r' w cs)
  note later = router_run_later[OF router_run.run_refuse[OF run_refuse(1)]]
  from run_refuse(1) show ?case
  proof (cases rule: begin_delivery_cases)
    case (refused e')
    then show ?thesis
      by (intro router_inv_new_call[OF run_refuse(2) later])
         (auto simp: call_progress_def call_bound_def explains_def new_call_def)
  qed simp
next
  case (run_begin d r ts r' w cs)
  note later = router_run_later[OF router_run.run_begin[OF run_begin(1)]]
  from run_begin(1) show ?case
    by (cases rule: begin_delivery_cases)
       (auto intro!: router_inv_new_call[OF run_begin(2) later] simp: call_progress_def call_bound_def new_call_def)
next
  case (run_submit i cs t rest w answer a w' r)
  then have "call_progress (cs ! i)" by (auto simp: router_inv_def)
  with run_submit show ?case
    by (intro router_inv_same_attempts) (auto simp: call_progress_def answered_def)
next
  case (run_record i cs answer a t rest r w)
  then show ?case by (intro router_inv_record)
next
  case (run_exhaust i cs r w)
  then have "call_progress (cs ! i)" by (auto simp: router_inv_def)
  with run_exhaust show ?case
    by (intro router_inv_same_attempts) (auto simp: call_progress_def explains_def)
qed

interpretation routers: monotone_history "\<lambda>(r, w, cs). r = NewRouter \<and> cs = []" "router_run keccak" "router_inv keccak"
  router_later for keccak
proof (unfold_locales, goal_cases)
  case (1 s)
  then show ?case by (auto simp: router_inv_def Attempts_def NewRouter_def)
qed (auto intro: router_later_refl router_later_trans router_run_later router_run_inv)

section \<open>The call on its own is one of these runs\<close>

lemma deliver_loop_is_run:
  assumes "deliver_loop ts d fs (r, w) = (out, r', w')"
    and "ca_delivery c = d" "ca_remaining c = ts" "ca_failures c = fs" "ca_answer c = None" "ca_result c = None"
  shows "\<exists>c'. ca_delivery c' = d \<and> ca_route c' = ca_route c \<and> ca_result c' = Some out \<and>
    (router_run keccak)\<^sup>*\<^sup>* (r, w, cs @ [c]) (r', w', cs @ [c'])"
  using assms
proof (induction ts d fs "(r, w)" arbitrary: r w c rule: deliver_loop.induct)
  case (1 d fs r w)
  let ?c' = "c\<lparr>ca_result := Some out\<rparr>"
  have "router_run keccak (r, w, cs @ [c]) (r, w, cs @ [?c'])"
    using run_exhaust[of "length cs" "cs @ [c]"] 1 by simp
  with 1 show ?case by (intro exI[of _ ?c']) (auto intro: r_into_rtranclp)
next
  case (2 t rest d fs r w)
  obtain answer a w1 where sub: "submission t d w = (answer, a, w1)" by (metis prod.exhaust)
  let ?c1 = "c\<lparr>ca_answer := Some (answer, a)\<rparr>" and ?r1 = "appendAttempt (dl_MessageID d) a r"
  let ?c2 = "recorded ?c1 t rest answer a"
  have "router_run keccak (r, w, cs @ [c]) (r, w1, cs @ [?c1])"
    using run_submit[of "length cs" "cs @ [c]" t rest w answer a w1 keccak r] sub "2.prems" by simp
  moreover have "router_run keccak (r, w1, cs @ [?c1]) (?r1, w1, cs @ [?c2])"
    using run_record[of "length cs" "cs @ [?c1]" answer a t rest keccak r w1] "2.prems" by simp
  ultimately have two: "(router_run keccak)\<^sup>*\<^sup>* (r, w, cs @ [c]) (?r1, w1, cs @ [?c2])" by simp
  show ?case
  proof (cases "next_turn (tr_ID t) fs answer")
    case (Inl out1)
    with two "2.prems" sub show ?thesis
      by (intro exI[of _ ?c2]) (simp add: recorded_def Let_def)
  next
    case (Inr fs1)
    with "2.prems" sub have loop: "deliver_loop rest d fs1 (?r1, w1) = (out, r', w')" by simp
    have "ca_remaining ?c2 = rest" "ca_failures ?c2 = fs1" "ca_answer ?c2 = None" "ca_result ?c2 = None"
      using "2.prems" Inr by (simp_all add: recorded_def Let_def)
    from "2.hyps"[OF sub[symmetric] refl refl refl Inr loop _ this] "2.prems" two show ?thesis
      by (auto intro: rtranclp_trans)
  qed
qed

lemma Deliver_is_run:
  assumes "Deliver keccak d (r, w) = (out, r', w')"
  shows "\<exists>c. ca_delivery c = d \<and> ca_result c = Some out \<and> (router_run keccak)\<^sup>*\<^sup>* (r, w, cs) (r', w', cs @ [c])"
proof -
  obtain b r1 where b: "begin_delivery keccak d r = (b, r1)" by fastforce
  show ?thesis
  proof (cases b)
    case (Inl e)
    with assms b have out: "out = Inl e" "r' = r1" "w' = w" by (simp_all add: Deliver_def)
    let ?c = "(new_call d [])\<lparr>ca_result := Some (Inl e)\<rparr>"
    from run_refuse[OF b[unfolded Inl], of w cs] show ?thesis
      by (intro exI[of _ ?c]) (simp add: out new_call_def r_into_rtranclp)
  next
    case (Inr ts)
    with assms b have loop: "deliver_loop ts d [] (r1, w) = (out, r', w')" by (simp add: Deliver_def)
    from deliver_loop_is_run[OF loop, of "new_call d ts" keccak cs] obtain c where
      "ca_delivery c = d" "ca_result c = Some out" "(router_run keccak)\<^sup>*\<^sup>* (r1, w, cs @ [new_call d ts]) (r', w', cs @ [c])"
      by (auto simp: new_call_def)
    with run_begin[OF b[unfolded Inr], of w cs] show ?thesis
      by (blast intro: converse_rtranclp_into_rtranclp)
  qed
qed

lemma other_bytes_refused:
  assumes "mget (ro_payloads r) (dl_MessageID d) = Some p" "\<not> sameDelivery p d"
  shows "\<not> isOK (fst (begin_delivery keccak d r)) \<and> snd (begin_delivery keccak d r) = r"
  using assms by (auto simp: begin_delivery_def Let_def)

lemma sameDelivery_sym: "sameDelivery p d \<Longrightarrow> sameDelivery p e \<Longrightarrow> sameDelivery d e"
  by (simp add: sameDelivery_def)

section \<open>Sample route\<close>

definition sample_transport :: "string \<Rightarrow> bool \<Rightarrow> nat Transport" where
  "sample_transport name up =
     \<lparr>tr_ID = name, tr_Submit = (\<lambda>d w.
        if up then (Inr \<lparr>rc_ProviderID = name, rc_Receipt = [7]\<rparr>, Suc w)
        else (Inl (RetryableTransportError (PlainError ''down'')), Suc w))\<rparr>"

definition sample_delivery :: Delivery where
  "sample_delivery = \<lparr>dl_MessageID = [1], dl_RoutePolicy = [2], dl_Envelope = [3], dl_EnvelopeHash = [3],
     dl_SourceProof = [4], dl_ProofHash = [4], dl_AttemptedAt = 5\<rparr>"

abbreviation sample_route :: "nat Transport list" where
  "sample_route \<equiv> [sample_transport ''a'' False, sample_transport ''b'' True]"

definition sample_router :: "nat Router" where
  "sample_router = snd (RegisterRoute [2] (map Some sample_route) NewRouter)"

definition sample_outcome :: "(router_error + Receipt) \<times> nat Router \<times> nat" where
  "sample_outcome = Deliver id sample_delivery (sample_router, 0)"

lemmas router_eval = Deliver_def begin_delivery_def next_turn_def RegisterRoute_def sample_router_def sample_delivery_def
  sample_transport_def NewRouter_def empty_hash_def submission_def appendAttempt_def Attempts_def numeral_eq_Suc Let_def

lemma sample_outcome_value:
  "fst sample_outcome = Inr \<lparr>rc_ProviderID = ''b'', rc_Receipt = [7]\<rparr>"
  by (simp add: sample_outcome_def router_eval)

lemma sample_run:
  "\<exists>c. ca_delivery c = sample_delivery \<and> ca_result c = Some (Inr \<lparr>rc_ProviderID = ''b'', rc_Receipt = [7]\<rparr>) \<and>
     reachable (\<lambda>(r, w, cs). r = NewRouter \<and> cs = []) (router_run id)
       (fst (snd sample_outcome), snd (snd sample_outcome), [c])"
proof -
  have "Deliver id sample_delivery (sample_router, 0) =
      (Inr \<lparr>rc_ProviderID = ''b'', rc_Receipt = [7]\<rparr>, fst (snd sample_outcome), snd (snd sample_outcome))"
    using sample_outcome_value by (metis sample_outcome_def prod.collapse)
  from Deliver_is_run[OF this, of "[]"] obtain c where
    c: "ca_delivery c = sample_delivery" "ca_result c = Some (Inr \<lparr>rc_ProviderID = ''b'', rc_Receipt = [7]\<rparr>)"
      "(router_run id)\<^sup>*\<^sup>* (sample_router, 0, []) (fst (snd sample_outcome), snd (snd sample_outcome), [c])" by auto
  have "router_run id (NewRouter, 0 :: nat, []) (sample_router, 0, [])"
    unfolding sample_router_def by (rule run_register) (rule prod.collapse[symmetric])
  then have "reachable (\<lambda>(r, w, cs). r = NewRouter \<and> cs = []) (router_run id) (sample_router, 0 :: nat, [])"
    by (rule reach_step[OF reach_init, rotated]) simp
  from routers.reachable_steps[OF c(3) this] c show ?thesis by blast
qed

section \<open>Claim\<close>

text \<open>
  C32: deliveries side by side. Take any number of deliveries in progress, their steps interleaved in any
  way, with providers answering as they like. Each call that has returned is explained by its own
  attempts: a receipt comes from the first provider of the approved route that accepted, and every
  provider before it was tried once, in order, and failed with a retryable error that is no identity
  conflict; a provider's failure is returned only if it must not be retried elsewhere; and no provider is
  left only after all of them failed retryably. The attempts kept for a message are exactly those of the
  calls for it, numbered from one without a gap, those of each call in their order. A call that tried a
  provider had bytes matching their hashes, and other bytes for its message are refused from then on
  without reaching any provider.
\<close>

theorem deliver_failover:
  assumes "reachable (\<lambda>(r, w, cs). r = NewRouter \<and> cs = []) (router_run keccak) (r, w, cs)"
    and "c \<in> set cs" "ca_result c = Some out" "dl_MessageID (ca_delivery c) = i"
  shows "explains (ca_delivery c) (ca_route c) (ca_attempts c) out \<and>
    mset (map unnumbered (Attempts r i)) = sum_list (map (made_for i) cs) \<and>
    map at_Number (Attempts r i) = map of_nat [1..<Suc (length (Attempts r i))] \<and>
    subseq (ca_attempts c) (map unnumbered (Attempts r i)) \<and>
    (ca_route c \<noteq> [] \<longrightarrow>
       mget (ro_approved r) (dl_RoutePolicy (ca_delivery c)) = Some (ca_route c) \<and>
       keccak (dl_Envelope (ca_delivery c)) = dl_EnvelopeHash (ca_delivery c) \<and>
       keccak (dl_SourceProof (ca_delivery c)) = dl_ProofHash (ca_delivery c) \<and>
       (\<forall>e. dl_MessageID e = i \<and> \<not> sameDelivery (ca_delivery c) e \<longrightarrow>
          \<not> isOK (fst (begin_delivery keccak e r)) \<and> snd (begin_delivery keccak e r) = r))"
proof -
  note inv = router_invD[OF routers.always[OF assms(1)]]
  note bound = inv(2)[OF assms(2), unfolded call_bound_def assms(4)]
  have "explains (ca_delivery c) (ca_route c) (ca_attempts c) out"
    using inv(1)[OF assms(2)] assms(3) by (simp add: call_progress_def)
  moreover have "\<not> isOK (fst (begin_delivery keccak e r)) \<and> snd (begin_delivery keccak e r) = r"
    if "ca_route c \<noteq> []" "dl_MessageID e = i" "\<not> sameDelivery (ca_delivery c) e" for e
    using bound that other_bytes_refused[of r e] sameDelivery_sym by blast
  ultimately show ?thesis using inv(3,4)[of i] bound by blast
qed

theorem deliver_failover_witness:
  "\<exists>as a f. in_vain sample_delivery [sample_transport ''a'' False] [f] as \<and>
     answered (sample_transport ''b'' True) sample_delivery (Inr \<lparr>rc_ProviderID = ''b'', rc_Receipt = [7]\<rparr>) a \<and>
     mset (map unnumbered (Attempts (fst (snd sample_outcome)) [1])) = mset (as @ [a])"
proof -
  obtain c where c: "ca_delivery c = sample_delivery"
      "ca_result c = Some (Inr \<lparr>rc_ProviderID = ''b'', rc_Receipt = [7]\<rparr>)"
      "reachable (\<lambda>(r, w, cs). r = NewRouter \<and> cs = []) (router_run id)
         (fst (snd sample_outcome), snd (snd sample_outcome), [c])"
    using sample_run by blast
  have i: "dl_MessageID (ca_delivery c) = [1]" by (simp add: c sample_delivery_def)
  note claim = deliver_failover[OF c(3) _ c(2) i, simplified]
  from claim obtain pre t post fs as a where e: "ca_route c = pre @ t # post" "ca_attempts c = as @ [a]"
    "in_vain sample_delivery pre fs as"
    "answered t sample_delivery (Inr \<lparr>rc_ProviderID = ''b'', rc_Receipt = [7]\<rparr>) a"
    by (auto simp: explains_def c)
  have "ro_approved (fst (snd sample_outcome)) = [([2], sample_route)]"
    by (simp add: sample_outcome_def router_eval)
  with claim e(1) have route: "pre @ t # post = sample_route" by (auto simp: c sample_delivery_def)
  have "tr_ID t = ''b''" using answeredD(5)[OF e(4) refl] by simp
  with route have pre: "pre = [sample_transport ''a'' False]" "t = sample_transport ''b'' True"
    by (auto simp: Cons_eq_append_conv append_eq_Cons_conv sample_transport_def)
  with e(3) obtain f where "fs = [f]" by (auto elim: in_vain.elims)
  moreover have "mset (map unnumbered (Attempts (fst (snd sample_outcome)) [1])) = mset (as @ [a])"
    using claim i e(2) by (simp add: made_for_def)
  ultimately show ?thesis using e(3,4) pre by blast
qed

end
