(* ===== verification/Coordinator_Reconciliation.thy ===== *)
theory Coordinator_Reconciliation
  imports Big_Int
begin

text \<open>
  \<^verbatim>\<open>cross-chain-coordinator/reconciliation/reconciliation.go\<close>: the comparison of chain, bridge, custody,
  loan, message and ledger totals of a route. Each check that fails adds a difference; a critical one
  also pauses the route and opens an incident. Go reads the amounts by iterating over a map literal;
  the model reads them in the order they are written, which decides only which field an error names.
\<close>

section \<open>Data\<close>

record Snapshot =
  sn_RouteID :: string
  sn_CanonicalEscrowUnits :: string
  sn_WrappedSupplyUnits :: string
  sn_FinalizedPendingMintUnits :: string
  sn_FinalizedPendingBurnUnits :: string
  sn_HubTokenBalanceUnits :: string
  sn_RouteObligationsUnits :: string
  sn_HubSurplusUnits :: string
  sn_RouteExposureUnits :: string
  sn_RouteExposureCapUnits :: string
  sn_AggregateExposureUnits :: string
  sn_AggregateExposureCapUnits :: string
  sn_CollateralCustodyUnits :: string
  sn_CollateralPositionUnits :: string
  sn_SettlementVaultUnits :: string
  sn_SettlementAuthorizedUnits :: string
  sn_CanonicalDebtUnits :: string
  sn_LedgerDebtUnits :: string
  sn_CanonicalLenderReleaseUnits :: string
  sn_LedgerLenderReleaseUnits :: string
  sn_JournalBridgeControlUnits :: string
  sn_ChainBridgeControlUnits :: string
  sn_ChainMessageCount :: "64 word"
  sn_SQLMessageCount :: "64 word"
  sn_ChainNonce :: "64 word"
  sn_SQLNonce :: "64 word"
  sn_ExecutionResultCount :: "64 word"
  sn_AcknowledgementCount :: "64 word"
  sn_RecoveryRequestCount :: "64 word"
  sn_TombstoneCount :: "64 word"
  sn_CompensationCount :: "64 word"
  sn_RecoveredCount :: "64 word"
  sn_ConflictingTerminalCount :: "64 word"
  sn_EvidenceHash :: string
  sn_AsOf :: gotime

record RouteDifference =
  rd_Dimension :: string
  rd_ExpectedUnits :: string
  rd_ObservedUnits :: string
  rd_ReasonCode :: string
  rd_Severity :: string
  rd_Owner :: string
  rd_DetectedAt :: gotime
  rd_Deadline :: gotime

record Result =
  rs_Differences :: "RouteDifference list"
  rs_PauseRoute :: bool
  rs_OpenIncident :: bool

datatype reconciliation_error = InvalidReconciliationInput | InvalidUnits string

section \<open>Comparison\<close>

definition route_units :: "string \<Rightarrow> int option" where
  "route_units value =
     (case big_set_string value of
        None \<Rightarrow> None
      | Some number \<Rightarrow> if number < 0 \<or> big_string number \<noteq> value then None else Some number)"

fun read_units :: "(string \<times> string) list \<Rightarrow> (string, int) gomap \<Rightarrow> reconciliation_error + (string, int) gomap" where
  "read_units [] values = Inr values"
| "read_units ((name, raw) # rest) values =
     (case route_units raw of
        None \<Rightarrow> Inl (InvalidUnits name)
      | Some value \<Rightarrow> read_units rest (mput name value values))"

definition difference ::
  "string \<Rightarrow> string \<Rightarrow> string \<Rightarrow> string \<Rightarrow> string \<Rightarrow> string \<Rightarrow> gotime \<Rightarrow> gotime \<Rightarrow> RouteDifference" where
  "difference dimension expected observed reason severity owner detectedAt deadline =
     \<lparr>rd_Dimension = dimension, rd_ExpectedUnits = expected, rd_ObservedUnits = observed,
      rd_ReasonCode = reason, rd_Severity = severity, rd_Owner = owner,
      rd_DetectedAt = detectedAt, rd_Deadline = deadline\<rparr>"

text \<open>The closure \<open>add\<close>; its captured variables are the first arguments.\<close>

definition add_difference ::
  "string \<Rightarrow> gotime \<Rightarrow> gotime \<Rightarrow> string \<Rightarrow> int \<Rightarrow> int \<Rightarrow> string \<Rightarrow> string \<Rightarrow> Result \<Rightarrow> Result" where
  "add_difference owner asOf deadline dimension expected observed reason severity result =
     (if expected = observed then result
      else
        let result1 = result\<lparr>rs_Differences := rs_Differences result @
                [difference dimension (big_string expected) (big_string observed) reason severity owner asOf deadline]\<rparr>
        in if severity = ''CRITICAL'' \<or> severity = ''EXISTENTIAL''
           then result1\<lparr>rs_PauseRoute := True, rs_OpenIncident := True\<rparr>
           else result1)"

definition addRecoveryStageDifference ::
  "string \<Rightarrow> gotime \<Rightarrow> gotime \<Rightarrow> string \<Rightarrow> 64 word \<Rightarrow> 64 word \<Rightarrow> string \<Rightarrow> string \<Rightarrow> Result \<Rightarrow> Result" where
  "addRecoveryStageDifference owner asOf deadline dimension parent child gapReason orderReason =
     (let severity = (if child > parent then ''CRITICAL'' else ''HIGH'');
          reason = (if child > parent then orderReason else gapReason)
      in add_difference owner asOf deadline dimension (uint parent) (uint child) reason severity)"

definition snapshot_fields :: "Snapshot \<Rightarrow> (string \<times> string) list" where
  "snapshot_fields snapshot =
     [(''canonical escrow'', sn_CanonicalEscrowUnits snapshot),
      (''wrapped supply'', sn_WrappedSupplyUnits snapshot),
      (''pending mint'', sn_FinalizedPendingMintUnits snapshot),
      (''pending burn'', sn_FinalizedPendingBurnUnits snapshot),
      (''hub balance'', sn_HubTokenBalanceUnits snapshot),
      (''route obligations'', sn_RouteObligationsUnits snapshot),
      (''hub surplus'', sn_HubSurplusUnits snapshot),
      (''route exposure'', sn_RouteExposureUnits snapshot),
      (''route cap'', sn_RouteExposureCapUnits snapshot),
      (''aggregate exposure'', sn_AggregateExposureUnits snapshot),
      (''aggregate cap'', sn_AggregateExposureCapUnits snapshot),
      (''collateral custody'', sn_CollateralCustodyUnits snapshot),
      (''collateral positions'', sn_CollateralPositionUnits snapshot),
      (''settlement vault'', sn_SettlementVaultUnits snapshot),
      (''settlement authorized'', sn_SettlementAuthorizedUnits snapshot),
      (''canonical debt'', sn_CanonicalDebtUnits snapshot),
      (''ledger debt'', sn_LedgerDebtUnits snapshot),
      (''canonical lender release'', sn_CanonicalLenderReleaseUnits snapshot),
      (''ledger lender release'', sn_LedgerLenderReleaseUnits snapshot),
      (''journal bridge control'', sn_JournalBridgeControlUnits snapshot),
      (''chain bridge control'', sn_ChainBridgeControlUnits snapshot)]"

text \<open>The checks on amounts, in the order of the code.\<close>

definition compare_units ::
  "string \<Rightarrow> gotime \<Rightarrow> gotime \<Rightarrow> (string \<Rightarrow> int) \<Rightarrow> Result \<Rightarrow> Result" where
  "compare_units owner asOf deadline v result0 =
     (let add = add_difference owner asOf deadline;
          expectedEscrow = v ''wrapped supply'' + v ''pending mint'' + v ''pending burn'';
          expectedHubBalance = v ''route obligations'' + v ''hub surplus'';
          r1 = add ''BACKING'' expectedEscrow (v ''canonical escrow'') ''BACKING_EQUATION_MISMATCH'' ''CRITICAL'' result0;
          r2 = add ''HUB_ESCROW'' expectedHubBalance (v ''hub balance'')
                 ''HUB_BALANCE_OR_QUARANTINED_SURPLUS_MISMATCH'' ''CRITICAL'' r1;
          r3 = add ''COLLATERAL'' (v ''collateral positions'') (v ''collateral custody'')
                 ''COLLATERAL_CUSTODY_MISMATCH'' ''CRITICAL'' r2;
          r4 = add ''SETTLEMENT_VAULT'' (v ''settlement authorized'') (v ''settlement vault'')
                 ''SETTLEMENT_VAULT_MISMATCH'' ''CRITICAL'' r3;
          r5 = add ''LOAN_DEBT'' (v ''canonical debt'') (v ''ledger debt'') ''LEDGER_DEBT_MISMATCH'' ''HIGH'' r4;
          r6 = add ''LENDER_RELEASE'' (v ''canonical lender release'') (v ''ledger lender release'')
                 ''LENDER_RELEASE_MISMATCH'' ''HIGH'' r5;
          r7 = add ''BRIDGE_CONTROL'' (v ''chain bridge control'') (v ''journal bridge control'')
                 ''JOURNAL_CONTROL_MISMATCH'' ''HIGH'' r6;
          r8 = (if v ''route exposure'' > v ''route cap''
                then add ''ROUTE_EXPOSURE_CAP'' (v ''route cap'') (v ''route exposure'') ''ROUTE_CAP_EXCEEDED'' ''CRITICAL''
                else id) r7;
          r9 = (if v ''aggregate exposure'' > v ''aggregate cap''
                then add ''AGGREGATE_EXPOSURE_CAP'' (v ''aggregate cap'') (v ''aggregate exposure'')
                       ''AGGREGATE_CAP_EXCEEDED'' ''CRITICAL''
                else id) r8
      in r9)"

text \<open>The checks on counts.\<close>

definition compare_counts :: "string \<Rightarrow> gotime \<Rightarrow> gotime \<Rightarrow> Snapshot \<Rightarrow> Result \<Rightarrow> Result" where
  "compare_counts owner asOf deadline snapshot result0 =
     (let add = add_difference owner asOf deadline;
          stage = addRecoveryStageDifference owner asOf deadline;
          r1 = add ''MESSAGE_COUNT'' (uint (sn_ChainMessageCount snapshot)) (uint (sn_SQLMessageCount snapshot))
                 ''MESSAGE_PROJECTION_MISMATCH'' ''HIGH'' result0;
          r2 = add ''LANE_NONCE'' (uint (sn_ChainNonce snapshot)) (uint (sn_SQLNonce snapshot))
                 ''NONCE_PROJECTION_MISMATCH'' ''HIGH'' r1;
          r3 = add ''ACKNOWLEDGEMENT'' (uint (sn_ExecutionResultCount snapshot))
                 (uint (sn_AcknowledgementCount snapshot)) ''EXECUTION_ACK_MISMATCH'' ''HIGH'' r2;
          r4 = (if sn_ConflictingTerminalCount snapshot > 0
                then add ''TERMINAL_EXCLUSION'' 0 (uint (sn_ConflictingTerminalCount snapshot))
                       ''EXECUTION_TOMBSTONE_CONFLICT'' ''CRITICAL''
                else id) r3;
          r5 = (if sn_RecoveryRequestCount snapshot > sn_ChainMessageCount snapshot
                then add ''RECOVERY_REQUEST_COUNT'' (uint (sn_ChainMessageCount snapshot))
                       (uint (sn_RecoveryRequestCount snapshot)) ''RECOVERY_REQUEST_COUNT_EXCEEDS_MESSAGES'' ''CRITICAL''
                else id) r4;
          r6 = stage ''RECOVERY_REQUEST_TOMBSTONE'' (sn_RecoveryRequestCount snapshot) (sn_TombstoneCount snapshot)
                 ''RECOVERY_TOMBSTONE_GAP'' ''TOMBSTONE_WITHOUT_RECOVERY_REQUEST'' r5;
          r7 = stage ''RECOVERY_TOMBSTONE_COMPENSATION'' (sn_TombstoneCount snapshot) (sn_CompensationCount snapshot)
                 ''RECOVERY_COMPENSATION_GAP'' ''COMPENSATION_WITHOUT_TOMBSTONE'' r6;
          r8 = stage ''RECOVERY_COMPENSATION_COMPLETION'' (sn_CompensationCount snapshot) (sn_RecoveredCount snapshot)
                 ''RECOVERY_COMPLETION_GAP'' ''RECOVERED_WITHOUT_COMPENSATION'' r7
      in r8)"

definition Compare :: "Snapshot \<Rightarrow> string \<Rightarrow> gotime \<Rightarrow> reconciliation_error + Result" where
  "Compare snapshot owner deadline =
     (if sn_RouteID snapshot = [] \<or> sn_EvidenceHash snapshot = [] \<or> sn_AsOf snapshot = 0 \<or>
         owner = [] \<or> \<not> deadline > sn_AsOf snapshot
      then Inl InvalidReconciliationInput
      else ebind (read_units (snapshot_fields snapshot) []) (\<lambda>values.
        let v = (\<lambda>name. the_default 0 (mget values name));
            result = \<lparr>rs_Differences = [], rs_PauseRoute = False, rs_OpenIncident = False\<rparr>
        in Inr (compare_counts owner (sn_AsOf snapshot) deadline snapshot
                  (compare_units owner (sn_AsOf snapshot) deadline v result))))"

section \<open>Lemmas\<close>

lemma route_units_iff [simp]: "route_units s = Some n \<longleftrightarrow> s = big_string n \<and> 0 \<le> n"
  by (auto simp: route_units_def split: option.splits if_splits)

lemma route_units_string [simp]: "0 \<le> n \<Longrightarrow> route_units (big_string n) = Some n"
  by simp

lemma uint_pos: "0 < uint w \<longleftrightarrow> uint w \<noteq> 0"
  using uint_ge_0[of w] by linarith

definition critical :: "string \<Rightarrow> bool" where
  "critical severity \<longleftrightarrow> severity = ''CRITICAL'' \<or> severity = ''EXISTENTIAL''"

definition clean :: "Result \<Rightarrow> bool" where
  "clean r \<longleftrightarrow> rs_Differences r = []"

lemma add_difference_simps [simp]:
  "clean (add_difference o' a d dim x y rsn sev r) \<longleftrightarrow> clean r \<and> x = y"
  "rs_PauseRoute (add_difference o' a d dim x y rsn sev r) \<longleftrightarrow> rs_PauseRoute r \<or> (x \<noteq> y \<and> critical sev)"
  "rs_OpenIncident (add_difference o' a d dim x y rsn sev r) \<longleftrightarrow> rs_OpenIncident r \<or> (x \<noteq> y \<and> critical sev)"
  by (auto simp: add_difference_def clean_def critical_def Let_def)

lemma add_if_simps [simp]:
  "clean ((if b then add_difference o' a d dim x y rsn sev else id) r) \<longleftrightarrow> clean r \<and> (b \<longrightarrow> x = y)"
  "rs_PauseRoute ((if b then add_difference o' a d dim x y rsn sev else id) r) \<longleftrightarrow>
     rs_PauseRoute r \<or> (b \<and> x \<noteq> y \<and> critical sev)"
  "rs_OpenIncident ((if b then add_difference o' a d dim x y rsn sev else id) r) \<longleftrightarrow>
     rs_OpenIncident r \<or> (b \<and> x \<noteq> y \<and> critical sev)"
  by auto

lemma critical_simps [simp]: "critical ''CRITICAL''" "\<not> critical ''HIGH''"
  by (simp_all add: critical_def)

lemma stage_simps [simp]:
  "clean (addRecoveryStageDifference o' a d dim p c g w r) \<longleftrightarrow> clean r \<and> p = c"
  "rs_PauseRoute (addRecoveryStageDifference o' a d dim p c g w r) \<longleftrightarrow> rs_PauseRoute r \<or> c > p"
  "rs_OpenIncident (addRecoveryStageDifference o' a d dim p c g w r) \<longleftrightarrow> rs_OpenIncident r \<or> c > p"
  by (auto simp: addRecoveryStageDifference_def Let_def word_uint_eq_iff word_less_def)

lemma read_units_other:
  "read_units fs m = Inr m' \<Longrightarrow> n \<notin> set (map fst fs) \<Longrightarrow> mget m' n = mget m n"
  by (induction fs m rule: read_units.induct) (auto split: option.splits)

lemma read_units_value:
  assumes "read_units fs m = Inr m'" "distinct (map fst fs)" "(n, raw) \<in> set fs"
  shows "route_units raw \<noteq> None \<and> the_default 0 (mget m' n) = the (route_units raw)"
  using assms
proof (induction fs m rule: read_units.induct)
  case (2 name raw' rest vals)
  then obtain v where v: "route_units raw' = Some v" "read_units rest (mput name v vals) = Inr m'"
    by (auto split: option.splits)
  show ?case
  proof (cases "(n, raw) = (name, raw')")
    case True
    with v read_units_other[OF v(2), of name] "2.prems"(2) show ?thesis by simp
  next
    case False
    with "2.prems"(3) have "(n, raw) \<in> set rest" by auto
    with "2.IH"[OF v] "2.prems"(2) show ?thesis by simp
  qed
qed simp

lemma snapshot_names_distinct: "distinct (map fst (snapshot_fields s))"
  by (simp add: snapshot_fields_def)

text \<open>The amount a field denotes.\<close>

definition amount :: "string \<Rightarrow> int" where
  "amount raw = the (route_units raw)"

text \<open>Every total agrees with its counterpart and no limit is exceeded.\<close>

definition balanced :: "Snapshot \<Rightarrow> bool" where
  "balanced s \<longleftrightarrow>
     amount (sn_CanonicalEscrowUnits s) = amount (sn_WrappedSupplyUnits s) +
       amount (sn_FinalizedPendingMintUnits s) + amount (sn_FinalizedPendingBurnUnits s) \<and>
     amount (sn_HubTokenBalanceUnits s) = amount (sn_RouteObligationsUnits s) + amount (sn_HubSurplusUnits s) \<and>
     amount (sn_CollateralPositionUnits s) = amount (sn_CollateralCustodyUnits s) \<and>
     amount (sn_SettlementAuthorizedUnits s) = amount (sn_SettlementVaultUnits s) \<and>
     amount (sn_CanonicalDebtUnits s) = amount (sn_LedgerDebtUnits s) \<and>
     amount (sn_CanonicalLenderReleaseUnits s) = amount (sn_LedgerLenderReleaseUnits s) \<and>
     amount (sn_ChainBridgeControlUnits s) = amount (sn_JournalBridgeControlUnits s) \<and>
     amount (sn_RouteExposureUnits s) \<le> amount (sn_RouteExposureCapUnits s) \<and>
     amount (sn_AggregateExposureUnits s) \<le> amount (sn_AggregateExposureCapUnits s) \<and>
     sn_ChainMessageCount s = sn_SQLMessageCount s \<and> sn_ChainNonce s = sn_SQLNonce s \<and>
     sn_ExecutionResultCount s = sn_AcknowledgementCount s \<and> sn_ConflictingTerminalCount s = 0 \<and>
     sn_RecoveryRequestCount s \<le> sn_ChainMessageCount s \<and>
     sn_RecoveryRequestCount s = sn_TombstoneCount s \<and> sn_TombstoneCount s = sn_CompensationCount s \<and>
     sn_CompensationCount s = sn_RecoveredCount s"

text \<open>Custody does not match, a limit is exceeded, or recovery ran ahead of its evidence.\<close>

definition safety_breach :: "Snapshot \<Rightarrow> bool" where
  "safety_breach s \<longleftrightarrow>
     amount (sn_CanonicalEscrowUnits s) \<noteq> amount (sn_WrappedSupplyUnits s) +
       amount (sn_FinalizedPendingMintUnits s) + amount (sn_FinalizedPendingBurnUnits s) \<or>
     amount (sn_HubTokenBalanceUnits s) \<noteq> amount (sn_RouteObligationsUnits s) + amount (sn_HubSurplusUnits s) \<or>
     amount (sn_CollateralPositionUnits s) \<noteq> amount (sn_CollateralCustodyUnits s) \<or>
     amount (sn_SettlementAuthorizedUnits s) \<noteq> amount (sn_SettlementVaultUnits s) \<or>
     amount (sn_RouteExposureUnits s) > amount (sn_RouteExposureCapUnits s) \<or>
     amount (sn_AggregateExposureUnits s) > amount (sn_AggregateExposureCapUnits s) \<or>
     sn_ConflictingTerminalCount s \<noteq> 0 \<or>
     sn_RecoveryRequestCount s > sn_ChainMessageCount s \<or>
     sn_TombstoneCount s > sn_RecoveryRequestCount s \<or> sn_CompensationCount s > sn_TombstoneCount s \<or>
     sn_RecoveredCount s > sn_CompensationCount s"

definition reads :: "(string \<Rightarrow> int) \<Rightarrow> Snapshot \<Rightarrow> bool" where
  "reads v s \<longleftrightarrow> (\<forall>(n, raw) \<in> set (snapshot_fields s). v n = amount raw)"

lemma Compare_Inr:
  assumes "Compare s owner deadline = Inr result"
  obtains v where "result = compare_counts owner (sn_AsOf s) deadline s (compare_units owner (sn_AsOf s) deadline v
      \<lparr>rs_Differences = [], rs_PauseRoute = False, rs_OpenIncident = False\<rparr>)"
    and "reads v s"
proof -
  from assms obtain m where m: "read_units (snapshot_fields s) [] = Inr m"
    and r: "result = compare_counts owner (sn_AsOf s) deadline s (compare_units owner (sn_AsOf s) deadline
      (\<lambda>name. the_default 0 (mget m name)) \<lparr>rs_Differences = [], rs_PauseRoute = False, rs_OpenIncident = False\<rparr>)"
    by (auto simp: Compare_def Let_def split: if_splits)
  from that[OF r] read_units_value[OF m snapshot_names_distinct] show thesis
    by (auto simp: amount_def reads_def)
qed

lemma snapshot_amounts:
  assumes "reads v s"
  shows "v ''canonical escrow'' = amount (sn_CanonicalEscrowUnits s)"
    "v ''wrapped supply'' = amount (sn_WrappedSupplyUnits s)"
    "v ''pending mint'' = amount (sn_FinalizedPendingMintUnits s)"
    "v ''pending burn'' = amount (sn_FinalizedPendingBurnUnits s)"
    "v ''hub balance'' = amount (sn_HubTokenBalanceUnits s)"
    "v ''route obligations'' = amount (sn_RouteObligationsUnits s)"
    "v ''hub surplus'' = amount (sn_HubSurplusUnits s)"
    "v ''route exposure'' = amount (sn_RouteExposureUnits s)"
    "v ''route cap'' = amount (sn_RouteExposureCapUnits s)"
    "v ''aggregate exposure'' = amount (sn_AggregateExposureUnits s)"
    "v ''aggregate cap'' = amount (sn_AggregateExposureCapUnits s)"
    "v ''collateral custody'' = amount (sn_CollateralCustodyUnits s)"
    "v ''collateral positions'' = amount (sn_CollateralPositionUnits s)"
    "v ''settlement vault'' = amount (sn_SettlementVaultUnits s)"
    "v ''settlement authorized'' = amount (sn_SettlementAuthorizedUnits s)"
    "v ''canonical debt'' = amount (sn_CanonicalDebtUnits s)"
    "v ''ledger debt'' = amount (sn_LedgerDebtUnits s)"
    "v ''canonical lender release'' = amount (sn_CanonicalLenderReleaseUnits s)"
    "v ''ledger lender release'' = amount (sn_LedgerLenderReleaseUnits s)"
    "v ''journal bridge control'' = amount (sn_JournalBridgeControlUnits s)"
    "v ''chain bridge control'' = amount (sn_ChainBridgeControlUnits s)"
  using assms by (simp_all add: reads_def snapshot_fields_def)

section \<open>Claim\<close>

text \<open>
  C33: A comparison that returns reports no difference exactly when every total agrees with its
  counterpart and no limit is exceeded, and it pauses the route and opens an incident exactly when
  custody does not match, a limit is exceeded, execution and tombstone conflict or recovery ran ahead
  of its evidence.
\<close>

theorem Compare_exact:
  assumes "Compare s owner deadline = Inr result"
  shows "(rs_Differences result = [] \<longleftrightarrow> balanced s) \<and>
    (rs_PauseRoute result \<longleftrightarrow> safety_breach s) \<and> (rs_OpenIncident result \<longleftrightarrow> safety_breach s)"
proof -
  obtain v where r: "result = compare_counts owner (sn_AsOf s) deadline s (compare_units owner (sn_AsOf s) deadline v
      \<lparr>rs_Differences = [], rs_PauseRoute = False, rs_OpenIncident = False\<rparr>)"
    and v: "reads v s"
    using assms by (rule Compare_Inr)
  note amounts = snapshot_amounts[OF v]
  have "clean result \<longleftrightarrow> balanced s"
    unfolding r compare_counts_def compare_units_def Let_def balanced_def
    by (auto simp: amounts clean_def[of "\<lparr>rs_Differences = [], rs_PauseRoute = False, rs_OpenIncident = False\<rparr>"]
        word_uint_eq_iff word_le_def word_less_def uint_pos)
  moreover have "rs_PauseRoute result \<longleftrightarrow> safety_breach s"
    unfolding r compare_counts_def compare_units_def Let_def safety_breach_def
    by (auto simp: amounts word_uint_eq_iff word_less_def uint_pos)
  moreover have "rs_OpenIncident result \<longleftrightarrow> safety_breach s"
    unfolding r compare_counts_def compare_units_def Let_def safety_breach_def
    by (auto simp: amounts word_uint_eq_iff word_less_def uint_pos)
  ultimately show ?thesis by (simp add: clean_def)
qed

definition sample_snapshot :: Snapshot where
  "sample_snapshot = \<lparr>sn_RouteID = ''r'', sn_CanonicalEscrowUnits = ''10'', sn_WrappedSupplyUnits = ''6'',
     sn_FinalizedPendingMintUnits = ''3'', sn_FinalizedPendingBurnUnits = ''1'', sn_HubTokenBalanceUnits = ''12'',
     sn_RouteObligationsUnits = ''10'', sn_HubSurplusUnits = ''2'', sn_RouteExposureUnits = ''9'',
     sn_RouteExposureCapUnits = ''8'', sn_AggregateExposureUnits = ''9'', sn_AggregateExposureCapUnits = ''100'',
     sn_CollateralCustodyUnits = ''5'', sn_CollateralPositionUnits = ''5'', sn_SettlementVaultUnits = ''4'',
     sn_SettlementAuthorizedUnits = ''4'', sn_CanonicalDebtUnits = ''7'', sn_LedgerDebtUnits = ''7'',
     sn_CanonicalLenderReleaseUnits = ''0'', sn_LedgerLenderReleaseUnits = ''0'', sn_JournalBridgeControlUnits = ''1'',
     sn_ChainBridgeControlUnits = ''1'', sn_ChainMessageCount = 3, sn_SQLMessageCount = 3, sn_ChainNonce = 3,
     sn_SQLNonce = 3, sn_ExecutionResultCount = 2, sn_AcknowledgementCount = 2, sn_RecoveryRequestCount = 1,
     sn_TombstoneCount = 1, sn_CompensationCount = 1, sn_RecoveredCount = 1, sn_ConflictingTerminalCount = 0,
     sn_EvidenceHash = ''e'', sn_AsOf = 100\<rparr>"

lemma sample_snapshot_compared: "isOK (Compare sample_snapshot ''ops'' 200)"
  by code_simp

theorem Compare_exact_witness:
  "\<exists>result. Compare sample_snapshot ''ops'' 200 = Inr result \<and>
     (rs_PauseRoute result \<longleftrightarrow> safety_breach sample_snapshot)"
  using sample_snapshot_compared Compare_exact[of sample_snapshot "''ops''" 200] by (auto simp: isOK_iff)

end
