(* ===== verification/Recovery.thy ===== *)
theory Recovery
  imports Abi_Words Transition "HOL-Library.List_Lexorder" "HOL-Library.Char_ord"
begin

text \<open>
  \<^verbatim>\<open>cross-chain-coordinator/recovery/recovery.go\<close>: the recovery of a message that was not executed. A
  request carries the action to undo, the compensation for it and the approvals of two of three
  authorizers over a digest that commits to both; the manager then takes it through tombstone,
  compensation and acknowledgement in that order.

  The arrays \<open>[32]byte\<close> and \<open>[20]byte\<close> are words of 256 and 160 bits, so that comparison with the zero
  array is comparison with 0 and \<open>bytes.Compare\<close> is the order on words; \<open>bytes32\<close> and \<open>bytes20\<close> are
  their byte strings. Environment (\<open>RecoveryEnv\<close>): Keccak-256 and, of the secp256k1 packages, whether 32
  bytes are a scalar in range and not zero, whether a scalar is at most half the group order, and the
  recovery of a public key (its uncompressed serialization) from a compact signature. The
  destination's evidence source is a record of functions on its world.
\<close>

section \<open>Types\<close>

type_synonym bytes32 = "256 word"
type_synonym bytes20 = "160 word"

definition bytes32 :: "bytes32 \<Rightarrow> byte list" where
  "bytes32 w = be_bytes 32 (uint w)"

definition bytes20 :: "bytes20 \<Rightarrow> byte list" where
  "bytes20 w = be_bytes 20 (uint w)"

record RecoveryEnv =
  re_keccak :: "byte list \<Rightarrow> bytes32"
  re_scalar :: "byte list \<Rightarrow> bool"
  re_low_order :: "byte list \<Rightarrow> bool"
  re_recover :: "byte list \<Rightarrow> bytes32 \<Rightarrow> byte list option"

datatype recovery_error =
    ErrExecuted
  | ErrNotTombstoned
  | ErrAlreadyCompensated
  | ErrRecoveryConflict
  | ErrInsufficientApproval
  | InvalidPolicy string
  | NilAuthorizer
  | NilDestination
  | DestinationError string

datatype RecoveryState = Requested | DestinationTombstoned | SourceCompensated | Recovered | Disputed

record Approval =
  ap_SignerID :: string
  ap_Signature :: "byte list"

record AuthorizationRequest =
  ar_MessageID :: bytes32
  ar_EnvelopeHash :: bytes32
  ar_RoutePolicyHash :: bytes32
  ar_AssetAmountCommitment :: bytes32
  ar_SourceStateCommitment :: bytes32
  ar_DestinationStateCommitment :: bytes32
  ar_CompensationPayloadHash :: bytes32
  ar_MessageExpiresAt :: "64 word"
  ar_RecoveryNonce :: "64 word"
  ar_ReasonCode :: bytes32
  ar_Action :: byte
  ar_AuthorizerSetHash :: bytes32
  ar_AuthorizerSetVersion :: "32 word"

record Authorization =
  au_ProtocolID :: bytes32
  au_SourceChainID :: string
  au_SourceCoordinator :: bytes20
  au_DestinationChainID :: string
  au_DestinationCoordinator :: bytes20
  au_Request :: AuthorizationRequest

record RecoveryRequest =
  rq_RecoveryID :: string
  rq_OriginalMessageID :: bytes32
  rq_ImmutableEnvelopeHash :: bytes32
  rq_RecoveryNonce :: "64 word"
  rq_RouteVersion :: "64 word"
  rq_OriginalActionType :: byte
  rq_OriginalActionPayload :: "byte list"
  rq_AssetID :: string
  rq_Units :: string
  rq_CompensationRecipient :: string
  rq_CompensationPayload :: "byte list"
  rq_ReasonCode :: string
  rq_SourceStateCommitment :: bytes32
  rq_DestinationStateCommitment :: bytes32
  rq_AuthorizerPolicyHash :: bytes32
  rq_RoutePolicyHash :: bytes32
  rq_AssetAmountCommitment :: bytes32
  rq_CompensationPayloadHash :: bytes32
  rq_MessageExpiresAt :: "64 word"
  rq_Action :: byte
  rq_AuthorizerSetVersion :: "32 word"
  rq_Authorization :: "Authorization option"
  rq_Approvals :: "Approval list"
  rq_RequestedAt :: gotime

section \<open>ABI words\<close>

definition abiUint256 :: "string \<Rightarrow> recovery_error + byte list" where
  "abiUint256 value =
     (case big_set_string value of
        None \<Rightarrow> Inl ErrInsufficientApproval
      | Some number \<Rightarrow>
          if number \<le> 0 \<or> number \<ge> 2 ^ 256 \<or> big_string number \<noteq> value then Inl ErrInsufficientApproval
          else (case big_fill_bytes 32 number of
                  None \<Rightarrow> Inl ErrInsufficientApproval
                | Some result \<Rightarrow> Inr result))"

definition abiAddress :: "bytes20 \<Rightarrow> byte list" where
  "abiAddress value = replicate 12 0 @ bytes20 value"

definition abiUint64 :: "64 word \<Rightarrow> byte list" where
  "abiUint64 value = replicate 24 0 @ put_uint64 value"

definition keccakBytes :: "RecoveryEnv \<Rightarrow> byte list \<Rightarrow> bytes32" where
  "keccakBytes E value = re_keccak E value"

definition validAuthorizationRequest :: "AuthorizationRequest \<Rightarrow> bool" where
  "validAuthorizationRequest request \<longleftrightarrow>
     ar_MessageID request \<noteq> 0 \<and> ar_EnvelopeHash request \<noteq> 0 \<and> ar_RoutePolicyHash request \<noteq> 0 \<and>
     ar_AssetAmountCommitment request \<noteq> 0 \<and> ar_SourceStateCommitment request \<noteq> 0 \<and>
     ar_DestinationStateCommitment request \<noteq> 0 \<and> ar_CompensationPayloadHash request \<noteq> 0 \<and>
     ar_MessageExpiresAt request \<noteq> 0 \<and> ar_RecoveryNonce request \<noteq> 0 \<and>
     ar_ReasonCode request \<noteq> 0 \<and> ar_Action request = 1 \<and> ar_AuthorizerSetHash request \<noteq> 0 \<and>
     ar_AuthorizerSetVersion request \<noteq> 0"

definition authorizationWords :: "AuthorizationRequest \<Rightarrow> byte list list" where
  "authorizationWords request =
     [bytes32 (ar_MessageID request),
      bytes32 (ar_EnvelopeHash request),
      bytes32 (ar_RoutePolicyHash request),
      bytes32 (ar_AssetAmountCommitment request),
      bytes32 (ar_SourceStateCommitment request),
      bytes32 (ar_DestinationStateCommitment request),
      bytes32 (ar_CompensationPayloadHash request),
      abiUint64 (ar_MessageExpiresAt request),
      abiUint64 (ar_RecoveryNonce request),
      bytes32 (ar_ReasonCode request),
      abiUint64 (ucast (ar_Action request)),
      bytes32 (ar_AuthorizerSetHash request),
      abiUint64 (ucast (ar_AuthorizerSetVersion request))]"

text \<open>The tail that every digest of the package appends: a domain string with its length, padded.\<close>

definition with_domain :: "string \<Rightarrow> byte list \<Rightarrow> byte list" where
  "with_domain domain encoded =
     pad32 (encoded @ abiUint64 (of_nat (length domain)) @ string_bytes domain)"

definition authorization_bytes :: "Authorization \<Rightarrow> byte list \<Rightarrow> byte list \<Rightarrow> byte list" where
  "authorization_bytes authorization sourceChain destinationChain =
     with_domain ''UNIFIED_XCHAIN_RECOVERY_AUTHORIZATION_V2''
       (concat ([abiUint64 (19 * 32),
                 bytes32 (au_ProtocolID authorization),
                 sourceChain,
                 abiAddress (au_SourceCoordinator authorization),
                 destinationChain,
                 abiAddress (au_DestinationCoordinator authorization)] @
                authorizationWords (au_Request authorization)))"

definition DigestAuthorization :: "RecoveryEnv \<Rightarrow> Authorization \<Rightarrow> recovery_error + bytes32" where
  "DigestAuthorization E authorization =
     (case abiUint256 (au_SourceChainID authorization) of
        Inl _ \<Rightarrow> Inl ErrInsufficientApproval
      | Inr sourceChain \<Rightarrow>
          (case abiUint256 (au_DestinationChainID authorization) of
             Inl _ \<Rightarrow> Inl ErrInsufficientApproval
           | Inr destinationChain \<Rightarrow>
               (if au_ProtocolID authorization = 0 \<or> au_SourceCoordinator authorization = 0 \<or>
                   au_DestinationCoordinator authorization = 0 \<or>
                   \<not> validAuthorizationRequest (au_Request authorization)
                then Inl ErrInsufficientApproval
                else Inr (re_keccak E (authorization_bytes authorization sourceChain destinationChain)))))"

definition RecoveryID :: "RecoveryEnv \<Rightarrow> AuthorizationRequest \<Rightarrow> recovery_error + bytes32" where
  "RecoveryID E request =
     (if \<not> validAuthorizationRequest request then Inl ErrInsufficientApproval
      else Inr (keccakBytes E (with_domain ''UNIFIED_XCHAIN_RECOVERY_ID_V1''
                  (concat (abiUint64 (14 * 32) # authorizationWords request)))))"

definition AssetAmountCommitment :: "RecoveryEnv \<Rightarrow> byte \<Rightarrow> bytes32 \<Rightarrow> recovery_error + bytes32" where
  "AssetAmountCommitment E actionType payloadHash =
     (if actionType = 0 \<or> payloadHash = 0 then Inl ErrInsufficientApproval
      else Inr (keccakBytes E (with_domain ''UNIFIED_RECOVERY_ASSET_AMOUNT_COMMITMENT_V1''
                  (concat [abiUint64 (3 * 32), abiUint64 (ucast actionType), bytes32 payloadHash]))))"

definition ReasonCodeCommitment :: "RecoveryEnv \<Rightarrow> string \<Rightarrow> bytes32" where
  "ReasonCodeCommitment E reason = re_keccak E (string_bytes reason)"

section \<open>Economics\<close>

definition canonicalPositiveUint256 :: "string \<Rightarrow> bool" where
  "canonicalPositiveUint256 value =
     (case big_set_string value of
        None \<Rightarrow> False
      | Some number \<Rightarrow> number > 0 \<and> number < 2 ^ 256 \<and> big_string number = value)"

definition EncodeCompensationPayload :: "bytes20 \<Rightarrow> string \<Rightarrow> bytes20 \<Rightarrow> recovery_error + byte list" where
  "EncodeCompensationPayload asset units recipient =
     (if asset = 0 \<or> recipient = 0 \<or> \<not> canonicalPositiveUint256 units then Inl ErrInsufficientApproval
      else case big_set_string units of
             None \<Rightarrow> Inl ErrInsufficientApproval
           | Some number \<Rightarrow>
               (case big_fill_bytes 32 number of
                  None \<Rightarrow> Inl ErrInsufficientApproval
                | Some unitWord \<Rightarrow> Inr (concat [abiAddress asset, unitWord, abiAddress recipient])))"

record recoveryEconomics =
  ec_AssetID :: string
  ec_Units :: string
  ec_Recipient :: string

text \<open>The 160-bit word that 20 bytes denote.\<close>

definition address_of :: "byte list \<Rightarrow> bytes20" where
  "address_of bs = word_of_int (big_set_bytes bs)"

definition decodeABIAddress :: "byte list \<Rightarrow> nat \<Rightarrow> recovery_error + bytes20" where
  "decodeABIAddress payload word =
     (let offset = word * 32
      in if offset + 32 > length payload \<or> take 12 (drop offset payload) \<noteq> replicate 12 0
         then Inl ErrInsufficientApproval
         else let result = address_of (take 20 (drop (offset + 12) payload))
              in if result = 0 then Inl ErrInsufficientApproval else Inr result)"

definition decodeABIUint256 :: "byte list \<Rightarrow> nat \<Rightarrow> recovery_error + string" where
  "decodeABIUint256 payload word =
     (let offset = word * 32
      in if offset + 32 > length payload then Inl ErrInsufficientApproval
         else let number = big_set_bytes (take 32 (drop offset payload))
              in if number \<le> 0 then Inl ErrInsufficientApproval else Inr (big_string number))"

definition canonicalAddress :: "bytes20 \<Rightarrow> string" where
  "canonicalAddress address = ''0x'' @ hex (bytes20 address)"

definition economics_layout :: "byte \<Rightarrow> (nat \<times> nat \<times> nat) option" where
  "economics_layout actionType =
     (if actionType = 1 then Some (2, 6, 7)
      else if actionType = 2 then Some (5, 6, 8)
      else if actionType = 3 then Some (4, 6, 7)
      else if actionType = 4 then Some (1, 3, 5)
      else if actionType = 5 \<or> actionType = 6 \<or> actionType = 7 \<or> actionType = 9 \<or> actionType = 10
      then Some (5, 6, 8)
      else if actionType = 8 then Some (6, 8, 9)
      else if actionType = 15 then Some (4, 5, 6)
      else None)"

definition decodeActionEconomics :: "byte \<Rightarrow> byte list \<Rightarrow> recovery_error + recoveryEconomics" where
  "decodeActionEconomics actionType payload =
     (case economics_layout actionType of
        None \<Rightarrow> Inl ErrInsufficientApproval
      | Some (assetWord, amountWord, expectedWords) \<Rightarrow>
          (if length payload \<noteq> expectedWords * 32 then Inl ErrInsufficientApproval
           else ebind (decodeABIAddress payload assetWord) (\<lambda>asset.
                ebind (decodeABIUint256 payload amountWord) (\<lambda>units.
                Inr \<lparr>ec_AssetID = canonicalAddress asset, ec_Units = units, ec_Recipient = []\<rparr>))))"

definition decodeCompensationPayload :: "byte list \<Rightarrow> recovery_error + recoveryEconomics" where
  "decodeCompensationPayload payload =
     (if length payload \<noteq> 3 * 32 then Inl ErrInsufficientApproval
      else ebind (decodeABIAddress payload 0) (\<lambda>asset.
           ebind (decodeABIUint256 payload 1) (\<lambda>units.
           ebind (decodeABIAddress payload 2) (\<lambda>recipient.
           Inr \<lparr>ec_AssetID = canonicalAddress asset, ec_Units = units,
                ec_Recipient = canonicalAddress recipient\<rparr>))))"

definition validateRecoveryEconomics :: "RecoveryEnv \<Rightarrow> RecoveryRequest \<Rightarrow> recovery_error option" where
  "validateRecoveryEconomics E request =
     (if rq_OriginalActionType request = 0 \<or> length (rq_OriginalActionPayload request) = 0 \<or>
         length (rq_CompensationPayload request) = 0 \<or> rq_Authorization request = None
      then Some ErrInsufficientApproval
      else
        let granted = au_Request (the (rq_Authorization request));
            payloadHash = keccakBytes E (rq_OriginalActionPayload request);
            compensationHash = keccakBytes E (rq_CompensationPayload request)
        in case AssetAmountCommitment E (rq_OriginalActionType request) payloadHash of
             Inl _ \<Rightarrow> Some ErrInsufficientApproval
           | Inr commitment \<Rightarrow>
               (if commitment \<noteq> rq_AssetAmountCommitment request \<or> commitment \<noteq> ar_AssetAmountCommitment granted
                then Some ErrInsufficientApproval
                else case decodeActionEconomics (rq_OriginalActionType request) (rq_OriginalActionPayload request) of
                       Inl _ \<Rightarrow> Some ErrInsufficientApproval
                     | Inr original \<Rightarrow>
                         (case decodeCompensationPayload (rq_CompensationPayload request) of
                            Inl _ \<Rightarrow> Some ErrInsufficientApproval
                          | Inr compensation \<Rightarrow>
                              (if compensationHash \<noteq> rq_CompensationPayloadHash request \<or>
                                  compensationHash \<noteq> ar_CompensationPayloadHash granted \<or>
                                  ec_AssetID original \<noteq> ec_AssetID compensation \<or>
                                  ec_Units original \<noteq> ec_Units compensation \<or>
                                  rq_AssetID request \<noteq> ec_AssetID original \<or>
                                  rq_Units request \<noteq> ec_Units original \<or>
                                  rq_CompensationRecipient request \<noteq> ec_Recipient compensation
                               then Some ErrInsufficientApproval else None))))"

section \<open>Authorizer\<close>

definition compare_swap :: "nat \<Rightarrow> nat \<Rightarrow> bytes20 list \<Rightarrow> bytes20 list" where
  "compare_swap left right signers =
     (if signers ! left > signers ! right
      then signers[left := signers ! right, right := signers ! left] else signers)"

definition AuthorizerSetHash ::
  "RecoveryEnv \<Rightarrow> 32 word \<Rightarrow> bytes20 \<times> bytes20 \<times> bytes20 \<Rightarrow> recovery_error + bytes32" where
  "AuthorizerSetHash E version = (\<lambda>(a, b, c).
     if version = 0 \<or> a = 0 \<or> b = 0 \<or> c = 0 then Inl ErrInsufficientApproval
     else
       let signers = compare_swap 1 2 (compare_swap 0 2 (compare_swap 0 1 [a, b, c]))
       in if signers ! 0 = signers ! 1 \<or> signers ! 1 = signers ! 2 then Inl ErrInsufficientApproval
          else Inr (keccakBytes E (with_domain ''UNIFIED_XCHAIN_RECOVERY_AUTHORIZER_SET_V1''
                 (concat ([abiUint64 (6 * 32), abiUint64 (ucast version), abiUint64 2] @ map abiAddress signers)))))"

record Secp256k1Policy =
  sp_PolicyHash :: bytes32
  sp_Signers :: "(string, bytes20) gomap"

type_synonym Secp256k1Authorizer = "(bytes32, Secp256k1Policy) gomap"

fun check_signers :: "bytes20 list \<Rightarrow> (string, bytes20) gomap \<Rightarrow> (string, bytes20) gomap \<Rightarrow> recovery_error + (string, bytes20) gomap" where
  "check_signers seen [] copied = Inr copied"
| "check_signers seen ((signerID, address) # rest) copied =
     (if signerID = [] \<or> address = 0 then Inl (InvalidPolicy ''invalid recovery signer'')
      else if address \<in> set seen then Inl (InvalidPolicy ''duplicate recovery signer address'')
      else check_signers (address # seen) rest (mput signerID address copied))"

fun add_policies :: "Secp256k1Policy list \<Rightarrow> Secp256k1Authorizer \<Rightarrow> recovery_error + Secp256k1Authorizer" where
  "add_policies [] result = Inr result"
| "add_policies (policy # rest) result =
     (if sp_PolicyHash policy = 0 \<or> length (sp_Signers policy) \<noteq> 3
      then Inl (InvalidPolicy ''recovery policy must be 2-of-3 secp256k1'')
      else ebind (check_signers [] (sp_Signers policy) []) (\<lambda>copied.
        if mhas result (sp_PolicyHash policy) then Inl (InvalidPolicy ''duplicate recovery policy'')
        else add_policies rest (mput (sp_PolicyHash policy)
               \<lparr>sp_PolicyHash = sp_PolicyHash policy, sp_Signers = copied\<rparr> result)))"

definition NewSecp256k1Authorizer :: "Secp256k1Policy list \<Rightarrow> recovery_error + Secp256k1Authorizer" where
  "NewSecp256k1Authorizer policies = add_policies policies []"

definition VerifyEthereumSignature :: "RecoveryEnv \<Rightarrow> bytes32 \<Rightarrow> byte list \<Rightarrow> recovery_error + bytes20" where
  "VerifyEthereumSignature E digest signature =
     (if length signature \<noteq> 65 then Inl ErrInsufficientApproval
      else
        let r = take 32 signature; s = take 32 (drop 32 signature)
        in if \<not> re_scalar E r \<or> \<not> re_scalar E s \<or> \<not> re_low_order E s then Inl ErrInsufficientApproval
           else
             let v = signature ! 64;
                 recoveryID = (if v = 27 \<or> v = 28 then v - 27 else v)
             in if recoveryID > 1 then Inl ErrInsufficientApproval
                else case re_recover E ((27 + recoveryID) # r @ s) digest of
                       None \<Rightarrow> Inl ErrInsufficientApproval
                     | Some serialized \<Rightarrow>
                         Inr (address_of (drop 12 (bytes32 (re_keccak E (drop 1 serialized))))))"

fun check_approvals ::
  "RecoveryEnv \<Rightarrow> (string, bytes20) gomap \<Rightarrow> bytes32 \<Rightarrow> string list \<Rightarrow> nat \<Rightarrow> Approval list \<Rightarrow> nat option" where
  "check_approvals E signers digest seen valid [] = Some valid"
| "check_approvals E signers digest seen valid (approval # rest) =
     (case mget signers (ap_SignerID approval) of
        None \<Rightarrow> None
      | Some expected \<Rightarrow>
          (if ap_SignerID approval \<in> set seen then None
           else if VerifyEthereumSignature E digest (ap_Signature approval) \<noteq> Inr expected then None
           else check_approvals E signers digest (ap_SignerID approval # seen) (valid + 1) rest))"

text \<open>The authorization names the same recovery as the request it is attached to.\<close>

definition authorization_matches :: "RecoveryEnv \<Rightarrow> RecoveryRequest \<Rightarrow> AuthorizationRequest \<Rightarrow> bool" where
  "authorization_matches E request granted \<longleftrightarrow> \<not>
     (ar_MessageID granted \<noteq> rq_OriginalMessageID request \<or>
      ar_EnvelopeHash granted \<noteq> rq_ImmutableEnvelopeHash request \<or>
      ar_RecoveryNonce granted \<noteq> rq_RecoveryNonce request \<or>
      ar_RoutePolicyHash granted \<noteq> rq_RoutePolicyHash request \<or>
      ar_AssetAmountCommitment granted \<noteq> rq_AssetAmountCommitment request \<or>
      ar_SourceStateCommitment granted \<noteq> rq_SourceStateCommitment request \<or>
      ar_DestinationStateCommitment granted \<noteq> rq_DestinationStateCommitment request \<or>
      ar_CompensationPayloadHash granted \<noteq> rq_CompensationPayloadHash request \<or>
      ar_MessageExpiresAt granted \<noteq> rq_MessageExpiresAt request \<or>
      ar_ReasonCode granted \<noteq> ReasonCodeCommitment E (rq_ReasonCode request) \<or>
      ar_Action granted \<noteq> rq_Action request \<or>
      ar_AuthorizerSetHash granted \<noteq> rq_AuthorizerPolicyHash request \<or>
      ar_AuthorizerSetVersion granted \<noteq> rq_AuthorizerSetVersion request)"

definition Verify :: "RecoveryEnv \<Rightarrow> Secp256k1Authorizer \<Rightarrow> RecoveryRequest \<Rightarrow> recovery_error option" where
  "Verify E policies request =
     (case mget policies (rq_AuthorizerPolicyHash request) of
        None \<Rightarrow> Some ErrInsufficientApproval
      | Some policy \<Rightarrow>
          (case rq_Authorization request of
             None \<Rightarrow> Some ErrInsufficientApproval
           | Some authorization \<Rightarrow>
               (if length (rq_Approvals request) < 2 \<or> \<not> authorization_matches E request (au_Request authorization)
                then Some ErrInsufficientApproval
                else if validateRecoveryEconomics E request \<noteq> None then Some ErrInsufficientApproval
                else case RecoveryID E (au_Request authorization) of
                       Inl _ \<Rightarrow> Some ErrInsufficientApproval
                     | Inr recoveryID \<Rightarrow>
                         (if rq_RecoveryID request \<noteq> hex (bytes32 recoveryID) then Some ErrInsufficientApproval
                          else case DigestAuthorization E authorization of
                                 Inl _ \<Rightarrow> Some ErrInsufficientApproval
                               | Inr digest \<Rightarrow>
                                   (case check_approvals E (sp_Signers policy) digest [] 0 (rq_Approvals request) of
                                      None \<Rightarrow> Some ErrInsufficientApproval
                                    | Some valid \<Rightarrow> if valid < 2 then Some ErrInsufficientApproval else None)))))"

end
