(* ===== verification/Recovery_Manager.thy ===== *)
theory Recovery_Manager
  imports Recovery
begin

text \<open>
  The second half of \<^verbatim>\<open>cross-chain-coordinator/recovery/recovery.go\<close>: the \<open>Manager\<close>, which takes a recovery
  from the authorized request over the finalized tombstone and the compensation to the acknowledged
  recovery. The authorizer is a function argument, the destination a record of functions on its
  world; the mutex makes each method one step.
\<close>

section \<open>State\<close>

record Tombstone =
  to_OriginalMessageID :: bytes32
  to_Hash :: bytes32
  to_FinalityProofHash :: bytes32
  to_FinalizedAt :: gotime

record Compensation =
  co_OriginalMessageID :: bytes32
  co_TombstoneHash :: bytes32
  co_Payload :: "byte list"
  co_ResultHash :: bytes32
  co_AssetID :: string
  co_Recipient :: string
  co_Units :: string
  co_CompensatedAt :: gotime

record RecoveryRecord =
  rr_Request :: RecoveryRequest
  rr_State :: RecoveryState
  rr_Tombstone :: "Tombstone option"
  rr_Compensation :: "Compensation option"
  rr_RecoveryAck :: bytes32
  rr_SupersededBy :: bytes32

record 'w Destination =
  ds_ExecutionResult :: "'w \<Rightarrow> bytes32 \<Rightarrow> bytes32 \<times> bool"
  ds_CreateTombstone :: "RecoveryRequest \<Rightarrow> 'w \<Rightarrow> (recovery_error + Tombstone) \<times> 'w"

type_synonym Authorizer = "RecoveryRequest \<Rightarrow> recovery_error option"

record Manager =
  mn_authorizer :: Authorizer
  mn_records :: "(bytes32, RecoveryRecord) gomap"

definition NewManager :: "Authorizer option \<Rightarrow> recovery_error + Manager" where
  "NewManager authorizer =
     (case authorizer of
        None \<Rightarrow> Inl NilAuthorizer
      | Some a \<Rightarrow> Inr \<lparr>mn_authorizer = a, mn_records = []\<rparr>)"

section \<open>Comparisons\<close>

definition canonicalApprovals :: "Approval list \<Rightarrow> Approval list" where
  "canonicalApprovals source = sort_key ap_SignerID source"

definition sameAuthorization :: "Authorization option \<Rightarrow> Authorization option \<Rightarrow> bool" where
  "sameAuthorization left right =
     (if left = None \<or> right = None then left = None \<and> right = None else the left = the right)"

definition sameApprovals :: "Approval list \<Rightarrow> Approval list \<Rightarrow> bool" where
  "sameApprovals left right =
     (if length left \<noteq> length right then False
      else list_all2 (\<lambda>a b. ap_SignerID a = ap_SignerID b \<and> ap_Signature a = ap_Signature b) left right)"

definition sameRequest :: "RecoveryRequest \<Rightarrow> RecoveryRequest \<Rightarrow> bool" where
  "sameRequest left right \<longleftrightarrow>
     rq_RecoveryID left = rq_RecoveryID right \<and>
     rq_OriginalMessageID left = rq_OriginalMessageID right \<and>
     rq_ImmutableEnvelopeHash left = rq_ImmutableEnvelopeHash right \<and>
     rq_RecoveryNonce left = rq_RecoveryNonce right \<and>
     rq_RouteVersion left = rq_RouteVersion right \<and>
     rq_OriginalActionType left = rq_OriginalActionType right \<and>
     rq_OriginalActionPayload left = rq_OriginalActionPayload right \<and>
     rq_AssetID left = rq_AssetID right \<and>
     rq_Units left = rq_Units right \<and>
     rq_CompensationRecipient left = rq_CompensationRecipient right \<and>
     rq_CompensationPayload left = rq_CompensationPayload right \<and>
     rq_ReasonCode left = rq_ReasonCode right \<and>
     rq_SourceStateCommitment left = rq_SourceStateCommitment right \<and>
     rq_DestinationStateCommitment left = rq_DestinationStateCommitment right \<and>
     rq_RoutePolicyHash left = rq_RoutePolicyHash right \<and>
     rq_AssetAmountCommitment left = rq_AssetAmountCommitment right \<and>
     rq_CompensationPayloadHash left = rq_CompensationPayloadHash right \<and>
     rq_MessageExpiresAt left = rq_MessageExpiresAt right \<and>
     rq_Action left = rq_Action right \<and>
     rq_AuthorizerSetVersion left = rq_AuthorizerSetVersion right \<and>
     rq_AuthorizerPolicyHash left = rq_AuthorizerPolicyHash right \<and>
     sameAuthorization (rq_Authorization left) (rq_Authorization right) \<and>
     rq_RequestedAt left = rq_RequestedAt right \<and>
     sameApprovals (rq_Approvals left) (rq_Approvals right)"

definition sameCompensation :: "Compensation \<Rightarrow> Compensation \<Rightarrow> bool" where
  "sameCompensation left right \<longleftrightarrow>
     co_OriginalMessageID left = co_OriginalMessageID right \<and>
     co_TombstoneHash left = co_TombstoneHash right \<and>
     co_Payload left = co_Payload right \<and>
     co_ResultHash left = co_ResultHash right \<and>
     co_AssetID left = co_AssetID right \<and>
     co_Recipient left = co_Recipient right \<and>
     co_Units left = co_Units right \<and>
     co_CompensatedAt left = co_CompensatedAt right"

section \<open>Operations\<close>

definition put_record :: "bytes32 \<Rightarrow> RecoveryRecord \<Rightarrow> Manager \<Rightarrow> Manager" where
  "put_record i record manager = manager\<lparr>mn_records := mput i record (mn_records manager)\<rparr>"

definition manager_Request ::
  "RecoveryEnv \<Rightarrow> RecoveryRequest \<Rightarrow> Manager \<Rightarrow> (recovery_error + RecoveryRecord) \<times> Manager" where
  "manager_Request E request manager =
     (if rq_RecoveryID request = [] \<or> rq_RecoveryNonce request = 0 \<or> rq_RouteVersion request = 0 \<or>
         rq_AssetID request = [] \<or> \<not> canonicalPositiveUint256 (rq_Units request) \<or>
         rq_CompensationRecipient request = [] \<or> rq_ReasonCode request = [] \<or>
         rq_RequestedAt request = 0 \<or> rq_AuthorizerPolicyHash request = 0
      then (Inl ErrInsufficientApproval, manager)
      else if validateRecoveryEconomics E request \<noteq> None then (Inl ErrInsufficientApproval, manager)
      else if mn_authorizer manager request \<noteq> None then (Inl ErrInsufficientApproval, manager)
      else
        let request1 = request\<lparr>rq_Approvals := canonicalApprovals (rq_Approvals request)\<rparr>
        in case mget (mn_records manager) (rq_OriginalMessageID request1) of
             Some existing \<Rightarrow>
               (if \<not> sameRequest (rr_Request existing) request1 then (Inl ErrRecoveryConflict, manager)
                else (Inr existing, manager))
           | None \<Rightarrow>
               (let record = \<lparr>rr_Request = request1, rr_State = Requested, rr_Tombstone = None,
                              rr_Compensation = None, rr_RecoveryAck = 0, rr_SupersededBy = 0\<rparr>
                in (Inr record, put_record (rq_OriginalMessageID request1) record manager)))"

definition manager_Tombstone ::
  "bytes32 \<Rightarrow> 'w Destination option \<Rightarrow> Manager \<times> 'w \<Rightarrow> (recovery_error + RecoveryRecord) \<times> Manager \<times> 'w" where
  "manager_Tombstone messageID destination = (\<lambda>(manager, w).
     case destination of
       None \<Rightarrow> (Inl NilDestination, manager, w)
     | Some d \<Rightarrow>
         (case mget (mn_records manager) messageID of
            None \<Rightarrow> (Inl ErrRecoveryConflict, manager, w)
          | Some record \<Rightarrow>
              (if snd (ds_ExecutionResult d w messageID) then (Inl ErrExecuted, manager, w)
               else if rr_Tombstone record \<noteq> None then (Inr record, manager, w)
               else case ds_CreateTombstone d (rr_Request record) w of
                      (Inl err, w1) \<Rightarrow> (Inl err, manager, w1)
                    | (Inr tombstone, w1) \<Rightarrow>
                        (if to_OriginalMessageID tombstone \<noteq> messageID \<or> to_FinalizedAt tombstone = 0 \<or>
                            to_Hash tombstone = 0 \<or> to_FinalityProofHash tombstone = 0
                         then (Inl ErrRecoveryConflict, manager, w1)
                         else
                           let record1 = record\<lparr>rr_State := DestinationTombstoned, rr_Tombstone := Some tombstone\<rparr>
                           in (Inr record1, put_record messageID record1 manager, w1)))))"

definition manager_Compensate ::
  "RecoveryEnv \<Rightarrow> Compensation \<Rightarrow> Manager \<Rightarrow> (recovery_error + RecoveryRecord) \<times> Manager" where
  "manager_Compensate E compensation manager =
     (case mget (mn_records manager) (co_OriginalMessageID compensation) of
        None \<Rightarrow> (Inl ErrNotTombstoned, manager)
      | Some record \<Rightarrow>
          (case rr_Tombstone record of
             None \<Rightarrow> (Inl ErrNotTombstoned, manager)
           | Some tombstone \<Rightarrow>
               (case rr_Compensation record of
                  Some recorded \<Rightarrow>
                    (if \<not> sameCompensation recorded compensation then (Inl ErrAlreadyCompensated, manager)
                     else (Inr record, manager))
                | None \<Rightarrow>
                    (if co_TombstoneHash compensation \<noteq> to_Hash tombstone \<or>
                        co_Payload compensation \<noteq> rq_CompensationPayload (rr_Request record) \<or>
                        keccakBytes E (co_Payload compensation) \<noteq> rq_CompensationPayloadHash (rr_Request record) \<or>
                        co_ResultHash compensation = 0 \<or> co_Recipient compensation = [] \<or>
                        co_AssetID compensation \<noteq> rq_AssetID (rr_Request record) \<or>
                        co_Recipient compensation \<noteq> rq_CompensationRecipient (rr_Request record) \<or>
                        co_Units compensation \<noteq> rq_Units (rr_Request record) \<or>
                        co_CompensatedAt compensation = 0
                     then (Inl ErrRecoveryConflict, manager)
                     else
                       let record1 = record\<lparr>rr_State := SourceCompensated, rr_Compensation := Some compensation\<rparr>
                       in (Inr record1, put_record (co_OriginalMessageID compensation) record1 manager)))))"

definition manager_Finalize ::
  "bytes32 \<Rightarrow> bytes32 \<Rightarrow> Manager \<Rightarrow> (recovery_error + RecoveryRecord) \<times> Manager" where
  "manager_Finalize messageID acknowledgementHash manager =
     (if acknowledgementHash = 0 then (Inl ErrRecoveryConflict, manager)
      else case mget (mn_records manager) messageID of
             None \<Rightarrow> (Inl ErrRecoveryConflict, manager)
           | Some record \<Rightarrow>
               (if rr_State record = Recovered \<and> rr_RecoveryAck record = acknowledgementHash
                then (Inr record, manager)
                else if rr_State record \<noteq> SourceCompensated \<or> rr_Compensation record = None
                then (Inl ErrRecoveryConflict, manager)
                else
                  let record1 = record\<lparr>rr_State := Recovered, rr_RecoveryAck := acknowledgementHash\<rparr>
                  in (Inr record1, put_record messageID record1 manager)))"

definition AuthorizeReplacement :: "bytes32 \<Rightarrow> bytes32 \<Rightarrow> Manager \<Rightarrow> recovery_error option \<times> Manager" where
  "AuthorizeReplacement original replacement manager =
     (case mget (mn_records manager) original of
        None \<Rightarrow> (Some ErrNotTombstoned, manager)
      | Some record \<Rightarrow>
          (if rr_State record \<noteq> Recovered \<or> rr_Tombstone record = None \<or> rr_Compensation record = None
           then (Some ErrNotTombstoned, manager)
           else if replacement = 0 \<or> replacement = original then (Some ErrRecoveryConflict, manager)
           else if rr_SupersededBy record \<noteq> 0 \<and> rr_SupersededBy record \<noteq> replacement
           then (Some ErrRecoveryConflict, manager)
           else (None, put_record original (record\<lparr>rr_SupersededBy := replacement\<rparr>) manager)))"

definition manager_Record :: "Manager \<Rightarrow> bytes32 \<Rightarrow> RecoveryRecord option" where
  "manager_Record manager messageID = mget (mn_records manager) messageID"

section \<open>Request digest\<close>

text \<open>A field with its length as 8 bytes; \<open>unix_seconds\<close> is \<^verbatim>\<open>uint64(RequestedAt.Unix())\<close>.\<close>

definition append_field :: "byte list \<Rightarrow> byte list" where
  "append_field value = put_uint64 (of_nat (length value)) @ value"

definition unix_seconds :: "gotime \<Rightarrow> 64 word" where
  "unix_seconds t = word_of_int (t div 1000000000 - 62135596800)"

definition request_fields :: "RecoveryRequest \<Rightarrow> byte list list" where
  "request_fields request =
     [string_bytes ''UNIFIED_XCHAIN_RECOVERY_V1'',
      string_bytes (rq_RecoveryID request),
      bytes32 (rq_OriginalMessageID request),
      bytes32 (rq_ImmutableEnvelopeHash request),
      put_uint64 (rq_RecoveryNonce request),
      put_uint64 (rq_RouteVersion request),
      [rq_OriginalActionType request],
      rq_OriginalActionPayload request,
      string_bytes (rq_AssetID request),
      string_bytes (rq_Units request),
      string_bytes (rq_CompensationRecipient request),
      rq_CompensationPayload request,
      string_bytes (rq_ReasonCode request),
      bytes32 (rq_SourceStateCommitment request),
      bytes32 (rq_DestinationStateCommitment request),
      bytes32 (rq_RoutePolicyHash request),
      bytes32 (rq_AssetAmountCommitment request),
      bytes32 (rq_CompensationPayloadHash request),
      bytes32 (rq_AuthorizerPolicyHash request),
      put_uint64 (rq_MessageExpiresAt request),
      [rq_Action request],
      be_bytes 4 (uint (rq_AuthorizerSetVersion request)),
      put_uint64 (unix_seconds (rq_RequestedAt request))]"

definition DigestRequest :: "RecoveryEnv \<Rightarrow> RecoveryRequest \<Rightarrow> bytes32" where
  "DigestRequest E request = re_keccak E (concat (map append_field (request_fields request)))"

end
