(* ===== verification/Recovery_Economics.thy ===== *)
theory Recovery_Economics
  imports Recovery
begin

text \<open>
  Reading the words of a payload back: an address and an amount that were written as ABI words are
  decoded as themselves, so that the compensation payload round-trips and the economics of an action
  can be read at the positions of the layout table.
\<close>

lemma uint_bytes [simp]: "length (bytes32 w) = 32" "length (bytes20 a) = 20"
  by (simp_all add: bytes32_def bytes20_def)

lemma recovery_word_sized [simp]:
  "word_sized (bytes32 w)" "word_sized (abiAddress a)" "word_sized (abiUint64 v)" "word_sized (be_bytes 32 n)"
  by (simp_all add: word_sized_def abiAddress_def abiUint64_def)

lemma bytes32_inject [simp]: "bytes32 v = bytes32 w \<longleftrightarrow> v = w"
proof
  assume "bytes32 v = bytes32 w"
  then have "uint v = uint w"
    using uint_lt2p[of v] uint_lt2p[of w] by (intro be_bytes_inject[of 32]) (auto simp: bytes32_def)
  then show "v = w" by (simp add: word_uint_eq_iff)
qed simp

lemma bytes20_inject [simp]: "bytes20 v = bytes20 w \<longleftrightarrow> v = w"
proof
  assume "bytes20 v = bytes20 w"
  then have "uint v = uint w"
    using uint_lt2p[of v] uint_lt2p[of w] by (intro be_bytes_inject[of 20]) (auto simp: bytes20_def)
  then show "v = w" by (simp add: word_uint_eq_iff)
qed simp

lemma address_of_bytes20 [simp]: "address_of (bytes20 a) = a"
  using uint_lt2p[of a] by (simp add: address_of_def big_set_bytes_def bytes20_def be_val_be_bytes)

lemma decodeABIAddress_word:
  assumes "list_all word_sized ws" "i < length ws" "ws ! i = abiAddress a" "a \<noteq> 0"
  shows "decodeABIAddress (concat ws) i = Inr a"
proof -
  have w: "take 32 (drop (32 * i) (concat ws)) = abiAddress a"
    using abi_word_concat[OF assms(1,2)] assms(3) by (simp add: abi_word_def)
  have "take 12 (drop (i * 32) (concat ws)) = replicate 12 0"
    using arg_cong[OF w, of "take 12"] by (simp add: abiAddress_def mult.commute)
  moreover have "take 20 (drop (i * 32 + 12) (concat ws)) = bytes20 a"
    using arg_cong[OF w, of "drop 12"] by (simp add: abiAddress_def mult.commute drop_take add.commute)
  moreover have "\<not> length (concat ws) < i * 32 + 32"
    using assms(1,2) by (simp add: length_words)
  ultimately show ?thesis using assms(4) by (simp add: decodeABIAddress_def)
qed

lemma decodeABIUint256_word:
  assumes "list_all word_sized ws" "i < length ws" "ws ! i = be_bytes 32 n" "0 < n" "n < 2 ^ 256"
  shows "decodeABIUint256 (concat ws) i = Inr (big_string n)"
proof -
  have "take 32 (drop (i * 32) (concat ws)) = be_bytes 32 n"
    using abi_word_concat[OF assms(1,2)] assms(3) by (simp add: abi_word_def mult.commute)
  moreover have "\<not> length (concat ws) < i * 32 + 32"
    using assms(1,2) by (simp add: length_words)
  ultimately show ?thesis
    using assms(4,5) by (simp add: decodeABIUint256_def big_set_bytes_def be_val_be_bytes)
qed

lemma canonicalPositiveUint256_iff: "canonicalPositiveUint256 s \<longleftrightarrow> (\<exists>n. s = big_string n \<and> 0 < n \<and> n < 2 ^ 256)"
  by (auto simp: canonicalPositiveUint256_def split: option.splits)

lemma EncodeCompensationPayload_Inr:
  "EncodeCompensationPayload asset units recipient = Inr p \<longleftrightarrow>
     asset \<noteq> 0 \<and> recipient \<noteq> 0 \<and>
     (\<exists>n. units = big_string n \<and> 0 < n \<and> n < 2 ^ 256 \<and>
        p = concat [abiAddress asset, be_bytes 32 n, abiAddress recipient])"
proof -
  have "n < 256 ^ 32 \<longleftrightarrow> n < 2 ^ 256" for n :: int by simp
  then show ?thesis
    by (auto simp: EncodeCompensationPayload_def canonicalPositiveUint256_iff big_fill_bytes_def
        split: option.splits if_splits)
qed

lemma compensation_payload_roundtrip:
  assumes "EncodeCompensationPayload asset units recipient = Inr p"
  shows "decodeCompensationPayload p = Inr \<lparr>ec_AssetID = canonicalAddress asset, ec_Units = units,
    ec_Recipient = canonicalAddress recipient\<rparr>"
proof -
  from assms obtain n where n: "units = big_string n" "0 < n" "n < 2 ^ 256" "asset \<noteq> 0" "recipient \<noteq> 0"
    and p: "p = concat [abiAddress asset, be_bytes 32 n, abiAddress recipient]"
    by (auto simp: EncodeCompensationPayload_Inr)
  let ?ws = "[abiAddress asset, be_bytes 32 n, abiAddress recipient]"
  have sized: "list_all word_sized ?ws" by simp
  have "decodeABIAddress p 0 = Inr asset" "decodeABIUint256 p 1 = Inr units" "decodeABIAddress p 2 = Inr recipient"
    unfolding p n(1) by (intro decodeABIAddress_word[OF sized] decodeABIUint256_word[OF sized]; use n in simp)+
  moreover have "length p = 3 * 32" unfolding p using length_words[OF sized] by simp
  ultimately show ?thesis by (simp add: decodeCompensationPayload_def)
qed

text \<open>The economics of a payload whose words are known.\<close>

lemma decodeActionEconomics_words:
  assumes "economics_layout t = Some (x, y, n)" "list_all word_sized ws" "length ws = n" "x < n" "y < n"
    and "ws ! x = abiAddress a" "a \<noteq> 0" "ws ! y = be_bytes 32 k" "0 < k" "k < 2 ^ 256"
  shows "decodeActionEconomics t (concat ws) =
    Inr \<lparr>ec_AssetID = canonicalAddress a, ec_Units = big_string k, ec_Recipient = []\<rparr>"
  using assms decodeABIAddress_word[of ws x a] decodeABIUint256_word[of ws y k]
  by (simp add: decodeActionEconomics_def length_words)

end
