(* ===== verification/Recovery_Safety.thy ===== *)
theory Recovery_Safety
  imports Recovery_Manager Recovery_Economics "HOL-Library.Multiset"
begin

text \<open>
  What a recovery guarantees: an accepted request is approved by two different keys of its policy over
  a digest of the very terms of the request, the compensation has the asset and the amount of the
  original action, the stages happen in order, and a recorded tombstone or compensation is final.
\<close>

section \<open>Approvals\<close>

definition approved_by :: "RecoveryEnv \<Rightarrow> (string, bytes20) gomap \<Rightarrow> bytes32 \<Rightarrow> Approval \<Rightarrow> bool" where
  "approved_by E signers digest a \<longleftrightarrow>
     (\<exists>addr. mget signers (ap_SignerID a) = Some addr \<and> VerifyEthereumSignature E digest (ap_Signature a) = Inr addr)"

lemma check_approvals_sound:
  assumes "check_approvals E signers digest seen n as = Some m"
  shows "m = n + length as \<and> list_all (approved_by E signers digest) as \<and>
    distinct (map ap_SignerID as) \<and> set (map ap_SignerID as) \<inter> set seen = {}"
  using assms
proof (induction E signers digest seen n as rule: check_approvals.induct)
  case (2 E signers digest seen n a as)
  then show ?case by (auto simp: approved_by_def split: option.splits if_splits)
qed simp

definition signers_ok :: "(string, bytes20) gomap \<Rightarrow> bool" where
  "signers_ok signers \<longleftrightarrow> (\<forall>i j addr. mget signers i = Some addr \<longrightarrow> mget signers j = Some addr \<longrightarrow> i = j)"

lemma signers_ok_mput:
  "signers_ok m \<Longrightarrow> \<forall>i. mget m i \<noteq> Some addr \<Longrightarrow> signers_ok (mput i addr m)"
  by (auto simp: signers_ok_def)

lemma check_signers_sound:
  assumes "check_signers seen ss copied = Inr m" "signers_ok copied" "\<forall>i addr. mget copied i = Some addr \<longrightarrow> addr \<in> set seen"
  shows "signers_ok m"
  using assms
proof (induction seen ss copied rule: check_signers.induct)
  case (2 seen i addr rest copied)
  from "2.prems"(1) have new: "\<not> (i = [] \<or> addr = 0)" "addr \<notin> set seen"
    and rest: "check_signers (addr # seen) rest (mput i addr copied) = Inr m"
    by (auto split: if_splits)
  have "signers_ok (mput i addr copied)"
    using "2.prems"(2,3) new(2) by (intro signers_ok_mput) auto
  with "2.IH"[OF new rest] "2.prems"(3) show ?case by simp
qed simp

definition authorizer_ok :: "Secp256k1Authorizer \<Rightarrow> bool" where
  "authorizer_ok ps \<longleftrightarrow> (\<forall>h p. mget ps h = Some p \<longrightarrow> signers_ok (sp_Signers p))"

lemma add_policies_ok: "add_policies ps m = Inr m' \<Longrightarrow> authorizer_ok m \<Longrightarrow> authorizer_ok m'"
proof (induction ps m rule: add_policies.induct)
  case (2 p ps m)
  then obtain copied where c: "check_signers [] (sp_Signers p) [] = Inr copied"
    and new: "\<not> (sp_PolicyHash p = 0 \<or> length (sp_Signers p) \<noteq> 3)" "\<not> mhas m (sp_PolicyHash p)"
    and rest: "add_policies ps (mput (sp_PolicyHash p)
      \<lparr>sp_PolicyHash = sp_PolicyHash p, sp_Signers = copied\<rparr> m) = Inr m'"
    by (auto split: if_splits)
  have "signers_ok copied" using check_signers_sound[OF c] by (simp add: signers_ok_def)
  with "2.prems"(2) have "authorizer_ok (mput (sp_PolicyHash p)
      \<lparr>sp_PolicyHash = sp_PolicyHash p, sp_Signers = copied\<rparr> m)" by (simp add: authorizer_ok_def)
  with "2.IH"[OF new(1) c new(2) rest] show ?case .
qed simp

text \<open>The authority of a request: what its approvers signed, and that they are different keys.\<close>

definition authorized :: "RecoveryEnv \<Rightarrow> Secp256k1Authorizer \<Rightarrow> RecoveryRequest \<Rightarrow> bool" where
  "authorized E ps q \<longleftrightarrow>
     (\<exists>policy a digest.
        mget ps (rq_AuthorizerPolicyHash q) = Some policy \<and> rq_Authorization q = Some a \<and>
        authorization_matches E q (au_Request a) \<and> DigestAuthorization E a = Inr digest \<and>
        2 \<le> length (rq_Approvals q) \<and>
        list_all (approved_by E (sp_Signers policy) digest) (rq_Approvals q) \<and>
        distinct (map (\<lambda>p. mget (sp_Signers policy) (ap_SignerID p)) (rq_Approvals q)))"

lemma distinct_addresses:
  assumes "signers_ok m" "distinct (map ap_SignerID as)" "list_all (approved_by E m digest) as"
  shows "distinct (map (\<lambda>p. mget m (ap_SignerID p)) as)"
  using assms
proof (induction as)
  case (Cons a as)
  then obtain addr where addr: "mget m (ap_SignerID a) = Some addr" by (auto simp: approved_by_def)
  have "mget m (ap_SignerID b) \<noteq> Some addr" if "b \<in> set as" for b
  proof
    assume "mget m (ap_SignerID b) = Some addr"
    with addr Cons.prems(1) have "ap_SignerID b = ap_SignerID a" unfolding signers_ok_def by blast
    with that Cons.prems(2) show False by (metis distinct.simps(2) image_eqI list.set_map list.simps(9))
  qed
  then have "mget m (ap_SignerID a) \<notin> (\<lambda>p. mget m (ap_SignerID p)) ` set as"
    unfolding addr by (metis (no_types, lifting) imageE)
  moreover have "distinct (map (\<lambda>p. mget m (ap_SignerID p)) as)" using Cons by simp
  ultimately show ?case by simp
qed simp

lemma Verify_sound:
  assumes "Verify E ps q = None" "authorizer_ok ps"
  shows "authorized E ps q"
proof -
  from assms(1) obtain policy a digest n where
    p: "mget ps (rq_AuthorizerPolicyHash q) = Some policy" "rq_Authorization q = Some a"
      "authorization_matches E q (au_Request a)" "DigestAuthorization E a = Inr digest"
      "check_approvals E (sp_Signers policy) digest [] 0 (rq_Approvals q) = Some n" "\<not> n < 2"
    by (auto simp: Verify_def split: option.splits sum.splits if_splits)
  from check_approvals_sound[OF p(5)] p(6) have "2 \<le> length (rq_Approvals q)"
    "list_all (approved_by E (sp_Signers policy) digest) (rq_Approvals q)"
    "distinct (map ap_SignerID (rq_Approvals q))" by simp_all
  moreover from assms(2) p(1) have "signers_ok (sp_Signers policy)" by (auto simp: authorizer_ok_def)
  ultimately show ?thesis
    unfolding authorized_def using p(1-4) distinct_addresses by blast
qed

lemma authorized_canonical:
  assumes "authorized E ps q"
  shows "authorized E ps (q\<lparr>rq_Approvals := canonicalApprovals (rq_Approvals q)\<rparr>)"
proof -
  let ?as = "rq_Approvals q"
  have m: "mset (canonicalApprovals ?as) = mset ?as" by (simp add: canonicalApprovals_def)
  then have "set (canonicalApprovals ?as) = set ?as" by (metis set_mset_mset)
  moreover have "length (canonicalApprovals ?as) = length ?as" by (simp add: canonicalApprovals_def)
  moreover have "distinct (map f (canonicalApprovals ?as)) = distinct (map f ?as)" for f :: "Approval \<Rightarrow> bytes20 option"
    by (metis m mset_map mset_eq_imp_distinct_iff)
  ultimately show ?thesis
    using assms by (auto simp: authorized_def list_all_iff authorization_matches_def)
qed

section \<open>Economics\<close>

text \<open>The request pays back the asset and the amount of the action it undoes.\<close>

definition same_value :: "RecoveryEnv \<Rightarrow> RecoveryRequest \<Rightarrow> bool" where
  "same_value E q \<longleftrightarrow>
     (\<exists>original compensation.
        decodeActionEconomics (rq_OriginalActionType q) (rq_OriginalActionPayload q) = Inr original \<and>
        decodeCompensationPayload (rq_CompensationPayload q) = Inr compensation \<and>
        ec_AssetID compensation = ec_AssetID original \<and> ec_Units compensation = ec_Units original \<and>
        rq_AssetID q = ec_AssetID original \<and> rq_Units q = ec_Units original \<and>
        rq_CompensationRecipient q = ec_Recipient compensation)"

lemma validateRecoveryEconomics_sound: "validateRecoveryEconomics E q = None \<Longrightarrow> same_value E q"
  by (auto simp: validateRecoveryEconomics_def same_value_def Let_def split: if_splits sum.splits)

section \<open>Manager\<close>

inductive manager_step :: "RecoveryEnv \<Rightarrow> Manager \<times> 'w \<Rightarrow> Manager \<times> 'w \<Rightarrow> bool" for E where
  step_request: "manager_Request E q m = (out, m') \<Longrightarrow> manager_step E (m, w) (m', w)"
| step_tombstone: "manager_Tombstone i d s = (out, t) \<Longrightarrow> manager_step E s t"
| step_compensate: "manager_Compensate E c m = (out, m') \<Longrightarrow> manager_step E (m, w) (m', w)"
| step_finalize: "manager_Finalize i ack m = (out, m') \<Longrightarrow> manager_step E (m, w) (m', w)"
| step_replace: "AuthorizeReplacement i j m = (err, m') \<Longrightarrow> manager_step E (m, w) (m', w)"

definition compensation_ok :: "RecoveryEnv \<Rightarrow> RecoveryRequest \<Rightarrow> Tombstone \<Rightarrow> Compensation \<Rightarrow> bool" where
  "compensation_ok E q t c \<longleftrightarrow>
     co_OriginalMessageID c = rq_OriginalMessageID q \<and> co_TombstoneHash c = to_Hash t \<and>
     co_Payload c = rq_CompensationPayload q \<and> co_AssetID c = rq_AssetID q \<and> co_Units c = rq_Units q \<and>
     co_Recipient c = rq_CompensationRecipient q"

fun stage_ok :: "RecoveryEnv \<Rightarrow> RecoveryRecord \<Rightarrow> RecoveryState \<Rightarrow> Tombstone option \<Rightarrow> Compensation option \<Rightarrow> bool" where
  "stage_ok E rec st None c = (st = Requested \<and> c = None)"
| "stage_ok E rec st (Some t) None = (st = DestinationTombstoned \<and> to_OriginalMessageID t = rq_OriginalMessageID (rr_Request rec))"
| "stage_ok E rec st (Some t) (Some c) =
     ((st = SourceCompensated \<or> st = Recovered) \<and> to_OriginalMessageID t = rq_OriginalMessageID (rr_Request rec) \<and>
      compensation_ok E (rr_Request rec) t c)"

definition record_ok :: "RecoveryEnv \<Rightarrow> (RecoveryRequest \<Rightarrow> bool) \<Rightarrow> bytes32 \<Rightarrow> RecoveryRecord \<Rightarrow> bool" where
  "record_ok E authority i rec \<longleftrightarrow>
     rq_OriginalMessageID (rr_Request rec) = i \<and> authority (rr_Request rec) \<and> same_value E (rr_Request rec) \<and>
     stage_ok E rec (rr_State rec) (rr_Tombstone rec) (rr_Compensation rec)"

definition manager_inv :: "RecoveryEnv \<Rightarrow> Authorizer \<Rightarrow> (RecoveryRequest \<Rightarrow> bool) \<Rightarrow> Manager \<times> 'w \<Rightarrow> bool" where
  "manager_inv E verify authority s \<longleftrightarrow>
     mn_authorizer (fst s) = verify \<and>
     (\<forall>i rec. mget (mn_records (fst s)) i = Some rec \<longrightarrow> record_ok E authority i rec)"

text \<open>What a later record keeps of an earlier one.\<close>

definition record_later :: "RecoveryRecord \<Rightarrow> RecoveryRecord \<Rightarrow> bool" where
  "record_later r r' \<longleftrightarrow>
     rr_Request r' = rr_Request r \<and>
     (rr_Tombstone r = None \<or> rr_Tombstone r' = rr_Tombstone r) \<and>
     (rr_Compensation r = None \<or> rr_Compensation r' = rr_Compensation r) \<and>
     (rr_SupersededBy r = 0 \<or> rr_SupersededBy r' = rr_SupersededBy r)"

definition manager_later :: "Manager \<times> 'w \<Rightarrow> Manager \<times> 'w \<Rightarrow> bool" where
  "manager_later s t \<longleftrightarrow>
     (\<forall>i rec. mget (mn_records (fst s)) i = Some rec \<longrightarrow>
        (\<exists>rec'. mget (mn_records (fst t)) i = Some rec' \<and> record_later rec rec'))"

lemma record_later_refl [simp]: "record_later r r"
  by (simp add: record_later_def)

lemma record_later_trans: "record_later r1 r2 \<Longrightarrow> record_later r2 r3 \<Longrightarrow> record_later r1 r3"
  by (auto simp: record_later_def)

lemma manager_later_refl [simp]: "manager_later s s"
  by (auto simp: manager_later_def)

lemma manager_later_trans: "manager_later s t \<Longrightarrow> manager_later t u \<Longrightarrow> manager_later s u"
  unfolding manager_later_def by (meson record_later_trans)

lemma put_record_later:
  assumes "\<forall>rec0. mget (mn_records m) i = Some rec0 \<longrightarrow> record_later rec0 rec"
  shows "manager_later (m, w) (put_record i rec m, w')"
  using assms by (auto simp: manager_later_def put_record_def)

lemma put_record_inv:
  "manager_inv E v a (m, w) \<Longrightarrow> record_ok E a i rec \<Longrightarrow> manager_inv E v a (put_record i rec m, w')"
  by (auto simp: manager_inv_def put_record_def)

text \<open>An authorizer whose acceptance means an authority that reordering the approvals keeps.\<close>

locale request_authority =
  fixes E :: RecoveryEnv
    and verify :: Authorizer
    and authority :: "RecoveryRequest \<Rightarrow> bool"
  assumes verify_sound: "verify q = None \<Longrightarrow> authority q"
    and authority_canonical: "authority q \<Longrightarrow> authority (q\<lparr>rq_Approvals := canonicalApprovals (rq_Approvals q)\<rparr>)"
begin

abbreviation inv :: "Manager \<times> 'w \<Rightarrow> bool" where
  "inv \<equiv> manager_inv E verify authority"

lemma request_keeps:
  assumes "inv (m, w)" "manager_Request E q m = (out, m')"
  shows "inv (m', w) \<and> manager_later (m, w) (m', w)"
proof -
  let ?q = "q\<lparr>rq_Approvals := canonicalApprovals (rq_Approvals q)\<rparr>"
  let ?rec = "\<lparr>rr_Request = ?q, rr_State = Requested, rr_Tombstone = None, rr_Compensation = None,
      rr_RecoveryAck = 0, rr_SupersededBy = 0\<rparr>"
  consider "m' = m"
    | "m' = put_record (rq_OriginalMessageID q) ?rec m" "mget (mn_records m) (rq_OriginalMessageID q) = None"
      "validateRecoveryEconomics E q = None" "mn_authorizer m q = None"
    using assms(2) by (auto simp: manager_Request_def Let_def split: if_splits option.splits)
  then show ?thesis
  proof cases
    case 1
    with assms show ?thesis by simp
  next
    case 2
    have "same_value E ?q"
      using validateRecoveryEconomics_sound[OF 2(3)] by (simp add: same_value_def)
    moreover have "authority ?q"
      using 2(4) assms(1) by (intro authority_canonical verify_sound) (simp add: manager_inv_def)
    ultimately have "record_ok E authority (rq_OriginalMessageID q) ?rec" by (simp add: record_ok_def)
    with 2(1,2) assms(1) show ?thesis by (simp add: put_record_inv put_record_later)
  qed
qed

lemma tombstone_keeps:
  assumes "inv (m, w)" "manager_Tombstone i d (m, w) = (out, m', w')"
  shows "inv (m', w') \<and> manager_later (m, w) (m', w')"
proof -
  consider "m' = m"
    | rec t where "m' = put_record i (rec\<lparr>rr_State := DestinationTombstoned, rr_Tombstone := Some t\<rparr>) m"
      "mget (mn_records m) i = Some rec" "rr_Tombstone rec = None" "to_OriginalMessageID t = i"
    using assms(2) by (auto simp: manager_Tombstone_def Let_def split: if_splits option.splits prod.splits sum.splits)
  then show ?thesis
  proof cases
    case 1
    with assms(1) show ?thesis by (simp add: manager_inv_def manager_later_def)
  next
    case 2
    with assms(1) have "record_ok E authority i rec" by (simp add: manager_inv_def)
    with 2 have "record_ok E authority i (rec\<lparr>rr_State := DestinationTombstoned, rr_Tombstone := Some t\<rparr>)"
      by (simp add: record_ok_def)
    moreover have "record_later rec (rec\<lparr>rr_State := DestinationTombstoned, rr_Tombstone := Some t\<rparr>)"
      using 2(3) by (simp add: record_later_def)
    ultimately show ?thesis using 2(1,2) assms(1) by (simp add: put_record_inv put_record_later)
  qed
qed

lemma compensate_keeps:
  assumes "inv (m, w)" "manager_Compensate E c m = (out, m')"
  shows "inv (m', w) \<and> manager_later (m, w) (m', w)"
proof -
  let ?i = "co_OriginalMessageID c"
  consider "m' = m"
    | rec t where "m' = put_record ?i (rec\<lparr>rr_State := SourceCompensated, rr_Compensation := Some c\<rparr>) m"
      "mget (mn_records m) ?i = Some rec" "rr_Tombstone rec = Some t" "rr_Compensation rec = None"
      "co_TombstoneHash c = to_Hash t" "co_Payload c = rq_CompensationPayload (rr_Request rec)"
      "co_AssetID c = rq_AssetID (rr_Request rec)" "co_Recipient c = rq_CompensationRecipient (rr_Request rec)"
      "co_Units c = rq_Units (rr_Request rec)"
    using assms(2) by (auto simp: manager_Compensate_def Let_def split: if_splits option.splits)
  then show ?thesis
  proof cases
    case 1
    with assms(1) show ?thesis by simp
  next
    case 2
    with assms(1) have ok: "record_ok E authority ?i rec" by (simp add: manager_inv_def)
    have "record_ok E authority ?i (rec\<lparr>rr_State := SourceCompensated, rr_Compensation := Some c\<rparr>)"
      using ok 2(3-9) by (simp add: record_ok_def compensation_ok_def)
    moreover have "record_later rec (rec\<lparr>rr_State := SourceCompensated, rr_Compensation := Some c\<rparr>)"
      using 2(4) by (simp add: record_later_def)
    ultimately show ?thesis using 2(1,2) assms(1) by (simp add: put_record_inv put_record_later)
  qed
qed

lemma finalize_keeps:
  assumes "inv (m, w)" "manager_Finalize i ack m = (out, m')"
  shows "inv (m', w) \<and> manager_later (m, w) (m', w)"
proof -
  consider "m' = m"
    | rec c where "m' = put_record i (rec\<lparr>rr_State := Recovered, rr_RecoveryAck := ack\<rparr>) m"
      "mget (mn_records m) i = Some rec" "rr_Compensation rec = Some c"
    using assms(2) by (auto simp: manager_Finalize_def Let_def split: if_splits option.splits)
  then show ?thesis
  proof cases
    case 1
    with assms(1) show ?thesis by simp
  next
    case 2
    with assms(1) have ok: "record_ok E authority i rec" by (simp add: manager_inv_def)
    with 2(3) have "record_ok E authority i (rec\<lparr>rr_State := Recovered, rr_RecoveryAck := ack\<rparr>)"
      by (cases "rr_Tombstone rec") (simp_all add: record_ok_def)
    moreover have "record_later rec (rec\<lparr>rr_State := Recovered, rr_RecoveryAck := ack\<rparr>)"
      by (simp add: record_later_def)
    ultimately show ?thesis using 2(1,2) assms(1) by (simp add: put_record_inv put_record_later)
  qed
qed

lemma replace_keeps:
  assumes "inv (m, w)" "AuthorizeReplacement i j m = (err, m')"
  shows "inv (m', w) \<and> manager_later (m, w) (m', w)"
proof -
  consider "m' = m"
    | rec where "m' = put_record i (rec\<lparr>rr_SupersededBy := j\<rparr>) m" "mget (mn_records m) i = Some rec"
      "rr_SupersededBy rec = 0 \<or> rr_SupersededBy rec = j"
    using assms(2) by (auto simp: AuthorizeReplacement_def split: if_splits option.splits)
  then show ?thesis
  proof cases
    case 1
    with assms(1) show ?thesis by simp
  next
    case 2
    with assms(1) have "record_ok E authority i rec" by (simp add: manager_inv_def)
    then have "record_ok E authority i (rec\<lparr>rr_SupersededBy := j\<rparr>)"
      by (cases "rr_Tombstone rec"; cases "rr_Compensation rec") (simp_all add: record_ok_def)
    moreover have "record_later rec (rec\<lparr>rr_SupersededBy := j\<rparr>)"
      using 2(3) by (auto simp: record_later_def)
    ultimately show ?thesis using 2(1,2) assms(1) by (simp add: put_record_inv put_record_later)
  qed
qed

lemma step_keeps: "manager_step E s t \<Longrightarrow> inv s \<Longrightarrow> inv t \<and> manager_later s t"
proof (induction rule: manager_step.induct)
  case (step_request q m out m' w)
  then show ?case by (intro request_keeps)
next
  case (step_tombstone i d s out t)
  then show ?case using tombstone_keeps[of "fst s" "snd s" i d out "fst t" "snd t"] by simp
next
  case (step_compensate c m out m' w)
  then show ?case by (intro compensate_keeps)
next
  case (step_finalize i ack m out m' w)
  then show ?case by (intro finalize_keeps)
next
  case (step_replace i j m err m' w)
  then show ?case by (intro replace_keeps)
qed

end

text \<open>The two-of-three authorizer is such an authority, and so every manager it protects has one history.\<close>

definition secp_authority :: "RecoveryEnv \<Rightarrow> Secp256k1Authorizer \<Rightarrow> RecoveryRequest \<Rightarrow> bool" where
  "secp_authority E ps q \<longleftrightarrow> (authorizer_ok ps \<longrightarrow> authorized E ps q)"

interpretation secp: request_authority E "Verify E ps" "secp_authority E ps" for E ps
  by unfold_locales (auto simp: secp_authority_def intro: Verify_sound authorized_canonical)

definition protected_start :: "RecoveryEnv \<Rightarrow> Secp256k1Authorizer \<Rightarrow> Manager \<times> 'w \<Rightarrow> bool" where
  "protected_start E ps s \<longleftrightarrow> NewManager (Some (Verify E ps)) = Inr (fst s)"

lemma recovery_step_keeps:
  assumes "manager_step E s t" "manager_inv E (Verify E ps) (secp_authority E ps) s"
  shows "manager_inv E (Verify E ps) (secp_authority E ps) t" "manager_later s t"
  using secp.step_keeps[OF assms] by simp_all

interpretation recoveries: monotone_history "protected_start E ps" "manager_step E"
    "manager_inv E (Verify E ps) (secp_authority E ps)" manager_later for E ps
proof
  show "manager_inv E (Verify E ps) (secp_authority E ps) s" if "protected_start E ps s" for s :: "Manager \<times> 'w"
    using that by (cases s) (auto simp: protected_start_def NewManager_def manager_inv_def)
  show "manager_inv E (Verify E ps) (secp_authority E ps) t"
    if "manager_step E s t" "manager_inv E (Verify E ps) (secp_authority E ps) s" for s t :: "Manager \<times> 'w"
    using recovery_step_keeps(1)[OF that(1,2)] .
  show "manager_later s t"
    if "manager_step E s t" "manager_inv E (Verify E ps) (secp_authority E ps) s" for s t :: "Manager \<times> 'w"
    using recovery_step_keeps(2)[OF that(1,2)] .
  show "manager_later s u" if "manager_later s t" "manager_later t u" for s t u :: "Manager \<times> 'w"
    using that by (rule manager_later_trans)
qed simp_all

section \<open>Sample recovery\<close>

text \<open>A signature \<open>0 ... 0 k 27\<close> recovers to the key \<open>k\<close>; every longer string hashes to one.\<close>

definition toy_recovery_env :: RecoveryEnv where
  "toy_recovery_env = \<lparr>re_keccak = (\<lambda>bs. if length bs = 1 then ucast (hd bs) else 1), re_scalar = (\<lambda>_. True),
     re_low_order = (\<lambda>_. True), re_recover = (\<lambda>c _. Some [4, last c])\<rparr>"

definition sample_policy :: Secp256k1Policy where
  "sample_policy = \<lparr>sp_PolicyHash = 77, sp_Signers = [(''alice'', 2), (''bob'', 3), (''carol'', 4)]\<rparr>"

definition sample_authorizer :: Secp256k1Authorizer where
  "sample_authorizer = [(77, sample_policy)]"

definition sample_signature :: "byte \<Rightarrow> byte list" where
  "sample_signature k = replicate 63 0 @ [k, 27]"

definition sample_payload :: "byte list list" where
  "sample_payload = [bytes32 1, abiAddress 9, abiAddress 8, be_bytes 32 1000, bytes32 2]"

definition sample_compensation_payload :: "byte list" where
  "sample_compensation_payload = concat [abiAddress 9, be_bytes 32 1000, abiAddress 7]"

definition sample_terms :: AuthorizationRequest where
  "sample_terms = \<lparr>ar_MessageID = 5, ar_EnvelopeHash = 6, ar_RoutePolicyHash = 10,
     ar_AssetAmountCommitment = 1, ar_SourceStateCommitment = 11, ar_DestinationStateCommitment = 12,
     ar_CompensationPayloadHash = 1, ar_MessageExpiresAt = 100, ar_RecoveryNonce = 1, ar_ReasonCode = 1,
     ar_Action = 1, ar_AuthorizerSetHash = 77, ar_AuthorizerSetVersion = 1\<rparr>"

definition sample_request :: RecoveryRequest where
  "sample_request = \<lparr>rq_RecoveryID = hex (bytes32 1),
     rq_OriginalMessageID = 5, rq_ImmutableEnvelopeHash = 6, rq_RecoveryNonce = 1, rq_RouteVersion = 1,
     rq_OriginalActionType = 4, rq_OriginalActionPayload = concat sample_payload, rq_AssetID = canonicalAddress 9,
     rq_Units = big_string 1000, rq_CompensationRecipient = canonicalAddress 7,
     rq_CompensationPayload = sample_compensation_payload, rq_ReasonCode = ''late'',
     rq_SourceStateCommitment = 11, rq_DestinationStateCommitment = 12, rq_AuthorizerPolicyHash = 77,
     rq_RoutePolicyHash = 10, rq_AssetAmountCommitment = 1, rq_CompensationPayloadHash = 1,
     rq_MessageExpiresAt = 100, rq_Action = 1, rq_AuthorizerSetVersion = 1,
     rq_Authorization = Some \<lparr>au_ProtocolID = 1, au_SourceChainID = ''1'', au_SourceCoordinator = 2,
       au_DestinationChainID = ''10'', au_DestinationCoordinator = 3, au_Request = sample_terms\<rparr>,
     rq_Approvals = [\<lparr>ap_SignerID = ''alice'', ap_Signature = sample_signature 2\<rparr>,
       \<lparr>ap_SignerID = ''bob'', ap_Signature = sample_signature 3\<rparr>], rq_RequestedAt = 50\<rparr>"

definition sample_destination :: "unit Destination" where
  "sample_destination = \<lparr>ds_ExecutionResult = (\<lambda>_ _. (0, False)),
     ds_CreateTombstone = (\<lambda>q w. (Inr \<lparr>to_OriginalMessageID = rq_OriginalMessageID q, to_Hash = 21,
       to_FinalityProofHash = 22, to_FinalizedAt = 60\<rparr>, w))\<rparr>"

definition sample_compensation :: Compensation where
  "sample_compensation = \<lparr>co_OriginalMessageID = 5, co_TombstoneHash = 21, co_Payload = sample_compensation_payload,
     co_ResultHash = 23, co_AssetID = canonicalAddress 9, co_Recipient = canonicalAddress 7,
     co_Units = big_string 1000, co_CompensatedAt = 70\<rparr>"

definition sample_manager :: "nat \<Rightarrow> Manager" where
  "sample_manager n =
     (let m0 = \<lparr>mn_authorizer = Verify toy_recovery_env sample_authorizer, mn_records = []\<rparr>;
          m1 = snd (manager_Request toy_recovery_env sample_request m0);
          m2 = fst (snd (manager_Tombstone 5 (Some sample_destination) (m1, ())));
          m3 = snd (manager_Compensate toy_recovery_env sample_compensation m2);
          m4 = snd (manager_Finalize 5 24 m3)
      in if n = 0 then m0 else if n = 1 then m1 else if n = 2 then m2 else if n = 3 then m3 else m4)"

lemma sample_original:
  "decodeActionEconomics 4 (concat sample_payload) =
     Inr \<lparr>ec_AssetID = canonicalAddress 9, ec_Units = big_string 1000, ec_Recipient = []\<rparr>"
  by (rule decodeActionEconomics_words[of 4 1 3 5]) (simp_all add: economics_layout_def sample_payload_def)

lemma sample_compensated:
  "decodeCompensationPayload sample_compensation_payload =
     Inr \<lparr>ec_AssetID = canonicalAddress 9, ec_Units = big_string 1000, ec_Recipient = canonicalAddress 7\<rparr>"
  by (rule compensation_payload_roundtrip)
    (auto simp: EncodeCompensationPayload_Inr sample_compensation_payload_def intro!: exI[of _ 1000])

lemma sample_keys: "address_of (drop 12 (bytes32 2)) = 2" "address_of (drop 12 (bytes32 3)) = 3"
  by code_simp+

lemma sample_signatures:
  "VerifyEthereumSignature toy_recovery_env d (sample_signature 2) = Inr 2"
  "VerifyEthereumSignature toy_recovery_env d (sample_signature 3) = Inr 3"
  by (simp_all add: VerifyEthereumSignature_def toy_recovery_env_def sample_signature_def Let_def nth_append
      sample_keys)

lemma sample_lengths:
  "length (concat sample_payload) = 160" "length sample_compensation_payload = 96" "length (bytes32 w) = 32"
  by (simp_all add: sample_payload_def sample_compensation_payload_def abiAddress_def)

lemma sample_hashes:
  "length bs \<noteq> Suc 0 \<Longrightarrow> re_keccak toy_recovery_env bs = 1"
  by (simp add: toy_recovery_env_def)

lemma length_with_domain: "length (with_domain d bs) \<noteq> Suc 0"
proof -
  have "(length bs + (32 + length d)) mod 32 < 32" by simp
  then have "length bs + (64 + length d) - (length bs + (32 + length d)) mod 32 \<noteq> Suc 0" by linarith
  then show ?thesis by (simp add: with_domain_def pad32_def abiUint64_def)
qed

lemma sample_economics: "validateRecoveryEconomics toy_recovery_env sample_request = None"
proof -
  have "concat sample_payload \<noteq> []" "sample_compensation_payload \<noteq> []" using sample_lengths by (metis list.size(3) zero_neq_numeral)+
  then show ?thesis
    by (simp add: validateRecoveryEconomics_def sample_request_def sample_terms_def keccakBytes_def
        AssetAmountCommitment_def sample_original sample_compensated sample_lengths sample_hashes length_with_domain)
qed

lemma sample_verified: "Verify toy_recovery_env sample_authorizer sample_request = None"
proof -
  have "isOK (abiUint256 ''1'')" "isOK (abiUint256 ''10'')" by code_simp+
  then obtain x y where "abiUint256 ''1'' = Inr x" "abiUint256 ''10'' = Inr y" by (auto simp: isOK_iff)
  then have "DigestAuthorization toy_recovery_env (the (rq_Authorization sample_request)) = Inr 1"
    by (simp add: DigestAuthorization_def sample_request_def validAuthorizationRequest_def sample_terms_def
        authorization_bytes_def sample_hashes length_with_domain)
  moreover have "RecoveryID toy_recovery_env sample_terms = Inr 1"
    by (simp add: RecoveryID_def validAuthorizationRequest_def sample_terms_def keccakBytes_def sample_hashes
        length_with_domain)
  ultimately show ?thesis
    using sample_economics
    by (simp add: Verify_def sample_authorizer_def sample_policy_def sample_request_def authorization_matches_def
        sample_terms_def ReasonCodeCommitment_def sample_hashes sample_signatures)
qed

lemma sample_steps:
  "(manager_step toy_recovery_env)\<^sup>*\<^sup>* (sample_manager 0, ()) (sample_manager 3, ())"
  "(manager_step toy_recovery_env)\<^sup>*\<^sup>* (sample_manager 3, ()) (sample_manager 4, ())"
proof -
  let ?step = "manager_step toy_recovery_env"
  have "?step (sample_manager 0, ()) (sample_manager 1, ())"
    by (rule step_request[of _ sample_request]) (simp add: sample_manager_def prod_eq_iff)
  moreover have "?step (sample_manager 1, ()) (sample_manager 2, ())"
    by (rule step_tombstone[of 5 "Some sample_destination"]) (simp add: sample_manager_def prod_eq_iff)
  moreover have "?step (sample_manager 2, ()) (sample_manager 3, ())"
    by (rule step_compensate[of _ sample_compensation]) (simp add: sample_manager_def prod_eq_iff)
  moreover have "?step (sample_manager 3, ()) (sample_manager 4, ())"
    by (rule step_finalize[of 5 24]) (simp add: sample_manager_def prod_eq_iff)
  ultimately show "?step\<^sup>*\<^sup>* (sample_manager 0, ()) (sample_manager 3, ())"
    "?step\<^sup>*\<^sup>* (sample_manager 3, ()) (sample_manager 4, ())"
    by (meson converse_rtranclp_into_rtranclp rtranclp.rtrancl_refl)+
qed

lemma sample_request_fields:
  "rq_RecoveryID sample_request \<noteq> []" "rq_RecoveryNonce sample_request \<noteq> 0" "rq_RouteVersion sample_request \<noteq> 0"
  "rq_ReasonCode sample_request \<noteq> []" "rq_RequestedAt sample_request \<noteq> 0" "rq_AuthorizerPolicyHash sample_request \<noteq> 0"
  "rq_OriginalMessageID sample_request = 5" "rq_AssetID sample_request = canonicalAddress 9"
  "rq_Units sample_request = big_string 1000" "rq_CompensationRecipient sample_request = canonicalAddress 7"
  "rq_CompensationPayload sample_request = sample_compensation_payload" "rq_CompensationPayloadHash sample_request = 1"
  "sample_request\<lparr>rq_Approvals := canonicalApprovals (rq_Approvals sample_request)\<rparr> = sample_request"
proof -
  have "bytes32 1 \<noteq> []" by (metis sample_lengths(3) list.size(3) zero_neq_numeral)
  then show "rq_RecoveryID sample_request \<noteq> []" by (simp add: sample_request_def hex_def)
qed (simp_all add: sample_request_def canonicalApprovals_def)

lemma sample_manager_record:
  "\<exists>rec. manager_Record (sample_manager 3) 5 = Some rec \<and> rr_Compensation rec = Some sample_compensation \<and>
     rr_Request rec = sample_request"
proof -
  have "canonicalPositiveUint256 (big_string 1000)" by (auto simp: canonicalPositiveUint256_iff)
  moreover have "canonicalAddress a \<noteq> []" for a by (simp add: canonicalAddress_def)
  ultimately show ?thesis
    using sample_economics sample_verified
    by (simp add: sample_manager_def manager_Request_def manager_Tombstone_def manager_Compensate_def
        manager_Record_def put_record_def sample_destination_def sample_compensation_def sample_request_fields
        keccakBytes_def sample_hashes sample_lengths Let_def)
qed

section \<open>Claim\<close>

text \<open>
  C34: A compensation recorded by a manager behind the two-of-three authorizer belongs to a request
  that two different keys of one policy signed, over a digest of exactly its terms; it comes after
  the destination's tombstone of the same message, it pays the asset and the amount that the payload
  of the original action names, and no later operation pays again or replaces request, tombstone or
  compensation.
\<close>

theorem recovery_compensation:
  assumes "NewSecp256k1Authorizer policies = Inr ps" "NewManager (Some (Verify E ps)) = Inr m0"
    and "(manager_step E)\<^sup>*\<^sup>* (m0, w0) (m, w)" "manager_Record m i = Some rec" "rr_Compensation rec = Some c"
    and "(manager_step E)\<^sup>*\<^sup>* (m, w) (m', w')"
  shows "authorized E ps (rr_Request rec) \<and> rq_OriginalMessageID (rr_Request rec) = i \<and>
    (\<exists>t original. rr_Tombstone rec = Some t \<and> to_OriginalMessageID t = i \<and>
       co_OriginalMessageID c = i \<and> co_TombstoneHash c = to_Hash t \<and>
       decodeActionEconomics (rq_OriginalActionType (rr_Request rec)) (rq_OriginalActionPayload (rr_Request rec)) =
         Inr original \<and> co_AssetID c = ec_AssetID original \<and> co_Units c = ec_Units original) \<and>
    (\<exists>rec'. manager_Record m' i = Some rec' \<and> rr_Request rec' = rr_Request rec \<and>
       rr_Tombstone rec' = rr_Tombstone rec \<and> rr_Compensation rec' = Some c)"
proof -
  have "authorizer_ok ps"
    using assms(1) add_policies_ok[of policies "[]" ps] by (simp add: NewSecp256k1Authorizer_def authorizer_ok_def)
  have "reachable (protected_start E ps) (manager_step E) (m, w)"
    using assms(2,3) by (intro recoveries.reachable_steps[OF assms(3)] reach_init) (simp add: protected_start_def)
  then have inv: "manager_inv E (Verify E ps) (secp_authority E ps) (m, w)" by (rule recoveries.always)
  with assms(4) have ok: "record_ok E (secp_authority E ps) i rec"
    by (simp add: manager_inv_def manager_Record_def)
  with assms(5) obtain t where t: "rr_Tombstone rec = Some t" "to_OriginalMessageID t = i"
    "compensation_ok E (rr_Request rec) t c"
    by (cases "rr_Tombstone rec") (auto simp: record_ok_def)
  from recoveries.later[OF assms(6) inv] assms(4) obtain rec' where
    "manager_Record m' i = Some rec'" "record_later rec rec'"
    by (auto simp: manager_later_def manager_Record_def)
  then have "\<exists>rec'. manager_Record m' i = Some rec' \<and> rr_Request rec' = rr_Request rec \<and>
       rr_Tombstone rec' = rr_Tombstone rec \<and> rr_Compensation rec' = Some c"
    using t(1) assms(5) by (simp add: record_later_def)
  moreover from ok \<open>authorizer_ok ps\<close> have "authorized E ps (rr_Request rec)"
    "rq_OriginalMessageID (rr_Request rec) = i" "same_value E (rr_Request rec)"
    by (simp_all add: record_ok_def secp_authority_def)
  moreover from this(3) t(3) obtain original where
    "decodeActionEconomics (rq_OriginalActionType (rr_Request rec)) (rq_OriginalActionPayload (rr_Request rec)) =
       Inr original" "co_AssetID c = ec_AssetID original" "co_Units c = ec_Units original"
    unfolding same_value_def compensation_ok_def by metis
  ultimately show ?thesis using t unfolding compensation_ok_def by simp
qed

theorem recovery_compensation_witness:
  "authorized toy_recovery_env sample_authorizer sample_request \<and>
   (\<exists>rec'. manager_Record (sample_manager 4) 5 = Some rec' \<and> rr_Compensation rec' = Some sample_compensation)"
proof -
  from sample_manager_record obtain rec where rec: "manager_Record (sample_manager 3) 5 = Some rec"
    "rr_Compensation rec = Some sample_compensation" "rr_Request rec = sample_request" by blast
  have "NewSecp256k1Authorizer [sample_policy] = Inr sample_authorizer"
    by (simp add: NewSecp256k1Authorizer_def sample_policy_def sample_authorizer_def)
  moreover have "NewManager (Some (Verify toy_recovery_env sample_authorizer)) = Inr (sample_manager 0)"
    by (simp add: NewManager_def sample_manager_def)
  ultimately show ?thesis
    using recovery_compensation[OF _ _ sample_steps(1) rec(1,2) sample_steps(2)] rec(3) by metis
qed

end
