(* ===== verification/Recovery_Messages.thy ===== *)
theory Recovery_Messages
  imports Recovery_Economics Message_Identity
begin

text \<open>
  Messages and recoveries together: \<open>recovery.go\<close> reads the asset and the amount of an action out of
  the payload bytes that \<open>message/digest.go\<close> wrote, at word positions listed in a table. The table fits
  the encodings of all the actions it names.
\<close>

text \<open>The asset and the amount that an action moves; the two cancellation messages move none.\<close>

fun action_value :: "TypedAction \<Rightarrow> (byte list \<times> string) option" where
  "action_value (CanonicalUftLock p) = Some (cul_CanonicalToken p, cul_Amount p)"
| "action_value (WrappedUftMinted p) = Some (wum_WrappedToken p, wum_Amount p)"
| "action_value (WrappedUftBurned p) = Some (wub_WrappedToken p, wub_Amount p)"
| "action_value (CanonicalUftReleased p) = Some (cur_CanonicalToken p, cur_Amount p)"
| "action_value (SatelliteCollateralLocked p) = Some (scl_CollateralToken p, scl_Amount p)"
| "action_value (HomeDisbursementAuthorized p) = Some (hda_WrappedToken p, hda_Amount p)"
| "action_value (SatelliteDisbursementSettled p) = Some (sds_WrappedToken p, sds_Amount p)"
| "action_value (SatelliteRepaymentBurned p) = Some (srb_WrappedToken p, srb_Amount p)"
| "action_value (HomeCollateralReleaseAuthorized p) = Some (hcr_CollateralToken p, hcr_Amount p)"
| "action_value (SatelliteCollateralReleased p) = Some (scr_CollateralToken p, scr_Amount p)"
| "action_value (SatelliteUftPermanentBurned p) = Some (spb_WrappedToken p, spb_Amount p)"
| "action_value _ = None"

text \<open>The action number as the recovery request carries it.\<close>

definition action_byte :: "CrossChainActionType \<Rightarrow> byte" where
  "action_byte t = ucast (action_number t)"

lemma bytes20_address_of: "length bs = 20 \<Longrightarrow> bytes20 (address_of bs) = bs"
proof -
  assume len: "length bs = 20"
  have "0 \<le> be_val 0 bs" "be_val 0 bs < 2 ^ 160"
    using be_val_bounds[of 0 bs] len by simp_all
  then have "uint (word_of_int (be_val 0 bs) :: bytes20) = be_val 0 bs"
    by (simp add: uint_word_of_int_eq take_bit_int_eq_self)
  then show ?thesis
    using be_bytes_be_val[of bs] len by (simp add: bytes20_def address_of_def big_set_bytes_def)
qed

lemma addressWord_abiAddress: "length bs = 20 \<Longrightarrow> addressWord bs = abiAddress (address_of bs)"
  by (simp add: addressWord_def abiAddress_def bytes20_address_of)

lemma encodeStatic_economics:
  assumes "encodeStatic ws = Inr b" "economics_layout t = Some (x, y, n)" "list_all sized_word ws"
    and "length ws = n" "x < n" "y < n" "\<exists>m. ws ! x = addressABI tok m" "\<exists>m. ws ! y = uint256ABI amt m"
    and "tok \<noteq> replicate 20 0"
  shows "decodeActionEconomics t b = Inr \<lparr>ec_AssetID = ''0x'' @ hex tok, ec_Units = amt, ec_Recipient = []\<rparr>"
proof -
  from assms(1) obtain vs where vs: "ws = map Inr vs" "b = concat vs" by (auto simp: encodeStatic_Inr)
  with assms(3) have sized: "list_all word_sized vs" by (auto simp: list_all_iff sized_word_def)
  from vs assms(4-8) obtain m m' where "addressABI tok m = Inr (vs ! x)" "uint256ABI amt m' = Inr (vs ! y)"
    by (metis nth_map length_map)
  then obtain k where len: "length tok = 20" and x: "vs ! x = addressWord tok"
    and k: "amt = big_string k" "0 < k" "k < 2 ^ 256" "vs ! y = be_bytes 32 k"
    by (auto simp: uint256ABI_def uint256_Inr)
  have "address_of tok \<noteq> 0"
  proof
    assume "address_of tok = 0"
    then have "tok = bytes20 0" using bytes20_address_of[OF len] by simp
    with assms(9) show False by (simp add: bytes20_def numeral_eq_Suc)
  qed
  with decodeActionEconomics_words[of t x y n vs "address_of tok" k] vs sized assms(2,4-6) k x len
  show ?thesis
    by (simp add: addressWord_abiAddress canonicalAddress_def bytes20_address_of)
qed

lemma layouts:
  "economics_layout (action_byte CANONICAL_UFT_LOCKED_V1) = Some (2, 6, 7)"
  "economics_layout (action_byte WRAPPED_UFT_MINTED_V1) = Some (5, 6, 8)"
  "economics_layout (action_byte WRAPPED_UFT_BURNED_V1) = Some (4, 6, 7)"
  "economics_layout (action_byte CANONICAL_UFT_RELEASED_V1) = Some (1, 3, 5)"
  "economics_layout (action_byte SATELLITE_COLLATERAL_LOCKED_V1) = Some (5, 6, 8)"
  "economics_layout (action_byte HOME_DISBURSEMENT_AUTHORIZED_V1) = Some (5, 6, 8)"
  "economics_layout (action_byte SATELLITE_DISBURSEMENT_SETTLED_V1) = Some (5, 6, 8)"
  "economics_layout (action_byte SATELLITE_REPAYMENT_BURNED_V1) = Some (6, 8, 9)"
  "economics_layout (action_byte HOME_COLLATERAL_RELEASE_AUTHORIZED_V1) = Some (5, 6, 8)"
  "economics_layout (action_byte SATELLITE_COLLATERAL_RELEASED_V1) = Some (5, 6, 8)"
  "economics_layout (action_byte SATELLITE_UFT_PERMANENT_BURNED_V1) = Some (4, 5, 6)"
  "economics_layout (action_byte CANCELLATION_REQUESTED_V1) = None"
  "economics_layout (action_byte SOURCE_COMPENSATED_V1) = None"
  by (simp_all add: economics_layout_def action_byte_def)

definition reads_value :: "CrossChainActionType \<Rightarrow> byte list \<Rightarrow> byte list \<Rightarrow> string \<Rightarrow> bool" where
  "reads_value t b tok amt \<longleftrightarrow> (tok \<noteq> replicate 20 0 \<longrightarrow>
     decodeActionEconomics (action_byte t) b =
       Inr \<lparr>ec_AssetID = ''0x'' @ hex tok, ec_Units = amt, ec_Recipient = []\<rparr>)"

lemma payload_economics:
  "encodeCanonicalUftLock p0 = Inr b \<Longrightarrow> reads_value CANONICAL_UFT_LOCKED_V1 b (cul_CanonicalToken p0) (cul_Amount p0)"
  "encodeWrappedUftMinted p1 = Inr b \<Longrightarrow> reads_value WRAPPED_UFT_MINTED_V1 b (wum_WrappedToken p1) (wum_Amount p1)"
  "encodeWrappedUftBurned p2 = Inr b \<Longrightarrow> reads_value WRAPPED_UFT_BURNED_V1 b (wub_WrappedToken p2) (wub_Amount p2)"
  "encodeCanonicalUftReleased p3 = Inr b \<Longrightarrow> reads_value CANONICAL_UFT_RELEASED_V1 b (cur_CanonicalToken p3) (cur_Amount p3)"
  "encodeSatelliteCollateralLocked p4 = Inr b \<Longrightarrow> reads_value SATELLITE_COLLATERAL_LOCKED_V1 b (scl_CollateralToken p4) (scl_Amount p4)"
  "encodeHomeDisbursementAuthorized p5 = Inr b \<Longrightarrow> reads_value HOME_DISBURSEMENT_AUTHORIZED_V1 b (hda_WrappedToken p5) (hda_Amount p5)"
  "encodeSatelliteDisbursementSettled p6 = Inr b \<Longrightarrow> reads_value SATELLITE_DISBURSEMENT_SETTLED_V1 b (sds_WrappedToken p6) (sds_Amount p6)"
  "encodeSatelliteRepaymentBurned p7 = Inr b \<Longrightarrow> reads_value SATELLITE_REPAYMENT_BURNED_V1 b (srb_WrappedToken p7) (srb_Amount p7)"
  "encodeHomeCollateralReleaseAuthorized p8 = Inr b \<Longrightarrow> reads_value HOME_COLLATERAL_RELEASE_AUTHORIZED_V1 b (hcr_CollateralToken p8) (hcr_Amount p8)"
  "encodeSatelliteCollateralReleased p9 = Inr b \<Longrightarrow> reads_value SATELLITE_COLLATERAL_RELEASED_V1 b (scr_CollateralToken p9) (scr_Amount p9)"
  "encodeSatelliteUftPermanentBurned p10 = Inr b \<Longrightarrow> reads_value SATELLITE_UFT_PERMANENT_BURNED_V1 b (spb_WrappedToken p10) (spb_Amount p10)"
  unfolding encode_defs reads_value_def
  by - ((rule impI, erule encodeStatic_economics, rule layouts); auto)+

lemma encodes_economics:
  assumes "encodes t a b" "action_value a = Some (tok, amt)"
  shows "reads_value t b tok amt"
  using assms by (cases rule: encodes.cases) (auto simp: payload_economics)

lemma encodes_no_value:
  assumes "encodes t a b" "action_value a = None"
  shows "\<not> isOK (decodeActionEconomics (action_byte t) b)"
  using assms by (cases rule: encodes.cases) (simp_all add: decodeActionEconomics_def layouts)

lemma sealed_sample_action:
  "en_TypedAction (sealed_sample n x) = CanonicalUftLock sample_lock"
  "en_ActionType (sealed_sample n x) = CANONICAL_UFT_LOCKED_V1"
  by (auto simp: sealed_sample_def BindTypedActionABI_def Seal_def sample_message_def ebind_Inr_iff Let_def
      split: sum.splits)

section \<open>Claim\<close>

text \<open>
  C35: From the payload of a valid message the recovery reads exactly what the message moves: for every
  action that moves value, the token of the action (its address in lower-case hexadecimal) and the
  amount in the action's own decimal text, provided the token is not the zero address, which the
  recovery refuses; for the two cancellation messages it reads nothing.
\<close>

theorem recovery_reads_message_value:
  assumes "ValidateEnvelope E e = Inr ()"
  shows "case action_value (en_TypedAction e) of
      Some (tok, amt) \<Rightarrow> tok \<noteq> replicate 20 0 \<longrightarrow>
        decodeActionEconomics (action_byte (en_ActionType e)) (en_TypedActionPayload e) =
          Inr \<lparr>ec_AssetID = ''0x'' @ hex tok, ec_Units = amt, ec_Recipient = []\<rparr>
    | None \<Rightarrow> \<not> isOK (decodeActionEconomics (action_byte (en_ActionType e)) (en_TypedActionPayload e))"
proof -
  have "encodes (en_ActionType e) (en_TypedAction e) (en_TypedActionPayload e)"
    using assms by (simp add: ValidateEnvelope_Inr payload_bound_def)
  from encodes_economics[OF this] encodes_no_value[OF this] show ?thesis
    by (auto simp: reads_value_def split: option.splits)
qed

theorem recovery_reads_message_value_witness:
  "decodeActionEconomics 1 (en_TypedActionPayload (sealed_sample 1 200)) =
     Inr \<lparr>ec_AssetID = ''0x'' @ hex (bytes_of 20 3), ec_Units = ''1000'', ec_Recipient = []\<rparr>"
proof -
  have "bytes_of 20 3 \<noteq> replicate 20 0" by code_simp
  then show ?thesis
    using recovery_reads_message_value[OF sealed_sample_valid(1)] sealed_sample_action[of 1 200]
    by (simp add: sample_lock_def action_byte_def)
qed

end
