(* ===== verification/Loan_Accounting.thy ===== *)
theory Loan_Accounting
  imports Accounting_Service
begin

text \<open>
  Loan accounting, \<^verbatim>\<open>foundation-ledger/internal/loanaccounting/accounting.go\<close>: the journals of loan
  activation, principal repayment and liquidation settlement.
\<close>

section \<open>Data\<close>

datatype loan_error = ErrInvalidLoanEvent

definition AccountPrincipalReceivable :: string where "AccountPrincipalReceivable = ''1310''"
definition AccountProtocolSettlementAsset :: string where "AccountProtocolSettlementAsset = ''1220''"
definition AccountLenderPrincipalClaims :: string where "AccountLenderPrincipalClaims = ''2310''"
definition AccountOriginationFeeRevenue :: string where "AccountOriginationFeeRevenue = ''4100''"
definition AccountLiquidationFeeRevenue :: string where "AccountLiquidationFeeRevenue = ''4110''"

lemmas loan_accounts = AccountPrincipalReceivable_def AccountProtocolSettlementAsset_def
  AccountLenderPrincipalClaims_def AccountOriginationFeeRevenue_def AccountLiquidationFeeRevenue_def

record Activation =
  ac_EventID :: string
  ac_LoanID :: string
  ac_BorrowerID :: string
  ac_LenderID :: string
  ac_AssetID :: string
  ac_PrincipalUnits :: string
  ac_OriginationFeeUnits :: string
  ac_CorrelationID :: string
  ac_EvidenceHash :: string
  ac_Finality :: string
  ac_EffectiveAt :: gotime

record PrincipalRepayment =
  pr_EventID :: string
  pr_PaymentID :: string
  pr_LoanID :: string
  pr_BorrowerID :: string
  pr_LenderID :: string
  pr_AssetID :: string
  pr_Units :: string
  pr_CorrelationID :: string
  pr_EvidenceHash :: string
  pr_Finality :: string
  pr_EffectiveAt :: gotime

record LiquidationSettlement =
  lq_EventID :: string
  lq_LiquidationID :: string
  lq_LoanID :: string
  lq_BorrowerID :: string
  lq_LenderID :: string
  lq_AssetID :: string
  lq_GrossProceedsUnits :: string
  lq_ExecutionCostsUnits :: string
  lq_LiquidationIncentiveUnits :: string
  lq_SecuredClaimPaidUnits :: string
  lq_BorrowerSurplusUnits :: string
  lq_DebtBeforeUnits :: string
  lq_ResidualBadDebtUnits :: string
  lq_CorrelationID :: string
  lq_EvidenceHash :: string
  lq_Finality :: string
  lq_EffectiveAt :: gotime

text \<open>The journal literal of this service: the fields that vary, the others fixed or empty.\<close>

definition loan_journal ::
  "string \<Rightarrow> string \<Rightarrow> string \<Rightarrow> string \<Rightarrow> string \<Rightarrow> string \<Rightarrow> string \<Rightarrow> gotime \<Rightarrow> string \<Rightarrow> Entry list
     \<Rightarrow> Journal" where
  "loan_journal journalID bookID entryType eventID loanID key correlationID effectiveAt evidence es =
     \<lparr>j_ID = journalID, j_LegalEntityID = ''unified-protocol'', j_BookID = bookID,
      j_SourceSystem = ''chain-indexer'', j_EntryType = entryType, j_SourceEventID = eventID,
      j_LoanID = loanID, j_IdempotencyKey = key, j_CorrelationID = correlationID,
      j_EffectiveAt = effectiveAt, j_Entries = es, j_EvidenceHash = evidence, j_ReversalOf = [],
      j_Reason = []\<rparr>"

lemma loan_journal_Entries [simp]: "j_Entries (loan_journal i b t e n k c f h es) = es"
  by (simp add: loan_journal_def)

section \<open>Activation\<close>

definition activation_journals :: "Activation \<Rightarrow> loan_error + Journal list" where
  "activation_journals ev =
     (if ac_EventID ev = [] \<or> ac_LoanID ev = [] \<or> ac_BorrowerID ev = [] \<or> ac_LenderID ev = [] \<or>
         ac_AssetID ev = [] \<or> ac_PrincipalUnits ev = [] \<or> ac_CorrelationID ev = [] \<or>
         ac_EvidenceHash ev = [] \<or> ac_Finality ev \<noteq> ''FINAL'' \<or> ac_EffectiveAt ev = 0
      then Inl ErrInvalidLoanEvent
      else
        let obligation = loan_journal (''activation:'' @ ac_LoanID ev) ''loan-subledger''
              ''LOAN_ACTIVATION'' (ac_EventID ev) (ac_LoanID ev) (ac_EventID ev @ '':obligation'')
              (ac_CorrelationID ev) (ac_EffectiveAt ev) (ac_EvidenceHash ev)
              [mk_entry AccountPrincipalReceivable Debit (ac_AssetID ev) (ac_PrincipalUnits ev)
                 (ac_BorrowerID ev) (ac_LoanID ev),
               mk_entry AccountLenderPrincipalClaims Credit (ac_AssetID ev) (ac_PrincipalUnits ev)
                 (ac_LenderID ev) (ac_LoanID ev)];
            fee = loan_journal (''origination-fee:'' @ ac_LoanID ev) ''general-ledger''
              ''ORIGINATION_FEE_SETTLED'' (ac_EventID ev) (ac_LoanID ev) (ac_EventID ev @ '':fee'')
              (ac_CorrelationID ev) (ac_EffectiveAt ev) (ac_EvidenceHash ev)
              [mk_entry AccountProtocolSettlementAsset Debit (ac_AssetID ev)
                 (ac_OriginationFeeUnits ev) [] (ac_LoanID ev),
               mk_entry AccountOriginationFeeRevenue Credit (ac_AssetID ev)
                 (ac_OriginationFeeUnits ev) [] (ac_LoanID ev)]
        in if ac_OriginationFeeUnits ev = [] \<or> ac_OriginationFeeUnits ev = ''0''
           then Inr [obligation] else Inr [obligation, fee])"

definition PostActivation ::
  "journal_hash \<Rightarrow> gotime \<Rightarrow> Ledger \<Rightarrow> Activation
     \<Rightarrow> (loan_error service_error + PostedJournal list) \<times> Ledger" where
  "PostActivation H = post_batch_of H activation_journals"

section \<open>Repayment\<close>

definition repayment_journal :: "PrincipalRepayment \<Rightarrow> loan_error + Journal" where
  "repayment_journal ev =
     (if pr_EventID ev = [] \<or> pr_PaymentID ev = [] \<or> pr_LoanID ev = [] \<or> pr_BorrowerID ev = [] \<or>
         pr_LenderID ev = [] \<or> pr_AssetID ev = [] \<or> pr_Units ev = [] \<or> pr_CorrelationID ev = [] \<or>
         pr_EvidenceHash ev = [] \<or> pr_Finality ev \<noteq> ''FINAL'' \<or> pr_EffectiveAt ev = 0
      then Inl ErrInvalidLoanEvent
      else Inr (loan_journal (''repayment:'' @ pr_PaymentID ev) ''loan-subledger''
              ''PRINCIPAL_REPAID'' (pr_EventID ev) (pr_LoanID ev) (pr_EventID ev)
              (pr_CorrelationID ev) (pr_EffectiveAt ev) (pr_EvidenceHash ev)
              [mk_entry AccountLenderPrincipalClaims Debit (pr_AssetID ev) (pr_Units ev)
                 (pr_LenderID ev) (pr_LoanID ev),
               mk_entry AccountPrincipalReceivable Credit (pr_AssetID ev) (pr_Units ev)
                 (pr_BorrowerID ev) (pr_LoanID ev)]))"

definition PostPrincipalRepayment ::
  "journal_hash \<Rightarrow> gotime \<Rightarrow> Ledger \<Rightarrow> PrincipalRepayment
     \<Rightarrow> (loan_error service_error + PostedJournal) \<times> Ledger" where
  "PostPrincipalRepayment H = post_one_of H repayment_journal"

section \<open>Liquidation\<close>

text \<open>\<open>nonNegativeInteger\<close> of this package also accepts a sign and leading zeros.\<close>

definition loan_nonNegativeInteger :: "string \<Rightarrow> int option" where
  "loan_nonNegativeInteger s =
     (case big_set_string s of None \<Rightarrow> None | Some i \<Rightarrow> if 0 \<le> i then Some i else None)"

definition liquidation_amounts ::
  "LiquidationSettlement \<Rightarrow> (int \<times> int \<times> int \<times> int \<times> int \<times> int \<times> int) option" where
  "liquidation_amounts ev =
     (case (loan_nonNegativeInteger (lq_GrossProceedsUnits ev),
            loan_nonNegativeInteger (lq_ExecutionCostsUnits ev),
            loan_nonNegativeInteger (lq_LiquidationIncentiveUnits ev),
            loan_nonNegativeInteger (lq_SecuredClaimPaidUnits ev),
            loan_nonNegativeInteger (lq_BorrowerSurplusUnits ev),
            loan_nonNegativeInteger (lq_DebtBeforeUnits ev),
            loan_nonNegativeInteger (lq_ResidualBadDebtUnits ev)) of
        (Some gross, Some costs, Some incentive, Some secured, Some surplus, Some debtBefore,
         Some badDebt) \<Rightarrow>
          if gross = 0 \<or> gross \<noteq> costs + incentive + secured + surplus \<or>
             debtBefore \<noteq> secured + badDebt
          then None else Some (gross, costs, incentive, secured, surplus, debtBefore, badDebt)
      | _ \<Rightarrow> None)"

definition liquidation_journals :: "LiquidationSettlement \<Rightarrow> loan_error + Journal list" where
  "liquidation_journals ev =
     (if lq_EventID ev = [] \<or> lq_LiquidationID ev = [] \<or> lq_LoanID ev = [] \<or>
         lq_BorrowerID ev = [] \<or> lq_LenderID ev = [] \<or> lq_AssetID ev = [] \<or>
         lq_CorrelationID ev = [] \<or> lq_EvidenceHash ev = [] \<or> lq_Finality ev \<noteq> ''FINAL'' \<or>
         lq_EffectiveAt ev = 0
      then Inl ErrInvalidLoanEvent
      else case liquidation_amounts ev of
        None \<Rightarrow> Inl ErrInvalidLoanEvent
      | Some (gross, costs, incentive, secured, surplus, debtBefore, badDebt) \<Rightarrow>
          Inr ((if secured \<noteq> 0 then
                  [loan_journal (''liquidation-recovery:'' @ lq_LiquidationID ev) ''loan-subledger''
                     ''LIQUIDATION_PRINCIPAL_RECOVERY'' (lq_EventID ev) (lq_LoanID ev)
                     (lq_EventID ev @ '':principal'') (lq_CorrelationID ev) (lq_EffectiveAt ev)
                     (lq_EvidenceHash ev)
                     [mk_entry AccountLenderPrincipalClaims Debit (lq_AssetID ev)
                        (lq_SecuredClaimPaidUnits ev) (lq_LenderID ev) (lq_LoanID ev),
                      mk_entry AccountPrincipalReceivable Credit (lq_AssetID ev)
                        (lq_SecuredClaimPaidUnits ev) (lq_BorrowerID ev) (lq_LoanID ev)]]
                else []) @
               (if costs \<noteq> 0 then
                  [loan_journal (''liquidation-cost:'' @ lq_LiquidationID ev) ''general-ledger''
                     ''LIQUIDATION_COST_RECOVERED'' (lq_EventID ev) (lq_LoanID ev)
                     (lq_EventID ev @ '':cost'') (lq_CorrelationID ev) (lq_EffectiveAt ev)
                     (lq_EvidenceHash ev)
                     [mk_entry AccountProtocolSettlementAsset Debit (lq_AssetID ev)
                        (lq_ExecutionCostsUnits ev) [] (lq_LoanID ev),
                      mk_entry AccountLiquidationFeeRevenue Credit (lq_AssetID ev)
                        (lq_ExecutionCostsUnits ev) [] (lq_LoanID ev)]]
                else [])))"

definition PostLiquidationSettlement ::
  "journal_hash \<Rightarrow> gotime \<Rightarrow> Ledger \<Rightarrow> LiquidationSettlement
     \<Rightarrow> (loan_error service_error + PostedJournal list) \<times> Ledger" where
  "PostLiquidationSettlement H = post_batch_of H liquidation_journals"

section \<open>The service as an event handler\<close>

datatype loan_event =
    Activated Activation | Repaid PrincipalRepayment | Liquidated LiquidationSettlement

fun loan_handle ::
  "journal_hash \<Rightarrow> gotime \<Rightarrow> Ledger \<Rightarrow> loan_event
     \<Rightarrow> (loan_error service_error + PostedJournal list) \<times> Ledger" where
  "loan_handle H now l (Activated ev) = PostActivation H now l ev"
| "loan_handle H now l (Repaid ev) =
     as_list (PostPrincipalRepayment H now l ev)"
| "loan_handle H now l (Liquidated ev) = PostLiquidationSettlement H now l ev"

lemmas loan_ops = PostActivation_def PostPrincipalRepayment_def PostLiquidationSettlement_def

interpretation loan: accounting_service "loan_handle H" "ledger_inv H" extends for H
proof (unfold_locales, goal_cases)
  case (1 now l ev e l')
  then show ?case
    by (cases ev) (auto simp: loan_ops dest: batch_service.book_error single_service.book_error)
next
  case (2 l now ev r l')
  then show ?case
    by (cases ev) (auto simp: loan_ops elim!: as_listE
        dest: batch_service.book_good single_service.book_good)
next
  case (3 now l ev r l')
  then show ?case
    by (cases ev) (auto simp: loan_ops elim!: as_listE
        dest: batch_service.book_later single_service.book_later)
next
  case (4 l now ev x l' l'' now')
  then show ?case
    by (cases ev) (auto simp: loan_ops intro: batch_service.book_again single_service.book_again)
qed (auto intro: extends_trans)

section \<open>Principal receivable and lender claims\<close>

definition loan_principal :: "string \<Rightarrow> string \<Rightarrow> Entry \<Rightarrow> bool" where
  "loan_principal loan asset e \<longleftrightarrow>
     (e_AccountCode e = AccountPrincipalReceivable \<or> e_AccountCode e = AccountLenderPrincipalClaims) \<and>
     e_LoanID e = loan \<and> e_AssetID e = asset"

abbreviation mirrors :: "string \<Rightarrow> string \<Rightarrow> Journal \<Rightarrow> bool" where
  "mirrors loan asset j \<equiv> net_where (loan_principal loan asset) (j_Entries j) = 0"

lemma loan_journals_mirror:
  "activation_journals a = Inr js \<Longrightarrow> \<forall>j \<in> set js. mirrors loan asset j"
  "repayment_journal p = Inr j \<Longrightarrow> mirrors loan asset j"
  "liquidation_journals q = Inr js \<Longrightarrow> \<forall>j \<in> set js. mirrors loan asset j"
  by (auto simp: activation_journals_def repayment_journal_def liquidation_journals_def
      loan_principal_def loan_accounts Let_def split: if_splits option.splits prod.splits)

lemma loan_handle_mirrors:
  "loan_handle H now l ev = (r, l') \<Longrightarrow> all_journals (mirrors loan asset) l \<Longrightarrow>
   all_journals (mirrors loan asset) l'"
  by (cases ev)
     (auto simp: loan_ops elim!: as_listE
        intro: post_batch_of_all[OF _ _ loan_journals_mirror(1)]
          post_one_of_all[OF _ _ loan_journals_mirror(2)]
          post_batch_of_all[OF _ _ loan_journals_mirror(3)])

inductive loan_step :: "journal_hash \<Rightarrow> Ledger \<Rightarrow> Ledger \<Rightarrow> bool" for H where
  "loan_handle H now l ev = (r, l') \<Longrightarrow> loan_step H l l'"

interpretation loan_mirror: kept_invariant "\<lambda>l. l = ledger_New" "loan_step H"
  "all_journals (mirrors loan asset)" for H loan asset
  by unfold_locales (auto elim!: loan_step.cases intro: loan_handle_mirrors)

lemma liquidation_amounts_iff:
  "liquidation_amounts ev = Some (gross, costs, incentive, secured, surplus, debtBefore, badDebt) \<longleftrightarrow>
     big_set_string (lq_GrossProceedsUnits ev) = Some gross \<and>
     big_set_string (lq_ExecutionCostsUnits ev) = Some costs \<and>
     big_set_string (lq_LiquidationIncentiveUnits ev) = Some incentive \<and>
     big_set_string (lq_SecuredClaimPaidUnits ev) = Some secured \<and>
     big_set_string (lq_BorrowerSurplusUnits ev) = Some surplus \<and>
     big_set_string (lq_DebtBeforeUnits ev) = Some debtBefore \<and>
     big_set_string (lq_ResidualBadDebtUnits ev) = Some badDebt \<and>
     0 < gross \<and> 0 \<le> costs \<and> 0 \<le> incentive \<and> 0 \<le> secured \<and> 0 \<le> surplus \<and> 0 \<le> badDebt \<and>
     gross = costs + incentive + secured + surplus \<and> debtBefore = secured + badDebt"
  (is "?L \<longleftrightarrow> ?R")
proof
  assume ?L
  then show ?R
    by (auto simp: liquidation_amounts_def loan_nonNegativeInteger_def split: option.splits if_splits)
next
  assume ?R
  then show ?L by (simp add: liquidation_amounts_def loan_nonNegativeInteger_def)
qed

section \<open>A concrete loan\<close>

definition sample_activation :: Activation where
  "sample_activation = \<lparr>ac_EventID = ''E1'', ac_LoanID = ''L1'', ac_BorrowerID = ''B'', ac_LenderID = ''N'',
     ac_AssetID = ''USD'', ac_PrincipalUnits = ''90'', ac_OriginationFeeUnits = ''0'',
     ac_CorrelationID = ''C'', ac_EvidenceHash = ''H'', ac_Finality = ''FINAL'', ac_EffectiveAt = 3\<rparr>"

definition sample_liquidation :: LiquidationSettlement where
  "sample_liquidation = \<lparr>lq_EventID = ''E2'', lq_LiquidationID = ''Q1'', lq_LoanID = ''L1'',
     lq_BorrowerID = ''B'', lq_LenderID = ''N'', lq_AssetID = ''USD'', lq_GrossProceedsUnits = ''60'',
     lq_ExecutionCostsUnits = ''5'', lq_LiquidationIncentiveUnits = ''5'',
     lq_SecuredClaimPaidUnits = ''50'', lq_BorrowerSurplusUnits = ''0'', lq_DebtBeforeUnits = ''90'',
     lq_ResidualBadDebtUnits = ''40'', lq_CorrelationID = ''C'', lq_EvidenceHash = ''H'',
     lq_Finality = ''FINAL'', lq_EffectiveAt = 4\<rparr>"

lemmas post_eval = post_batch_of_def post_one_of_def lift_ledger_def PostBatch_def Post_def
  postValidated_def ledger_New_def sample_eval mk_entry_def Let_def

lemma sample_activation_books:
  "\<exists>p l. loan_handle sample_hash 5 ledger_New (Activated sample_activation) = (Inr [p], l)"
  by (simp add: PostActivation_def activation_journals_def sample_activation_def loan_journal_def
      loan_accounts post_eval)

lemma sample_liquidation_books:
  "\<exists>p q l. PostLiquidationSettlement sample_hash 5 ledger_New sample_liquidation = (Inr [p, q], l)"
  by (simp add: PostLiquidationSettlement_def liquidation_journals_def liquidation_amounts_def
      loan_nonNegativeInteger_def sample_liquidation_def loan_journal_def loan_accounts post_eval)

section \<open>Properties\<close>

text \<open>
  C11: the loan subledger is mirrored. Whatever activations, repayments and liquidations are
  processed, and whichever of them fail, what borrowers owe on a loan (account 1310) and what lenders can
  claim on it (account 2310) cancel out, loan by loan and asset by asset.
\<close>

theorem loan_subledger_mirrors:
  assumes "reachable (\<lambda>l. l = ledger_New) (loan_step H) l"
  shows "ledger_net (loan_principal loan asset) l = 0"
  using all_journals_net_zero[OF loan_mirror.always[OF assms]] .

theorem loan_subledger_mirrors_witness:
  "\<exists>p l. loan_handle sample_hash 5 ledger_New (Activated sample_activation) = (Inr [p], l) \<and>
     ledger_net (loan_principal ''L1'' ''USD'') l = 0"
proof -
  obtain p l where r: "loan_handle sample_hash 5 ledger_New (Activated sample_activation) = (Inr [p], l)"
    using sample_activation_books by blast
  have "reachable (\<lambda>l. l = ledger_New) (loan_step sample_hash) l"
    by (rule reach_step[OF reach_init]) (auto intro: loan_step.intros[OF r])
  with r loan_subledger_mirrors show ?thesis by blast
qed

text \<open>
  loan events are booked exactly once. When an event of a well-formed ledger is booked, then
  after any further deliveries of any events, delivering it again returns the journals of the first
  booking and leaves the ledger as it is.
\<close>

theorem loan_event_exactly_once:
  assumes "ledger_reachable H l" and "loan_handle H now l ev = (Inr ps, l')"
  shows "loan_handle H now' (deliver (loan_handle H) evs l') ev =
     (Inr ps, deliver (loan_handle H) evs l')"
  using led.always[OF assms(1)] assms(2) by (rule loan.exactly_once)

theorem loan_event_exactly_once_witness:
  "\<exists>p l. loan_handle sample_hash 5 ledger_New (Activated sample_activation) = (Inr [p], l) \<and>
     loan_handle sample_hash 9 (deliver (loan_handle sample_hash) [(6, Liquidated sample_liquidation)] l)
       (Activated sample_activation) =
     (Inr [p], deliver (loan_handle sample_hash) [(6, Liquidated sample_liquidation)] l)"
  using sample_activation_books loan_event_exactly_once[OF reach_init] by blast

text \<open>
  the liquidation waterfall is conserved. A liquidation is booked only if the gross proceeds
  equal costs, incentive, secured claim and borrower surplus together and the debt equals secured claim
  and residual bad debt; the booking lowers the borrower's receivable and raises the
  protocol's settlement asset by exactly the secured claim and the execution costs.
\<close>

theorem liquidation_conserves:
  assumes "ledger_reachable H l" and "PostLiquidationSettlement H now l ev = (Inr ps, l')"
  shows "\<exists>gross costs incentive secured surplus debt bad js.
     liquidation_amounts ev = Some (gross, costs, incentive, secured, surplus, debt, bad) \<and>
     gross = costs + incentive + secured + surplus \<and> debt = secured + bad \<and>
     liquidation_journals ev = Inr js \<and> list_all2 (recorded H l') js ps \<and>
     (\<Sum>j\<leftarrow>js. net_where (\<lambda>e. e_AccountCode e = AccountPrincipalReceivable) (j_Entries j)) = - secured \<and>
     (\<Sum>j\<leftarrow>js. net_where (\<lambda>e. e_AccountCode e = AccountProtocolSettlementAsset) (j_Entries j)) = costs"
proof -
  from assms(2) obtain js where js: "liquidation_journals ev = Inr js"
    "js = [] \<and> ps = [] \<or> PostBatch H now l js = (Inr ps, l')"
    by (auto simp: PostLiquidationSettlement_def post_batch_of_def split: sum.splits if_splits)
  then obtain gross costs incentive secured surplus debt bad where
    a: "liquidation_amounts ev = Some (gross, costs, incentive, secured, surplus, debt, bad)"
    by (auto simp: liquidation_journals_def split: if_splits option.splits prod.splits)
  have "list_all2 (recorded H l') js ps"
    using js(2) book.batch_recorded[OF led.always[OF assms(1)]] by auto
  moreover have
    "(\<Sum>j\<leftarrow>js. net_where (\<lambda>e. e_AccountCode e = AccountPrincipalReceivable) (j_Entries j)) = - secured"
    "(\<Sum>j\<leftarrow>js. net_where (\<lambda>e. e_AccountCode e = AccountProtocolSettlementAsset) (j_Entries j)) = costs"
    using js(1) a a[unfolded liquidation_amounts_iff]
    by (auto simp: liquidation_journals_def loan_accounts split: if_splits)
  ultimately show ?thesis using js(1) a a[unfolded liquidation_amounts_iff] by blast
qed

theorem liquidation_conserves_witness:
  "\<exists>gross costs incentive secured surplus debt bad.
     liquidation_amounts sample_liquidation =
       Some (gross, costs, incentive, secured, surplus, debt, bad) \<and>
     gross = costs + incentive + secured + surplus \<and> debt = secured + bad"
proof -
  obtain p q l where
    "PostLiquidationSettlement sample_hash 5 ledger_New sample_liquidation = (Inr [p, q], l)"
    using sample_liquidation_books by blast
  from liquidation_conserves[OF reach_init this] show ?thesis by blast
qed

end
