(* ===== verification/Syndicate_Accounting.thy ===== *)
theory Syndicate_Accounting
  imports Loan_Accounting
begin

text \<open>
  Syndicate accounting, \<^verbatim>\<open>foundation-ledger/internal/syndicateaccounting/accounting.go\<close>: funding
  commitments, activation with the lenders' positions, refunds, distributions over positions and position
  transfers. The settlement, receivable and claims accounts are those of \<open>Loan_Accounting\<close>.
\<close>

section \<open>Data\<close>

datatype syndicate_error = ErrInvalidSyndicateEvent

definition AccountFundingCommitments :: string where "AccountFundingCommitments = ''2320''"

lemmas syndicate_accounts = loan_accounts AccountFundingCommitments_def

record BaseEvent =
  b_EventID :: string
  b_LoanID :: string
  b_AssetID :: string
  b_CorrelationID :: string
  b_EvidenceHash :: string
  b_Finality :: string
  b_EffectiveAt :: gotime

record Commitment = BaseEvent +
  cm_CommitmentID :: string
  cm_LenderID :: string
  cm_Units :: string

text \<open>\<open>PositionRight\<close> and \<open>Allocation\<close> are two structs with the same fields.\<close>

record PositionRight =
  ps_PositionID :: string
  ps_TrancheID :: string
  ps_OwnerID :: string
  ps_Units :: string

record SyndicateActivation = BaseEvent +
  sa_BorrowerID :: string
  sa_Units :: string
  sa_Positions :: "PositionRight list"

record Refund = BaseEvent +
  rf_CommitmentID :: string
  rf_LenderID :: string
  rf_Units :: string

record Distribution = BaseEvent +
  di_PaymentID :: string
  di_BorrowerID :: string
  di_Units :: string
  di_Allocations :: "PositionRight list"

record PositionTransfer = BaseEvent +
  pt_TransferID :: string
  pt_PositionID :: string
  pt_SellerID :: string
  pt_BuyerID :: string
  pt_TrancheID :: string
  pt_ShareUnits :: string
  pt_ClaimUnits :: string
  pt_CutoffBlock :: "64 word"

section \<open>Checks\<close>

definition validBase :: "'a BaseEvent_scheme \<Rightarrow> bool" where
  "validBase ev \<longleftrightarrow>
     b_EventID ev \<noteq> [] \<and> b_LoanID ev \<noteq> [] \<and> b_AssetID ev \<noteq> [] \<and> b_CorrelationID ev \<noteq> [] \<and>
     b_EvidenceHash ev \<noteq> [] \<and> b_Finality ev = ''FINAL'' \<and> b_EffectiveAt ev \<noteq> 0"

definition positive_units :: "string \<Rightarrow> bool" where
  "positive_units s = (case big_set_string s of None \<Rightarrow> False | Some i \<Rightarrow> 0 < i)"

definition syndicate_journal ::
  "'a BaseEvent_scheme \<Rightarrow> string \<Rightarrow> string \<Rightarrow> string \<Rightarrow> Entry list \<Rightarrow> Journal" where
  "syndicate_journal ev journalID entryType key es =
     \<lparr>j_ID = journalID, j_LegalEntityID = ''unified-protocol'', j_BookID = ''syndicate-subledger'',
      j_SourceSystem = ''chain-indexer'', j_EntryType = entryType, j_SourceEventID = b_EventID ev,
      j_LoanID = b_LoanID ev, j_IdempotencyKey = key, j_CorrelationID = b_CorrelationID ev,
      j_EffectiveAt = b_EffectiveAt ev, j_Entries = es, j_EvidenceHash = b_EvidenceHash ev,
      j_ReversalOf = [], j_Reason = []\<rparr>"

section \<open>Commitments and refunds\<close>

definition commitment_journal :: "Commitment \<Rightarrow> syndicate_error + Journal" where
  "commitment_journal ev =
     (if \<not> validBase ev \<or> cm_CommitmentID ev = [] \<or> cm_LenderID ev = [] \<or> \<not> positive_units (cm_Units ev)
      then Inl ErrInvalidSyndicateEvent
      else Inr (syndicate_journal ev (''syndicate-commitment:'' @ cm_CommitmentID ev)
              ''SYNDICATE_COMMITMENT_FUNDED'' (b_EventID ev)
              [mk_entry AccountProtocolSettlementAsset Debit (b_AssetID ev) (cm_Units ev) []
                 (b_LoanID ev),
               mk_entry AccountFundingCommitments Credit (b_AssetID ev) (cm_Units ev)
                 (cm_LenderID ev) (b_LoanID ev)]))"

definition refund_journal :: "Refund \<Rightarrow> syndicate_error + Journal" where
  "refund_journal ev =
     (if \<not> validBase ev \<or> rf_CommitmentID ev = [] \<or> rf_LenderID ev = [] \<or> \<not> positive_units (rf_Units ev)
      then Inl ErrInvalidSyndicateEvent
      else Inr (syndicate_journal ev (''syndicate-refund:'' @ rf_CommitmentID ev)
              ''SYNDICATE_COMMITMENT_REFUNDED'' (b_EventID ev)
              [mk_entry AccountFundingCommitments Debit (b_AssetID ev) (rf_Units ev)
                 (rf_LenderID ev) (b_LoanID ev),
               mk_entry AccountProtocolSettlementAsset Credit (b_AssetID ev) (rf_Units ev) []
                 (b_LoanID ev)]))"

section \<open>Positions\<close>

text \<open>
  The loop over positions or allocations: the claim entries on the given side, and the sum of their
  units, or nothing if one of them is malformed.
\<close>

fun claim_entries ::
  "Side \<Rightarrow> 'a BaseEvent_scheme \<Rightarrow> PositionRight list \<Rightarrow> (Entry list \<times> int) option" where
  "claim_entries sd ev [] = Some ([], 0)"
| "claim_entries sd ev (p # ps) =
     (case big_set_string (ps_Units p) of
        None \<Rightarrow> None
      | Some units \<Rightarrow>
          if ps_PositionID p = [] \<or> ps_TrancheID p = [] \<or> ps_OwnerID p = [] \<or> units \<le> 0 then None
          else case claim_entries sd ev ps of
            None \<Rightarrow> None
          | Some (es, allocated) \<Rightarrow>
              Some ((mk_entry AccountLenderPrincipalClaims sd (b_AssetID ev) (ps_Units p)
                       (ps_OwnerID p) (b_LoanID ev))\<lparr>e_TrancheID := ps_TrancheID p\<rparr> # es,
                    units + allocated))"

definition activatedClaimEntries :: "SyndicateActivation \<Rightarrow> syndicate_error + Entry list" where
  "activatedClaimEntries ev =
     (case claim_entries Credit ev (sa_Positions ev) of
        None \<Rightarrow> Inl ErrInvalidSyndicateEvent
      | Some (es, allocated) \<Rightarrow>
          if allocated \<noteq> the_default 0 (big_set_string (sa_Units ev))
          then Inl ErrInvalidSyndicateEvent
          else Inr (mk_entry AccountFundingCommitments Debit (b_AssetID ev) (sa_Units ev) []
                      (b_LoanID ev) # es))"

definition syndicate_activation_journals :: "SyndicateActivation \<Rightarrow> syndicate_error + Journal list" where
  "syndicate_activation_journals ev =
     (if \<not> validBase ev \<or> sa_BorrowerID ev = [] \<or> \<not> positive_units (sa_Units ev) \<or>
         sa_Positions ev = []
      then Inl ErrInvalidSyndicateEvent
      else ebind (activatedClaimEntries ev) (\<lambda>claimEntries.
        Inr [syndicate_journal ev (''syndicate-disbursement:'' @ b_LoanID ev)
               ''SYNDICATE_PRINCIPAL_DISBURSED'' (b_EventID ev @ '':disbursement'')
               [mk_entry AccountPrincipalReceivable Debit (b_AssetID ev) (sa_Units ev)
                  (sa_BorrowerID ev) (b_LoanID ev),
                mk_entry AccountProtocolSettlementAsset Credit (b_AssetID ev) (sa_Units ev) []
                  (b_LoanID ev)],
             syndicate_journal ev (''syndicate-rights:'' @ b_LoanID ev)
               ''SYNDICATE_RIGHTS_ACTIVATED'' (b_EventID ev @ '':rights'') claimEntries]))"

definition distribution_journal :: "Distribution \<Rightarrow> syndicate_error + Journal" where
  "distribution_journal ev =
     (if \<not> validBase ev \<or> di_PaymentID ev = [] \<or> di_BorrowerID ev = [] \<or>
         \<not> positive_units (di_Units ev) \<or> di_Allocations ev = []
      then Inl ErrInvalidSyndicateEvent
      else case claim_entries Debit ev (di_Allocations ev) of
        None \<Rightarrow> Inl ErrInvalidSyndicateEvent
      | Some (es, allocated) \<Rightarrow>
          if allocated \<noteq> the_default 0 (big_set_string (di_Units ev))
          then Inl ErrInvalidSyndicateEvent
          else Inr (syndicate_journal ev (''syndicate-distribution:'' @ di_PaymentID ev)
                  ''SYNDICATE_PRINCIPAL_DISTRIBUTED'' (b_EventID ev)
                  (es @ [mk_entry AccountPrincipalReceivable Credit (b_AssetID ev) (di_Units ev)
                           (di_BorrowerID ev) (b_LoanID ev)])))"

definition transfer_journal :: "PositionTransfer \<Rightarrow> syndicate_error + Journal" where
  "transfer_journal ev =
     (if \<not> validBase ev \<or> pt_TransferID ev = [] \<or> pt_PositionID ev = [] \<or> pt_SellerID ev = [] \<or>
         pt_BuyerID ev = [] \<or> pt_TrancheID ev = [] \<or> pt_SellerID ev = pt_BuyerID ev \<or>
         pt_CutoffBlock ev = 0 \<or> \<not> positive_units (pt_ShareUnits ev) \<or>
         \<not> positive_units (pt_ClaimUnits ev)
      then Inl ErrInvalidSyndicateEvent
      else Inr (syndicate_journal ev (''position-transfer:'' @ pt_TransferID ev)
              ''LENDER_POSITION_TRANSFERRED'' (b_EventID ev)
              [(mk_entry AccountLenderPrincipalClaims Debit (b_AssetID ev) (pt_ClaimUnits ev)
                  (pt_SellerID ev) (b_LoanID ev))\<lparr>e_TrancheID := pt_TrancheID ev\<rparr>,
               (mk_entry AccountLenderPrincipalClaims Credit (b_AssetID ev) (pt_ClaimUnits ev)
                  (pt_BuyerID ev) (b_LoanID ev))\<lparr>e_TrancheID := pt_TrancheID ev\<rparr>]))"

section \<open>Operations\<close>

definition PostCommitment where "PostCommitment H = post_one_of H commitment_journal"

definition PostSyndicateActivation where
  "PostSyndicateActivation H = post_batch_of H syndicate_activation_journals"

definition PostRefund where "PostRefund H = post_one_of H refund_journal"

definition PostDistribution where "PostDistribution H = post_one_of H distribution_journal"

definition PostPositionTransfer where "PostPositionTransfer H = post_one_of H transfer_journal"

lemmas syndicate_ops = PostCommitment_def PostSyndicateActivation_def PostRefund_def
  PostDistribution_def PostPositionTransfer_def

datatype syndicate_event =
    Committed Commitment | SyndicateActivated SyndicateActivation | Refunded Refund
  | Distributed Distribution | Transferred PositionTransfer

fun syndicate_handle ::
  "journal_hash \<Rightarrow> gotime \<Rightarrow> Ledger \<Rightarrow> syndicate_event
     \<Rightarrow> (syndicate_error service_error + PostedJournal list) \<times> Ledger" where
  "syndicate_handle H now l (Committed ev) = as_list (PostCommitment H now l ev)"
| "syndicate_handle H now l (SyndicateActivated ev) = PostSyndicateActivation H now l ev"
| "syndicate_handle H now l (Refunded ev) = as_list (PostRefund H now l ev)"
| "syndicate_handle H now l (Distributed ev) = as_list (PostDistribution H now l ev)"
| "syndicate_handle H now l (Transferred ev) = as_list (PostPositionTransfer H now l ev)"

fun syndicate_journals :: "syndicate_event \<Rightarrow> syndicate_error + Journal list" where
  "syndicate_journals (Committed ev) = ebind (commitment_journal ev) (\<lambda>j. Inr [j])"
| "syndicate_journals (SyndicateActivated ev) = syndicate_activation_journals ev"
| "syndicate_journals (Refunded ev) = ebind (refund_journal ev) (\<lambda>j. Inr [j])"
| "syndicate_journals (Distributed ev) = ebind (distribution_journal ev) (\<lambda>j. Inr [j])"
| "syndicate_journals (Transferred ev) = ebind (transfer_journal ev) (\<lambda>j. Inr [j])"

interpretation syndicate: accounting_service "syndicate_handle H" "ledger_inv H" extends for H
proof (unfold_locales, goal_cases)
  case (1 now l ev e l')
  then show ?case
    by (cases ev) (auto simp: syndicate_ops dest: batch_service.book_error single_service.book_error)
next
  case (2 l now ev r l')
  then show ?case
    by (cases ev) (auto simp: syndicate_ops elim!: as_listE
        dest: batch_service.book_good single_service.book_good)
next
  case (3 now l ev r l')
  then show ?case
    by (cases ev) (auto simp: syndicate_ops elim!: as_listE
        dest: batch_service.book_later single_service.book_later)
next
  case (4 l now ev x l' l'' now')
  then show ?case
    by (cases ev) (auto simp: syndicate_ops intro: batch_service.book_again single_service.book_again)
qed (auto intro: extends_trans)

section \<open>The journals are valid\<close>

lemma entry_units_mk [simp]:
  "entry_units (mk_entry c sd a u q l) = the_default 0 (big_set_string u)"
  "entry_units ((mk_entry c sd a u q l)\<lparr>e_TrancheID := t\<rparr>) = the_default 0 (big_set_string u)"
  by (simp_all add: entry_units_def the_default_def)

lemma positive_units_iff: "positive_units s \<longleftrightarrow> 0 < the_default 0 (big_set_string s)"
  by (auto simp: positive_units_def split: option.splits)

lemma claim_entries_sound:
  "claim_entries sd ev ps = Some (es, allocated) \<Longrightarrow> b_AssetID ev \<noteq> [] \<Longrightarrow>
   sd = Debit \<or> sd = Credit \<Longrightarrow>
   length es = length ps \<and> (\<forall>e \<in> set es. valid_entry e) \<and>
   (\<forall>sd' a. side_total sd' a es = (if sd' = sd \<and> a = b_AssetID ev then allocated else 0)) \<and>
   (\<forall>e \<in> set es. e_AccountCode e = AccountLenderPrincipalClaims \<and> e_LoanID e = b_LoanID ev \<and>
      e_AssetID e = b_AssetID ev \<and> e_Side e = sd)"
proof (induction ps arbitrary: es allocated)
  case (Cons p ps)
  then obtain units es' allocated' where *:
    "big_set_string (ps_Units p) = Some units" "0 < units"
    "claim_entries sd ev ps = Some (es', allocated')" "allocated = units + allocated'"
    "es = (mk_entry AccountLenderPrincipalClaims sd (b_AssetID ev) (ps_Units p) (ps_OwnerID p)
        (b_LoanID ev))\<lparr>e_TrancheID := ps_TrancheID p\<rparr> # es'"
    by (auto split: option.splits if_splits prod.splits)
  with Cons.IH[OF *(3)] Cons.prems(2,3) show ?case
    by (auto simp: valid_entry_def AccountLenderPrincipalClaims_def)
qed simp

lemma valid_syndicate_journal:
  "valid_journal (syndicate_journal ev i t k es) \<longleftrightarrow>
     i \<noteq> [] \<and> t \<noteq> [] \<and> b_EventID ev \<noteq> [] \<and> k \<noteq> [] \<and> b_CorrelationID ev \<noteq> [] \<and>
     b_EvidenceHash ev \<noteq> [] \<and> b_EffectiveAt ev \<noteq> 0 \<and> 2 \<le> length es \<and>
     (\<forall>e \<in> set es. valid_entry e) \<and> balanced es"
  by (auto simp: valid_journal_def identity_complete_def syndicate_journal_def)

lemma two_entry_journals_valid:
  "commitment_journal c = Inr j \<Longrightarrow> valid_journal j"
  "refund_journal r = Inr j \<Longrightarrow> valid_journal j"
  "transfer_journal t = Inr j \<Longrightarrow> valid_journal j"
  by (auto simp: commitment_journal_def refund_journal_def transfer_journal_def
      valid_syndicate_journal validBase_def valid_entry_def balanced_def positive_units_iff
      syndicate_accounts split: if_splits)

lemma distribution_valid:
  assumes "distribution_journal ev = Inr j"
  shows "valid_journal j"
proof -
  from assms obtain es where es:
    "claim_entries Debit ev (di_Allocations ev) =
       Some (es, the_default 0 (big_set_string (di_Units ev)))"
    "validBase ev" "positive_units (di_Units ev)" "di_Allocations ev \<noteq> []"
    "j = syndicate_journal ev (''syndicate-distribution:'' @ di_PaymentID ev)
       ''SYNDICATE_PRINCIPAL_DISTRIBUTED'' (b_EventID ev)
       (es @ [mk_entry AccountPrincipalReceivable Credit (b_AssetID ev) (di_Units ev)
                (di_BorrowerID ev) (b_LoanID ev)])"
    by (auto simp: distribution_journal_def split: if_splits option.splits prod.splits)
  from claim_entries_sound[OF es(1)] es(2-4) show ?thesis
    unfolding es(5) valid_syndicate_journal
    by (cases "di_Allocations ev") (auto simp: validBase_def valid_entry_def balanced_def positive_units_iff
        syndicate_accounts)
qed

lemma activation_valid:
  assumes "syndicate_activation_journals ev = Inr js"
  shows "\<forall>j \<in> set js. valid_journal j"
proof -
  from assms obtain es where es:
    "claim_entries Credit ev (sa_Positions ev) =
       Some (es, the_default 0 (big_set_string (sa_Units ev)))"
    "validBase ev" "positive_units (sa_Units ev)" "sa_Positions ev \<noteq> []"
    "js = [syndicate_journal ev (''syndicate-disbursement:'' @ b_LoanID ev)
               ''SYNDICATE_PRINCIPAL_DISBURSED'' (b_EventID ev @ '':disbursement'')
               [mk_entry AccountPrincipalReceivable Debit (b_AssetID ev) (sa_Units ev)
                  (sa_BorrowerID ev) (b_LoanID ev),
                mk_entry AccountProtocolSettlementAsset Credit (b_AssetID ev) (sa_Units ev) []
                  (b_LoanID ev)],
             syndicate_journal ev (''syndicate-rights:'' @ b_LoanID ev)
               ''SYNDICATE_RIGHTS_ACTIVATED'' (b_EventID ev @ '':rights'')
               (mk_entry AccountFundingCommitments Debit (b_AssetID ev) (sa_Units ev) []
                  (b_LoanID ev) # es)]"
    by (auto simp: syndicate_activation_journals_def activatedClaimEntries_def
        split: if_splits option.splits prod.splits)
  from claim_entries_sound[OF es(1)] es(2-4) show ?thesis
    unfolding es(5)
    by (cases "sa_Positions ev") (auto simp: valid_syndicate_journal validBase_def valid_entry_def balanced_def
        positive_units_iff syndicate_accounts)
qed

lemma syndicate_valid: "syndicate_journals ev = Inr js \<Longrightarrow> \<forall>j \<in> set js. valid_journal j"
  by (cases ev) (auto intro: two_entry_journals_valid distribution_valid activation_valid[rule_format])

section \<open>Which errors the ledger can answer\<close>

definition only_duplicate :: "ledger_error \<Rightarrow> bool" where
  "only_duplicate e \<longleftrightarrow>
     e = ErrIdempotencyConflict \<or> e = ErrInvalidJournal ''duplicate journal id''"

lemma postValidated_plain_error:
  "postValidated j h t l = (Inl e, l') \<Longrightarrow> j_ReversalOf j = [] \<Longrightarrow> only_duplicate e"
  by (auto simp: postValidated_def only_duplicate_def Let_def split: option.splits if_splits)

lemma post_all_plain_error:
  "post_all jhs t l = (Inl e, l') \<Longrightarrow> \<forall>(j, h) \<in> set jhs. j_ReversalOf j = [] \<Longrightarrow> only_duplicate e"
proof (induction jhs t l rule: post_all.induct)
  case (2 j h rest t l)
  then show ?case
    by (auto split: sum.splits prod.splits dest: postValidated_plain_error)
qed simp

lemma PostBatch_plain_error:
  assumes "PostBatch H now l js = (Inl e, l')" "js \<noteq> []"
    "\<forall>j \<in> set js. valid_journal j \<and> H j \<noteq> None \<and> j_ReversalOf j = []"
  shows "only_duplicate e"
proof -
  have "\<exists>hs. hash_all H js = Inr hs"
    using assms(3) by (induction js) (auto simp: validateAndHash_iff[THEN iffD2])
  then obtain hs where "hash_all H js = Inr hs" by blast
  with assms(1,2) obtain l1 where "post_all (zip js hs) now l = (Inl e, l1)"
    by (auto simp: PostBatch_def split: sum.splits prod.splits)
  then show ?thesis
    by (rule post_all_plain_error) (use assms(3) in \<open>auto dest: set_zip_leftD\<close>)
qed

lemma Post_plain_error:
  assumes "Post H now l j = (Inl e, l')" "valid_journal j" "H j \<noteq> None" "j_ReversalOf j = []"
  shows "only_duplicate e"
  using assms by (auto simp: Post_def validateAndHash_iff[THEN iffD2] dest: postValidated_plain_error)

lemma syndicate_plain:
  "syndicate_journals ev = Inr js \<Longrightarrow> js \<noteq> [] \<and> (\<forall>j \<in> set js. j_ReversalOf j = [])"
  by (cases ev) (auto simp: commitment_journal_def refund_journal_def transfer_journal_def
      distribution_journal_def syndicate_activation_journals_def syndicate_journal_def
      split: if_splits option.splits prod.splits)

lemma syndicate_handle_error:
  assumes js: "syndicate_journals ev = Inr js" and H: "\<forall>j \<in> set js. H j \<noteq> None"
    and run: "syndicate_handle H now l ev = (Inl e, l')"
  shows "\<exists>e'. e = FromLedger e' \<and> only_duplicate e'"
proof -
  note ok = syndicate_valid[OF js] syndicate_plain[OF js] H
  show ?thesis
    using run js ok
    by (cases ev)
       (auto simp: syndicate_ops post_one_of_def post_batch_of_def lift_ledger_Inl
          dest!: Post_plain_error PostBatch_plain_error)
qed

section \<open>Conservation\<close>

definition funding :: "string \<Rightarrow> string \<Rightarrow> Entry \<Rightarrow> bool" where
  "funding loan asset e \<longleftrightarrow>
     (e_AccountCode e = AccountProtocolSettlementAsset \<or> e_AccountCode e = AccountFundingCommitments) \<and>
     e_LoanID e = loan \<and> e_AssetID e = asset"

lemma net_claims:
  "claim_entries sd ev ps = Some (es, allocated) \<Longrightarrow> sd = Debit \<or> sd = Credit \<Longrightarrow>
   net_where (loan_principal loan asset) es =
     (if b_LoanID ev = loan \<and> b_AssetID ev = asset
      then (if sd = Debit then allocated else - allocated) else 0) \<and>
   net_where (funding loan asset) es = 0"
proof (induction ps arbitrary: es allocated)
  case (Cons p ps)
  then show ?case
    by (auto simp: loan_principal_def funding_def syndicate_accounts signed_units_def
        split: option.splits if_splits prod.splits)
qed simp

lemma syndicate_conserves:
  assumes "syndicate_journals ev = Inr js"
  shows "(\<Sum>j\<leftarrow>js. net_where (loan_principal loan asset) (j_Entries j)) = 0 \<and>
     (\<Sum>j\<leftarrow>js. net_where (funding loan asset) (j_Entries j)) = 0"
  using assms
  by (cases ev)
     (auto simp: commitment_journal_def refund_journal_def transfer_journal_def
        distribution_journal_def syndicate_activation_journals_def activatedClaimEntries_def
        syndicate_journal_def net_claims loan_principal_def funding_def syndicate_accounts
        signed_units_def
        split: if_splits option.splits prod.splits)

section \<open>A concrete syndicate\<close>

definition sample_distribution :: Distribution where
  "sample_distribution = \<lparr>b_EventID = ''E9'', b_LoanID = ''L1'', b_AssetID = ''USD'',
     b_CorrelationID = ''C'', b_EvidenceHash = ''H'', b_Finality = ''FINAL'', b_EffectiveAt = 4,
     di_PaymentID = ''P1'', di_BorrowerID = ''B'', di_Units = ''30'',
     di_Allocations =
       [\<lparr>ps_PositionID = ''p1'', ps_TrancheID = ''t1'', ps_OwnerID = ''N1'', ps_Units = ''10''\<rparr>,
        \<lparr>ps_PositionID = ''p2'', ps_TrancheID = ''t1'', ps_OwnerID = ''N2'', ps_Units = ''20''\<rparr>]\<rparr>"

lemma sample_distribution_journal:
  "\<exists>j. syndicate_journals (Distributed sample_distribution) = Inr [j] \<and> length (j_Entries j) = 3"
  by (simp add: distribution_journal_def sample_distribution_def validBase_def positive_units_def
      syndicate_journal_def big_eval)

lemma sample_distribution_conflict:
  "syndicate_handle sample_hash 5
     (ledger_New\<lparr>l_idempotency := [(''unified-protocol'' @ [CHR 0x00] @ ''chain-indexer'' @ [CHR 0x00] @ ''E9'', ''X'')]\<rparr>)
     (Distributed sample_distribution) =
   (Inl (FromLedger ErrIdempotencyConflict),
    ledger_New\<lparr>l_idempotency := [(''unified-protocol'' @ [CHR 0x00] @ ''chain-indexer'' @ [CHR 0x00] @ ''E9'', ''X'')]\<rparr>)"
  by (simp add: PostDistribution_def distribution_journal_def sample_distribution_def validBase_def
      positive_units_def syndicate_journal_def syndicate_accounts post_eval zero_posted_def
      as_list_def)

section \<open>Properties\<close>

text \<open>
  the service's checks imply the ledger's. When the syndicate service accepts an event, every
  journal it builds is one the ledger accepts (complete, positive amounts, balanced per asset), so
  the only errors the ledger can answer with are the reuse of an idempotency key for another content
  and the reuse of a journal identifier.
\<close>

theorem syndicate_only_duplicates_fail:
  assumes "syndicate_journals ev = Inr js" and "\<forall>j \<in> set js. H j \<noteq> None"
    and "syndicate_handle H now l ev = (Inl e, l')"
  shows "l' = l \<and> (\<forall>j \<in> set js. valid_journal j) \<and>
     (e = FromLedger ErrIdempotencyConflict \<or>
      e = FromLedger (ErrInvalidJournal ''duplicate journal id''))"
  using syndicate.book_error[OF assms(3)] syndicate_valid[OF assms(1)]
    syndicate_handle_error[OF assms] by (auto simp: only_duplicate_def)

theorem syndicate_only_duplicates_fail_witness:
  "\<exists>j. syndicate_journals (Distributed sample_distribution) = Inr [j] \<and> valid_journal j"
proof -
  obtain j where j: "syndicate_journals (Distributed sample_distribution) = Inr [j]"
    using sample_distribution_journal by blast
  from syndicate_only_duplicates_fail[OF j _ sample_distribution_conflict] j
  show ?thesis by (simp add: sample_hash_def)
qed

text \<open>
  C12: syndicate events conserve value. For every event the service accepts, over the journals it
  builds: principal receivable and lender claims of each loan move by opposite amounts (a
  disbursement creates exactly the claims of the positions, a distribution retires exactly the claims of
  the allocations, a transfer only moves a claim), and so do settlement cash and funding commitments
  taken together.
\<close>

theorem syndicate_events_conserve:
  assumes "syndicate_journals ev = Inr js"
  shows "(\<Sum>j\<leftarrow>js. net_where (loan_principal loan asset) (j_Entries j)) = 0 \<and>
     (\<Sum>j\<leftarrow>js. net_where (funding loan asset) (j_Entries j)) = 0"
  using assms by (rule syndicate_conserves)

theorem syndicate_events_conserve_witness:
  "\<exists>j. syndicate_journals (Distributed sample_distribution) = Inr [j] \<and> length (j_Entries j) = 3 \<and>
     net_where (loan_principal ''L1'' ''USD'') (j_Entries j) = 0"
proof -
  obtain j where j: "syndicate_journals (Distributed sample_distribution) = Inr [j]"
    "length (j_Entries j) = 3"
    using sample_distribution_journal by blast
  from syndicate_events_conserve[OF j(1), of "''L1''" "''USD''"] j show ?thesis by simp
qed

end
