(* ===== verification/Crosschain_Accounting.thy ===== *)
theory Crosschain_Accounting
  imports Loan_Accounting
begin

text \<open>
  Cross-chain accounting, \<^verbatim>\<open>foundation-ledger/internal/crosschainaccounting/accounting.go\<close>: finalized
  cross-chain effects as ledger batches.

  The independently authenticated source of authority is not part of this code; it is the argument
  \<open>authorize\<close>, which maps an intent to the finalized authority it found or to \<open>None\<close> for its error.
\<close>

section \<open>Data\<close>

definition AccountCanonicalAssetsLocked :: string where "AccountCanonicalAssetsLocked = ''1410''"
definition AccountCrossChainReceivable :: string where "AccountCrossChainReceivable = ''1420''"
definition AccountSatelliteAssetReceivable :: string where "AccountSatelliteAssetReceivable = ''1430''"
definition AccountBridgeBackingLiability :: string where "AccountBridgeBackingLiability = ''2230''"
definition AccountCrossChainMessagingExpense :: string where "AccountCrossChainMessagingExpense = ''5120''"
definition AccountUFTBridgeEscrowControl :: string where "AccountUFTBridgeEscrowControl = ''7150''"
definition AccountWrappedUFTOutstandingControl :: string where
  "AccountWrappedUFTOutstandingControl = ''7160''"
definition AccountPendingCrossChainSettlement :: string where
  "AccountPendingCrossChainSettlement = ''9150''"
definition AccountReconciliationDifference :: string where "AccountReconciliationDifference = ''9180''"

lemmas crosschain_accounts = loan_accounts AccountCanonicalAssetsLocked_def
  AccountCrossChainReceivable_def AccountSatelliteAssetReceivable_def
  AccountBridgeBackingLiability_def AccountCrossChainMessagingExpense_def
  AccountUFTBridgeEscrowControl_def AccountWrappedUFTOutstandingControl_def
  AccountPendingCrossChainSettlement_def AccountReconciliationDifference_def

datatype Effect =
    CanonicalLock | WrappedMint | WrappedBurn | CanonicalRelease | LoanActivation
  | RemoteRepayment | DirectHomeRepayment | SatelliteCustody | CollateralRelease
  | LoanCancellationComplete | CanonicalLockCompensation | WrappedBurnCompensation
  | PermanentCanonicalBurn | ReconciliationDiff | MessagingExpense | UnknownEffect string

fun effect_string :: "Effect \<Rightarrow> string" where
  "effect_string CanonicalLock = ''CANONICAL_LOCK''"
| "effect_string WrappedMint = ''WRAPPED_MINT''"
| "effect_string WrappedBurn = ''WRAPPED_BURN''"
| "effect_string CanonicalRelease = ''CANONICAL_RELEASE''"
| "effect_string LoanActivation = ''LOAN_ACTIVATION''"
| "effect_string RemoteRepayment = ''REMOTE_REPAYMENT''"
| "effect_string DirectHomeRepayment = ''DIRECT_HOME_REPAYMENT''"
| "effect_string SatelliteCustody = ''SATELLITE_CUSTODY''"
| "effect_string CollateralRelease = ''COLLATERAL_RELEASE''"
| "effect_string LoanCancellationComplete = ''LOAN_CANCELLATION_COMPLETE''"
| "effect_string CanonicalLockCompensation = ''CANONICAL_LOCK_COMPENSATION''"
| "effect_string WrappedBurnCompensation = ''WRAPPED_BURN_COMPENSATION''"
| "effect_string PermanentCanonicalBurn = ''PERMANENT_CANONICAL_BURN''"
| "effect_string ReconciliationDiff = ''RECONCILIATION_DIFFERENCE''"
| "effect_string MessagingExpense = ''MESSAGING_EXPENSE''"
| "effect_string (UnknownEffect s) = s"

datatype AuthorityKind =
    CrossChainAuthority | DirectHomeAuthority | InternalAuthority | UnknownAuthority string

datatype AuthorityStage =
    StageSourceFinal | StageDestinationExecuted | StageSourceCompensated | StageDirectHomeFinal
  | StageInternalFinal | UnknownStage string

record CancellationCompletion =
  cc_CancellationID :: string
  cc_LoanID :: string
  cc_FundingLockID :: string
  cc_DisbursementMessageID :: string
  cc_DisbursementTombstoneHash :: string
  cc_EscrowBurnResultHash :: string
  cc_HomeLoanAccount :: string
  cc_Lender :: string
  cc_WrappedToken :: string
  cc_Amount :: string
  cc_PolicyHash :: string

record FinalizedAuthority =
  fa_CanonicalEventID :: string
  fa_Kind :: AuthorityKind
  fa_Stage :: AuthorityStage
  fa_ActionOrdinal :: "32 word"
  fa_RouteID :: string
  fa_RoutePurpose :: string
  fa_ActionFamilyHash :: string
  fa_SourceComponent :: string
  fa_TypedAction :: string
  fa_LenderID :: string
  fa_CanonicalAssetID :: string
  fa_WrappedAssetID :: string
  fa_Cancellation :: CancellationCompletion
  fa_EvidenceHash :: string
  fa_CompensatedMessageID :: string
  fa_CompensatedActionOrdinal :: "32 word"
  fa_Finalized :: bool

record Intent =
  i_ID :: string
  i_Effect :: Effect
  i_MessageID :: string
  i_HomeEventID :: string
  i_LoanID :: string
  i_RouteID :: string
  i_AssetID :: string
  i_WrappedAssetID :: string
  i_WrappedTokenAddress :: string
  i_CompensatedMessageID :: string
  i_Units :: string
  i_PartyID :: string
  i_LenderAddress :: string
  i_RoutePurpose :: string
  i_ActionFamilyHash :: string
  i_SourceComponent :: string
  i_TypedAction :: string
  i_Cancellation :: CancellationCompletion
  i_EvidenceHash :: string
  i_CorrelationID :: string
  i_EffectiveAt :: gotime

datatype crosschain_error =
    InvalidIntent | WrappedAssetRequired | UnitsNotCanonical | MessagingExpenseOverCap
  | AuthorizeFailed | NoFinalizedEvidence | ActionNotAuthorized | CompensationNotBound
  | CancellationNotAuthorized | DirectHomeNotAuthorized | InternalNotAuthorized
  | UnknownAuthorityKind | UnsupportedEffect

section \<open>Authority\<close>

fun authorityAllowsEffect :: "AuthorityStage \<Rightarrow> 32 word \<Rightarrow> Effect \<Rightarrow> bool" where
  "authorityAllowsEffect stage action CanonicalLock = (stage = StageSourceFinal \<and> action = 1)"
| "authorityAllowsEffect stage action WrappedMint = (stage = StageSourceFinal \<and> action = 2)"
| "authorityAllowsEffect stage action WrappedBurn =
     (stage = StageSourceFinal \<and> (action = 3 \<or> action = 8 \<or> action = 15))"
| "authorityAllowsEffect stage action CanonicalRelease =
     (stage = StageDestinationExecuted \<and> (action = 3 \<or> action = 8))"
| "authorityAllowsEffect stage action SatelliteCustody = (stage = StageSourceFinal \<and> action = 5)"
| "authorityAllowsEffect stage action LoanActivation = (stage = StageDestinationExecuted \<and> action = 7)"
| "authorityAllowsEffect stage action RemoteRepayment = (stage = StageDestinationExecuted \<and> action = 8)"
| "authorityAllowsEffect stage action CollateralRelease = (stage = StageSourceFinal \<and> action = 10)"
| "authorityAllowsEffect stage action LoanCancellationComplete =
     (stage = StageDestinationExecuted \<and> action = 14)"
| "authorityAllowsEffect stage action CanonicalLockCompensation =
     (stage = StageSourceCompensated \<and> action = 14)"
| "authorityAllowsEffect stage action WrappedBurnCompensation =
     (stage = StageSourceCompensated \<and> action = 14)"
| "authorityAllowsEffect stage action PermanentCanonicalBurn =
     (stage = StageDestinationExecuted \<and> action = 15)"
| "authorityAllowsEffect stage action _ = False"

definition isCompensation :: "Effect \<Rightarrow> bool" where
  "isCompensation effect \<longleftrightarrow> effect = CanonicalLockCompensation \<or> effect = WrappedBurnCompensation"

fun compensatedActionAllowsEffect :: "32 word \<Rightarrow> Effect \<Rightarrow> bool" where
  "compensatedActionAllowsEffect action CanonicalLockCompensation = (action = 1)"
| "compensatedActionAllowsEffect action WrappedBurnCompensation =
     (action = 3 \<or> action = 8 \<or> action = 15)"
| "compensatedActionAllowsEffect action _ = False"

definition validCancellationAuthority :: "Intent \<Rightarrow> FinalizedAuthority \<Rightarrow> bool" where
  "validCancellationAuthority intent authority =
     (let completion = i_Cancellation intent in
      fa_RouteID authority = i_RouteID intent \<and> fa_RoutePurpose authority = ''REPORT'' \<and>
      i_RoutePurpose intent = fa_RoutePurpose authority \<and>
      fa_ActionFamilyHash authority \<noteq> [] \<and>
      i_ActionFamilyHash intent = fa_ActionFamilyHash authority \<and>
      fa_SourceComponent authority \<noteq> [] \<and>
      i_SourceComponent intent = fa_SourceComponent authority \<and>
      fa_TypedAction authority = ''SATELLITE_FUNDING_CANCELLED'' \<and>
      i_TypedAction intent = fa_TypedAction authority \<and>
      fa_LenderID authority = i_PartyID intent \<and>
      fa_CanonicalAssetID authority = i_AssetID intent \<and>
      fa_WrappedAssetID authority = i_WrappedAssetID intent \<and>
      fa_Cancellation authority = completion \<and>
      cc_CancellationID completion \<noteq> [] \<and> cc_LoanID completion = i_LoanID intent \<and>
      cc_FundingLockID completion \<noteq> [] \<and> cc_DisbursementMessageID completion \<noteq> [] \<and>
      cc_DisbursementTombstoneHash completion \<noteq> [] \<and> cc_EscrowBurnResultHash completion \<noteq> [] \<and>
      cc_HomeLoanAccount completion \<noteq> [] \<and> cc_Lender completion = i_LenderAddress intent \<and>
      cc_WrappedToken completion = i_WrappedTokenAddress intent \<and>
      cc_Amount completion = i_Units intent \<and> cc_PolicyHash completion \<noteq> [])"

definition validateAuthority :: "Intent \<Rightarrow> FinalizedAuthority \<Rightarrow> crosschain_error + unit" where
  "validateAuthority intent authority =
     (if \<not> fa_Finalized authority \<or> fa_CanonicalEventID authority = [] \<or>
         fa_EvidenceHash authority = [] \<or> fa_EvidenceHash authority \<noteq> i_EvidenceHash intent
      then Inl NoFinalizedEvidence
      else case fa_Kind authority of
        CrossChainAuthority \<Rightarrow>
          if i_MessageID intent = [] \<or> i_HomeEventID intent \<noteq> [] \<or>
             fa_CanonicalEventID authority \<noteq> i_MessageID intent \<or>
             \<not> authorityAllowsEffect (fa_Stage authority) (fa_ActionOrdinal authority) (i_Effect intent)
          then Inl ActionNotAuthorized
          else if isCompensation (i_Effect intent) \<and>
             (i_CompensatedMessageID intent = [] \<or>
              fa_CompensatedMessageID authority \<noteq> i_CompensatedMessageID intent \<or>
              i_CompensatedMessageID intent = i_MessageID intent \<or>
              \<not> compensatedActionAllowsEffect (fa_CompensatedActionOrdinal authority) (i_Effect intent))
          then Inl CompensationNotBound
          else if i_Effect intent = LoanCancellationComplete \<and>
             \<not> validCancellationAuthority intent authority
          then Inl CancellationNotAuthorized
          else Inr ()
      | DirectHomeAuthority \<Rightarrow>
          if i_Effect intent \<noteq> DirectHomeRepayment \<or> i_MessageID intent \<noteq> [] \<or>
             i_HomeEventID intent = [] \<or> fa_CanonicalEventID authority \<noteq> i_HomeEventID intent \<or>
             fa_ActionOrdinal authority \<noteq> 0 \<or> fa_Stage authority \<noteq> StageDirectHomeFinal
          then Inl DirectHomeNotAuthorized else Inr ()
      | InternalAuthority \<Rightarrow>
          if i_MessageID intent \<noteq> [] \<or> i_HomeEventID intent = [] \<or>
             fa_CanonicalEventID authority \<noteq> i_HomeEventID intent \<or>
             fa_Stage authority \<noteq> StageInternalFinal \<or>
             (i_Effect intent \<noteq> ReconciliationDiff \<and> i_Effect intent \<noteq> MessagingExpense)
          then Inl InternalNotAuthorized else Inr ()
      | UnknownAuthority _ \<Rightarrow> Inl UnknownAuthorityKind)"

section \<open>Journals\<close>

definition crosschain_journal ::
  "Intent \<Rightarrow> string \<Rightarrow> string \<Rightarrow> string \<Rightarrow> string \<Rightarrow> string \<Rightarrow> Journal" where
  "crosschain_journal intent canonicalEventID suffix' assetID debit credit =
     (let journalID = ''crosschain:'' @ canonicalEventID @ '':'' @ effect_string (i_Effect intent) @ '':'' @ suffix' in
      \<lparr>j_ID = journalID, j_LegalEntityID = ''unified-protocol'', j_BookID = ''cross-chain-subledger'',
       j_SourceSystem = ''cross-chain-coordinator'', j_EntryType = effect_string (i_Effect intent),
       j_SourceEventID = canonicalEventID, j_LoanID = i_LoanID intent, j_IdempotencyKey = journalID,
       j_CorrelationID = i_CorrelationID intent, j_EffectiveAt = i_EffectiveAt intent,
       j_Entries =
         [mk_entry debit Debit assetID (i_Units intent) (i_PartyID intent) (i_LoanID intent),
          mk_entry credit Credit assetID (i_Units intent) (i_PartyID intent) (i_LoanID intent)],
       j_EvidenceHash = i_EvidenceHash intent, j_ReversalOf = [], j_Reason = []\<rparr>)"

definition crosschain_journals :: "Intent \<Rightarrow> string \<Rightarrow> crosschain_error + Journal list" where
  "crosschain_journals intent event =
     (let one = (\<lambda>suffix' asset d c. crosschain_journal intent event suffix' asset d c);
          asset = i_AssetID intent; wrapped = i_WrappedAssetID intent;
          disposition =
            [one ''bridge-disposition-financial'' asset AccountBridgeBackingLiability
               AccountCanonicalAssetsLocked,
             one ''bridge-disposition-control'' asset AccountPendingCrossChainSettlement
               AccountUFTBridgeEscrowControl];
          repayment =
            [one ''repayment-debt'' asset AccountLenderPrincipalClaims AccountPrincipalReceivable]
      in case i_Effect intent of
        CanonicalLock \<Rightarrow> Inr
          [one ''bridge-lock-financial'' asset AccountCanonicalAssetsLocked AccountBridgeBackingLiability,
           one ''bridge-lock-control'' asset AccountUFTBridgeEscrowControl
             AccountPendingCrossChainSettlement]
      | WrappedMint \<Rightarrow> Inr
          [one ''wrapped-mint-control'' wrapped AccountPendingCrossChainSettlement
             AccountWrappedUFTOutstandingControl]
      | WrappedBurn \<Rightarrow> Inr
          [one ''wrapped-burn-control'' wrapped AccountWrappedUFTOutstandingControl
             AccountPendingCrossChainSettlement]
      | CanonicalRelease \<Rightarrow> Inr disposition
      | PermanentCanonicalBurn \<Rightarrow> Inr disposition
      | CanonicalLockCompensation \<Rightarrow> Inr disposition
      | WrappedBurnCompensation \<Rightarrow> Inr
          [one ''wrapped-burn-compensation-control'' wrapped AccountPendingCrossChainSettlement
             AccountWrappedUFTOutstandingControl]
      | LoanActivation \<Rightarrow> Inr
          [one ''loan-activation'' asset AccountPrincipalReceivable AccountLenderPrincipalClaims]
      | RemoteRepayment \<Rightarrow> Inr repayment
      | DirectHomeRepayment \<Rightarrow> Inr repayment
      | SatelliteCustody \<Rightarrow> Inr
          [one ''satellite-custody'' asset AccountSatelliteAssetReceivable AccountCrossChainReceivable]
      | CollateralRelease \<Rightarrow> Inr
          [one ''satellite-custody-release'' asset AccountCrossChainReceivable
             AccountSatelliteAssetReceivable]
      | LoanCancellationComplete \<Rightarrow> Inr
          [one ''loan-cancellation-burn-control'' wrapped AccountWrappedUFTOutstandingControl
             AccountPendingCrossChainSettlement,
           one ''loan-cancellation-refund-financial'' asset AccountBridgeBackingLiability
             AccountCanonicalAssetsLocked,
           one ''loan-cancellation-refund-control'' asset AccountPendingCrossChainSettlement
             AccountUFTBridgeEscrowControl]
      | ReconciliationDiff \<Rightarrow> Inr
          [one ''reconciliation-difference'' asset AccountReconciliationDifference
             AccountPendingCrossChainSettlement]
      | MessagingExpense \<Rightarrow> Inr
          [one ''messaging-expense'' asset AccountCrossChainMessagingExpense
             AccountPendingCrossChainSettlement]
      | UnknownEffect _ \<Rightarrow> Inl UnsupportedEffect)"

section \<open>Posting\<close>

text \<open>
  The poster: the authority and the cap on messaging expenses are fixed when it is made
  (\<open>NewPoster\<close>, which insists on a positive cap). \<open>intent_batch\<close> is \<open>Post\<close> up to the call of the ledger.
\<close>

definition NewPoster :: "string \<Rightarrow> int option" where
  "NewPoster maxMessagingExpenseUnits =
     (case big_set_string maxMessagingExpenseUnits of
        None \<Rightarrow> None | Some capUnits \<Rightarrow> if capUnits \<le> 0 then None else Some capUnits)"

definition intent_batch ::
  "(Intent \<Rightarrow> FinalizedAuthority option) \<Rightarrow> int \<Rightarrow> Intent \<Rightarrow> crosschain_error + Journal list" where
  "intent_batch authorize maxMessagingExpense intent =
     (if i_RouteID intent = [] \<or> i_AssetID intent = [] \<or> i_Units intent = [] \<or>
         i_EvidenceHash intent = [] \<or> i_CorrelationID intent = [] \<or> i_EffectiveAt intent = 0
      then Inl InvalidIntent
      else if i_Effect intent \<in> {WrappedMint, WrappedBurn, WrappedBurnCompensation,
                LoanCancellationComplete} \<and> i_WrappedAssetID intent = []
      then Inl WrappedAssetRequired
      else case canonical (i_Units intent) of
        None \<Rightarrow> Inl UnitsNotCanonical
      | Some units \<Rightarrow>
          if units \<le> 0 then Inl UnitsNotCanonical
          else if i_Effect intent = MessagingExpense \<and> units > maxMessagingExpense
          then Inl MessagingExpenseOverCap
          else case authorize intent of
            None \<Rightarrow> Inl AuthorizeFailed
          | Some authority \<Rightarrow>
              ebind (validateAuthority intent authority) (\<lambda>_.
                crosschain_journals intent (fa_CanonicalEventID authority)))"

definition CrosschainPost ::
  "(Intent \<Rightarrow> FinalizedAuthority option) \<Rightarrow> int \<Rightarrow> journal_hash \<Rightarrow> gotime \<Rightarrow> Ledger \<Rightarrow> Intent
     \<Rightarrow> (crosschain_error service_error + PostedJournal list) \<times> Ledger" where
  "CrosschainPost authorize maxMessagingExpense H =
     post_batch_of H (intent_batch authorize maxMessagingExpense)"

interpretation crosschain: accounting_service "CrosschainPost authorize cap H" "ledger_inv H" extends
  for authorize cap H
  unfolding CrosschainPost_def by (rule batch_service.accounting_service_axioms)

section \<open>One effect of one event\<close>

lemma postValidated_scoped:
  "mget (l_idempotency l) (idempotency_scope j) \<noteq> None \<Longrightarrow> snd (postValidated j h t l) = l"
  by (auto simp: postValidated_def Let_def split: option.splits)

lemma post_all_scoped:
  "\<forall>(j, h) \<in> set jhs. mget (l_idempotency l) (idempotency_scope j) \<noteq> None \<Longrightarrow>
   snd (post_all jhs t l) = l"
proof (induction jhs t l rule: post_all.induct)
  case (2 j h rest t l)
  have "snd (postValidated j h t l) = l" using "2.prems" by (intro postValidated_scoped) auto
  then obtain r where r: "postValidated j h t l = (r, l)" by (cases "postValidated j h t l") auto
  with "2.IH" "2.prems" show ?case
    by (cases r) (auto split: sum.splits prod.splits)
qed simp

text \<open>A batch all of whose idempotency keys are on record changes nothing, whatever its content.\<close>

lemma PostBatch_scoped:
  assumes "\<forall>j \<in> set js. mget (l_idempotency l) (idempotency_scope j) \<noteq> None"
  shows "snd (PostBatch H now l js) = l"
proof (cases "PostBatch H now l js")
  case (Pair r l')
  show ?thesis
  proof (cases r)
    case (Inl e)
    with Pair show ?thesis by (auto dest: PostBatch_error_keeps)
  next
    case (Inr ps)
    with Pair obtain hs where hs: "post_all (zip js hs) now l = (Inr ps, l')"
      by (auto elim: PostBatch_success)
    have "snd (post_all (zip js hs) now l) = l"
      by (rule post_all_scoped) (use assms in \<open>auto dest: set_zip_leftD\<close>)
    with hs Pair show ?thesis by simp
  qed
qed

lemma recorded_scope: "recorded H l j p \<Longrightarrow> mget (l_idempotency l) (idempotency_scope j) \<noteq> None"
  by (auto simp: recorded_def on_record_def)

lemma crosschain_scope:
  "idempotency_scope (crosschain_journal i ev sf a d c) =
     ''unified-protocol'' @ [CHR 0x00] @ ''cross-chain-coordinator'' @ [CHR 0x00] @
     ''crosschain:'' @ ev @ '':'' @ effect_string (i_Effect i) @ '':'' @ sf"
  by (simp add: idempotency_scope_def crosschain_journal_def Let_def)

lemma crosschain_same_scopes:
  assumes "crosschain_journals i ev = Inr js" "crosschain_journals i' ev = Inr js'"
    "i_Effect i' = i_Effect i"
  shows "map idempotency_scope js' = map idempotency_scope js"
  using assms
  by (cases "i_Effect i") (auto simp: crosschain_journals_def Let_def crosschain_scope)

lemma intent_batch_success:
  assumes "intent_batch authorize cap i = Inr js"
  obtains a units where "authorize i = Some a" "validateAuthority i a = Inr ()"
    "crosschain_journals i (fa_CanonicalEventID a) = Inr js"
    "i_Units i = big_string units" "0 < units"
    "i_Effect i = MessagingExpense \<longrightarrow> units \<le> cap"
    "i_AssetID i \<noteq> []" "i_EvidenceHash i \<noteq> []" "i_CorrelationID i \<noteq> []" "i_EffectiveAt i \<noteq> 0"
    "i_Effect i \<in> {WrappedMint, WrappedBurn, WrappedBurnCompensation, LoanCancellationComplete} \<longrightarrow>
       i_WrappedAssetID i \<noteq> []"
  using assms
  by (auto simp: intent_batch_def canonical_iff split: if_splits option.splits)

lemma crosschain_journals_nonempty: "crosschain_journals i ev = Inr js \<Longrightarrow> js \<noteq> []"
  by (cases "i_Effect i") (auto simp: crosschain_journals_def Let_def)

lemma CrosschainPost_success:
  assumes "CrosschainPost authorize cap H now l i = (Inr ps, l')"
  obtains js where "intent_batch authorize cap i = Inr js" "PostBatch H now l js = (Inr ps, l')"
proof -
  from assms obtain js where js: "intent_batch authorize cap i = Inr js"
    "js \<noteq> [] \<longrightarrow> PostBatch H now l js = (Inr ps, l')"
    by (auto simp: CrosschainPost_def post_batch_of_def split: sum.splits if_splits)
  with that show thesis by (auto elim!: intent_batch_success dest: crosschain_journals_nonempty)
qed

lemma effect_at_most_once:
  assumes inv: "ledger_inv H l" and one: "CrosschainPost authorize cap H now l i = (Inr ps, l')"
    and later: "extends l' l''"
    and same: "authorize i = Some a" "authorize i' = Some a'"
      "fa_CanonicalEventID a' = fa_CanonicalEventID a" "i_Effect i' = i_Effect i"
  shows "snd (CrosschainPost authorize cap H now' l'' i') = l''"
proof (cases "intent_batch authorize cap i'")
  case (Inl e)
  then show ?thesis by (simp add: CrosschainPost_def post_batch_of_def)
next
  case (Inr js')
  from one obtain js where js: "intent_batch authorize cap i = Inr js" "PostBatch H now l js = (Inr ps, l')"
    by (rule CrosschainPost_success)
  have scopes: "map idempotency_scope js' = map idempotency_scope js"
    using js(1) Inr same by (auto elim!: intent_batch_success intro: crosschain_same_scopes)
  have "list_all2 (recorded H l') js ps" by (rule book.batch_recorded[OF inv js(2)])
  then have "\<forall>j \<in> set js. \<exists>p. recorded H l' j p"
    by (auto simp: list_all2_conv_all_nth in_set_conv_nth) blast
  then have "\<forall>j \<in> set js. mget (l_idempotency l'') (idempotency_scope j) \<noteq> None"
    using later by (meson book.recorded_later recorded_scope)
  then have "\<forall>s \<in> set (map idempotency_scope js'). mget (l_idempotency l'') s \<noteq> None"
    unfolding scopes by simp
  then have "snd (PostBatch H now' l'' js') = l''" by (intro PostBatch_scoped) simp
  then show ?thesis
    using Inr by (cases "PostBatch H now' l'' js'")
      (auto simp: CrosschainPost_def post_batch_of_def lift_ledger_def split: sum.splits)
qed

section \<open>Groups of accounts\<close>

text \<open>
  Bridge backing, loan principal, satellite custody and control accounts: a journal of this service
  debits and credits two accounts of one group, for the same party, loan and asset.
\<close>

datatype account_group = BridgeBacking | LoanPrincipal | Custody | Control

fun group_accounts :: "account_group \<Rightarrow> string list" where
  "group_accounts BridgeBacking = [AccountCanonicalAssetsLocked, AccountBridgeBackingLiability]"
| "group_accounts LoanPrincipal = [AccountPrincipalReceivable, AccountLenderPrincipalClaims]"
| "group_accounts Custody = [AccountCrossChainReceivable, AccountSatelliteAssetReceivable]"
| "group_accounts Control =
     [AccountUFTBridgeEscrowControl, AccountWrappedUFTOutstandingControl,
      AccountPendingCrossChainSettlement, AccountCrossChainMessagingExpense,
      AccountReconciliationDifference]"

definition in_group :: "account_group \<Rightarrow> string \<Rightarrow> string \<Rightarrow> string \<Rightarrow> Entry \<Rightarrow> bool" where
  "in_group g asset party loan e \<longleftrightarrow>
     e_AccountCode e \<in> set (group_accounts g) \<and> e_AssetID e = asset \<and> e_PartyID e = party \<and>
     e_LoanID e = loan"

lemma crosschain_journal_group:
  assumes "d \<in> set (group_accounts g) \<longleftrightarrow> c \<in> set (group_accounts g)"
  shows "net_where (in_group g asset party loan) (j_Entries (crosschain_journal i ev sf a d c)) = 0"
  using assms by (simp add: crosschain_journal_def Let_def in_group_def)

lemma crosschain_journals_group:
  "crosschain_journals i ev = Inr js \<Longrightarrow>
   \<forall>j \<in> set js. net_where (in_group g asset party loan) (j_Entries j) = 0"
  by (cases "i_Effect i"; cases g)
     (auto simp: crosschain_journals_def Let_def crosschain_accounts
        intro!: crosschain_journal_group)

inductive crosschain_step ::
  "(Intent \<Rightarrow> FinalizedAuthority option) \<Rightarrow> int \<Rightarrow> journal_hash \<Rightarrow> Ledger \<Rightarrow> Ledger \<Rightarrow> bool"
  for authorize cap H where
  "CrosschainPost authorize cap H now l i = (r, l') \<Longrightarrow> crosschain_step authorize cap H l l'"

lemma CrosschainPost_group:
  assumes "CrosschainPost authorize cap H now l i = (r, l')"
    and "all_journals (\<lambda>j. net_where (in_group g asset party loan) (j_Entries j) = 0) l"
  shows "all_journals (\<lambda>j. net_where (in_group g asset party loan) (j_Entries j) = 0) l'"
  using assms unfolding CrosschainPost_def
  by (rule post_batch_of_all) (auto elim!: intent_batch_success dest: crosschain_journals_group)

interpretation crosschain_groups: kept_invariant "\<lambda>l. l = ledger_New" "crosschain_step authorize cap H"
  "all_journals (\<lambda>j. net_where (in_group g asset party loan) (j_Entries j) = 0)"
  for authorize cap H g asset party loan
  by unfold_locales (auto elim!: crosschain_step.cases intro: CrosschainPost_group)

section \<open>A concrete effect\<close>

definition no_cancellation :: CancellationCompletion where
  "no_cancellation = \<lparr>cc_CancellationID = [], cc_LoanID = [], cc_FundingLockID = [],
     cc_DisbursementMessageID = [], cc_DisbursementTombstoneHash = [], cc_EscrowBurnResultHash = [],
     cc_HomeLoanAccount = [], cc_Lender = [], cc_WrappedToken = [], cc_Amount = [], cc_PolicyHash = []\<rparr>"

definition sample_lock :: Intent where
  "sample_lock = \<lparr>i_ID = ''i1'', i_Effect = CanonicalLock, i_MessageID = ''m1'', i_HomeEventID = [],
     i_LoanID = ''L1'', i_RouteID = ''r'', i_AssetID = ''UFT'', i_WrappedAssetID = [],
     i_WrappedTokenAddress = [], i_CompensatedMessageID = [], i_Units = ''7'', i_PartyID = ''P'',
     i_LenderAddress = [], i_RoutePurpose = [], i_ActionFamilyHash = [], i_SourceComponent = [],
     i_TypedAction = [], i_Cancellation = no_cancellation, i_EvidenceHash = ''h'',
     i_CorrelationID = ''c'', i_EffectiveAt = 2\<rparr>"

definition sample_authorize :: "Intent \<Rightarrow> FinalizedAuthority option" where
  "sample_authorize i = Some \<lparr>fa_CanonicalEventID = i_MessageID i, fa_Kind = CrossChainAuthority,
     fa_Stage = StageSourceFinal, fa_ActionOrdinal = 1, fa_RouteID = [], fa_RoutePurpose = [],
     fa_ActionFamilyHash = [], fa_SourceComponent = [], fa_TypedAction = [], fa_LenderID = [],
     fa_CanonicalAssetID = [], fa_WrappedAssetID = [], fa_Cancellation = no_cancellation,
     fa_EvidenceHash = ''h'', fa_CompensatedMessageID = [], fa_CompensatedActionOrdinal = 0,
     fa_Finalized = True\<rparr>"

lemma sample_lock_books:
  "\<exists>p q l. CrosschainPost sample_authorize 10 sample_hash 5 ledger_New sample_lock = (Inr [p, q], l)"
  by (simp add: CrosschainPost_def intent_batch_def sample_lock_def sample_authorize_def
      validateAuthority_def isCompensation_def crosschain_journals_def crosschain_journal_def
      crosschain_accounts canonical_def post_eval big_eval)

section \<open>Properties\<close>

text \<open>
  C13: an effect is booked at most once per canonical event. Once an effect of a canonical event
  is booked, then in every later ledger no intent for the same effect and the same event
  changes the ledger, whatever its other fields say (identifier, units, party, asset): it is a
  replay or a refused conflict.
\<close>

theorem crosschain_effect_at_most_once:
  assumes "ledger_reachable H l" and "CrosschainPost authorize cap H now l i = (Inr ps, l')"
    and "(ledger_step H)\<^sup>*\<^sup>* l' l''"
    and "authorize i = Some a" and "authorize i' = Some a'"
    and "fa_CanonicalEventID a' = fa_CanonicalEventID a" and "i_Effect i' = i_Effect i"
  shows "snd (CrosschainPost authorize cap H now' l'' i') = l''"
proof -
  have inv: "ledger_inv H l" by (rule led.always[OF assms(1)])
  have "extends l' l''"
    using led.later[OF assms(3)] crosschain.book_good[OF inv assms(2)] by blast
  with inv assms show ?thesis by (blast intro: effect_at_most_once)
qed

theorem crosschain_effect_at_most_once_witness:
  "\<exists>p q l. CrosschainPost sample_authorize 10 sample_hash 5 ledger_New sample_lock = (Inr [p, q], l) \<and>
     snd (CrosschainPost sample_authorize 10 sample_hash 6 l (sample_lock\<lparr>i_Units := ''8''\<rparr>)) = l"
proof -
  obtain p q l where run:
    "CrosschainPost sample_authorize 10 sample_hash 5 ledger_New sample_lock = (Inr [p, q], l)"
    using sample_lock_books by blast
  have "snd (CrosschainPost sample_authorize 10 sample_hash 6 l (sample_lock\<lparr>i_Units := ''8''\<rparr>)) = l"
    by (rule crosschain_effect_at_most_once[OF reach_init run rtranclp.rtrancl_refl])
       (simp_all add: sample_authorize_def sample_lock_def)
  with run show ?thesis by blast
qed

text \<open>
  C14: cross-chain accounting never mixes account groups. In every ledger built by this service,
  bridge backing (1410 and 2230), loan principal (1310 and 2310), satellite custody (1420 and
  1430) and the control accounts each net to zero, separately for every asset, party and loan.
\<close>

theorem crosschain_groups_balanced:
  assumes "reachable (\<lambda>l. l = ledger_New) (crosschain_step authorize cap H) l"
  shows "ledger_net (in_group g asset party loan) l = 0"
  using all_journals_net_zero[OF crosschain_groups.always[OF assms]] .

theorem crosschain_groups_balanced_witness:
  "\<exists>p q l. CrosschainPost sample_authorize 10 sample_hash 5 ledger_New sample_lock = (Inr [p, q], l) \<and>
     ledger_net (in_group BridgeBacking ''UFT'' ''P'' ''L1'') l = 0"
proof -
  obtain p q l where run:
    "CrosschainPost sample_authorize 10 sample_hash 5 ledger_New sample_lock = (Inr [p, q], l)"
    using sample_lock_books by blast
  have "reachable (\<lambda>l. l = ledger_New) (crosschain_step sample_authorize 10 sample_hash) l"
    by (rule reach_step[OF reach_init]) (auto intro: crosschain_step.intros[OF run])
  with run crosschain_groups_balanced show ?thesis by blast
qed

text \<open>
  nothing is booked without finalized authority for exactly this effect. A booked intent has a
  finalized authority with the same evidence hash whose canonical event is the intent's message or
  home event; its kind, stage and action allow the effect; compensations are bound to a different
  original message whose action they can compensate; a messaging expense is within the cap.
\<close>

theorem crosschain_booked_authorized:
  assumes "CrosschainPost authorize cap H now l i = (Inr ps, l')"
  shows "\<exists>a units. authorize i = Some a \<and> i_Units i = big_string units \<and> 0 < units \<and>
     (i_Effect i = MessagingExpense \<longrightarrow> units \<le> cap) \<and>
     fa_Finalized a \<and> fa_EvidenceHash a = i_EvidenceHash i \<and>
     (fa_Kind a = CrossChainAuthority \<and> fa_CanonicalEventID a = i_MessageID i \<and>
        authorityAllowsEffect (fa_Stage a) (fa_ActionOrdinal a) (i_Effect i) \<and>
        (isCompensation (i_Effect i) \<longrightarrow>
           fa_CompensatedMessageID a = i_CompensatedMessageID i \<and>
           i_CompensatedMessageID i \<noteq> i_MessageID i \<and>
           compensatedActionAllowsEffect (fa_CompensatedActionOrdinal a) (i_Effect i)) \<and>
        (i_Effect i = LoanCancellationComplete \<longrightarrow> validCancellationAuthority i a) \<or>
      fa_Kind a = DirectHomeAuthority \<and> fa_CanonicalEventID a = i_HomeEventID i \<and>
        i_Effect i = DirectHomeRepayment \<and> fa_Stage a = StageDirectHomeFinal \<or>
      fa_Kind a = InternalAuthority \<and> fa_CanonicalEventID a = i_HomeEventID i \<and>
        (i_Effect i = ReconciliationDiff \<or> i_Effect i = MessagingExpense) \<and>
        fa_Stage a = StageInternalFinal)"
proof -
  from assms obtain js where "intent_batch authorize cap i = Inr js" by (rule CrosschainPost_success)
  then obtain a units where a: "authorize i = Some a" "validateAuthority i a = Inr ()"
    "i_Units i = big_string units" "0 < units" "i_Effect i = MessagingExpense \<longrightarrow> units \<le> cap"
    by (rule intent_batch_success)
  from a(2) show ?thesis
    using a(1,3-5)
    by (cases "fa_Kind a") (auto simp: validateAuthority_def split: if_splits)
qed

theorem crosschain_booked_authorized_witness:
  "\<exists>a units. sample_authorize sample_lock = Some a \<and> i_Units sample_lock = big_string units \<and>
     0 < units \<and> fa_Finalized a \<and> fa_EvidenceHash a = i_EvidenceHash sample_lock"
proof -
  obtain p q l where run:
    "CrosschainPost sample_authorize 10 sample_hash 5 ledger_New sample_lock = (Inr [p, q], l)"
    using sample_lock_books by blast
  from crosschain_booked_authorized[OF run] show ?thesis by blast
qed

end
