(* ===== verification/Crosschain_Reconciliation.thy ===== *)
theory Crosschain_Reconciliation
  imports Accounting_Service
begin

text \<open>
  Reconciliation of control totals against ledger postings,
  \<^verbatim>\<open>foundation-ledger/internal/crosschainreconciliation/reconciliation.go\<close>.
\<close>

section \<open>Data\<close>

datatype recon_error =
    InvalidBoundary | DuplicateBoundary | UnitsNotCanonicalNonnegative | UnknownLedgerSide
  | NoSourceEvent

record Expected =
  x_AssetID :: string
  x_AccountCode :: string
  x_DebitUnits :: string
  x_CreditUnits :: string
  x_MessageCount :: "64 word"
  x_AsOf :: gotime

record Difference =
  df_AssetID :: string
  df_AccountCode :: string
  df_Side :: Side
  df_Metric :: string
  df_Expected :: string
  df_Observed :: string
  df_Owner :: string
  df_DetectedAt :: gotime
  df_Deadline :: gotime

section \<open>One boundary\<close>

definition recon_units :: "string \<Rightarrow> recon_error + int" where
  "recon_units s =
     (case canonical s of
        None \<Rightarrow> Inl UnitsNotCanonicalNonnegative
      | Some i \<Rightarrow> if i < 0 then Inl UnitsNotCanonicalNonnegative else Inr i)"

text \<open>The loop over the entries of one posting: debit total, credit total, whether one matched.\<close>

fun scan_entries ::
  "Expected \<Rightarrow> Entry list \<Rightarrow> int \<times> int \<times> bool \<Rightarrow> recon_error + int \<times> int \<times> bool" where
  "scan_entries x [] acc = Inr acc"
| "scan_entries x (e # es) (d, c, matched) =
     (if e_AssetID e \<noteq> x_AssetID x \<or> e_AccountCode e \<noteq> x_AccountCode x
      then scan_entries x es (d, c, matched)
      else ebind (recon_units (e_Units e)) (\<lambda>v.
        case e_Side e of
          Debit \<Rightarrow> scan_entries x es (d + v, c, True)
        | Credit \<Rightarrow> scan_entries x es (d, c + v, True)
        | UnknownSide _ \<Rightarrow> Inl UnknownLedgerSide))"

fun scan_postings ::
  "Expected \<Rightarrow> PostedJournal list \<Rightarrow> int \<Rightarrow> int \<Rightarrow> string list \<Rightarrow> recon_error + int \<times> int \<times> string list" where
  "scan_postings x [] d c ids = Inr (d, c, ids)"
| "scan_postings x (p # ps) d c ids =
     (if j_EffectiveAt (p_Journal p) > x_AsOf x then scan_postings x ps d c ids
      else ebind (scan_entries x (j_Entries (p_Journal p)) (d, c, False)) (\<lambda>(d', c', matched).
        if matched then
          (if j_SourceEventID (p_Journal p) = [] then Inl NoSourceEvent
           else scan_postings x ps d' c' (List.insert (j_SourceEventID (p_Journal p)) ids))
        else scan_postings x ps d' c' ids))"

definition difference_of ::
  "Expected \<Rightarrow> string \<Rightarrow> gotime \<Rightarrow> string \<Rightarrow> Side \<Rightarrow> string \<Rightarrow> string \<Rightarrow> Difference list" where
  "difference_of x owner deadline metric sd wanted observed =
     (if wanted = observed then []
      else [\<lparr>df_AssetID = x_AssetID x, df_AccountCode = x_AccountCode x, df_Side = sd,
             df_Metric = metric, df_Expected = wanted, df_Observed = observed, df_Owner = owner,
             df_DetectedAt = x_AsOf x, df_Deadline = deadline\<rparr>])"

definition compareBoundary ::
  "PostedJournal list \<Rightarrow> Expected \<Rightarrow> string \<Rightarrow> gotime \<Rightarrow> recon_error + Difference list" where
  "compareBoundary postings x owner deadline =
     ebind (recon_units (x_DebitUnits x)) (\<lambda>expectedDebit.
       ebind (recon_units (x_CreditUnits x)) (\<lambda>expectedCredit.
         ebind (scan_postings x postings 0 0 []) (\<lambda>(observedDebit, observedCredit, ids).
           Inr (difference_of x owner deadline ''DEBIT_UNITS'' Debit (big_string expectedDebit)
                  (big_string observedDebit) @
                difference_of x owner deadline ''CREDIT_UNITS'' Credit (big_string expectedCredit)
                  (big_string observedCredit) @
                difference_of x owner deadline ''MESSAGE_COUNT'' (UnknownSide [])
                  (big_string (uint (x_MessageCount x)))
                  (big_string (int (length ids) mod 2 ^ 64))))))"

section \<open>All boundaries\<close>

definition boundary_key :: "Expected \<Rightarrow> string" where
  "boundary_key x = x_AssetID x @ [CHR 0x00] @ x_AccountCode x"

fun compare_boundaries ::
  "PostedJournal list \<Rightarrow> Expected list \<Rightarrow> string \<Rightarrow> gotime \<Rightarrow> string list \<Rightarrow> recon_error + Difference list" where
  "compare_boundaries postings [] owner deadline seen = Inr []"
| "compare_boundaries postings (x # xs) owner deadline seen =
     (if x_AssetID x = [] \<or> x_AccountCode x = [] \<or> x_AsOf x = 0 \<or> \<not> deadline > x_AsOf x
      then Inl InvalidBoundary
      else if boundary_key x \<in> set seen then Inl DuplicateBoundary
      else ebind (compareBoundary postings x owner deadline) (\<lambda>ds.
        ebind (compare_boundaries postings xs owner deadline (boundary_key x # seen)) (\<lambda>rest.
          Inr (ds @ rest))))"

definition CompareMany ::
  "PostedJournal list \<Rightarrow> Expected list \<Rightarrow> string \<Rightarrow> gotime \<Rightarrow> recon_error + Difference list" where
  "CompareMany postings xs owner deadline =
     (if xs = [] \<or> owner = [] then Inl InvalidBoundary
      else compare_boundaries postings xs owner deadline [])"

definition Compare ::
  "PostedJournal list \<Rightarrow> Expected \<Rightarrow> string \<Rightarrow> gotime \<Rightarrow> recon_error + Difference list" where
  "Compare postings x owner deadline = CompareMany postings [x] owner deadline"

section \<open>What is observed\<close>

definition on_boundary :: "Expected \<Rightarrow> Entry \<Rightarrow> bool" where
  "on_boundary x e \<longleftrightarrow> e_AssetID e = x_AssetID x \<and> e_AccountCode e = x_AccountCode x"

definition in_time :: "Expected \<Rightarrow> PostedJournal \<Rightarrow> bool" where
  "in_time x p \<longleftrightarrow> j_EffectiveAt (p_Journal p) \<le> x_AsOf x"

definition boundary_total :: "Expected \<Rightarrow> Side \<Rightarrow> PostedJournal list \<Rightarrow> int" where
  "boundary_total x sd ps =
     (\<Sum>p\<leftarrow>filter (in_time x) ps. \<Sum>e\<leftarrow>filter (on_boundary x) (j_Entries (p_Journal p)).
        if e_Side e = sd then entry_units e else 0)"

definition boundary_events :: "Expected \<Rightarrow> PostedJournal list \<Rightarrow> string set" where
  "boundary_events x ps =
     {j_SourceEventID (p_Journal p) | p. p \<in> set ps \<and> in_time x p \<and>
        (\<exists>e \<in> set (j_Entries (p_Journal p)). on_boundary x e)}"

lemma recon_units_iff: "recon_units s = Inr i \<longleftrightarrow> s = big_string i \<and> 0 \<le> i"
  by (auto simp: recon_units_def canonical_iff split: option.splits)

lemma scan_entries_totals:
  "scan_entries x es (d, c, m) = Inr (d', c', m') \<Longrightarrow>
   d' = d + (\<Sum>e\<leftarrow>filter (on_boundary x) es. if e_Side e = Debit then entry_units e else 0) \<and>
   c' = c + (\<Sum>e\<leftarrow>filter (on_boundary x) es. if e_Side e = Credit then entry_units e else 0) \<and>
   (m' \<longleftrightarrow> m \<or> (\<exists>e \<in> set es. on_boundary x e))"
proof (induction es arbitrary: d c m)
  case (Cons e es)
  show ?case
  proof (cases "on_boundary x e")
    case False
    with Cons show ?thesis by (auto simp: on_boundary_def)
  next
    case True
    with Cons.prems obtain v where v: "e_Units e = big_string v" "0 \<le> v"
      by (auto simp: on_boundary_def recon_units_iff)
    then have u: "entry_units e = v" by (simp add: entry_units_def)
    have run: "scan_entries x (e # es) (d, c, m) =
        (case e_Side e of Debit \<Rightarrow> scan_entries x es (d + v, c, True)
         | Credit \<Rightarrow> scan_entries x es (d, c + v, True) | UnknownSide _ \<Rightarrow> Inl UnknownLedgerSide)"
      using True v by (simp add: on_boundary_def recon_units_def)
    show ?thesis
      using Cons.prems Cons.IH[of "d + v" c True] Cons.IH[of d "c + v" True] True u
      unfolding run by (cases "e_Side e") simp_all
  qed
qed simp

lemma scan_postings_totals:
  "scan_postings x ps d c ids = Inr (d', c', ids') \<Longrightarrow> distinct ids \<Longrightarrow>
   d' = d + boundary_total x Debit ps \<and> c' = c + boundary_total x Credit ps \<and>
   distinct ids' \<and> set ids' = set ids \<union> boundary_events x ps"
proof (induction ps arbitrary: d c ids)
  case Nil
  then show ?case by (simp add: boundary_total_def boundary_events_def)
next
  case (Cons p ps)
  show ?case
  proof (cases "in_time x p")
    case False
    with Cons show ?thesis
      by (auto simp: boundary_total_def boundary_events_def in_time_def not_le)
  next
    case True
    with Cons.prems obtain d1 c1 m1 where e:
      "scan_entries x (j_Entries (p_Journal p)) (d, c, False) = Inr (d1, c1, m1)"
      by (auto simp: in_time_def not_less)
    note t = scan_entries_totals[OF e]
    define ids1 where "ids1 = (if m1 then List.insert (j_SourceEventID (p_Journal p)) ids else ids)"
    from Cons.prems True e have rest: "scan_postings x ps d1 c1 ids1 = Inr (d', c', ids')"
      by (auto simp: ids1_def in_time_def split: if_splits)
    have "distinct ids1" using Cons.prems(2) by (simp add: ids1_def)
    from Cons.IH[OF rest this] t True show ?thesis
      by (auto simp: boundary_total_def boundary_events_def ids1_def)
  qed
qed

section \<open>Concrete postings\<close>

definition sample_expected :: Expected where
  "sample_expected = \<lparr>x_AssetID = ''USD'', x_AccountCode = ''1000'', x_DebitUnits = big_string 5,
     x_CreditUnits = ''0'', x_MessageCount = 1, x_AsOf = 10\<rparr>"

lemma canonical_0 [simp]: "canonical ''0'' = Some 0"
  using canonical_string[of 0] by simp

lemma canonical_digit [simp]: "canonical ''5'' = Some 5"
  by (simp add: canonical_def big_eval)

lemma sample_reconciled:
  "compareBoundary (ledger_List sample_ledger) sample_expected ''ops'' 20 = Inr []"
  by (simp add: compareBoundary_def sample_ledger_value ledger_List_def sample_expected_def
      recon_units_def sample_journal_def sample_entry_def zero_journal_def difference_of_def)

text \<open>The sample journal with its amounts written with a leading zero.\<close>

definition padded_journal :: Journal where
  "padded_journal = sample_journal\<lparr>j_Entries :=
     [sample_entry ''1000'' Debit ''05'', sample_entry ''2000'' Credit ''05'']\<rparr>"

lemma padded_posts:
  "Post sample_hash 7 ledger_New padded_journal =
     (Inr \<lparr>p_Journal = padded_journal, p_ContentHash = ''J1'', p_PostedAt = 7\<rparr>,
      insert_posted padded_journal ''J1'' 7 ledger_New)"
  by (simp add: padded_journal_def Post_def postValidated_def ledger_New_def sample_eval Let_def
      insert_posted_def)

lemma padded_not_reconciled:
  "compareBoundary [\<lparr>p_Journal = padded_journal, p_ContentHash = ''J1'', p_PostedAt = 7\<rparr>]
     sample_expected ''ops'' 20 = Inl UnitsNotCanonicalNonnegative"
  by (simp add: compareBoundary_def sample_expected_def recon_units_def padded_journal_def
      sample_journal_def sample_entry_def zero_journal_def canonical_def big_eval)

section \<open>Properties\<close>

text \<open>
  C15: reconciliation finds a difference exactly where there is one. When the comparison of an
  account in an asset succeeds, it reports nothing if and only if the expected debits and
  credits equal the sums of the matching entries effective by the cut-off, and the expected
  number of messages equals the number of distinct source events among the matching journals.
\<close>

theorem compareBoundary_exact:
  assumes "compareBoundary postings x owner deadline = Inr ds"
    and "card (boundary_events x postings) < 2 ^ 64"
  shows "ds = [] \<longleftrightarrow>
     x_DebitUnits x = big_string (boundary_total x Debit postings) \<and>
     x_CreditUnits x = big_string (boundary_total x Credit postings) \<and>
     uint (x_MessageCount x) = int (card (boundary_events x postings))"
proof -
  from assms(1) obtain ed ec d c ids where r:
    "x_DebitUnits x = big_string ed" "x_CreditUnits x = big_string ec"
    "scan_postings x postings 0 0 [] = Inr (d, c, ids)"
    "ds = difference_of x owner deadline ''DEBIT_UNITS'' Debit (big_string ed) (big_string d) @
      difference_of x owner deadline ''CREDIT_UNITS'' Credit (big_string ec) (big_string c) @
      difference_of x owner deadline ''MESSAGE_COUNT'' (UnknownSide [])
        (big_string (uint (x_MessageCount x))) (big_string (int (length ids) mod 2 ^ 64))"
    by (auto simp: compareBoundary_def recon_units_iff)
  from scan_postings_totals[OF r(3)] have t: "d = boundary_total x Debit postings"
    "c = boundary_total x Credit postings" "length ids = card (boundary_events x postings)"
    using distinct_card[of ids] by auto
  have "int (length ids) mod 2 ^ 64 = int (length ids)"
    using assms(2) t(3) by simp
  with r t show ?thesis by (simp add: difference_of_def)
qed

theorem compareBoundary_exact_witness:
  "uint (x_MessageCount sample_expected) =
     int (card (boundary_events sample_expected (ledger_List sample_ledger)))"
proof -
  have "boundary_events sample_expected (ledger_List sample_ledger) = {''E''}"
    by (auto simp: boundary_events_def sample_ledger_value ledger_List_def sample_expected_def
        in_time_def on_boundary_def sample_journal_def sample_entry_def zero_journal_def)
  then show ?thesis
    using compareBoundary_exact[OF sample_reconciled] by simp
qed

text \<open>
  the ledger accepts amounts that reconciliation rejects. The ledger reads units with a sign
  or leading zeros (''05''), reconciliation insists on canonical decimals: a journal that was
  posted makes every comparison of its accounts fail with an error instead of a difference.
\<close>

theorem posted_units_break_reconciliation:
  "\<exists>H j p l x. Post H 7 ledger_New j = (Inr p, l) \<and> ledger_Get l (j_ID j) = Some p \<and>
     compareBoundary [p] x ''ops'' 20 = Inl UnitsNotCanonicalNonnegative"
  by (rule exI[of _ sample_hash], rule exI[of _ padded_journal], rule exI, rule exI,
      rule exI[of _ sample_expected], rule conjI[OF padded_posts], rule conjI[OF _ padded_not_reconciled])
     (simp add: ledger_Get_def insert_posted_def)

end
