(* ===== verification/Allocation.thy ===== *)
theory Allocation
  imports Allocation_Mode Payment_Types Big_Int
begin

text \<open>
  The synthetic allocation engine, \<^verbatim>\<open>payment-orchestrator/allocation/allocation.go\<close>: a final payment
  reduces the outstanding principal of an obligation once, and a provider reversal restores it.

  The two SHA-256 digests over JSON are arguments: \<open>idDigest\<close> over the seven fields of an allocation
  identifier and \<open>claimDigest\<close> over the thirty-one fields of a claim. The \<open>Accounting\<close> interface is the
  pair \<open>applyA\<close>, \<open>reverseA\<close> on a state \<open>'acc\<close>, and the store of the mode registry is \<open>claimSynthetic\<close>.
  A use of the nil result of a failed \<open>SetString\<close> is the error \<open>NilDereference\<close>; it is shown never
  to occur.
\<close>

section \<open>Data\<close>

datatype 'e allocation_error =
    ErrInvalidObligation | ErrInvalidAllocation | ErrAllocationConflict | ErrInvalidReversal
  | ErrAllocationAccounting 'e | NilDereference

record Obligation =
  ob_LoanID :: string
  ob_BorrowerID :: string
  ob_LenderID :: string
  ob_AssetID :: string
  ob_OutstandingPrincipalUnits :: string
  ob_Version :: "64 word"
  ob_SourceAuthority :: string
  ob_SourceEvidenceHash :: string
  ob_AsOf :: gotime

record FinalPayment =
  fp_PaymentID :: string
  fp_ProviderID :: string
  fp_ProviderReference :: string
  fp_AssetID :: string
  fp_Units :: string
  fp_Status :: Status
  fp_PaymentVersion :: "64 word"
  fp_ReconciliationID :: string
  fp_DifferenceUnits :: string
  fp_UnmatchedItems :: "32 word"
  fp_FinalityPolicyHash :: string
  fp_ReversalDeadline :: gotime
  fp_EvidenceHash :: string
  fp_FinalizedAt :: gotime

record AllocationRequest =
  rq_AllocationID :: string
  rq_Payment :: FinalPayment
  rq_LoanID :: string
  rq_ExpectedObligationVersion :: "64 word"
  rq_WaterfallPolicyHash :: string
  rq_CorrelationID :: string
  rq_EvidenceHash :: string
  rq_AllocatedAt :: gotime

record Allocation =
  al_AllocationID :: string
  al_PaymentID :: string
  al_LoanID :: string
  al_ProviderID :: string
  al_ProviderReference :: string
  al_AssetID :: string
  al_PaymentVersion :: "64 word"
  al_PaymentEvidenceHash :: string
  al_PaymentFinalizedAt :: gotime
  al_GrossUnits :: string
  al_PrincipalUnits :: string
  al_RefundableExcessUnits :: string
  al_DebtBeforeUnits :: string
  al_DebtAfterUnits :: string
  al_ObligationVersionBefore :: "64 word"
  al_ObligationVersionAfter :: "64 word"
  al_WaterfallPolicyHash :: string
  al_FinalityPolicyHash :: string
  al_ReconciliationID :: string
  al_ReversalDeadline :: gotime
  al_CorrelationID :: string
  al_EvidenceHash :: string
  al_ClaimDigest :: string
  al_JournalIDs :: "string list"
  al_AllocatedAt :: gotime

record ReversalRequest =
  rr_ReversalID :: string
  rr_AllocationID :: string
  rr_PaymentID :: string
  rr_ExpectedObligationVersion :: "64 word"
  rr_ProviderID :: string
  rr_ProviderReference :: string
  rr_Status :: Status
  rr_ProviderEventID :: string
  rr_ReasonCode :: string
  rr_EvidenceHash :: string
  rr_ReversedAt :: gotime

record Reversal =
  rv_ReversalID :: string
  rv_AllocationID :: string
  rv_PaymentID :: string
  rv_LoanID :: string
  rv_RestoredPrincipalUnits :: string
  rv_RemovedExcessUnits :: string
  rv_DebtBeforeUnits :: string
  rv_DebtAfterUnits :: string
  rv_ObligationVersionBefore :: "64 word"
  rv_ObligationVersionAfter :: "64 word"
  rv_ReasonCode :: string
  rv_EvidenceHash :: string
  rv_JournalIDs :: "string list"
  rv_ReversedAt :: gotime

record ('acc, 'st) Engine =
  en_accounting :: 'acc
  en_obligations :: "(string, Obligation) gomap"
  en_allocations :: "(string, Allocation) gomap"
  en_byPayment :: "(string, string) gomap"
  en_reversals :: "(string, Reversal) gomap"
  en_modes :: "'st Registry"

section \<open>Digests and checks\<close>

text \<open>What \<open>CalculateAllocationID\<close> digests, in the order of its struct.\<close>

type_synonym id_fields = "string \<times> string \<times> 64 word \<times> string \<times> string \<times> string \<times> string"

definition CalculateAllocationID :: "(id_fields \<Rightarrow> string) \<Rightarrow> AllocationRequest \<Rightarrow> string" where
  "CalculateAllocationID idDigest q =
     idDigest (fp_PaymentID (rq_Payment q), rq_LoanID q, rq_ExpectedObligationVersion q,
       fp_Units (rq_Payment q), rq_WaterfallPolicyHash q, fp_FinalityPolicyHash (rq_Payment q),
       rq_EvidenceHash q)"

text \<open>What \<open>allocationClaimDigest\<close> digests, field by field.\<close>

record ClaimFields =
  cf_AllocationID :: string
  cf_PaymentID :: string
  cf_LoanID :: string
  cf_ProviderID :: string
  cf_ProviderReference :: string
  cf_AssetID :: string
  cf_PaymentStatus :: Status
  cf_PaymentVersion :: "64 word"
  cf_PaymentEvidenceHash :: string
  cf_PaymentFinalizedAt :: gotime
  cf_ReconciliationDifferenceUnits :: string
  cf_ReconciliationUnmatchedItems :: "32 word"
  cf_GrossUnits :: string
  cf_PrincipalUnits :: string
  cf_RefundableExcessUnits :: string
  cf_DebtBeforeUnits :: string
  cf_DebtAfterUnits :: string
  cf_ObligationVersionBefore :: "64 word"
  cf_ObligationVersionAfter :: "64 word"
  cf_WaterfallPolicyHash :: string
  cf_FinalityPolicyHash :: string
  cf_ReconciliationID :: string
  cf_ReversalDeadline :: gotime
  cf_CorrelationID :: string
  cf_EvidenceHash :: string
  cf_AllocatedAt :: gotime
  cf_BorrowerID :: string
  cf_LenderID :: string
  cf_ObligationSourceAuthority :: string
  cf_ObligationSourceEvidenceHash :: string
  cf_ObligationAsOf :: gotime

definition allocationClaimDigest ::
  "(ClaimFields \<Rightarrow> string) \<Rightarrow> Allocation \<Rightarrow> FinalPayment \<Rightarrow> Obligation \<Rightarrow> string" where
  "allocationClaimDigest claimDigest a f ob =
     claimDigest
       \<lparr>cf_AllocationID = al_AllocationID a, cf_PaymentID = al_PaymentID a, cf_LoanID = al_LoanID a,
        cf_ProviderID = al_ProviderID a, cf_ProviderReference = al_ProviderReference a,
        cf_AssetID = al_AssetID a, cf_PaymentStatus = fp_Status f,
        cf_PaymentVersion = fp_PaymentVersion f, cf_PaymentEvidenceHash = fp_EvidenceHash f,
        cf_PaymentFinalizedAt = fp_FinalizedAt f,
        cf_ReconciliationDifferenceUnits = fp_DifferenceUnits f,
        cf_ReconciliationUnmatchedItems = fp_UnmatchedItems f,
        cf_GrossUnits = al_GrossUnits a, cf_PrincipalUnits = al_PrincipalUnits a,
        cf_RefundableExcessUnits = al_RefundableExcessUnits a,
        cf_DebtBeforeUnits = al_DebtBeforeUnits a, cf_DebtAfterUnits = al_DebtAfterUnits a,
        cf_ObligationVersionBefore = al_ObligationVersionBefore a,
        cf_ObligationVersionAfter = al_ObligationVersionAfter a,
        cf_WaterfallPolicyHash = al_WaterfallPolicyHash a,
        cf_FinalityPolicyHash = al_FinalityPolicyHash a,
        cf_ReconciliationID = al_ReconciliationID a, cf_ReversalDeadline = al_ReversalDeadline a,
        cf_CorrelationID = al_CorrelationID a, cf_EvidenceHash = al_EvidenceHash a,
        cf_AllocatedAt = al_AllocatedAt a, cf_BorrowerID = ob_BorrowerID ob,
        cf_LenderID = ob_LenderID ob, cf_ObligationSourceAuthority = ob_SourceAuthority ob,
        cf_ObligationSourceEvidenceHash = ob_SourceEvidenceHash ob, cf_ObligationAsOf = ob_AsOf ob\<rparr>"

text \<open>The parsed number, nil when \<open>SetString\<close> fails, and whether the text is canonical.\<close>

definition canonicalPositive :: "string \<Rightarrow> int option \<times> bool" where
  "canonicalPositive s =
     (case big_set_string s of
        None \<Rightarrow> (None, False) | Some n \<Rightarrow> (Some n, 0 < n \<and> big_string n = s))"

definition canonicalNonNegative :: "string \<Rightarrow> int option \<times> bool" where
  "canonicalNonNegative s =
     (case big_set_string s of
        None \<Rightarrow> (None, False) | Some n \<Rightarrow> (Some n, 0 \<le> n \<and> big_string n = s))"

definition validObligation :: "Obligation \<Rightarrow> bool" where
  "validObligation ob \<longleftrightarrow>
     (case canonicalPositive (ob_OutstandingPrincipalUnits ob) of (units, ok) \<Rightarrow>
        ob_LoanID ob \<noteq> [] \<and> ob_BorrowerID ob \<noteq> [] \<and> ob_LenderID ob \<noteq> [] \<and> ob_AssetID ob \<noteq> [] \<and>
        0 < ob_Version ob \<and> ob_SourceAuthority ob \<noteq> [] \<and> ob_SourceEvidenceHash ob \<noteq> [] \<and>
        ob_AsOf ob \<noteq> 0 \<and> ok \<and> 0 < the_default 0 units)"

definition validFinalPayment :: "FinalPayment \<Rightarrow> bool" where
  "validFinalPayment f \<longleftrightarrow>
     (case canonicalPositive (fp_Units f) of (units, ok) \<Rightarrow>
      case canonicalNonNegative (fp_DifferenceUnits f) of (difference, differenceOK) \<Rightarrow>
        fp_PaymentID f \<noteq> [] \<and> fp_ProviderID f \<noteq> [] \<and> fp_ProviderReference f \<noteq> [] \<and>
        fp_AssetID f \<noteq> [] \<and> fp_Status f = StatusFinal \<and> 0 < fp_PaymentVersion f \<and>
        fp_ReconciliationID f \<noteq> [] \<and> differenceOK \<and> the_default 0 difference = 0 \<and>
        fp_UnmatchedItems f = 0 \<and> fp_FinalityPolicyHash f \<noteq> [] \<and> fp_EvidenceHash f \<noteq> [] \<and>
        fp_FinalizedAt f \<noteq> 0 \<and> fp_FinalizedAt f < fp_ReversalDeadline f \<and> ok \<and>
        0 < the_default 0 units)"

definition requestMatchesAllocation :: "AllocationRequest \<Rightarrow> Allocation \<Rightarrow> bool" where
  "requestMatchesAllocation q a \<longleftrightarrow>
     al_AllocationID a = rq_AllocationID q \<and> al_PaymentID a = fp_PaymentID (rq_Payment q) \<and>
     al_LoanID a = rq_LoanID q \<and> al_ProviderID a = fp_ProviderID (rq_Payment q) \<and>
     al_ProviderReference a = fp_ProviderReference (rq_Payment q) \<and>
     al_AssetID a = fp_AssetID (rq_Payment q) \<and>
     al_PaymentVersion a = fp_PaymentVersion (rq_Payment q) \<and>
     al_PaymentEvidenceHash a = fp_EvidenceHash (rq_Payment q) \<and>
     al_PaymentFinalizedAt a = fp_FinalizedAt (rq_Payment q) \<and>
     al_GrossUnits a = fp_Units (rq_Payment q) \<and>
     al_ObligationVersionBefore a = rq_ExpectedObligationVersion q \<and>
     al_WaterfallPolicyHash a = rq_WaterfallPolicyHash q \<and>
     al_FinalityPolicyHash a = fp_FinalityPolicyHash (rq_Payment q) \<and>
     al_ReconciliationID a = fp_ReconciliationID (rq_Payment q) \<and>
     al_ReversalDeadline a = fp_ReversalDeadline (rq_Payment q) \<and>
     al_CorrelationID a = rq_CorrelationID q \<and> al_EvidenceHash a = rq_EvidenceHash q \<and>
     al_AllocatedAt a = rq_AllocatedAt q"

section \<open>The engine\<close>

fun engine_records ::
  "Obligation list \<Rightarrow> (string, Obligation) gomap \<Rightarrow> 'e allocation_error + (string, Obligation) gomap" where
  "engine_records [] m = Inr m"
| "engine_records (ob # obs) m =
     (if \<not> validObligation ob \<or>
         (case mget m (ob_LoanID ob) of None \<Rightarrow> False | Some prev \<Rightarrow> ob_LoanID prev \<noteq> [])
      then Inl ErrInvalidObligation
      else engine_records obs (mput (ob_LoanID ob) ob m))"

definition engine_New ::
  "Obligation list \<Rightarrow> 'acc \<Rightarrow> 'st Registry \<Rightarrow> 'e allocation_error + ('acc, 'st) Engine" where
  "engine_New obs acc modes =
     (if obs = [] then Inl ErrInvalidObligation
      else case engine_records obs [] of
        Inl e \<Rightarrow> Inl e
      | Inr m \<Rightarrow>
          Inr \<lparr>en_accounting = acc, en_obligations = m, en_allocations = [], en_byPayment = [],
               en_reversals = [], en_modes = modes\<rparr>)"

text \<open>The allocation literal of \<open>Allocate\<close>, before its digest and its journals are known.\<close>

definition allocation_of :: "AllocationRequest \<Rightarrow> Obligation \<Rightarrow> int \<Rightarrow> int \<Rightarrow> int \<Rightarrow> Allocation" where
  "allocation_of q ob gross prin debt =
     \<lparr>al_AllocationID = rq_AllocationID q, al_PaymentID = fp_PaymentID (rq_Payment q),
      al_LoanID = rq_LoanID q, al_ProviderID = fp_ProviderID (rq_Payment q),
      al_ProviderReference = fp_ProviderReference (rq_Payment q), al_AssetID = ob_AssetID ob,
      al_PaymentVersion = fp_PaymentVersion (rq_Payment q),
      al_PaymentEvidenceHash = fp_EvidenceHash (rq_Payment q),
      al_PaymentFinalizedAt = fp_FinalizedAt (rq_Payment q),
      al_GrossUnits = big_string gross, al_PrincipalUnits = big_string prin,
      al_RefundableExcessUnits = big_string (gross - prin),
      al_DebtBeforeUnits = big_string debt, al_DebtAfterUnits = big_string (debt - prin),
      al_ObligationVersionBefore = ob_Version ob, al_ObligationVersionAfter = ob_Version ob + 1,
      al_WaterfallPolicyHash = rq_WaterfallPolicyHash q,
      al_FinalityPolicyHash = fp_FinalityPolicyHash (rq_Payment q),
      al_ReconciliationID = fp_ReconciliationID (rq_Payment q),
      al_ReversalDeadline = fp_ReversalDeadline (rq_Payment q),
      al_CorrelationID = rq_CorrelationID q, al_EvidenceHash = rq_EvidenceHash q,
      al_ClaimDigest = [], al_JournalIDs = [], al_AllocatedAt = rq_AllocatedAt q\<rparr>"

definition invalid_request :: "(id_fields \<Rightarrow> string) \<Rightarrow> AllocationRequest \<Rightarrow> bool" where
  "invalid_request idDigest q \<longleftrightarrow>
     rq_AllocationID q = [] \<or> rq_AllocationID q \<noteq> CalculateAllocationID idDigest q \<or>
     rq_LoanID q = [] \<or> rq_WaterfallPolicyHash q = [] \<or> rq_CorrelationID q = [] \<or>
     rq_EvidenceHash q = [] \<or> rq_AllocatedAt q = 0 \<or>
     rq_AllocatedAt q < fp_FinalizedAt (rq_Payment q) \<or> \<not> validFinalPayment (rq_Payment q)"

text \<open>The obligation and the engine after a booked allocation, and after a booked reversal.\<close>

definition reduced :: "AllocationRequest \<Rightarrow> int \<Rightarrow> Obligation \<Rightarrow> Obligation" where
  "reduced q after ob =
     ob\<lparr>ob_OutstandingPrincipalUnits := big_string after, ob_Version := ob_Version ob + 1,
        ob_AsOf := rq_AllocatedAt q, ob_SourceAuthority := ''SYNTHETIC_PAYMENT_ALLOCATION'',
        ob_SourceEvidenceHash := rq_EvidenceHash q\<rparr>"

definition record_allocation ::
  "Obligation \<Rightarrow> Allocation \<Rightarrow> ('acc, 'st) Engine \<Rightarrow> ('acc, 'st) Engine" where
  "record_allocation ob a e =
     e\<lparr>en_obligations := mput (ob_LoanID ob) ob (en_obligations e),
       en_allocations := mput (al_AllocationID a) a (en_allocations e),
       en_byPayment := mput (al_PaymentID a) (al_AllocationID a) (en_byPayment e)\<rparr>"

definition Allocate ::
  "(id_fields \<Rightarrow> string) \<Rightarrow> (ClaimFields \<Rightarrow> string) \<Rightarrow>
   ('st \<Rightarrow> Claim \<Rightarrow> (mode_error + bool) \<times> 'st) \<Rightarrow>
   ('acc \<Rightarrow> Allocation \<Rightarrow> ('e + string list) \<times> 'acc) \<Rightarrow>
   ('acc, 'st) Engine \<Rightarrow> AllocationRequest \<Rightarrow> ('e allocation_error + Allocation) \<times> ('acc, 'st) Engine" where
  "Allocate idDigest claimDigest claimSynthetic applyA e q =
     (if invalid_request idDigest q then (Inl ErrInvalidAllocation, e)
      else case mget (en_byPayment e) (fp_PaymentID (rq_Payment q)) of
        Some i \<Rightarrow>
          (case mget (en_allocations e) i of
             None \<Rightarrow> (Inl ErrAllocationConflict, e)
           | Some existing \<Rightarrow>
               if requestMatchesAllocation q existing then (Inr existing, e)
               else (Inl ErrAllocationConflict, e))
      | None \<Rightarrow>
          (case mget (en_obligations e) (rq_LoanID q) of
             None \<Rightarrow> (Inl ErrInvalidAllocation, e)
           | Some ob \<Rightarrow>
               if ob_Version ob \<noteq> rq_ExpectedObligationVersion q \<or>
                  ob_AssetID ob \<noteq> fp_AssetID (rq_Payment q) \<or> rq_AllocatedAt q < ob_AsOf ob
               then (Inl ErrInvalidAllocation, e)
               else case (fst (canonicalPositive (ob_OutstandingPrincipalUnits ob)),
                          fst (canonicalPositive (fp_Units (rq_Payment q)))) of
                 (Some debt, Some gross) \<Rightarrow>
                   let prin = (if gross > debt then debt else gross) in
                   if prin = 0 then (Inl ErrInvalidAllocation, e)
                   else
                     let a0 = allocation_of q ob gross prin debt;
                         a1 = a0\<lparr>al_ClaimDigest := allocationClaimDigest claimDigest a0 (rq_Payment q) ob\<rparr>
                     in (case ClaimMode claimSynthetic (en_modes e) (al_PaymentID a1) (al_AllocationID a1)
                                ModeSyntheticProjection (al_ClaimDigest a1) (fp_PaymentVersion (rq_Payment q))
                                (al_EvidenceHash a1) (al_AllocatedAt a1) of
                           (Inl _, modes) \<Rightarrow> (Inl ErrAllocationConflict, e\<lparr>en_modes := modes\<rparr>)
                         | (Inr _, modes) \<Rightarrow>
                             (case applyA (en_accounting e) a1 of
                                (Inl err, acc) \<Rightarrow>
                                  (Inl (ErrAllocationAccounting err), e\<lparr>en_modes := modes, en_accounting := acc\<rparr>)
                              | (Inr ids, acc) \<Rightarrow>
                                  let a2 = a1\<lparr>al_JournalIDs := ids\<rparr>
                                  in (Inr a2, record_allocation (reduced q (debt - prin) ob) a2
                                        (e\<lparr>en_modes := modes, en_accounting := acc\<rparr>))))
               | _ \<Rightarrow> (Inl NilDereference, e)))"

definition restored_obligation :: "ReversalRequest \<Rightarrow> int \<Rightarrow> Obligation \<Rightarrow> Obligation" where
  "restored_obligation q units ob =
     ob\<lparr>ob_OutstandingPrincipalUnits := big_string units, ob_Version := ob_Version ob + 1,
        ob_AsOf := rr_ReversedAt q, ob_SourceAuthority := ''SYNTHETIC_PAYMENT_REVERSAL'',
        ob_SourceEvidenceHash := rr_EvidenceHash q\<rparr>"

definition zero_obligation :: Obligation where
  "zero_obligation = \<lparr>ob_LoanID = [], ob_BorrowerID = [], ob_LenderID = [], ob_AssetID = [],
     ob_OutstandingPrincipalUnits = [], ob_Version = 0, ob_SourceAuthority = [],
     ob_SourceEvidenceHash = [], ob_AsOf = 0\<rparr>"

definition reversal_of :: "ReversalRequest \<Rightarrow> Allocation \<Rightarrow> Obligation \<Rightarrow> int \<Rightarrow> int \<Rightarrow> Reversal" where
  "reversal_of q a ob current prin =
     \<lparr>rv_ReversalID = rr_ReversalID q, rv_AllocationID = al_AllocationID a,
      rv_PaymentID = al_PaymentID a, rv_LoanID = al_LoanID a,
      rv_RestoredPrincipalUnits = big_string prin, rv_RemovedExcessUnits = al_RefundableExcessUnits a,
      rv_DebtBeforeUnits = big_string current, rv_DebtAfterUnits = big_string (current + prin),
      rv_ObligationVersionBefore = ob_Version ob, rv_ObligationVersionAfter = ob_Version ob + 1,
      rv_ReasonCode = rr_ReasonCode q, rv_EvidenceHash = rr_EvidenceHash q, rv_JournalIDs = [],
      rv_ReversedAt = rr_ReversedAt q\<rparr>"

definition record_reversal ::
  "Obligation \<Rightarrow> Allocation \<Rightarrow> Reversal \<Rightarrow> ('acc, 'st) Engine \<Rightarrow> ('acc, 'st) Engine" where
  "record_reversal ob a v e =
     e\<lparr>en_obligations := mput (ob_LoanID ob) ob (en_obligations e),
       en_reversals := mput (al_AllocationID a) v (en_reversals e)\<rparr>"

definition engine_Reverse ::
  "('acc \<Rightarrow> Allocation \<Rightarrow> ReversalRequest \<Rightarrow> ('e + string list) \<times> 'acc) \<Rightarrow>
   ('acc, 'st) Engine \<Rightarrow> ReversalRequest \<Rightarrow> ('e allocation_error + Reversal) \<times> ('acc, 'st) Engine" where
  "engine_Reverse reverseA e q =
     (if rr_ReversalID q = [] \<or> rr_AllocationID q = [] \<or> rr_PaymentID q = [] \<or> rr_ProviderID q = [] \<or>
         rr_ProviderReference q = [] \<or> rr_Status q \<noteq> StatusReversed \<or> rr_ProviderEventID q = [] \<or>
         rr_ReasonCode q = [] \<or> rr_EvidenceHash q = [] \<or> rr_ReversedAt q = 0
      then (Inl ErrInvalidReversal, e)
      else case mget (en_reversals e) (rr_AllocationID q) of
        Some existing \<Rightarrow>
          if rv_ReversalID existing = rr_ReversalID q \<and> rv_EvidenceHash existing = rr_EvidenceHash q
          then (Inr existing, e) else (Inl ErrInvalidReversal, e)
      | None \<Rightarrow>
          (case mget (en_allocations e) (rr_AllocationID q) of
             None \<Rightarrow> (Inl ErrInvalidReversal, e)
           | Some a \<Rightarrow>
               let ob = the_default zero_obligation (mget (en_obligations e) (al_LoanID a)) in
               if al_PaymentID a \<noteq> rr_PaymentID q \<or> al_ProviderID a \<noteq> rr_ProviderID q \<or>
                  al_ProviderReference a \<noteq> rr_ProviderReference q \<or>
                  ob_Version ob \<noteq> rr_ExpectedObligationVersion q \<or>
                  rr_ReversedAt q < al_AllocatedAt a
               then (Inl ErrInvalidReversal, e)
               else case canonicalNonNegative (ob_OutstandingPrincipalUnits ob) of
                 (Some current, True) \<Rightarrow>
                   (case fst (canonicalPositive (al_PrincipalUnits a)) of
                      None \<Rightarrow> (Inl NilDereference, e)
                    | Some prin \<Rightarrow>
                        (case reverseA (en_accounting e) a q of
                           (Inl err, acc) \<Rightarrow> (Inl (ErrAllocationAccounting err), e\<lparr>en_accounting := acc\<rparr>)
                         | (Inr ids, acc) \<Rightarrow>
                             let v = (reversal_of q a ob current prin)\<lparr>rv_JournalIDs := ids\<rparr>
                             in (Inr v, record_reversal (restored_obligation q (current + prin) ob) a v
                                   (e\<lparr>en_accounting := acc\<rparr>))))
               | _ \<Rightarrow> (Inl ErrInvalidReversal, e)))"

fun no_open_reversal ::
  "(string, Reversal) gomap \<Rightarrow> string \<Rightarrow> gotime \<Rightarrow> (string, Allocation) gomap \<Rightarrow> bool" where
  "no_open_reversal reversals loanID asOf [] = True"
| "no_open_reversal reversals loanID asOf ((otherID, other) # rest) =
     (if al_LoanID other \<noteq> loanID then no_open_reversal reversals loanID asOf rest
      else if \<not> mhas reversals otherID \<and> asOf < al_ReversalDeadline other then False
      else no_open_reversal reversals loanID asOf rest)"

definition ReleaseEligible :: "('acc, 'st) Engine \<Rightarrow> string \<Rightarrow> gotime \<Rightarrow> bool" where
  "ReleaseEligible e allocationID asOf =
     (case mget (en_allocations e) allocationID of
        None \<Rightarrow> False
      | Some a \<Rightarrow>
          if asOf = 0 \<or> asOf < al_ReversalDeadline a then False
          else if mhas (en_reversals e) allocationID then False
          else if ob_OutstandingPrincipalUnits
                    (the_default zero_obligation (mget (en_obligations e) (al_LoanID a))) \<noteq> ''0''
          then False
          else no_open_reversal (en_reversals e) (al_LoanID a) asOf (en_allocations e))"

definition engine_Obligation :: "('acc, 'st) Engine \<Rightarrow> string \<Rightarrow> Obligation option" where
  "engine_Obligation e loanID = mget (en_obligations e) loanID"

section \<open>What a call does\<close>

lemma Allocate_cases:
  assumes "Allocate idDigest claimDigest cs applyA e q = (r, e')"
  obtains (refused) err where "r = Inl err" "e' = e" "\<forall>x. err \<noteq> ErrAllocationAccounting x"
  | (replayed) i a where "r = Inr a" "e' = e" "mget (en_byPayment e) (fp_PaymentID (rq_Payment q)) = Some i"
      "mget (en_allocations e) i = Some a" "requestMatchesAllocation q a"
  | (conflict) p i d v ev t res modes where
      "ClaimMode cs (en_modes e) p i ModeSyntheticProjection d v ev t = (res, modes)"
      "r = Inl ErrAllocationConflict" "e' = e\<lparr>en_modes := modes\<rparr>"
  | (unbooked) p i d v ev t x modes a err acc where
      "ClaimMode cs (en_modes e) p i ModeSyntheticProjection d v ev t = (Inr x, modes)"
      "applyA (en_accounting e) a = (Inl err, acc)"
      "r = Inl (ErrAllocationAccounting err)" "e' = e\<lparr>en_modes := modes, en_accounting := acc\<rparr>"
      "p = fp_PaymentID (rq_Payment q)" "i = rq_AllocationID q" "\<not> invalid_request idDigest q"
  | (booked) ob debt gross prin d v ev t x modes ids acc a where
      "\<not> invalid_request idDigest q"
      "mget (en_byPayment e) (fp_PaymentID (rq_Payment q)) = None"
      "mget (en_obligations e) (rq_LoanID q) = Some ob"
      "fst (canonicalPositive (ob_OutstandingPrincipalUnits ob)) = Some debt"
      "fst (canonicalPositive (fp_Units (rq_Payment q))) = Some gross"
      "prin = min debt gross" "prin \<noteq> 0"
      "ClaimMode cs (en_modes e) (fp_PaymentID (rq_Payment q)) (rq_AllocationID q)
         ModeSyntheticProjection d v ev t = (Inr x, modes)"
      "a = (allocation_of q ob gross prin debt)\<lparr>al_ClaimDigest := d\<rparr>"
      "applyA (en_accounting e) a = (Inr ids, acc)"
      "r = Inr (a\<lparr>al_JournalIDs := ids\<rparr>)"
      "e' = record_allocation (reduced q (debt - prin) ob) (a\<lparr>al_JournalIDs := ids\<rparr>)
              (e\<lparr>en_modes := modes, en_accounting := acc\<rparr>)"
      "ob_Version ob = rq_ExpectedObligationVersion q"
proof (cases "invalid_request idDigest q")
  case True
  with assms show thesis by (auto simp: Allocate_def intro: refused)
next
  case valid: False
  show thesis
  proof (cases "mget (en_byPayment e) (fp_PaymentID (rq_Payment q))")
    case (Some i)
    with assms valid show thesis
      by (auto simp: Allocate_def split: option.splits if_splits intro: refused replayed)
  next
    case new: None
    show thesis
    proof (cases "mget (en_obligations e) (rq_LoanID q)")
      case None
      with assms valid new show thesis by (auto simp: Allocate_def intro: refused)
    next
      case (Some ob)
      let ?debt = "fst (canonicalPositive (ob_OutstandingPrincipalUnits ob))"
      let ?gross = "fst (canonicalPositive (fp_Units (rq_Payment q)))"
      show thesis
      proof (cases "ob_Version ob = rq_ExpectedObligationVersion q \<and>
          ob_AssetID ob = fp_AssetID (rq_Payment q) \<and> \<not> rq_AllocatedAt q < ob_AsOf ob \<and>
          ?debt \<noteq> None \<and> ?gross \<noteq> None \<and> min (the ?debt) (the ?gross) \<noteq> 0")
        case False
        with assms valid new Some show thesis
          by (auto simp: Allocate_def min_def Let_def split: option.splits if_splits intro: refused)
      next
        case True
        then obtain debt gross where dg: "?debt = Some debt" "?gross = Some gross" "min debt gross \<noteq> 0"
          by auto
        define prin where "prin = min debt gross"
        have prin: "(if gross > debt then debt else gross) = prin" by (simp add: prin_def min_def)
        define a0 where "a0 = allocation_of q ob gross prin debt"
        define d where "d = allocationClaimDigest claimDigest a0 (rq_Payment q) ob"
        obtain res modes where c: "ClaimMode cs (en_modes e) (fp_PaymentID (rq_Payment q)) (rq_AllocationID q)
            ModeSyntheticProjection d (fp_PaymentVersion (rq_Payment q)) (rq_EvidenceHash q)
            (rq_AllocatedAt q) = (res, modes)" by fastforce
        obtain res' acc where p: "applyA (en_accounting e) (a0\<lparr>al_ClaimDigest := d\<rparr>) = (res', acc)"
          by fastforce
        have a0: "al_PaymentID a0 = fp_PaymentID (rq_Payment q)" "al_AllocationID a0 = rq_AllocationID q"
          "al_EvidenceHash a0 = rq_EvidenceHash q" "al_AllocatedAt a0 = rq_AllocatedAt q"
          by (simp_all add: a0_def allocation_of_def)
        have run: "(r, e') =
          (case res of
             Inl _ \<Rightarrow> (Inl ErrAllocationConflict, e\<lparr>en_modes := modes\<rparr>)
           | Inr _ \<Rightarrow>
             (case res' of
                Inl err \<Rightarrow> (Inl (ErrAllocationAccounting err), e\<lparr>en_modes := modes, en_accounting := acc\<rparr>)
              | Inr ids \<Rightarrow> (Inr (a0\<lparr>al_ClaimDigest := d, al_JournalIDs := ids\<rparr>),
                  record_allocation (reduced q (debt - prin) ob) (a0\<lparr>al_ClaimDigest := d, al_JournalIDs := ids\<rparr>)
                     (e\<lparr>en_modes := modes, en_accounting := acc\<rparr>))))"
          using assms valid new Some True dg c p
          by (simp add: Allocate_def prin prin_def[symmetric] Let_def a0_def[symmetric] d_def[symmetric] a0
              split: sum.splits)
        show thesis
        proof (cases res)
          case (Inl err)
          with run show thesis by (auto intro: conflict[OF c])
        next
          case x: (Inr x)
          show thesis
          proof (cases res')
            case (Inl err)
            with run x valid show thesis by (auto intro: unbooked[OF c[unfolded x] p[unfolded Inl]])
          next
            case (Inr ids)
            with run x show thesis
              by (intro booked[OF valid new Some dg(1,2) prin_def _ c[unfolded x] _ p[unfolded Inr]])
                 (use dg True in \<open>simp_all add: prin_def a0_def\<close>)
          qed
        qed
      qed
    qed
  qed
qed

lemma engine_Reverse_cases:
  assumes "engine_Reverse reverseA e q = (r, e')"
  obtains (refused) err where "r = Inl err" "e' = e"
  | (replayed) v where "r = Inr v" "e' = e" "mget (en_reversals e) (rr_AllocationID q) = Some v"
  | (unbooked) a err acc where "reverseA (en_accounting e) a q = (Inl err, acc)"
      "r = Inl (ErrAllocationAccounting err)" "e' = e\<lparr>en_accounting := acc\<rparr>"
  | (booked) a ob current prin ids acc v where
      "mget (en_reversals e) (rr_AllocationID q) = None"
      "mget (en_allocations e) (rr_AllocationID q) = Some a"
      "ob = the_default zero_obligation (mget (en_obligations e) (al_LoanID a))"
      "canonicalNonNegative (ob_OutstandingPrincipalUnits ob) = (Some current, True)"
      "fst (canonicalPositive (al_PrincipalUnits a)) = Some prin"
      "reverseA (en_accounting e) a q = (Inr ids, acc)"
      "v = (reversal_of q a ob current prin)\<lparr>rv_JournalIDs := ids\<rparr>" "r = Inr v"
      "e' = record_reversal (restored_obligation q (current + prin) ob) a v (e\<lparr>en_accounting := acc\<rparr>)"
proof -
  let ?bad = "rr_ReversalID q = [] \<or> rr_AllocationID q = [] \<or> rr_PaymentID q = [] \<or> rr_ProviderID q = [] \<or>
         rr_ProviderReference q = [] \<or> rr_Status q \<noteq> StatusReversed \<or> rr_ProviderEventID q = [] \<or>
         rr_ReasonCode q = [] \<or> rr_EvidenceHash q = [] \<or> rr_ReversedAt q = 0"
  show thesis
  proof (cases ?bad)
    case True
    have "engine_Reverse reverseA e q = (Inl ErrInvalidReversal, e)"
      unfolding engine_Reverse_def if_P[OF True] ..
    with assms show thesis by (auto intro: refused)
  next
    case False
    note run = assms[unfolded engine_Reverse_def if_not_P[OF False]]
    show thesis
    proof (cases "mget (en_reversals e) (rr_AllocationID q)")
      case (Some v)
      with run show thesis by (auto split: if_splits intro: refused replayed)
    next
      case fresh: None
      show thesis
      proof (cases "mget (en_allocations e) (rr_AllocationID q)")
        case None
        with run fresh show thesis by (auto intro: refused)
      next
        case (Some a)
        with run fresh show thesis
          by (auto simp: Let_def split: if_splits option.splits prod.splits bool.splits sum.splits
              intro: refused unbooked booked)
      qed
    qed
  qed
qed

section \<open>The books of the engine\<close>

text \<open>The number a text denotes, and the outstanding and the paid principal of a loan.\<close>

definition units_of :: "string \<Rightarrow> int" where
  "units_of s = the_default 0 (big_set_string s)"

definition outstanding :: "('acc, 'st) Engine \<Rightarrow> string \<Rightarrow> int" where
  "outstanding e loan =
     (case mget (en_obligations e) loan of
        None \<Rightarrow> 0 | Some ob \<Rightarrow> units_of (ob_OutstandingPrincipalUnits ob))"

definition paid :: "('acc, 'st) Engine \<Rightarrow> string \<Rightarrow> int" where
  "paid e loan =
     msum (\<lambda>a. if al_LoanID a = loan \<and> \<not> mhas (en_reversals e) (al_AllocationID a)
               then units_of (al_PrincipalUnits a) else 0) (en_allocations e)"

definition obligations_ok :: "(string, Obligation) gomap \<Rightarrow> bool" where
  "obligations_ok m \<longleftrightarrow>
     (\<forall>l ob. mget m l = Some ob \<longrightarrow>
        ob_LoanID ob = l \<and> (\<exists>n \<ge> 0. ob_OutstandingPrincipalUnits ob = big_string n))"

definition allocations_ok :: "('acc, 'st) Engine \<Rightarrow> bool" where
  "allocations_ok e \<longleftrightarrow>
     mwf (en_allocations e) \<and>
     (\<forall>i a. mget (en_allocations e) i = Some a \<longrightarrow>
        al_AllocationID a = i \<and> (\<exists>n > 0. al_PrincipalUnits a = big_string n) \<and>
        mhas (en_obligations e) (al_LoanID a) \<and>
        (\<exists>c. mget (r_byPayment (en_modes e)) (al_PaymentID a) = Some c \<and> cl_AllocationID c = i))"

definition engine_inv :: "('acc, 'st) Engine \<Rightarrow> bool" where
  "engine_inv e \<longleftrightarrow>
     obligations_ok (en_obligations e) \<and> allocations_ok e \<and> registry_inv (en_modes e) \<and>
     (\<forall>p i. mget (en_byPayment e) p = Some i \<longleftrightarrow>
        (\<exists>a. mget (en_allocations e) i = Some a \<and> al_PaymentID a = p)) \<and>
     (\<forall>i. mhas (en_reversals e) i \<longrightarrow> mhas (en_allocations e) i)"

lemma units_of_string [simp]: "units_of (big_string n) = n"
  by (simp add: units_of_def)

lemma canonicalPositive_string [simp]: "canonicalPositive (big_string n) = (Some n, 0 < n)"
  by (simp add: canonicalPositive_def)

lemma canonicalNonNegative_string [simp]: "canonicalNonNegative (big_string n) = (Some n, 0 \<le> n)"
  by (simp add: canonicalNonNegative_def)

lemma canonicalPositive_iff: "canonicalPositive s = (Some n, True) \<longleftrightarrow> 0 < n \<and> s = big_string n"
  by (auto simp: canonicalPositive_def split: option.splits)

lemma canonicalNonNegative_iff: "canonicalNonNegative s = (Some n, True) \<longleftrightarrow> 0 \<le> n \<and> s = big_string n"
  by (auto simp: canonicalNonNegative_def split: option.splits)

lemma validFinalPayment_units:
  assumes "validFinalPayment f" "fst (canonicalPositive (fp_Units f)) = Some g"
  shows "0 < g" "fp_Units f = big_string g"
  using assms by (auto simp: validFinalPayment_def canonicalPositive_def split: option.splits prod.splits)

lemma obligations_okD:
  "obligations_ok m \<Longrightarrow> mget m l = Some ob \<Longrightarrow>
     ob_LoanID ob = l \<and> (\<exists>n \<ge> 0. ob_OutstandingPrincipalUnits ob = big_string n)"
  by (simp add: obligations_ok_def)

lemma engine_invD:
  assumes "engine_inv e"
  shows "obligations_ok (en_obligations e)" "allocations_ok e" "registry_inv (en_modes e)"
    "mget (en_byPayment e) p = Some i \<longleftrightarrow> (\<exists>a. mget (en_allocations e) i = Some a \<and> al_PaymentID a = p)"
    "mhas (en_reversals e) i \<Longrightarrow> mhas (en_allocations e) i"
  using assms by (simp_all add: engine_inv_def)

lemma allocations_okD:
  assumes "allocations_ok e" "mget (en_allocations e) i = Some a"
  obtains n c where "al_AllocationID a = i" "0 < n" "al_PrincipalUnits a = big_string n"
    "mhas (en_obligations e) (al_LoanID a)"
    "mget (r_byPayment (en_modes e)) (al_PaymentID a) = Some c" "cl_AllocationID c = i"
  using assms unfolding allocations_ok_def by blast

lemma msum_change:
  assumes "mwf m" "mget m k = Some v" "\<And>j w. mget m j = Some w \<Longrightarrow> j \<noteq> k \<Longrightarrow> g w = f w"
  shows "msum g m = msum f m - f v + g v"
  using assms
proof (induction m)
  case (Cons x m)
  obtain j w where x: "x = (j, w)" by (cases x)
  have wf: "mwf m" "mget m j = None"
    using Cons.prems(1) by (auto simp: x mwf_def mget_def map_of_eq_None_iff)
  show ?case
  proof (cases "j = k")
    case True
    have "g u = f u" if "(i, u) \<in> set m" for i u
      using Cons.prems(3)[of i u] mem_mget[OF wf(1) that] wf(2) True
      by (cases "i = k") (auto simp: x split: if_splits)
    then have "msum g m = msum f m" by (induction m) (auto, metis)
    with True Cons.prems(2) show ?thesis by (simp add: x)
  next
    case False
    have "g u = f u" if "mget m i = Some u" "i \<noteq> k" for i u
      using Cons.prems(3)[of i u] that wf(2) by (cases "i = j") (auto simp: x)
    moreover have "g w = f w" using Cons.prems(3)[of j w] False by (simp add: x)
    ultimately show ?thesis using Cons.IH[OF wf(1)] Cons.prems(2) False by (simp add: x)
  qed
qed simp

lemma ClaimMode_success:
  assumes "ClaimMode cs r p a m d v ev t = (Inr x, r')"
  shows "\<exists>c. mget (r_byPayment r') p = Some c \<and> cl_AllocationID c = a"
  using assms
  by (auto simp: ClaimMode_def Let_def sameClaim_def publish_def
      split: if_splits option.splits prod.splits sum.splits)

lemma engine_inv_acc [simp]: "engine_inv (e\<lparr>en_accounting := acc\<rparr>) = engine_inv e"
  by (simp add: engine_inv_def allocations_ok_def)

text \<open>The registry is shared: whatever its other users do, the latch keeps the claims of the engine.\<close>

lemma engine_inv_modes:
  assumes e: "engine_inv e" and l: "latched (en_modes e) r" and r: "registry_inv r"
  shows "engine_inv (e\<lparr>en_modes := r\<rparr>)"
proof -
  have "\<exists>c. mget (r_byPayment r) (al_PaymentID a) = Some c \<and> cl_AllocationID c = i"
    if a: "mget (en_allocations e) i = Some a" for i a
  proof -
    from engine_invD(2)[OF e] a obtain c where
      c: "mget (r_byPayment (en_modes e)) (al_PaymentID a) = Some c" "cl_AllocationID c = i"
      by (auto elim: allocations_okD)
    from latchedD[OF l c(1)] c(2) show ?thesis by (auto dest: identity_fields)
  qed
  with e r show ?thesis by (simp add: engine_inv_def allocations_ok_def)
qed

lemma allocation_fresh:
  assumes e: "engine_inv e" and "mget (en_byPayment e) p = None"
    and c: "mget (r_byPayment (en_modes e)) p = Some c" "cl_AllocationID c = i"
  shows "mget (en_allocations e) i = None"
proof (rule ccontr)
  assume "mget (en_allocations e) i \<noteq> None"
  then obtain a where a: "mget (en_allocations e) i = Some a" by auto
  with engine_invD(2)[OF e] obtain c' where
    "mget (r_byPayment (en_modes e)) (al_PaymentID a) = Some c'" "cl_AllocationID c' = i"
    by (auto elim: allocations_okD)
  with c registry_inv_allocation[OF engine_invD(3)[OF e], of i] have "al_PaymentID a = p"
    by (metis option.inject)
  with a engine_invD(4)[OF e, of p i] assms(2) show False by auto
qed

lemma record_allocation_inv:
  assumes e: "engine_inv e" and new: "mget (en_byPayment e) (al_PaymentID a) = None"
    and c: "mget (r_byPayment (en_modes e)) (al_PaymentID a) = Some c" "cl_AllocationID c = al_AllocationID a"
    and n: "al_PrincipalUnits a = big_string n" "0 < n"
    and ob: "mhas (en_obligations e) (al_LoanID a)" "ob_LoanID ob = al_LoanID a"
      "ob_OutstandingPrincipalUnits ob = big_string m" "0 \<le> m"
  shows "engine_inv (record_allocation ob a e)" (is "engine_inv ?e")
    and "outstanding (record_allocation ob a e) l = (if l = al_LoanID a then m else outstanding e l)"
    and "paid (record_allocation ob a e) l = paid e l + (if l = al_LoanID a then n else 0)"
proof -
  note inv = engine_invD[OF e]
  have fresh: "mget (en_allocations e) (al_AllocationID a) = None"
    by (rule allocation_fresh[OF e new c])
  then have unrev: "\<not> mhas (en_reversals e) (al_AllocationID a)" using inv(5) unfolding mhas_def by blast
  have "obligations_ok (en_obligations ?e)"
    using inv(1) ob by (auto simp: obligations_ok_def record_allocation_def)
  moreover have "allocations_ok ?e"
    using inv(2) n c ob by (auto simp: allocations_ok_def record_allocation_def)
  moreover have "mget (en_byPayment ?e) p = Some i \<longleftrightarrow>
      (\<exists>b. mget (en_allocations ?e) i = Some b \<and> al_PaymentID b = p)" for p i
    using inv(4)[of p i] fresh new by (auto simp: record_allocation_def)
  ultimately show "engine_inv ?e"
    using inv(3,5) by (simp add: engine_inv_def record_allocation_def)
  show "outstanding ?e l = (if l = al_LoanID a then m else outstanding e l)"
    using ob by (simp add: outstanding_def record_allocation_def)
  show "paid ?e l = paid e l + (if l = al_LoanID a then n else 0)"
    using fresh unrev n by (simp add: paid_def record_allocation_def msum_mput)
qed

lemma record_reversal_inv:
  assumes e: "engine_inv e" and a: "mget (en_allocations e) (al_AllocationID a) = Some a"
    and unrev: "\<not> mhas (en_reversals e) (al_AllocationID a)"
    and n: "al_PrincipalUnits a = big_string n"
    and ob: "ob_LoanID ob = al_LoanID a" "ob_OutstandingPrincipalUnits ob = big_string m" "0 \<le> m"
  shows "engine_inv (record_reversal ob a v e)" (is "engine_inv ?e")
    and "outstanding (record_reversal ob a v e) l = (if l = al_LoanID a then m else outstanding e l)"
    and "paid (record_reversal ob a v e) l = paid e l - (if l = al_LoanID a then n else 0)"
proof -
  note inv = engine_invD[OF e]
  have "obligations_ok (en_obligations ?e)"
    using inv(1) ob by (auto simp: obligations_ok_def record_reversal_def)
  moreover have "allocations_ok ?e"
    using inv(2) by (auto simp: allocations_ok_def record_reversal_def)
  moreover have "mhas (en_reversals ?e) i \<Longrightarrow> mhas (en_allocations ?e) i" for i
    using inv(5)[of i] a by (cases "i = al_AllocationID a") (auto simp: record_reversal_def mhas_iff)
  ultimately show "engine_inv ?e"
    using inv(3,4) by (simp add: engine_inv_def record_reversal_def)
  show "outstanding ?e l = (if l = al_LoanID a then m else outstanding e l)"
    using ob by (simp add: outstanding_def record_reversal_def)
  have wf: "mwf (en_allocations e)" using inv(2) by (simp add: allocations_ok_def)
  have key: "al_AllocationID w = j" if "mget (en_allocations e) j = Some w" for j w
    using inv(2) that by (auto simp: allocations_ok_def)
  let ?f = "\<lambda>R a. if al_LoanID a = l \<and> \<not> mhas R (al_AllocationID a)
    then units_of (al_PrincipalUnits a) else 0"
  have "msum (?f (en_reversals ?e)) (en_allocations e) = msum (?f (en_reversals e)) (en_allocations e)
      - ?f (en_reversals e) a + ?f (en_reversals ?e) a"
    by (rule msum_change[OF wf a]) (auto simp: record_reversal_def dest: key)
  then show "paid ?e l = paid e l - (if l = al_LoanID a then n else 0)"
    using n unrev by (auto simp: paid_def record_reversal_def)
qed

section \<open>The contract with accounting\<close>

text \<open>
  What the engine needs of its accounting. \<open>status acc i\<close> says whether allocation \<open>i\<close> is booked and
  whether it is reversed; a failed call changes nothing, and \<open>interfere\<close> covers what other users of
  the same ledger do.
\<close>

locale allocation_accounting =
  fixes applyA :: "'acc \<Rightarrow> Allocation \<Rightarrow> ('e + string list) \<times> 'acc"
    and reverseA :: "'acc \<Rightarrow> Allocation \<Rightarrow> ReversalRequest \<Rightarrow> ('e + string list) \<times> 'acc"
    and status :: "'acc \<Rightarrow> string \<Rightarrow> bool option"
    and good :: "'acc \<Rightarrow> bool"
    and interfere :: "'acc \<Rightarrow> 'acc \<Rightarrow> bool"
  assumes apply_error: "applyA acc a = (Inl err, acc') \<Longrightarrow> acc' = acc"
    and reverse_error: "reverseA acc a q = (Inl err, acc') \<Longrightarrow> acc' = acc"
    and apply_ok: "good acc \<Longrightarrow> applyA acc a = (Inr ids, acc') \<Longrightarrow> status acc (al_AllocationID a) = None \<Longrightarrow>
      good acc' \<and> status acc' = (status acc)(al_AllocationID a \<mapsto> False)"
    and reverse_ok: "good acc \<Longrightarrow> reverseA acc a q = (Inr ids, acc') \<Longrightarrow>
      good acc' \<and> status acc (al_AllocationID a) = Some False \<and>
      status acc' = (status acc)(al_AllocationID a \<mapsto> True)"
    and interfere_ok: "good acc \<Longrightarrow> interfere acc acc' \<Longrightarrow> good acc' \<and> status acc' = status acc"

inductive engine_step ::
  "(id_fields \<Rightarrow> string) \<Rightarrow> (ClaimFields \<Rightarrow> string) \<Rightarrow> ('st \<Rightarrow> Claim \<Rightarrow> (mode_error + bool) \<times> 'st) \<Rightarrow>
   ('acc \<Rightarrow> Allocation \<Rightarrow> ('e + string list) \<times> 'acc) \<Rightarrow>
   ('acc \<Rightarrow> Allocation \<Rightarrow> ReversalRequest \<Rightarrow> ('e + string list) \<times> 'acc) \<Rightarrow>
   ('acc \<Rightarrow> 'acc \<Rightarrow> bool) \<Rightarrow> ('acc, 'st) Engine \<Rightarrow> ('acc, 'st) Engine \<Rightarrow> bool"
  for idDigest claimDigest cs applyA reverseA interfere where
  step_Allocate: "Allocate idDigest claimDigest cs applyA e q = (r, e') \<Longrightarrow>
    engine_step idDigest claimDigest cs applyA reverseA interfere e e'"
| step_Reverse: "engine_Reverse reverseA e v = (r', e') \<Longrightarrow>
    engine_step idDigest claimDigest cs applyA reverseA interfere e e'"
| step_other_modes: "latched (en_modes e) modes \<Longrightarrow> registry_inv modes \<Longrightarrow>
    engine_step idDigest claimDigest cs applyA reverseA interfere e (e\<lparr>en_modes := modes\<rparr>)"
| step_other_postings: "interfere (en_accounting e) acc \<Longrightarrow>
    engine_step idDigest claimDigest cs applyA reverseA interfere e (e\<lparr>en_accounting := acc\<rparr>)"

text \<open>A step keeps every mode claim.\<close>

lemma engine_step_latched:
  "engine_step idDigest claimDigest cs applyA reverseA interfere e e' \<Longrightarrow> registry_inv (en_modes e) \<Longrightarrow>
   registry_inv (en_modes e') \<and> latched (en_modes e) (en_modes e')"
proof (induction rule: engine_step.induct)
  case (step_Allocate e q r e')
  from step_Allocate(1) show ?case
    by (cases rule: Allocate_cases)
       (use step_Allocate(2) in \<open>auto simp: record_allocation_def dest: ClaimMode_keeps\<close>)
next
  case (step_Reverse e v r' e')
  from step_Reverse(1) show ?case
    by (cases rule: engine_Reverse_cases) (use step_Reverse(2) in \<open>auto simp: record_reversal_def\<close>)
qed simp_all

lemma engine_steps_latched:
  "(engine_step idDigest claimDigest cs applyA reverseA interfere)\<^sup>*\<^sup>* e e' \<Longrightarrow> registry_inv (en_modes e) \<Longrightarrow>
   registry_inv (en_modes e') \<and> latched (en_modes e) (en_modes e')"
  by (induction rule: rtranclp_induct) (auto dest: engine_step_latched intro: latched_trans)

text \<open>The engine and its accounting agree on what is booked and on what is reversed.\<close>

definition agrees :: "('acc \<Rightarrow> string \<Rightarrow> bool option) \<Rightarrow> ('acc, 'st) Engine \<Rightarrow> bool" where
  "agrees status e \<longleftrightarrow>
     (\<forall>i. status (en_accounting e) i =
        (if mhas (en_allocations e) i then Some (mhas (en_reversals e) i) else None))"

definition sound :: "('acc \<Rightarrow> bool) \<Rightarrow> ('acc \<Rightarrow> string \<Rightarrow> bool option) \<Rightarrow> ('acc, 'st) Engine \<Rightarrow> bool" where
  "sound good status e \<longleftrightarrow> engine_inv e \<and> good (en_accounting e) \<and> agrees status e"

text \<open>The later engine has the same loans with the same total of outstanding and paid principal.\<close>

definition conserves :: "('acc, 'st) Engine \<Rightarrow> ('acc, 'st) Engine \<Rightarrow> bool" where
  "conserves e e' \<longleftrightarrow>
     (\<forall>l. mhas (en_obligations e') l = mhas (en_obligations e) l \<and>
          outstanding e' l + paid e' l = outstanding e l + paid e l)"

lemma conserves_acc [simp]: "conserves e (e\<lparr>en_accounting := acc\<rparr>)" "conserves e (e\<lparr>en_modes := r\<rparr>)"
  by (simp_all add: conserves_def outstanding_def paid_def)

context allocation_accounting
begin

lemma Allocate_sound:
  assumes s: "sound good status e" and run: "Allocate idDigest claimDigest cs applyA e q = (r, e')"
  shows "sound good status e' \<and> conserves e e'"
  using run
proof (cases rule: Allocate_cases)
  case (conflict p i d v ev t res modes)
  from s have e: "engine_inv e" by (simp add: sound_def)
  from ClaimMode_keeps[OF engine_invD(3)[OF e] conflict(1)] engine_inv_modes[OF e] s conflict(3)
  show ?thesis by (auto simp: sound_def agrees_def)
next
  case (unbooked p i d v ev t x modes a err acc)
  from s have e: "engine_inv e" by (simp add: sound_def)
  from ClaimMode_keeps[OF engine_invD(3)[OF e] unbooked(1)] engine_inv_modes[OF e] s unbooked(4)
    apply_error[OF unbooked(2)]
  show ?thesis by (auto simp: sound_def agrees_def conserves_def outstanding_def paid_def)
next
  case (booked ob debt gross prin d v ev t x modes ids acc a)
  let ?e = "e\<lparr>en_modes := modes, en_accounting := acc\<rparr>"
  let ?a = "a\<lparr>al_JournalIDs := ids\<rparr>"
  let ?ob = "reduced q (debt - prin) ob"
  from s have e: "engine_inv e" and ag: "agrees status e" and g: "good (en_accounting e)"
    by (simp_all add: sound_def)
  have e1: "engine_inv ?e"
    using ClaimMode_keeps[OF engine_invD(3)[OF e] booked(8)] engine_inv_modes[OF e, of modes] by simp
  have al: "al_AllocationID a = rq_AllocationID q" "al_PaymentID a = fp_PaymentID (rq_Payment q)"
    "al_LoanID a = rq_LoanID q" "al_PrincipalUnits a = big_string prin"
    by (simp_all add: booked(9) allocation_of_def)
  obtain c where c: "mget (r_byPayment (en_modes ?e)) (al_PaymentID ?a) = Some c"
    "cl_AllocationID c = al_AllocationID ?a"
    using ClaimMode_success[OF booked(8)] al by auto
  have new: "mget (en_byPayment ?e) (al_PaymentID ?a) = None" using booked(2) al by simp
  have fresh: "mget (en_allocations e) (al_AllocationID a) = None"
    using allocation_fresh[OF e1 new c] by simp
  obtain n where n: "0 \<le> n" "ob_OutstandingPrincipalUnits ob = big_string n" "ob_LoanID ob = rq_LoanID q"
    using obligations_okD[OF engine_invD(1)[OF e] booked(3)] by blast
  have debt: "debt = n" using booked(4) n(2) by simp
  have gross: "0 < gross"
    using booked(1,5) validFinalPayment_units by (auto simp: invalid_request_def)
  have prin: "0 < prin" "prin \<le> debt" using booked(6,7) gross n(1) debt by auto
  note rec = record_allocation_inv[OF e1 new c, of prin ?ob "debt - prin"]
  have e2: "engine_inv e'" "\<And>l. outstanding e' l = (if l = al_LoanID a then debt - prin else outstanding e l)"
    "\<And>l. paid e' l = paid e l + (if l = al_LoanID a then prin else 0)"
    using rec al prin n booked(3) unfolding booked(12)
    by (simp_all add: reduced_def mhas_iff outstanding_def[of ?e] outstanding_def[of e] paid_def[of ?e] paid_def[of e])
  have "outstanding e (al_LoanID a) = debt" using booked(3) n debt al by (simp add: outstanding_def)
  then have "outstanding e' l + paid e' l = outstanding e l + paid e l" for l using e2(2,3) by simp
  moreover have "mhas (en_obligations e') l = mhas (en_obligations e) l" for l
    using booked(3) n by (auto simp: booked(12) record_allocation_def reduced_def mhas_iff)
  moreover have unrev: "\<not> mhas (en_reversals e) (al_AllocationID a)"
    using fresh engine_invD(5)[OF e] unfolding mhas_def by blast
  have "status (en_accounting e) (al_AllocationID a) = None"
    using ag fresh by (simp add: agrees_def mhas_def)
  from apply_ok[OF g booked(10) this]
  have "good (en_accounting e') \<and> agrees status e'"
    using ag unrev by (auto simp: booked(12) record_allocation_def agrees_def)
  ultimately show ?thesis using e2(1) by (simp add: sound_def conserves_def)
qed (use s in \<open>auto simp: conserves_def\<close>)

lemma Reverse_sound:
  assumes s: "sound good status e" and run: "engine_Reverse reverseA e q = (r, e')"
  shows "sound good status e' \<and> conserves e e'"
  using run
proof (cases rule: engine_Reverse_cases)
  case (unbooked a err acc)
  with s show ?thesis by (auto simp: sound_def agrees_def dest: reverse_error)
next
  case (booked a ob current prin ids acc v)
  let ?e = "e\<lparr>en_accounting := acc\<rparr>"
  from s have e: "engine_inv e" and ag: "agrees status e" and g: "good (en_accounting e)"
    by (simp_all add: sound_def)
  obtain n where al: "al_AllocationID a = rr_AllocationID q" "0 < n" "al_PrincipalUnits a = big_string n"
    "mhas (en_obligations e) (al_LoanID a)"
    using engine_invD(2)[OF e] booked(2) by (auto elim: allocations_okD)
  then obtain ob' where ob': "mget (en_obligations e) (al_LoanID a) = Some ob'" by (auto simp: mhas_iff)
  have ob: "ob = ob'" "ob_LoanID ob = al_LoanID a"
    using booked(3) ob' obligations_okD[OF engine_invD(1)[OF e] ob'] by auto
  have prin: "prin = n" using booked(5) al by simp
  have cur: "0 \<le> current" "ob_OutstandingPrincipalUnits ob = big_string current"
    using booked(4) by (simp_all add: canonicalNonNegative_iff)
  have unrev: "\<not> mhas (en_reversals ?e) (al_AllocationID a)" using booked(1) al by (simp add: mhas_def)
  have stored: "mget (en_allocations ?e) (al_AllocationID a) = Some a" using booked(2) al by simp
  note rec = record_reversal_inv[OF _ stored unrev al(3), of "restored_obligation q (current + prin) ob" "current + prin" v]
  have e2: "engine_inv e'" "\<And>l. outstanding e' l = (if l = al_LoanID a then current + n else outstanding e l)"
    "\<And>l. paid e' l = paid e l - (if l = al_LoanID a then n else 0)"
    using rec e ob cur al(2) prin unfolding booked(9)
    by (simp_all add: restored_obligation_def outstanding_def[of ?e] outstanding_def[of e] paid_def[of ?e] paid_def[of e])
  have "outstanding e (al_LoanID a) = current" using ob ob' cur by (simp add: outstanding_def)
  then have "outstanding e' l + paid e' l = outstanding e l + paid e l" for l using e2(2,3) by simp
  moreover have "mhas (en_obligations e') l = mhas (en_obligations e) l" for l
    using ob al(4) by (auto simp: booked(9) record_reversal_def restored_obligation_def)
  moreover from reverse_ok[OF g booked(6)]
  have "good (en_accounting e') \<and> agrees status e'"
    using ag stored by (auto simp: booked(9) record_reversal_def agrees_def mhas_iff)
  ultimately show ?thesis using e2(1) by (simp add: sound_def conserves_def)
qed (use s in \<open>auto simp: conserves_def\<close>)

lemma step_sound:
  "engine_step idDigest claimDigest cs applyA reverseA interfere e e' \<Longrightarrow> sound good status e \<Longrightarrow>
   sound good status e' \<and> conserves e e'"
proof (induction rule: engine_step.induct)
  case (step_other_modes e modes)
  then show ?case by (auto simp: sound_def agrees_def intro: engine_inv_modes)
next
  case (step_other_postings e acc)
  then show ?case using interfere_ok[of "en_accounting e" acc] by (auto simp: sound_def agrees_def)
qed (auto dest: Allocate_sound Reverse_sound)

sublocale books: monotone_history "\<lambda>e. sound good status e"
  "engine_step idDigest claimDigest cs applyA reverseA interfere" "sound good status" conserves
  for idDigest claimDigest cs
  by unfold_locales (auto dest: step_sound simp: conserves_def)

end

text \<open>A new engine over accounts without allocations.\<close>

lemma engine_records_ok:
  "engine_records obs m = Inr m' \<Longrightarrow> obligations_ok m \<Longrightarrow> obligations_ok m'"
proof (induction obs arbitrary: m)
  case (Cons ob obs)
  have v: "validObligation ob" using Cons.prems(1) by (auto split: if_splits)
  then have "\<exists>n \<ge> 0. ob_OutstandingPrincipalUnits ob = big_string n"
    by (auto simp: validObligation_def canonicalPositive_def split: option.splits prod.splits
        intro: exI[of _ "units_of (ob_OutstandingPrincipalUnits ob)"]) (metis less_imp_le)
  then have "obligations_ok (mput (ob_LoanID ob) ob m)"
    using Cons.prems(2) by (auto simp: obligations_ok_def split: if_splits)
  with Cons.IH[of "mput (ob_LoanID ob) ob m"] Cons.prems(1) show ?case by (auto split: if_splits)
qed simp

lemma engine_New_sound:
  assumes "engine_New obs acc modes = Inr e" "good acc" "registry_inv modes" "status acc = (\<lambda>_. None)"
  shows "sound good status e" "paid e l = 0"
proof -
  from assms(1) obtain m where m: "engine_records obs [] = (Inr m :: 'a allocation_error + _)"
    "e = \<lparr>en_accounting = acc, en_obligations = m, en_allocations = [], en_byPayment = [],
          en_reversals = [], en_modes = modes\<rparr>"
    by (auto simp: engine_New_def split: if_splits sum.splits)
  have "obligations_ok []" by (simp add: obligations_ok_def)
  with engine_records_ok[OF m(1)] assms show "sound good status e" "paid e l = 0"
    by (simp_all add: m(2) sound_def engine_inv_def allocations_ok_def agrees_def paid_def)
qed

end
