(* ===== verification/Allocation_Accounting.thy ===== *)
theory Allocation_Accounting
  imports Allocation Accounting_Service
begin

text \<open>
  Allocation accounting, \<^verbatim>\<open>foundation-ledger/internal/allocationaccounting/accounting.go\<close>: the poster
  that books an allocation as two journals and a reversal as their mirror images. It is the
  \<open>Accounting\<close> of the allocation engine, and the properties of the engine over it are stated here.
\<close>

section \<open>The poster\<close>

datatype posting_error = ErrInvalidAllocationPosting

record posting_record =
  ps_journalIDs :: "string list"
  ps_reversed :: bool

record Poster =
  po_book :: Ledger
  po_records :: "(string, posting_record) gomap"

definition allocation_poster_New :: "Ledger \<Rightarrow> Poster" where
  "allocation_poster_New book = \<lparr>po_book = book, po_records = []\<rparr>"

definition allocation_entry :: "Allocation \<Rightarrow> string \<Rightarrow> Side \<Rightarrow> string \<Rightarrow> Entry" where
  "allocation_entry item account sd units = mk_entry account sd (al_AssetID item) units [] (al_LoanID item)"

definition allocation_journal :: "Allocation \<Rightarrow> string \<Rightarrow> string \<Rightarrow> Entry list \<Rightarrow> string \<Rightarrow> Journal" where
  "allocation_journal item sfx entryType entries reversalOf =
     \<lparr>j_ID = ''allocation:'' @ al_AllocationID item @ '':'' @ sfx,
      j_LegalEntityID = ''unified-protocol'', j_BookID = ''loan-subledger'',
      j_SourceSystem = ''payment-allocation'', j_EntryType = entryType,
      j_SourceEventID = al_PaymentID item, j_LoanID = al_LoanID item,
      j_IdempotencyKey = al_AllocationID item @ '':'' @ sfx, j_CorrelationID = al_CorrelationID item,
      j_EffectiveAt = al_AllocatedAt item, j_Entries = entries, j_EvidenceHash = al_EvidenceHash item,
      j_ReversalOf = reversalOf, j_Reason = []\<rparr>"

definition posting_nonNegative :: "string \<Rightarrow> int option \<times> bool" where
  "posting_nonNegative s =
     (case big_set_string s of
        None \<Rightarrow> (None, False) | Some n \<Rightarrow> (Some n, 0 \<le> n \<and> big_string n = s))"

text \<open>The journals of an allocation, or nothing when its amounts do not add up.\<close>

definition allocation_journals :: "Allocation \<Rightarrow> Journal list option" where
  "allocation_journals item =
     (case (posting_nonNegative (al_GrossUnits item), posting_nonNegative (al_PrincipalUnits item),
            posting_nonNegative (al_RefundableExcessUnits item)) of
        ((Some gross, True), (Some prin, True), (Some excess, True)) \<Rightarrow>
          if prin \<le> 0 \<or> prin + excess \<noteq> gross then None
          else Some
            [allocation_journal item ''allocation'' ''PAYMENT_ALLOCATED''
               ([allocation_entry item ''9120'' Debit (al_GrossUnits item),
                 allocation_entry item ''1310'' Credit (al_PrincipalUnits item)] @
                (if excess > 0 then [allocation_entry item ''2150'' Credit (al_RefundableExcessUnits item)]
                 else [])) [],
             allocation_journal item ''lender-claim'' ''LENDER_CLAIM_ALLOCATED''
               [allocation_entry item ''2310'' Debit (al_PrincipalUnits item),
                allocation_entry item ''2130'' Credit (al_PrincipalUnits item)] []]
      | _ \<Rightarrow> None)"

definition ApplyAllocation ::
  "journal_hash \<Rightarrow> gotime \<Rightarrow> Poster \<Rightarrow> Allocation
     \<Rightarrow> (posting_error service_error + string list) \<times> Poster" where
  "ApplyAllocation H now p item =
     (if al_AllocationID item = [] \<or> al_PaymentID item = [] \<or> al_LoanID item = [] \<or>
         al_AssetID item = [] \<or> al_CorrelationID item = [] \<or> al_EvidenceHash item = [] \<or>
         al_AllocatedAt item = 0
      then (Inl (Own ErrInvalidAllocationPosting), p)
      else case allocation_journals item of
        None \<Rightarrow> (Inl (Own ErrInvalidAllocationPosting), p)
      | Some js \<Rightarrow>
          (case mget (po_records p) (al_AllocationID item) of
             Some existing \<Rightarrow> (Inr (ps_journalIDs existing), p)
           | None \<Rightarrow>
               (case PostBatch H now (po_book p) js of
                  (Inl err, l) \<Rightarrow> (Inl (FromLedger err), p\<lparr>po_book := l\<rparr>)
                | (Inr posted, l) \<Rightarrow>
                    let ids = map (\<lambda>q. j_ID (p_Journal q)) (take 2 posted)
                    in (Inr ids, p\<lparr>po_book := l,
                          po_records := mput (al_AllocationID item)
                            \<lparr>ps_journalIDs = ids, ps_reversed = False\<rparr> (po_records p)\<rparr>))))"

definition mirror_entry :: "Entry \<Rightarrow> Entry" where
  "mirror_entry line = line\<lparr>e_Side := (if e_Side line = Debit then Credit else Debit)\<rparr>"

definition mirror_journal :: "Allocation \<Rightarrow> ReversalRequest \<Rightarrow> Journal \<Rightarrow> Journal" where
  "mirror_journal item q original =
     \<lparr>j_ID = j_ID original @ '':reversal'', j_LegalEntityID = j_LegalEntityID original,
      j_BookID = j_BookID original, j_SourceSystem = ''payment-allocation'',
      j_EntryType = ''PAYMENT_ALLOCATION_REVERSAL'', j_SourceEventID = rr_ProviderEventID q,
      j_LoanID = al_LoanID item, j_IdempotencyKey = rr_ReversalID q @ '':'' @ j_ID original,
      j_CorrelationID = al_CorrelationID item, j_EffectiveAt = rr_ReversedAt q,
      j_Entries = map mirror_entry (j_Entries original), j_EvidenceHash = rr_EvidenceHash q,
      j_ReversalOf = j_ID original, j_Reason = rr_ReasonCode q\<rparr>"

fun mirror_journals :: "Ledger \<Rightarrow> Allocation \<Rightarrow> ReversalRequest \<Rightarrow> string list \<Rightarrow> Journal list option" where
  "mirror_journals l item q [] = Some []"
| "mirror_journals l item q (i # is) =
     (case ledger_Get l i of
        None \<Rightarrow> None
      | Some original \<Rightarrow>
          map_option (\<lambda>js. mirror_journal item q (p_Journal original) # js) (mirror_journals l item q is))"

definition ReverseAllocation ::
  "journal_hash \<Rightarrow> gotime \<Rightarrow> Poster \<Rightarrow> Allocation \<Rightarrow> ReversalRequest
     \<Rightarrow> (posting_error service_error + string list) \<times> Poster" where
  "ReverseAllocation H now p item q =
     (if rr_ReversalID q = [] \<or> rr_ProviderEventID q = [] \<or> rr_EvidenceHash q = [] \<or> rr_ReversedAt q = 0
      then (Inl (Own ErrInvalidAllocationPosting), p)
      else case mget (po_records p) (al_AllocationID item) of
        None \<Rightarrow> (Inl (Own ErrInvalidAllocationPosting), p)
      | Some stored \<Rightarrow>
          if ps_reversed stored \<or> ps_journalIDs stored \<noteq> al_JournalIDs item
          then (Inl (Own ErrInvalidAllocationPosting), p)
          else case mirror_journals (po_book p) item q (ps_journalIDs stored) of
            None \<Rightarrow> (Inl (Own ErrInvalidAllocationPosting), p)
          | Some js \<Rightarrow>
              (case PostBatch H now (po_book p) js of
                 (Inl err, l) \<Rightarrow> (Inl (FromLedger err), p\<lparr>po_book := l\<rparr>)
               | (Inr posted, l) \<Rightarrow>
                   (Inr (map (\<lambda>q. j_ID (p_Journal q)) posted),
                    p\<lparr>po_book := l,
                      po_records := mput (al_AllocationID item) (stored\<lparr>ps_reversed := True\<rparr>)
                        (po_records p)\<rparr>)))"

section \<open>The poster is an accounting of the engine\<close>

text \<open>The state is the poster together with the reading of the clock; others may post to the same
  ledger and time may pass.\<close>

type_synonym poster_state = "Poster \<times> gotime"

definition poster_apply ::
  "journal_hash \<Rightarrow> poster_state \<Rightarrow> Allocation \<Rightarrow> (posting_error service_error + string list) \<times> poster_state" where
  "poster_apply H acc a = (case ApplyAllocation H (snd acc) (fst acc) a of (r, p) \<Rightarrow> (r, p, snd acc))"

definition poster_reverse ::
  "journal_hash \<Rightarrow> poster_state \<Rightarrow> Allocation \<Rightarrow> ReversalRequest
     \<Rightarrow> (posting_error service_error + string list) \<times> poster_state" where
  "poster_reverse H acc a q =
     (case ReverseAllocation H (snd acc) (fst acc) a q of (r, p) \<Rightarrow> (r, p, snd acc))"

definition poster_status :: "poster_state \<Rightarrow> string \<Rightarrow> bool option" where
  "poster_status acc i = map_option ps_reversed (mget (po_records (fst acc)) i)"

definition poster_good :: "journal_hash \<Rightarrow> poster_state \<Rightarrow> bool" where
  "poster_good H acc \<longleftrightarrow> ledger_inv H (po_book (fst acc))"

definition poster_interfere :: "journal_hash \<Rightarrow> poster_state \<Rightarrow> poster_state \<Rightarrow> bool" where
  "poster_interfere H acc acc' \<longleftrightarrow>
     po_records (fst acc') = po_records (fst acc) \<and>
     (ledger_step H)\<^sup>*\<^sup>* (po_book (fst acc)) (po_book (fst acc'))"

lemma ApplyAllocation_cases:
  assumes "ApplyAllocation H now p item = (r, p')"
  obtains (refused) err where "r = Inl err" "p' = p"
  | (replayed) rec where "r = Inr (ps_journalIDs rec)" "p' = p" "mget (po_records p) (al_AllocationID item) = Some rec"
  | (posted) js ps l ids where "allocation_journals item = Some js"
      "mget (po_records p) (al_AllocationID item) = None"
      "PostBatch H now (po_book p) js = (Inr ps, l)" "ids = map (\<lambda>q. j_ID (p_Journal q)) (take 2 ps)"
      "r = Inr ids"
      "p' = p\<lparr>po_book := l, po_records := mput (al_AllocationID item)
              \<lparr>ps_journalIDs = ids, ps_reversed = False\<rparr> (po_records p)\<rparr>"
proof -
  let ?bad = "al_AllocationID item = [] \<or> al_PaymentID item = [] \<or> al_LoanID item = [] \<or>
         al_AssetID item = [] \<or> al_CorrelationID item = [] \<or> al_EvidenceHash item = [] \<or>
         al_AllocatedAt item = 0"
  show thesis
  proof (cases "?bad \<or> allocation_journals item = None")
    case True
    then have "ApplyAllocation H now p item = (Inl (Own ErrInvalidAllocationPosting), p)"
      by (auto simp: ApplyAllocation_def)
    with assms show thesis by (auto intro: refused)
  next
    case False
    then obtain js where js: "\<not> ?bad" "allocation_journals item = Some js" by auto
    note run = assms[unfolded ApplyAllocation_def if_not_P[OF js(1)] js(2) option.case]
    show thesis
    proof (cases "mget (po_records p) (al_AllocationID item)")
      case (Some rec)
      with run show thesis by (auto intro: replayed)
    next
      case None
      obtain out l where out: "PostBatch H now (po_book p) js = (out, l)" by fastforce
      show thesis
      proof (cases out)
        case (Inl e)
        with run None out PostBatch_error_keeps show thesis by (auto intro: refused)
      next
        case (Inr ps)
        with run None out show thesis by (auto simp: Let_def intro: posted[OF js(2) None])
      qed
    qed
  qed
qed

lemma ReverseAllocation_cases:
  assumes "ReverseAllocation H now p item q = (r, p')"
  obtains (refused) err where "r = Inl err" "p' = p"
  | (posted) stored js ps l where "mget (po_records p) (al_AllocationID item) = Some stored"
      "\<not> ps_reversed stored" "ps_journalIDs stored = al_JournalIDs item"
      "mirror_journals (po_book p) item q (ps_journalIDs stored) = Some js"
      "PostBatch H now (po_book p) js = (Inr ps, l)" "r = Inr (map (\<lambda>q. j_ID (p_Journal q)) ps)"
      "p' = p\<lparr>po_book := l, po_records := mput (al_AllocationID item) (stored\<lparr>ps_reversed := True\<rparr>)
              (po_records p)\<rparr>"
proof -
  let ?bad = "rr_ReversalID q = [] \<or> rr_ProviderEventID q = [] \<or> rr_EvidenceHash q = [] \<or> rr_ReversedAt q = 0"
  show thesis
  proof (cases "\<not> ?bad \<and> (\<exists>stored js. mget (po_records p) (al_AllocationID item) = Some stored \<and>
      \<not> ps_reversed stored \<and> ps_journalIDs stored = al_JournalIDs item \<and>
      mirror_journals (po_book p) item q (ps_journalIDs stored) = Some js)")
    case False
    then have "ReverseAllocation H now p item q = (Inl (Own ErrInvalidAllocationPosting), p)"
      by (auto simp: ReverseAllocation_def split: option.splits)
    with assms show thesis by (auto intro: refused)
  next
    case True
    then obtain stored js where st: "\<not> ?bad" "mget (po_records p) (al_AllocationID item) = Some stored"
      "\<not> ps_reversed stored" "ps_journalIDs stored = al_JournalIDs item"
      "mirror_journals (po_book p) item q (ps_journalIDs stored) = Some js" by auto
    note run = assms[unfolded ReverseAllocation_def if_not_P[OF st(1)] st(2) option.case]
    obtain out l where out: "PostBatch H now (po_book p) js = (out, l)" by fastforce
    show thesis
    proof (cases out)
      case (Inl e)
      with run st out PostBatch_error_keeps show thesis by (auto intro: refused)
    next
      case (Inr ps)
      with run st out show thesis by (auto intro: posted[OF st(2-5)])
    qed
  qed
qed

interpretation poster: allocation_accounting "poster_apply H" "poster_reverse H" poster_status
  "poster_good H" "poster_interfere H" for H
proof (unfold_locales, goal_cases)
  case (1 acc a err acc')
  then obtain p where "ApplyAllocation H (snd acc) (fst acc) a = (Inl err, p)" "acc' = (p, snd acc)"
    by (auto simp: poster_apply_def split: prod.splits)
  then show ?case by (auto elim: ApplyAllocation_cases)
next
  case (2 acc a q err acc')
  then obtain p where "ReverseAllocation H (snd acc) (fst acc) a q = (Inl err, p)" "acc' = (p, snd acc)"
    by (auto simp: poster_reverse_def split: prod.splits)
  then show ?case by (auto elim: ReverseAllocation_cases)
next
  case (3 acc a ids acc')
  then obtain p where "ApplyAllocation H (snd acc) (fst acc) a = (Inr ids, p)" "acc' = (p, snd acc)"
    by (auto simp: poster_apply_def split: prod.splits)
  with 3 show ?case
    by (auto elim!: ApplyAllocation_cases simp: poster_good_def poster_status_def fun_eq_iff
        intro: PostBatch_inv)
next
  case (4 acc a q ids acc')
  then obtain p where "ReverseAllocation H (snd acc) (fst acc) a q = (Inr ids, p)" "acc' = (p, snd acc)"
    by (auto simp: poster_reverse_def split: prod.splits)
  with 4 show ?case
    by (auto elim!: ReverseAllocation_cases simp: poster_good_def poster_status_def fun_eq_iff
        intro: PostBatch_inv)
next
  case (5 acc acc')
  then show ?case
    using led.steps_inv[of H "po_book (fst acc)" "po_book (fst acc')"]
    by (auto simp: poster_interfere_def poster_good_def poster_status_def fun_eq_iff)
qed

section \<open>Properties of the engine over the poster\<close>

abbreviation poster_step ::
  "(id_fields \<Rightarrow> string) \<Rightarrow> (ClaimFields \<Rightarrow> string) \<Rightarrow> ('st \<Rightarrow> Claim \<Rightarrow> (mode_error + bool) \<times> 'st) \<Rightarrow>
   journal_hash \<Rightarrow> (poster_state, 'st) Engine \<Rightarrow> (poster_state, 'st) Engine \<Rightarrow> bool" where
  "poster_step idDigest claimDigest cs H \<equiv>
     engine_step idDigest claimDigest cs (poster_apply H) (poster_reverse H) (poster_interfere H)"

definition engine_start ::
  "journal_hash \<Rightarrow> Obligation list \<Rightarrow> (poster_state, 'st) Engine \<Rightarrow> bool" where
  "engine_start H obs e \<longleftrightarrow>
     (\<exists>l now modes. ledger_inv H l \<and> registry_inv modes \<and>
        (engine_New obs (allocation_poster_New l, now) modes :: posting_error service_error allocation_error + _)
          = Inr e)"

lemma engine_run:
  assumes "engine_start H obs e0" "(poster_step idDigest claimDigest cs H)\<^sup>*\<^sup>* e0 e"
  shows "sound (poster_good H) poster_status e" "conserves e0 e" "paid e0 l = 0" "engine_inv e0"
proof -
  from assms(1) obtain b now modes where "ledger_inv H b" "registry_inv modes"
    and new: "(engine_New obs (allocation_poster_New b, now) modes :: posting_error service_error allocation_error + _)
      = Inr e0" by (auto simp: engine_start_def)
  then have s: "sound (poster_good H) poster_status e0" "paid e0 l = 0"
    using engine_New_sound[OF new, of "poster_good H" poster_status]
    by (simp_all add: poster_good_def poster_status_def allocation_poster_New_def fun_eq_iff)
  from poster.books.steps_inv[OF assms(2)] poster.books.later[OF assms(2)] s
  show "sound (poster_good H) poster_status e" "conserves e0 e" "paid e0 l = 0" "engine_inv e0"
    by (simp_all add: sound_def)
qed

lemma outstanding_obligation:
  "engine_inv e \<Longrightarrow> engine_Obligation e l = Some ob \<Longrightarrow>
   ob_OutstandingPrincipalUnits ob = big_string (outstanding e l) \<and> 0 \<le> outstanding e l"
  using obligations_okD[of "en_obligations e" l ob] engine_invD(1)[of e]
  by (auto simp: outstanding_def engine_Obligation_def)

text \<open>
  C19: principal is neither created nor destroyed. Over every run of the engine (allocations,
  reversals, replays, failed calls, other users of the mode registry and of the ledger) the recorded
  outstanding principal of a loan plus the principal of its allocations that are not reversed is the
  principal the loan started with, and the recorded text is the canonical decimal of a number that
  is never negative.
\<close>

theorem allocation_conserves_debt:
  assumes "engine_start H obs e0" "(poster_step idDigest claimDigest cs H)\<^sup>*\<^sup>* e0 e"
    and "engine_Obligation e loan = Some ob"
  shows "\<exists>ob0 n0 n. engine_Obligation e0 loan = Some ob0 \<and>
     ob_OutstandingPrincipalUnits ob0 = big_string n0 \<and> ob_OutstandingPrincipalUnits ob = big_string n \<and>
     0 \<le> n \<and> n + paid e loan = n0"
proof -
  note run = engine_run[OF assms(1,2)]
  have e: "engine_inv e" using run(1) by (simp add: sound_def)
  have "mhas (en_obligations e0) loan" "outstanding e loan + paid e loan = outstanding e0 loan"
    using run(2) run(3)[of loan] assms(3) by (auto simp: conserves_def mhas_iff engine_Obligation_def)
  moreover from this(1) obtain ob0 where "engine_Obligation e0 loan = Some ob0"
    by (auto simp: mhas_iff engine_Obligation_def)
  ultimately show ?thesis
    using outstanding_obligation[OF e assms(3)] outstanding_obligation[OF run(4), of loan ob0] by blast
qed

definition sample_obligation :: Obligation where
  "sample_obligation = \<lparr>ob_LoanID = ''L'', ob_BorrowerID = ''B'', ob_LenderID = ''N'', ob_AssetID = ''UFT'',
     ob_OutstandingPrincipalUnits = ''5'', ob_Version = 1, ob_SourceAuthority = ''S'',
     ob_SourceEvidenceHash = ''E'', ob_AsOf = 1\<rparr>"

definition sample_request :: AllocationRequest where
  "sample_request = \<lparr>rq_AllocationID = ''A'',
     rq_Payment = \<lparr>fp_PaymentID = ''P'', fp_ProviderID = ''V'', fp_ProviderReference = ''R'',
       fp_AssetID = ''UFT'', fp_Units = ''7'', fp_Status = StatusFinal, fp_PaymentVersion = 4,
       fp_ReconciliationID = ''C'', fp_DifferenceUnits = ''0'', fp_UnmatchedItems = 0,
       fp_FinalityPolicyHash = ''F'', fp_ReversalDeadline = 9, fp_EvidenceHash = ''H'', fp_FinalizedAt = 2\<rparr>,
     rq_LoanID = ''L'', rq_ExpectedObligationVersion = 1, rq_WaterfallPolicyHash = ''W'',
     rq_CorrelationID = ''K'', rq_EvidenceHash = ''X'', rq_AllocatedAt = 3\<rparr>"

definition sample_engine :: "(poster_state, MemoryStore) Engine" where
  "sample_engine =
     \<lparr>en_accounting = (allocation_poster_New ledger_New, 3), en_obligations = [(''L'', sample_obligation)],
      en_allocations = [], en_byPayment = [], en_reversals = [],
      en_modes = \<lparr>r_byPayment = [], r_byAllocation = [], r_reversed = [], r_store = []\<rparr>\<rparr>"

definition sample_idDigest :: "id_fields \<Rightarrow> string" where
  "sample_idDigest x = (if x = (''P'', ''L'', 1, ''7'', ''W'', ''F'', ''X'') then ''A'' else ''Z'')"

definition sample_run :: "(posting_error service_error allocation_error + Allocation) \<times> (poster_state, MemoryStore) Engine" where
  "sample_run = Allocate sample_idDigest (\<lambda>_. ''D'') memory_ClaimSynthetic (poster_apply sample_hash)
     sample_engine sample_request"

lemma sample_engine_start: "engine_start sample_hash [sample_obligation] sample_engine"
  unfolding engine_start_def
  by (rule exI[of _ ledger_New], rule exI[of _ 3],
      rule exI[of _ "\<lparr>r_byPayment = [], r_byAllocation = [], r_reversed = [], r_store = []\<rparr>"])
     (simp add: engine_New_def sample_obligation_def validObligation_def canonicalPositive_def
        sample_engine_def registry_inv_def big_eval)

lemma sample_engine_step:
  "(poster_step sample_idDigest (\<lambda>_. ''D'') memory_ClaimSynthetic sample_hash)\<^sup>*\<^sup>* sample_engine (snd sample_run)"
  unfolding sample_run_def by (rule r_into_rtranclp, rule step_Allocate, rule prod.collapse[symmetric])

lemma sample_engine_claim:
  "ClaimMode memory_ClaimSynthetic (en_modes sample_engine) ''P'' ''A'' ModeSyntheticProjection ''D'' 4 ''X'' 3 =
     (Inr (c, False), modes) \<longleftrightarrow>
   c = \<lparr>cl_ClaimID = ''phase7b:A'', cl_PaymentID = ''P'', cl_AllocationID = ''A'',
     cl_Mode = ModeSyntheticProjection, cl_Digest = ''D'', cl_State = NoState, cl_ExpectedVersion = 4,
     cl_EvidenceHash = ''X'', cl_ClaimedAt = 3\<rparr> \<and>
   modes = \<lparr>r_byPayment = [(''P'', c)], r_byAllocation = [(''A'', ''P'')], r_reversed = [],
     r_store = [(''P'', c)]\<rparr>"
  by (auto simp: ClaimMode_def sample_engine_def IsReversed_def memory_ClaimSynthetic_def
      validDurableClaim_def allocation_taken_def publish_def Let_def)

lemma sample_applied:
  assumes "al_AllocationID a = ''A''" "al_PaymentID a = ''P''" "al_LoanID a = ''L''" "al_AssetID a = ''UFT''"
    "al_CorrelationID a = ''K''" "al_EvidenceHash a = ''X''" "al_AllocatedAt a = 3"
    "al_GrossUnits a = ''7''" "al_PrincipalUnits a = ''5''" "al_RefundableExcessUnits a = ''2''"
  shows "\<exists>ids acc. poster_apply sample_hash (en_accounting sample_engine) a = (Inr ids, acc)"
  using assms
  by (simp add: poster_apply_def ApplyAllocation_def sample_engine_def allocation_poster_New_def
      allocation_journals_def posting_nonNegative_def big_eval allocation_journal_def allocation_entry_def
      PostBatch_def postValidated_def ledger_New_def sample_eval mk_entry_def Let_def)

lemma sample_run_value:
  "en_obligations (snd sample_run) = [(''L'', reduced sample_request 0 sample_obligation)]"
  "\<exists>a. en_allocations (snd sample_run) = [(''A'', a)] \<and> al_AllocationID a = ''A'' \<and>
     al_LoanID a = ''L'' \<and> al_PaymentID a = ''P'' \<and> al_ReversalDeadline a = 9 \<and> al_PrincipalUnits a = ''5''"
  "en_reversals (snd sample_run) = []"
proof -
  define a where "a = (allocation_of sample_request sample_obligation 7 5 5)\<lparr>al_ClaimDigest := ''D''\<rparr>"
  have "big_string 7 = ''7''" "big_string 5 = ''5''" "big_string 2 = ''2''" by (simp_all add: big_eval)
  then have al: "al_AllocationID a = ''A''" "al_PaymentID a = ''P''" "al_LoanID a = ''L''" "al_AssetID a = ''UFT''"
    "al_CorrelationID a = ''K''" "al_EvidenceHash a = ''X''" "al_AllocatedAt a = 3" "al_ReversalDeadline a = 9"
    "al_GrossUnits a = ''7''" "al_PrincipalUnits a = ''5''" "al_RefundableExcessUnits a = ''2''"
    by (simp_all add: a_def allocation_of_def sample_request_def sample_obligation_def)
  obtain ids acc where "poster_apply sample_hash (en_accounting sample_engine) a = (Inr ids, acc)"
    using sample_applied[of a] al by blast
  moreover obtain c modes where "ClaimMode memory_ClaimSynthetic (en_modes sample_engine) ''P'' ''A''
      ModeSyntheticProjection ''D'' 4 ''X'' 3 = (Inr (c, False), modes)"
    using sample_engine_claim by blast
  moreover have "\<not> invalid_request sample_idDigest sample_request"
    by (simp add: invalid_request_def sample_request_def CalculateAllocationID_def sample_idDigest_def
        validFinalPayment_def canonicalPositive_def canonicalNonNegative_def big_eval)
  moreover have "mget (en_byPayment sample_engine) p = None"
    "mget (en_obligations sample_engine) ''L'' = Some sample_obligation" for p
    by (simp_all add: sample_engine_def)
  moreover have "rq_LoanID sample_request = ''L''" "rq_AllocationID sample_request = ''A''"
    "fp_PaymentID (rq_Payment sample_request) = ''P''" "rq_ExpectedObligationVersion sample_request = 1"
    "fp_AssetID (rq_Payment sample_request) = ''UFT''" "rq_AllocatedAt sample_request = 3"
    "fp_Units (rq_Payment sample_request) = ''7''" "fp_PaymentVersion (rq_Payment sample_request) = 4"
    by (simp_all add: sample_request_def)
  moreover have "ob_Version sample_obligation = 1" "ob_AssetID sample_obligation = ''UFT''"
    "ob_AsOf sample_obligation = 1" "ob_OutstandingPrincipalUnits sample_obligation = ''5''"
    by (simp_all add: sample_obligation_def)
  moreover have "fst (canonicalPositive ''5'') = Some 5" "fst (canonicalPositive ''7'') = Some 7"
    by (simp_all add: canonicalPositive_def big_eval)
  moreover have "allocationClaimDigest (\<lambda>_. ''D'') x y z = ''D''" for x y z
    by (simp add: allocationClaimDigest_def)
  moreover have "al_PaymentID (allocation_of sample_request sample_obligation 7 5 5) = ''P''"
    "al_AllocationID (allocation_of sample_request sample_obligation 7 5 5) = ''A''"
    "al_EvidenceHash (allocation_of sample_request sample_obligation 7 5 5) = ''X''"
    "al_AllocatedAt (allocation_of sample_request sample_obligation 7 5 5) = 3"
    using al by (simp_all add: a_def)
  ultimately have run: "sample_run = (Inr (a\<lparr>al_JournalIDs := ids\<rparr>),
      record_allocation (reduced sample_request 0 sample_obligation) (a\<lparr>al_JournalIDs := ids\<rparr>)
        (sample_engine\<lparr>en_modes := modes, en_accounting := acc\<rparr>))"
    using al unfolding sample_run_def Allocate_def by (simp add: a_def[symmetric] Let_def)
  from al show "en_obligations (snd sample_run) = [(''L'', reduced sample_request 0 sample_obligation)]"
    "\<exists>a. en_allocations (snd sample_run) = [(''A'', a)] \<and> al_AllocationID a = ''A'' \<and>
       al_LoanID a = ''L'' \<and> al_PaymentID a = ''P'' \<and> al_ReversalDeadline a = 9 \<and> al_PrincipalUnits a = ''5''"
    "en_reversals (snd sample_run) = []"
    by (simp_all add: run record_allocation_def sample_engine_def reduced_def sample_obligation_def)
qed

theorem allocation_conserves_debt_witness:
  "\<exists>n0. ob_OutstandingPrincipalUnits sample_obligation = big_string n0 \<and> paid (snd sample_run) ''L'' = n0"
proof -
  have "engine_Obligation (snd sample_run) ''L'' = Some (reduced sample_request 0 sample_obligation)"
    using sample_run_value by (auto simp: engine_Obligation_def)
  from allocation_conserves_debt[OF sample_engine_start sample_engine_step this] show ?thesis
    by (auto simp: engine_Obligation_def sample_engine_def reduced_def simp flip: big_string_0)
qed

text \<open>
  C20: the engine and the accounting never disagree, and a payment is allocated at most once. At
  every moment, also after failed calls, an allocation is booked by the poster exactly when the
  engine holds it and reversed by the poster exactly when the engine has reversed it; two
  allocations of the same payment are the same allocation.
\<close>

theorem allocation_books_agree:
  assumes "engine_start H obs e0" "(poster_step idDigest claimDigest cs H)\<^sup>*\<^sup>* e0 e"
  shows "poster_status (en_accounting e) i =
       (if mhas (en_allocations e) i then Some (mhas (en_reversals e) i) else None) \<and>
     (\<forall>j a b. mget (en_allocations e) i = Some a \<and> mget (en_allocations e) j = Some b \<and>
        al_PaymentID a = al_PaymentID b \<longrightarrow> i = j)"
proof -
  have s: "agrees poster_status e" "engine_inv e"
    using engine_run(1)[OF assms] by (simp_all add: sound_def)
  have "i = j" if "mget (en_allocations e) i = Some a" "mget (en_allocations e) j = Some b"
    "al_PaymentID a = al_PaymentID b" for j a b
    using engine_invD(4)[OF s(2), of "al_PaymentID a" i] engine_invD(4)[OF s(2), of "al_PaymentID a" j] that
    by force
  with s(1) show ?thesis by (auto simp: agrees_def)
qed

theorem allocation_books_agree_witness:
  "poster_status (en_accounting (snd sample_run)) ''A'' = Some False"
proof -
  have "mhas (en_allocations (snd sample_run)) ''A''" "\<not> mhas (en_reversals (snd sample_run)) ''A''"
    using sample_run_value by auto
  with allocation_books_agree[OF sample_engine_start sample_engine_step, of "''A''"] show ?thesis by simp
qed

lemma no_open_reversal_iff:
  "no_open_reversal R loan t m \<longleftrightarrow>
     (\<forall>(j, b) \<in> set m. al_LoanID b = loan \<and> \<not> mhas R j \<longrightarrow> al_ReversalDeadline b \<le> t)"
  by (induction R loan t m rule: no_open_reversal.induct) auto

text \<open>
  C21: collateral is released only when the loan is settled for good. When \<open>ReleaseEligible\<close> holds,
  the loan has no outstanding principal, the allocations that count against it add up to the
  principal it started with, and none of them can still be reversed within its reversal deadline.
\<close>

theorem release_only_when_settled:
  assumes "engine_start H obs e0" "(poster_step idDigest claimDigest cs H)\<^sup>*\<^sup>* e0 e"
    and "ReleaseEligible e i t"
  shows "\<exists>a ob0. mget (en_allocations e) i = Some a \<and> engine_Obligation e0 (al_LoanID a) = Some ob0 \<and>
     ob_OutstandingPrincipalUnits ob0 = big_string (paid e (al_LoanID a)) \<and>
     (\<forall>j b. mget (en_allocations e) j = Some b \<and> al_LoanID b = al_LoanID a \<and> \<not> mhas (en_reversals e) j \<longrightarrow>
        al_ReversalDeadline b \<le> t)"
proof -
  note run = engine_run[OF assms(1,2)]
  have e: "engine_inv e" using run(1) by (simp add: sound_def)
  from assms(3) obtain a where a: "mget (en_allocations e) i = Some a"
    "ob_OutstandingPrincipalUnits (the_default zero_obligation (mget (en_obligations e) (al_LoanID a))) = ''0''"
    "no_open_reversal (en_reversals e) (al_LoanID a) t (en_allocations e)"
    by (auto simp: ReleaseEligible_def split: option.splits if_splits)
  have h: "mhas (en_obligations e) (al_LoanID a)"
    using engine_invD(2)[OF e] a(1) by (auto elim: allocations_okD)
  then obtain ob where ob: "engine_Obligation e (al_LoanID a) = Some ob"
    by (auto simp: mhas_iff engine_Obligation_def)
  have "big_string (outstanding e (al_LoanID a)) = ''0''"
    using outstanding_obligation[OF e ob] ob a(2) by (simp add: engine_Obligation_def)
  then have "outstanding e0 (al_LoanID a) = paid e (al_LoanID a)"
    using run(2)[unfolded conserves_def, THEN spec, of "al_LoanID a"] run(3)[of "al_LoanID a"] by simp
  moreover from h run(2) obtain ob0 where ob0: "engine_Obligation e0 (al_LoanID a) = Some ob0"
    by (auto simp: conserves_def mhas_iff engine_Obligation_def)
  moreover have "al_ReversalDeadline b \<le> t" if "mget (en_allocations e) j = Some b"
    "al_LoanID b = al_LoanID a" "\<not> mhas (en_reversals e) j" for j b
    using a(3) mget_mem[OF that(1)] that(2,3) by (auto simp: no_open_reversal_iff)
  ultimately show ?thesis using a(1) outstanding_obligation[OF run(4) ob0] by auto
qed

theorem release_only_when_settled_witness:
  "\<exists>a. mget (en_allocations (snd sample_run)) ''A'' = Some a \<and> al_ReversalDeadline a \<le> 9"
proof -
  have "ReleaseEligible (snd sample_run) ''A'' 9"
    using sample_run_value by (auto simp: ReleaseEligible_def reduced_def)
  moreover have "\<not> mhas (en_reversals (snd sample_run)) ''A''" using sample_run_value by auto
  ultimately show ?thesis
    using release_only_when_settled[OF sample_engine_start sample_engine_step, of "''A''" 9] by auto
qed

text \<open>The fields an allocation identifier is the digest of.\<close>

definition request_fields :: "AllocationRequest \<Rightarrow> id_fields" where
  "request_fields q =
     (fp_PaymentID (rq_Payment q), rq_LoanID q, rq_ExpectedObligationVersion q, fp_Units (rq_Payment q),
      rq_WaterfallPolicyHash q, fp_FinalityPolicyHash (rq_Payment q), rq_EvidenceHash q)"

text \<open>
  C22: a payment whose booking failed can be stranded. Suppose a call of \<open>Allocate\<close> failed because the
  accounting service returned an error: the mode claim was taken before and is kept. In every later state
  of the engine in which the payment is still not allocated and the obligation has moved on from the
  version of that call, every request for the payment fails, whatever it asks for: one with the old
  identifier names the wrong version, one with another identifier meets the claim. The only way out is a
  collision of the digest: two different sets of fields with the same allocation identifier.
\<close>

theorem failed_booking_strands_payment:
  assumes "registry_inv (en_modes e)"
    and "Allocate idDigest claimDigest cs applyA e q = (Inl (ErrAllocationAccounting err), e1)"
    and "(engine_step idDigest claimDigest cs applyA reverseA interfere)\<^sup>*\<^sup>* e1 e2"
    and "mget (en_byPayment e2) (fp_PaymentID (rq_Payment q)) = None"
    and "engine_Obligation e2 (rq_LoanID q) = Some ob" "ob_Version ob \<noteq> rq_ExpectedObligationVersion q"
    and "fp_PaymentID (rq_Payment q') = fp_PaymentID (rq_Payment q)"
  shows "(\<exists>err'. fst (Allocate idDigest claimDigest cs applyA e2 q') = Inl err') \<or>
    request_fields q' \<noteq> request_fields q \<and> idDigest (request_fields q') = idDigest (request_fields q)"
proof -
  let ?p = "fp_PaymentID (rq_Payment q)"
  from assms(2) obtain d v ev t x modes where
    c1: "ClaimMode cs (en_modes e) ?p (rq_AllocationID q) ModeSyntheticProjection d v ev t = (Inr x, modes)"
      "en_modes e1 = modes" and q: "\<not> invalid_request idDigest q"
    by (cases rule: Allocate_cases) auto
  have inv1: "registry_inv (en_modes e1)" using ClaimMode_keeps[OF assms(1) c1(1)] c1(2) by simp
  from ClaimMode_success[OF c1(1)] c1(2) obtain c where
    c: "mget (r_byPayment (en_modes e1)) ?p = Some c" "cl_AllocationID c = rq_AllocationID q" by auto
  from engine_steps_latched[OF assms(3) inv1] latchedD[of "en_modes e1" "en_modes e2", OF _ c(1)] c(2)
  obtain c' where c': "mget (r_byPayment (en_modes e2)) ?p = Some c'" "cl_AllocationID c' = rq_AllocationID q"
    by (metis identity_fields)
  obtain r e3 where run: "Allocate idDigest claimDigest cs applyA e2 q' = (r, e3)" by fastforce
  then show ?thesis
  proof (cases rule: Allocate_cases)
    case (replayed i a)
    with assms(4,7) show ?thesis by simp
  next
    case (booked ob' debt gross prin d' v' ev' t' x' modes' ids acc a)
    have "rq_AllocationID q' = rq_AllocationID q"
      using booked(8) c' assms(7) by (auto simp: ClaimMode_def sameClaim_def split: if_splits)
    then have same: "idDigest (request_fields q') = idDigest (request_fields q)"
      using booked(1) q by (simp add: invalid_request_def CalculateAllocationID_def request_fields_def)
    have "request_fields q' \<noteq> request_fields q"
      using booked(3,13) assms(5,6) by (auto simp: request_fields_def engine_Obligation_def)
    with same show ?thesis by simp
  qed (use run in auto)
qed

text \<open>
  An accounting service that is down when the first payment is allocated, and up again when another
  payment pays the loan.
\<close>

definition outage_apply :: "bool \<Rightarrow> Allocation \<Rightarrow> (string + string list) \<times> bool" where
  "outage_apply up a = (if up then (Inr [''J''], up) else (Inl ''unavailable'', up))"

definition outage_reverse :: "bool \<Rightarrow> Allocation \<Rightarrow> ReversalRequest \<Rightarrow> (string + string list) \<times> bool" where
  "outage_reverse up a q = (if up then (Inr [''R''], up) else (Inl ''unavailable'', up))"

definition outage_digest :: "id_fields \<Rightarrow> string" where
  "outage_digest = (\<lambda>(p, l, v, rest). p @ (if v = 1 then ''-1'' else ''-2''))"

definition outage_request :: "string \<Rightarrow> 64 word \<Rightarrow> AllocationRequest" where
  "outage_request p v = sample_request\<lparr>rq_AllocationID := p @ (if v = 1 then ''-1'' else ''-2''),
     rq_ExpectedObligationVersion := v, rq_Payment := (rq_Payment sample_request)\<lparr>fp_PaymentID := p\<rparr>\<rparr>"

abbreviation outage_allocate ::
  "(bool, MemoryStore) Engine \<Rightarrow> AllocationRequest \<Rightarrow> (string allocation_error + Allocation) \<times> (bool, MemoryStore) Engine" where
  "outage_allocate \<equiv> Allocate outage_digest (\<lambda>_. ''D'') memory_ClaimSynthetic outage_apply"

definition outage0 :: "(bool, MemoryStore) Engine" where
  "outage0 = \<lparr>en_accounting = False, en_obligations = [(''L'', sample_obligation)], en_allocations = [], en_byPayment = [],
     en_reversals = [], en_modes = en_modes sample_engine\<rparr>"

definition outage1 :: "(bool, MemoryStore) Engine" where
  "outage1 = snd (outage_allocate outage0 (outage_request ''P'' 1))"

definition outage2 :: "(bool, MemoryStore) Engine" where
  "outage2 = snd (outage_allocate (outage1\<lparr>en_accounting := True\<rparr>) (outage_request ''Q'' 1))"

lemma outage_values:
  "fst (outage_allocate outage0 (outage_request ''P'' 1)) = Inl (ErrAllocationAccounting ''unavailable'')"
  "mget (en_byPayment outage2) ''P'' = None"
  "map_option ob_Version (engine_Obligation outage2 ''L'') = Some 2"
  by code_simp+

lemma outage_steps:
  "(engine_step outage_digest (\<lambda>_. ''D'') memory_ClaimSynthetic outage_apply outage_reverse (\<lambda>_ _. True))\<^sup>*\<^sup>*
     outage1 outage2"
proof (rule converse_rtranclp_into_rtranclp)
  show "engine_step outage_digest (\<lambda>_. ''D'') memory_ClaimSynthetic outage_apply outage_reverse (\<lambda>_ _. True)
      outage1 (outage1\<lparr>en_accounting := True\<rparr>)"
    by (rule step_other_postings) simp
  show "(engine_step outage_digest (\<lambda>_. ''D'') memory_ClaimSynthetic outage_apply outage_reverse (\<lambda>_ _. True))\<^sup>*\<^sup>*
      (outage1\<lparr>en_accounting := True\<rparr>) outage2"
    unfolding outage2_def by (intro r_into_rtranclp step_Allocate, rule prod.collapse[symmetric])
qed

theorem failed_booking_strands_payment_witness:
  "(\<exists>err. fst (outage_allocate outage2 (outage_request ''P'' 2)) = Inl err) \<and>
   (\<exists>err. fst (outage_allocate outage2 (outage_request ''P'' 1)) = Inl err)"
proof -
  have failed: "outage_allocate outage0 (outage_request ''P'' 1) = (Inl (ErrAllocationAccounting ''unavailable''), outage1)"
    unfolding outage1_def using outage_values(1) by (metis prod.collapse)
  obtain ob where ob: "engine_Obligation outage2 ''L'' = Some ob" "ob_Version ob = 2" using outage_values(3) by auto
  have inv: "registry_inv (en_modes outage0)" by (simp add: outage0_def sample_engine_def registry_inv_def)
  have q: "fp_PaymentID (rq_Payment (outage_request p v)) = p" "rq_LoanID (outage_request p v) = ''L''"
    "rq_ExpectedObligationVersion (outage_request p v) = v" for p v
    by (simp_all add: outage_request_def sample_request_def)
  have "outage_digest (request_fields (outage_request ''P'' 2)) \<noteq> outage_digest (request_fields (outage_request ''P'' 1))"
    by (simp add: request_fields_def outage_digest_def q)
  moreover note claim = failed_booking_strands_payment[OF inv failed outage_steps, unfolded q, OF outage_values(2) ob(1)]
  ultimately show ?thesis
    using claim[of "outage_request ''P'' 2"] claim[of "outage_request ''P'' 1"] ob(2) by (auto simp: q)
qed

end
