(* ===== verification/Payment_Reconciliation.thy ===== *)
theory Payment_Reconciliation
  imports Payment_Accounting "HOL-Library.List_Lexorder" "HOL-Library.Char_ord"
begin

text \<open>
  The reconciler of \<^verbatim>\<open>foundation-ledger/internal/paymentaccounting/accounting.go\<close>, which compares the
  final payments of a provider with its statement, and the proof that the comparison is exact.
  \<open>hashJSON\<close> is an argument for each type of value it is used on.
\<close>

section \<open>The reconciler\<close>

datatype StatementKind = StatementSettled | StatementReversed | UnknownKind string

record StatementEntry =
  st_EntryID :: string
  st_ProviderID :: string
  st_ProviderReference :: string
  st_PaymentID :: string
  st_AssetID :: string
  st_Units :: string
  st_Kind :: StatementKind
  st_OccurredAt :: gotime

datatype ReconciliationStatus = ReconciliationMatched | ReconciliationException

record ReconciliationRun =
  rn_RunID :: string
  rn_ProviderID :: string
  rn_AssetID :: string
  rn_AsOf :: gotime
  rn_ProviderSnapshotHash :: string
  rn_LedgerSnapshotHash :: string
  rn_ExpectedUnits :: string
  rn_ObservedUnits :: string
  rn_DifferenceUnits :: string
  rn_UnmatchedItems :: "32 word"
  rn_Status :: ReconciliationStatus
  rn_Owner :: string
  rn_ResolutionDeadline :: gotime
  rn_CreatedAt :: gotime

record ReconException =
  ex_ExceptionID :: string
  ex_RunID :: string
  ex_ProviderID :: string
  ex_AssetID :: string
  ex_DifferenceUnits :: string
  ex_UnmatchedItems :: "32 word"
  ex_ReasonCode :: string
  ex_Owner :: string
  ex_DetectedAt :: gotime
  ex_ResolutionDeadline :: gotime

record ReconResolution =
  rs_ResolutionID :: string
  rs_ExceptionID :: string
  rs_EvidenceHash :: string
  rs_ResolutionJournalID :: string
  rs_ResolvedBy :: string
  rs_ResolvedAt :: gotime

record Reconciler =
  re_poster :: PaymentPoster
  re_runs :: "(string, ReconciliationRun) gomap"
  re_runHashes :: "(string, string) gomap"
  re_exceptions :: "(string, ReconException) gomap"
  re_resolutions :: "(string, ReconResolution) gomap"

definition NewReconciler :: "PaymentPoster \<Rightarrow> Reconciler" where
  "NewReconciler p =
     \<lparr>re_poster = p, re_runs = [], re_runHashes = [], re_exceptions = [], re_resolutions = []\<rparr>"

definition recon_canonicalInteger :: "string \<Rightarrow> int option" where
  "recon_canonicalInteger s =
     (case big_set_string s of None \<Rightarrow> None | Some n \<Rightarrow> if big_string n = s then Some n else None)"

definition reconciliationKey :: "string \<Rightarrow> string \<Rightarrow> string" where
  "reconciliationKey paymentID providerReference = paymentID @ [CHR 0x00] @ providerReference"

definition addUnits :: "string \<Rightarrow> int \<Rightarrow> (string, int) gomap \<Rightarrow> (string, int) gomap" where
  "addUnits key units target = mput key (the_default 0 (mget target key) + units) target"

definition mismatchCount :: "(string, int) gomap \<Rightarrow> (string, int) gomap \<Rightarrow> 32 word" where
  "mismatchCount expected observed =
     fold (\<lambda>key count.
             if the_default 0 (mget expected key) \<noteq> the_default 0 (mget observed key)
             then count + 1 else count)
       (remdups (mkeys expected @ mkeys observed)) 0"

text \<open>The evidence of the ledger for one payment: every journal of its record must be on file.\<close>

fun journal_evidence :: "Ledger \<Rightarrow> string list \<Rightarrow> string list option" where
  "journal_evidence l [] = Some []"
| "journal_evidence l (i # is) =
     (if i = [] then journal_evidence l is
      else case ledger_Get l i of
        None \<Rightarrow> None
      | Some p \<Rightarrow> map_option (\<lambda>ev. (j_ID (p_Journal p) @ '':'' @ p_ContentHash p) # ev) (journal_evidence l is))"

definition in_scope :: "string \<Rightarrow> string \<Rightarrow> gotime \<Rightarrow> PaymentIntent \<Rightarrow> bool" where
  "in_scope providerID assetID asOf i \<longleftrightarrow>
     \<not> (in_ProviderID i \<noteq> providerID \<or> in_AssetID i \<noteq> assetID \<or> asOf < in_CreatedAt i)"

definition counted :: "gotime \<Rightarrow> PaymentIntent \<Rightarrow> bool" where
  "counted asOf i \<longleftrightarrow>
     in_FinalizedAt i \<noteq> 0 \<and> in_FinalizedAt i \<le> asOf \<and>
     (in_ReversedAt i = 0 \<or> asOf < in_ReversedAt i)"

record expectation =
  xp_total :: int
  xp_byPayment :: "(string, int) gomap"
  xp_seen :: "string list"
  xp_evidence :: "string list"

definition count_payment :: "gotime \<Rightarrow> PaymentIntent \<Rightarrow> int \<Rightarrow> expectation \<Rightarrow> expectation" where
  "count_payment asOf i units x =
     (if counted asOf i
      then x\<lparr>xp_seen := in_PaymentID i # xp_seen x, xp_total := xp_total x + units,
             xp_byPayment := mput (reconciliationKey (in_PaymentID i) (in_ProviderReference i)) units
               (xp_byPayment x)\<rparr>
      else x\<lparr>xp_seen := in_PaymentID i # xp_seen x\<rparr>)"

fun scan_payments ::
  "PaymentPoster \<Rightarrow> string \<Rightarrow> string \<Rightarrow> gotime \<Rightarrow> PaymentIntent list \<Rightarrow> expectation
     \<Rightarrow> payment_posting_error + expectation" where
  "scan_payments p providerID assetID asOf [] x = Inr x"
| "scan_payments p providerID assetID asOf (i # is) x =
     (if \<not> in_scope providerID assetID asOf i then scan_payments p providerID assetID asOf is x
      else if in_PaymentID i = [] \<or> in_PaymentID i \<in> set (xp_seen x) then Inl ErrInvalidReconciliation
      else case recon_canonicalInteger (in_Units i) of
        None \<Rightarrow> Inl ErrInvalidReconciliation
      | Some units \<Rightarrow>
          if units \<le> 0 then Inl ErrInvalidReconciliation
          else if counted asOf i \<and> in_ProviderReference i = [] then Inl ErrInvalidReconciliation
          else
            let x2 = count_payment asOf i units x
            in (case payment_Record p (in_PaymentID i) of
                  None \<Rightarrow>
                    if in_ProvisionalAt i \<noteq> 0 \<and> in_ProvisionalAt i \<le> asOf then Inl ErrInvalidReconciliation
                    else scan_payments p providerID assetID asOf is x2
                | Some rec \<Rightarrow>
                    (case journal_evidence (pp_book p)
                            (rc_ProvisionalJournalID rec # rc_FinalJournalID rec # rc_ReversalJournalIDs rec) of
                       None \<Rightarrow> Inl ErrInvalidReconciliation
                     | Some ev \<Rightarrow>
                         scan_payments p providerID assetID asOf is (x2\<lparr>xp_evidence := xp_evidence x2 @ ev\<rparr>))))"

record observation =
  ov_total :: int
  ov_byPayment :: "(string, int) gomap"
  ov_seen :: "string list"
  ov_evidence :: "StatementEntry list"

fun scan_statement ::
  "string \<Rightarrow> string \<Rightarrow> gotime \<Rightarrow> StatementEntry list \<Rightarrow> observation
     \<Rightarrow> payment_posting_error + observation" where
  "scan_statement providerID assetID asOf [] x = Inr x"
| "scan_statement providerID assetID asOf (s # ss) x =
     (if st_EntryID s = [] \<or> st_ProviderID s \<noteq> providerID \<or> st_AssetID s \<noteq> assetID \<or>
         st_ProviderReference s = [] \<or> st_PaymentID s = [] \<or> st_OccurredAt s = 0 \<or>
         asOf < st_OccurredAt s \<or> st_EntryID s \<in> set (ov_seen x)
      then Inl ErrInvalidReconciliation
      else case recon_canonicalInteger (st_Units s) of
        None \<Rightarrow> Inl ErrInvalidReconciliation
      | Some units \<Rightarrow>
          if units \<le> 0 then Inl ErrInvalidReconciliation
          else
            let add = (\<lambda>u. scan_statement providerID assetID asOf ss
                    (x\<lparr>ov_total := ov_total x + u,
                       ov_byPayment := addUnits (reconciliationKey (st_PaymentID s) (st_ProviderReference s)) u
                         (ov_byPayment x),
                       ov_seen := st_EntryID s # ov_seen x,
                       ov_evidence := ov_evidence x @ [s]\<rparr>))
            in (case st_Kind s of
                  StatementSettled \<Rightarrow> add units
                | StatementReversed \<Rightarrow> add (- units)
                | UnknownKind _ \<Rightarrow> Inl ErrInvalidReconciliation))"

definition exception_of :: "ReconciliationRun \<Rightarrow> ReconException" where
  "exception_of run =
     \<lparr>ex_ExceptionID = rn_RunID run @ '':difference'', ex_RunID = rn_RunID run,
      ex_ProviderID = rn_ProviderID run, ex_AssetID = rn_AssetID run,
      ex_DifferenceUnits = rn_DifferenceUnits run, ex_UnmatchedItems = rn_UnmatchedItems run,
      ex_ReasonCode = ''PROVIDER_LEDGER_MISMATCH'', ex_Owner = rn_Owner run, ex_DetectedAt = rn_AsOf run,
      ex_ResolutionDeadline = rn_ResolutionDeadline run\<rparr>"

definition run_of ::
  "(StatementEntry list \<Rightarrow> string) \<Rightarrow> (string list \<Rightarrow> string) \<Rightarrow>
   string \<Rightarrow> string \<Rightarrow> string \<Rightarrow> gotime \<Rightarrow> string \<Rightarrow> gotime \<Rightarrow> expectation \<Rightarrow> observation \<Rightarrow> ReconciliationRun" where
  "run_of hashS hashL runID providerID assetID asOf owner deadline x ov =
     (let unmatched = mismatchCount (xp_byPayment x) (ov_byPayment ov);
          difference = ov_total ov - xp_total x
      in \<lparr>rn_RunID = runID, rn_ProviderID = providerID, rn_AssetID = assetID, rn_AsOf = asOf,
          rn_ProviderSnapshotHash = hashS (sort_key st_EntryID (ov_evidence ov)),
          rn_LedgerSnapshotHash = hashL (sort (xp_evidence x)),
          rn_ExpectedUnits = big_string (xp_total x), rn_ObservedUnits = big_string (ov_total ov),
          rn_DifferenceUnits = big_string difference, rn_UnmatchedItems = unmatched,
          rn_Status = (if difference \<noteq> 0 \<or> unmatched \<noteq> 0 then ReconciliationException
                       else ReconciliationMatched),
          rn_Owner = owner, rn_ResolutionDeadline = deadline, rn_CreatedAt = asOf\<rparr>)"

definition reconciler_Run ::
  "(StatementEntry list \<Rightarrow> string) \<Rightarrow> (string list \<Rightarrow> string) \<Rightarrow> (ReconciliationRun \<Rightarrow> string) \<Rightarrow>
   Reconciler \<Rightarrow> string \<Rightarrow> string \<Rightarrow> string \<Rightarrow> gotime \<Rightarrow> string \<Rightarrow> gotime \<Rightarrow> PaymentIntent list \<Rightarrow>
   StatementEntry list \<Rightarrow> (payment_posting_error + ReconciliationRun) \<times> Reconciler" where
  "reconciler_Run hashS hashL hashR rc runID providerID assetID asOf owner deadline payments statement =
     (if runID = [] \<or> providerID = [] \<or> assetID = [] \<or> asOf = 0 \<or> owner = [] \<or> deadline \<le> asOf
      then (Inl ErrInvalidReconciliation, rc)
      else case scan_payments (re_poster rc) providerID assetID asOf payments
                  \<lparr>xp_total = 0, xp_byPayment = [], xp_seen = [], xp_evidence = []\<rparr> of
        Inl e \<Rightarrow> (Inl e, rc)
      | Inr x \<Rightarrow>
          (case scan_statement providerID assetID asOf statement
                  \<lparr>ov_total = 0, ov_byPayment = [], ov_seen = [], ov_evidence = []\<rparr> of
             Inl e \<Rightarrow> (Inl e, rc)
           | Inr ov \<Rightarrow>
               if ov_total ov < 0 then (Inl ErrInvalidReconciliation, rc)
               else
                 let run = run_of hashS hashL runID providerID assetID asOf owner deadline x ov;
                     contentHash = hashR run
                 in (case mget (re_runs rc) runID of
                       Some existing \<Rightarrow>
                         if the_default [] (mget (re_runHashes rc) runID) \<noteq> contentHash
                         then (Inl ErrReconciliationConflict, rc) else (Inr existing, rc)
                     | None \<Rightarrow>
                         let rc' = rc\<lparr>re_runs := mput runID run (re_runs rc),
                                      re_runHashes := mput runID contentHash (re_runHashes rc)\<rparr>
                         in (Inr run,
                             if rn_Status run = ReconciliationException
                             then rc'\<lparr>re_exceptions := mput (runID @ '':difference'') (exception_of run)
                                        (re_exceptions rc')\<rparr>
                             else rc'))))"

definition reconciler_Resolve ::
  "Reconciler \<Rightarrow> string \<Rightarrow> string \<Rightarrow> string \<Rightarrow> string \<Rightarrow> string \<Rightarrow> gotime
     \<Rightarrow> (payment_posting_error + ReconResolution) \<times> Reconciler" where
  "reconciler_Resolve rc exceptionID resolutionID evidenceHash resolutionJournalID resolvedBy resolvedAt =
     (if exceptionID = [] \<or> resolutionID = [] \<or> evidenceHash = [] \<or> resolvedBy = [] \<or> resolvedAt = 0
      then (Inl ErrInvalidReconciliationResolution, rc)
      else case mget (re_exceptions rc) exceptionID of
        None \<Rightarrow> (Inl ErrInvalidReconciliationResolution, rc)
      | Some e \<Rightarrow>
          if resolvedAt < ex_DetectedAt e then (Inl ErrInvalidReconciliationResolution, rc)
          else case mget (re_resolutions rc) exceptionID of
            Some existing \<Rightarrow>
              if rs_ResolutionID existing = resolutionID \<and> rs_EvidenceHash existing = evidenceHash \<and>
                 rs_ResolutionJournalID existing = resolutionJournalID \<and>
                 rs_ResolvedBy existing = resolvedBy \<and> rs_ResolvedAt existing = resolvedAt
              then (Inr existing, rc) else (Inl ErrInvalidReconciliationResolution, rc)
          | None \<Rightarrow>
              if resolutionJournalID \<noteq> [] \<and> ledger_Get (pp_book (re_poster rc)) resolutionJournalID = None
              then (Inl ErrInvalidReconciliationResolution, rc)
              else
                let resolution = \<lparr>rs_ResolutionID = resolutionID, rs_ExceptionID = exceptionID,
                      rs_EvidenceHash = evidenceHash, rs_ResolutionJournalID = resolutionJournalID,
                      rs_ResolvedBy = resolvedBy, rs_ResolvedAt = resolvedAt\<rparr>
                in (Inr resolution,
                    rc\<lparr>re_resolutions := mput exceptionID resolution (re_resolutions rc)\<rparr>))"

definition reconciler_Exception :: "Reconciler \<Rightarrow> string \<Rightarrow> ReconException option" where
  "reconciler_Exception rc exceptionID = mget (re_exceptions rc) exceptionID"

definition reconciler_Resolution :: "Reconciler \<Rightarrow> string \<Rightarrow> ReconResolution option" where
  "reconciler_Resolution rc exceptionID = mget (re_resolutions rc) exceptionID"

definition AgingClass :: "gotime \<Rightarrow> gotime \<Rightarrow> payment_posting_error + string" where
  "AgingClass detectedAt asOf =
     (if detectedAt = 0 \<or> asOf < detectedAt then Inl ErrInvalidReconciliation
      else let days = time_sub asOf detectedAt div (24 * hour)
           in Inr (if days \<le> 1 then ''0-1_DAY'' else if days \<le> 3 then ''2-3_DAYS''
                   else if days \<le> 7 then ''4-7_DAYS'' else if days \<le> 30 then ''8-30_DAYS''
                   else ''OVER_30_DAYS''))"

section \<open>Reconciliation is exact\<close>

definition nul_free :: "string \<Rightarrow> bool" where
  "nul_free s \<longleftrightarrow> CHR 0x00 \<notin> set s"

text \<open>What the payments of the provider say should be settled, and what its statement says is.\<close>

definition expected_units :: "string \<Rightarrow> string \<Rightarrow> gotime \<Rightarrow> PaymentIntent list \<Rightarrow> string \<Rightarrow> string \<Rightarrow> int" where
  "expected_units providerID assetID asOf is pid ref =
     (\<Sum>i\<leftarrow>is. if in_scope providerID assetID asOf i \<and> counted asOf i \<and> in_PaymentID i = pid \<and>
                in_ProviderReference i = ref then payment_units i else 0)"

definition statement_units :: "StatementEntry \<Rightarrow> int" where
  "statement_units s =
     (case st_Kind s of
        StatementSettled \<Rightarrow> the_default 0 (big_set_string (st_Units s))
      | StatementReversed \<Rightarrow> - the_default 0 (big_set_string (st_Units s))
      | UnknownKind _ \<Rightarrow> 0)"

definition observed_units :: "StatementEntry list \<Rightarrow> string \<Rightarrow> string \<Rightarrow> int" where
  "observed_units ss pid ref =
     (\<Sum>s\<leftarrow>ss. if st_PaymentID s = pid \<and> st_ProviderReference s = ref then statement_units s else 0)"

lemma reconciliationKey_inject:
  assumes "nul_free p" "nul_free p'"
  shows "reconciliationKey p r = reconciliationKey p' r' \<longleftrightarrow> p = p' \<and> r = r'"
proof
  assume "reconciliationKey p r = reconciliationKey p' r'"
  then have e: "p @ CHR 0x00 # r = p' @ CHR 0x00 # r'" by (simp add: reconciliationKey_def)
  have t: "takeWhile (\<lambda>c. c \<noteq> CHR 0x00) (u @ CHR 0x00 # v) = u" if "nul_free u" for u v
    using that by (subst takeWhile_append2) (auto simp: nul_free_def)
  from e have "p = p'" using t[OF assms(1)] t[OF assms(2)] by metis
  with e show "p = p' \<and> r = r'" by simp
qed simp

definition keyed :: "string set \<Rightarrow> (string, int) gomap \<Rightarrow> bool" where
  "keyed P m \<longleftrightarrow> mwf m \<and> (\<forall>k \<in> set (mkeys m). \<exists>pid ref. pid \<in> P \<and> nul_free pid \<and> k = reconciliationKey pid ref)"

lemma mkeys_mput [simp]: "set (mkeys (mput k v m)) = insert k (set (mkeys m))"
  by (simp add: mkeys_def mput_def dom_update)

lemma keyed_mput:
  "keyed P m \<Longrightarrow> nul_free pid \<Longrightarrow> keyed (insert pid P) (mput (reconciliationKey pid ref) u m)"
  unfolding keyed_def mkeys_mput by (simp only: mwf_mput) blast

lemma keyed_mono: "keyed P m \<Longrightarrow> P \<subseteq> Q \<Longrightarrow> keyed Q m"
  by (auto simp: keyed_def) blast

lemma mget_keys: "mget m k = None \<longleftrightarrow> k \<notin> set (mkeys m)"
  by (simp add: mget_def mkeys_def map_of_eq_None_iff)

lemma length_mput: "length (mput k v m) \<le> Suc (length m)"
  by (induction m) auto

lemma msum_mput_fresh: "mget m k = None \<Longrightarrow> msum f (mput k v m) = msum f m + f v"
  by (simp add: msum_mput)

lemma msum_addUnits: "msum (\<lambda>u. u) (addUnits k u m) = msum (\<lambda>u. u) m + u"
  by (cases "mget m k") (simp_all add: addUnits_def msum_mput)

lemma msum_keys:
  "mwf m \<Longrightarrow> finite K \<Longrightarrow> set (mkeys m) \<subseteq> K \<Longrightarrow> msum (\<lambda>u. u) m = (\<Sum>k \<in> K. the_default 0 (mget m k))"
proof (induction m arbitrary: K)
  case (Cons x m)
  obtain j u where x: "x = (j, u)" by (cases x)
  have wf: "mwf m" "mget m j = None" and j: "j \<in> K"
    using Cons.prems by (auto simp: x mwf_def mkeys_def mget_keys)
  have "msum (\<lambda>u. u) m = (\<Sum>k \<in> K - {j}. the_default 0 (mget m k))"
    using Cons.IH[of "K - {j}"] wf Cons.prems by (auto simp: x mkeys_def mwf_def)
  also have "\<dots> = (\<Sum>k \<in> K - {j}. the_default 0 (mget (x # m) k))"
    by (rule sum.cong) (auto simp: x)
  finally show ?case
    using Cons.prems(2) j by (simp add: x sum.remove[of K j])
qed simp

lemma recon_canonicalInteger_Some [simp]:
  "recon_canonicalInteger s = Some n \<longleftrightarrow> s = big_string n"
  by (auto simp: recon_canonicalInteger_def split: option.splits)

lemma recon_canonicalInteger_string [simp]: "recon_canonicalInteger (big_string n) = Some n"
  by simp

lemma scan_payments_Cons:
  assumes "scan_payments p providerID assetID asOf (i # is) x = Inr x'" "in_scope providerID assetID asOf i"
  obtains units ev where "in_Units i = big_string units" "in_PaymentID i \<notin> set (xp_seen x)"
    "scan_payments p providerID assetID asOf is ((count_payment asOf i units x)\<lparr>xp_evidence := ev\<rparr>) = Inr x'"
proof (cases "recon_canonicalInteger (in_Units i)")
  case None
  with assms show thesis by (simp split: if_splits)
next
  case (Some units)
  let ?y = "count_payment asOf i units x"
  have same: "?y\<lparr>xp_evidence := xp_evidence ?y\<rparr> = ?y" by simp
  from Some have u: "in_Units i = big_string units" by simp
  show thesis
  proof (cases "payment_Record p (in_PaymentID i)")
    case None
    with assms u have "in_PaymentID i \<notin> set (xp_seen x)" "scan_payments p providerID assetID asOf is ?y = Inr x'"
      by (simp_all split: if_splits)
    with u same show thesis by (metis that)
  next
    case (Some rec)
    show thesis
    proof (cases "journal_evidence (pp_book p)
        (rc_ProvisionalJournalID rec # rc_FinalJournalID rec # rc_ReversalJournalIDs rec)")
      case None
      with assms u Some show thesis by (simp add: Let_def del: journal_evidence.simps split: if_splits)
    next
      case ev: (Some ev)
      with assms u Some that[OF u] show thesis
        by (simp add: Let_def del: journal_evidence.simps split: if_splits)
    qed
  qed
qed

lemma scan_payments_spec:
  assumes "scan_payments p providerID assetID asOf is x = Inr x'" "list_all (\<lambda>i. nul_free (in_PaymentID i)) is"
    "keyed (set (xp_seen x)) (xp_byPayment x)" "xp_total x = msum (\<lambda>u. u) (xp_byPayment x)"
  shows "keyed (set (xp_seen x')) (xp_byPayment x') \<and> xp_total x' = msum (\<lambda>u. u) (xp_byPayment x') \<and>
     length (xp_byPayment x') \<le> length (xp_byPayment x) + length is \<and>
     (\<forall>pid ref. nul_free pid \<longrightarrow>
        the_default 0 (mget (xp_byPayment x') (reconciliationKey pid ref)) =
        the_default 0 (mget (xp_byPayment x) (reconciliationKey pid ref)) +
        expected_units providerID assetID asOf is pid ref)"
  using assms
proof (induction "is" arbitrary: x)
  case (Cons i is')
  show ?case
  proof (cases "in_scope providerID assetID asOf i")
    case False
    with Cons.IH[of x] Cons.prems show ?thesis by (auto simp: expected_units_def)
  next
    case True
    let ?k = "reconciliationKey (in_PaymentID i) (in_ProviderReference i)"
    from Cons.prems(1) True obtain units ev where u: "in_Units i = big_string units"
      "in_PaymentID i \<notin> set (xp_seen x)"
      and r: "scan_payments p providerID assetID asOf is' ((count_payment asOf i units x)\<lparr>xp_evidence := ev\<rparr>) = Inr x'"
      by (rule scan_payments_Cons)
    define y where "y = count_payment asOf i units x"
    note y_eq = y_def count_payment_def
    have nf: "nul_free (in_PaymentID i)" "list_all (\<lambda>i. nul_free (in_PaymentID i)) is'" using Cons.prems(2) by auto
    have fresh: "mget (xp_byPayment x) (reconciliationKey (in_PaymentID i) ref) = None" for ref
      using Cons.prems(3) u(2) nf(1) reconciliationKey_inject
      by (auto simp: keyed_def mget_keys)
    have k: "keyed (set (xp_seen y)) (xp_byPayment y)"
      using keyed_mput[OF Cons.prems(3) nf(1)] keyed_mono[OF Cons.prems(3), of "set (xp_seen y)"]
      by (cases "counted asOf i") (auto simp: y_eq)
    have tot: "xp_total y = msum (\<lambda>u. u) (xp_byPayment y)"
      using Cons.prems(4) fresh by (simp add: y_eq msum_mput_fresh)
    have get: "the_default 0 (mget (xp_byPayment y) (reconciliationKey pid ref)) =
        the_default 0 (mget (xp_byPayment x) (reconciliationKey pid ref)) +
        (if counted asOf i \<and> in_PaymentID i = pid \<and> in_ProviderReference i = ref then units else 0)"
      if "nul_free pid" for pid ref
      using fresh reconciliationKey_inject[OF that nf(1)] by (auto simp: y_eq)
    have len: "length (xp_byPayment y) \<le> Suc (length (xp_byPayment x))"
      using length_mput by (auto simp: y_eq)
    have e: "expected_units providerID assetID asOf (i # is') pid ref =
        (if counted asOf i \<and> in_PaymentID i = pid \<and> in_ProviderReference i = ref then units else 0) +
        expected_units providerID assetID asOf is' pid ref" for pid ref
      using True u(1) by (simp add: expected_units_def payment_units_def)
    from Cons.IH[OF r[folded y_def] nf(2)] k tot len get show ?thesis by (auto simp: e)
  qed
qed (simp add: expected_units_def)

lemma scan_statement_spec:
  assumes "scan_statement providerID assetID asOf ss x = Inr x'" "list_all (\<lambda>s. nul_free (st_PaymentID s)) ss"
    "keyed UNIV (ov_byPayment x)" "ov_total x = msum (\<lambda>u. u) (ov_byPayment x)"
  shows "keyed UNIV (ov_byPayment x') \<and> ov_total x' = msum (\<lambda>u. u) (ov_byPayment x') \<and>
     length (ov_byPayment x') \<le> length (ov_byPayment x) + length ss \<and>
     (\<forall>pid ref. nul_free pid \<longrightarrow>
        the_default 0 (mget (ov_byPayment x') (reconciliationKey pid ref)) =
        the_default 0 (mget (ov_byPayment x) (reconciliationKey pid ref)) + observed_units ss pid ref)"
  using assms
proof (induction ss arbitrary: x)
  case (Cons s ss)
  let ?k = "reconciliationKey (st_PaymentID s) (st_ProviderReference s)"
  define y where "y = x\<lparr>ov_total := ov_total x + statement_units s,
      ov_byPayment := addUnits ?k (statement_units s) (ov_byPayment x),
      ov_seen := st_EntryID s # ov_seen x, ov_evidence := ov_evidence x @ [s]\<rparr>"
  from Cons.prems(1) have r: "scan_statement providerID assetID asOf ss y = Inr x'"
    by (cases "st_Kind s"; cases "recon_canonicalInteger (st_Units s)")
       (simp_all add: Let_def y_def statement_units_def split: if_splits)
  have nf: "nul_free (st_PaymentID s)" "list_all (\<lambda>s. nul_free (st_PaymentID s)) ss" using Cons.prems(2) by auto
  have k: "keyed UNIV (ov_byPayment y)"
    using keyed_mput[OF Cons.prems(3) nf(1)] by (simp add: y_def addUnits_def)
  have tot: "ov_total y = msum (\<lambda>u. u) (ov_byPayment y)"
    using Cons.prems(4) by (simp add: y_def msum_addUnits)
  have len: "length (ov_byPayment y) \<le> Suc (length (ov_byPayment x))"
    using length_mput by (simp add: y_def addUnits_def)
  have get: "the_default 0 (mget (ov_byPayment y) (reconciliationKey pid ref)) =
        the_default 0 (mget (ov_byPayment x) (reconciliationKey pid ref)) +
        (if st_PaymentID s = pid \<and> st_ProviderReference s = ref then statement_units s else 0)"
    if "nul_free pid" for pid ref
    using reconciliationKey_inject[OF that nf(1)] by (auto simp: y_def addUnits_def)
  from Cons.IH[OF r nf(2) k tot] len get show ?case by (auto simp: observed_units_def)
qed (simp add: observed_units_def)

lemma expected_units_outside:
  "list_all (\<lambda>i. nul_free (in_PaymentID i)) is \<Longrightarrow> \<not> nul_free pid \<Longrightarrow>
   expected_units providerID assetID asOf is pid ref = 0"
  by (induction "is") (auto simp: expected_units_def)

lemma observed_units_outside:
  "list_all (\<lambda>s. nul_free (st_PaymentID s)) ss \<Longrightarrow> \<not> nul_free pid \<Longrightarrow> observed_units ss pid ref = 0"
  by (induction ss) (auto simp: observed_units_def)

lemma count_fold:
  "fold (\<lambda>k c. if P k then c + 1 else c) ks (c :: 32 word) = c + of_nat (length (filter P ks))"
  by (induction ks arbitrary: c) auto

lemma unat_of_nat_word:
  assumes "n < 2 ^ LENGTH('a)"
  shows "unat (of_nat n :: 'a::len word) = n"
  using assms by (simp add: unsigned_of_nat take_bit_nat_eq_self)

lemma mismatchCount_zero:
  assumes "length m + length n < 2 ^ 32"
  shows "mismatchCount m n = 0 \<longleftrightarrow> (\<forall>k. the_default 0 (mget m k) = the_default 0 (mget n k))"
proof -
  define P where "P k \<longleftrightarrow> the_default 0 (mget m k) \<noteq> the_default 0 (mget n k)" for k
  define ks where "ks = remdups (mkeys m @ mkeys n)"
  have "length (filter P ks) \<le> length ks" by (rule length_filter_le)
  also have "length ks \<le> length m + length n"
    using length_remdups_leq[of "mkeys m @ mkeys n"] by (simp add: mkeys_def ks_def)
  finally have "length (filter P ks) < 2 ^ LENGTH(32)" using assms by simp
  then have u: "unat (of_nat (length (filter P ks)) :: 32 word) = length (filter P ks)"
    by (rule unat_of_nat_word)
  have zero: "(of_nat (length (filter P ks)) :: 32 word) = 0 \<longleftrightarrow> filter P ks = []"
  proof
    assume "(of_nat (length (filter P ks)) :: 32 word) = 0"
    then have "length (filter P ks) = unat (0 :: 32 word)" using u by simp
    then show "filter P ks = []" by simp
  qed simp
  have out: "\<not> P k" if "k \<notin> set ks" for k
    using that mget_keys[of m k] mget_keys[of n k] by (simp add: P_def ks_def)
  have "mismatchCount m n = of_nat (length (filter P ks))"
    using count_fold[of P ks 0] unfolding mismatchCount_def P_def ks_def by simp
  moreover have "filter P ks = [] \<longleftrightarrow> (\<forall>k. \<not> P k)" using out by (auto simp: filter_empty_conv)
  ultimately show ?thesis using zero by (simp add: P_def)
qed

lemma msum_agree:
  assumes "mwf m" "mwf n" "\<And>k. the_default 0 (mget m k) = the_default 0 (mget n k)"
  shows "msum (\<lambda>u. u) m = msum (\<lambda>u. u) n"
proof -
  let ?K = "set (mkeys m) \<union> set (mkeys n)"
  have "msum (\<lambda>u. u) m = (\<Sum>k \<in> ?K. the_default 0 (mget m k))"
    "msum (\<lambda>u. u) n = (\<Sum>k \<in> ?K. the_default 0 (mget n k))"
    using assms(1,2) by (simp_all add: msum_keys[of _ ?K])
  with assms(3) show ?thesis by simp
qed

lemma keyed_agree:
  assumes "keyed P m" "keyed Q n"
  shows "(\<forall>k. the_default 0 (mget m k) = the_default 0 (mget n k)) \<longleftrightarrow>
    (\<forall>pid ref. nul_free pid \<longrightarrow> the_default 0 (mget m (reconciliationKey pid ref)) =
       the_default 0 (mget n (reconciliationKey pid ref)))"
proof (intro iffI allI)
  fix k
  assume all: "\<forall>pid ref. nul_free pid \<longrightarrow> the_default 0 (mget m (reconciliationKey pid ref)) =
       the_default 0 (mget n (reconciliationKey pid ref))"
  show "the_default 0 (mget m k) = the_default 0 (mget n k)"
  proof (cases "\<exists>pid ref. nul_free pid \<and> k = reconciliationKey pid ref")
    case False
    then have "k \<notin> set (mkeys m)" "k \<notin> set (mkeys n)" using assms unfolding keyed_def by blast+
    then show ?thesis by (simp add: mget_keys[symmetric])
  qed (use all in auto)
qed auto

text \<open>
  C23: reconciliation is exact. When a run of the reconciler succeeds, its status is \<open>MATCHED\<close> exactly
  when for every payment and provider reference the amount that the finalised payments say is settled
  is the amount the statement nets to. (Payment identifiers hold no NUL character, and the payments
  and the statement are together shorter than the 32-bit counter.)
\<close>

theorem reconciliation_exact:
  assumes run: "reconciler_Run hashS hashL hashR rc runID providerID assetID asOf owner deadline payments statement
      = (Inr run, rc')"
    and new: "mget (re_runs rc) runID = None"
    and nf: "list_all (\<lambda>i. nul_free (in_PaymentID i)) payments" "list_all (\<lambda>s. nul_free (st_PaymentID s)) statement"
    and len: "length payments + length statement < 2 ^ 32"
  shows "rn_Status run = ReconciliationMatched \<longleftrightarrow>
     (\<forall>pid ref. expected_units providerID assetID asOf payments pid ref = observed_units statement pid ref)"
proof -
  from run new obtain x ov where
    x: "scan_payments (re_poster rc) providerID assetID asOf payments
        \<lparr>xp_total = 0, xp_byPayment = [], xp_seen = [], xp_evidence = []\<rparr> = Inr x"
    and ov: "scan_statement providerID assetID asOf statement
        \<lparr>ov_total = 0, ov_byPayment = [], ov_seen = [], ov_evidence = []\<rparr> = Inr ov"
    and r: "run = run_of hashS hashL runID providerID assetID asOf owner deadline x ov"
    by (auto simp: reconciler_Run_def Let_def split: if_splits sum.splits)
  let ?E = "\<lambda>k. the_default 0 (mget (xp_byPayment x) k)" and ?O = "\<lambda>k. the_default 0 (mget (ov_byPayment ov) k)"
  have K0: "keyed P []" for P by (simp add: keyed_def mkeys_def)
  from scan_payments_spec[OF x nf(1)] K0 have X: "keyed (set (xp_seen x)) (xp_byPayment x)"
    "xp_total x = msum (\<lambda>u. u) (xp_byPayment x)" "length (xp_byPayment x) \<le> length payments"
    "\<And>pid ref. nul_free pid \<Longrightarrow> ?E (reconciliationKey pid ref) = expected_units providerID assetID asOf payments pid ref"
    by auto
  from scan_statement_spec[OF ov nf(2)] K0 have O: "keyed UNIV (ov_byPayment ov)"
    "ov_total ov = msum (\<lambda>u. u) (ov_byPayment ov)" "length (ov_byPayment ov) \<le> length statement"
    "\<And>pid ref. nul_free pid \<Longrightarrow> ?O (reconciliationKey pid ref) = observed_units statement pid ref"
    by auto
  have count: "mismatchCount (xp_byPayment x) (ov_byPayment ov) = 0 \<longleftrightarrow> (\<forall>k. ?E k = ?O k)"
    by (rule mismatchCount_zero) (use X(3) O(3) len in linarith)
  have total: "ov_total ov = xp_total x" if "\<forall>k. ?E k = ?O k"
    using msum_agree[of "ov_byPayment ov" "xp_byPayment x"] that X(1,2) O(1,2) by (simp add: keyed_def)
  have "(\<forall>k. ?E k = ?O k) \<longleftrightarrow> (\<forall>pid ref. nul_free pid \<longrightarrow>
      expected_units providerID assetID asOf payments pid ref = observed_units statement pid ref)"
    using keyed_agree[OF X(1) O(1)] X(4) O(4) by simp
  moreover have "expected_units providerID assetID asOf payments pid ref = observed_units statement pid ref"
    if "\<not> nul_free pid" for pid ref
    using expected_units_outside[OF nf(1) that] observed_units_outside[OF nf(2) that] by simp
  ultimately have "(\<forall>k. ?E k = ?O k) \<longleftrightarrow>
      (\<forall>pid ref. expected_units providerID assetID asOf payments pid ref = observed_units statement pid ref)"
    by blast
  then show ?thesis
    using count total by (auto simp: r run_of_def Let_def)
qed

text \<open>A final payment of seven units, reported as settled by the provider, and its run.\<close>

definition settled_intent :: PaymentIntent where
  "settled_intent = \<lparr>in_PaymentID = ''P'', in_LegalEntityID = ''E'', in_IdempotencyKey = ''K'',
     in_CorrelationID = ''C'', in_PayerReference = ''B'', in_LoanID = ''L'', in_ProviderID = ''V'',
     in_ProviderReference = ''R'', in_Rail = RailBank, in_Purpose = ''REPAYMENT'', in_AssetID = ''UFT'',
     in_Units = ''7'', in_ExpiresAt = 90, in_SchemaVersion = 1, in_Status = StatusFinal, in_Version = 4,
     in_CreatedAt = 10, in_UpdatedAt = 30, in_ProvisionalAt = 20, in_FinalizedAt = 30, in_ReversedAt = 0\<rparr>"

definition settled_line :: StatementEntry where
  "settled_line = \<lparr>st_EntryID = ''S'', st_ProviderID = ''V'', st_ProviderReference = ''R'', st_PaymentID = ''P'',
     st_AssetID = ''UFT'', st_Units = ''7'', st_Kind = StatementSettled, st_OccurredAt = 31\<rparr>"

definition settled_poster :: PaymentPoster where
  "settled_poster =
     (let p = \<lparr>pp_book = ledger_New, pp_legalEntityID = ''E'', pp_bookID = ''BK'', pp_records = [], pp_events = []\<rparr>;
          t = \<lparr>tr_Payment = settled_intent, tr_From = StatusProcessing, tr_To = StatusProvisional,
               tr_ProviderEventID = ''e'', tr_OccurredAt = 20, tr_ReceivedAt = 20, tr_EvidenceHash = ''h''\<rparr>
      in p\<lparr>pp_book := ledger_New\<lparr>l_byID :=
               [(''payment:P:provisional'', \<lparr>p_Journal = provisionalJournal p t, p_ContentHash = ''x'', p_PostedAt = 21\<rparr>),
                (''payment:P:final'', \<lparr>p_Journal = finalJournal p t, p_ContentHash = ''y'', p_PostedAt = 31\<rparr>)]\<rparr>,
           pp_records := [(''P'', \<lparr>rc_PaymentID = ''P'', rc_ProvisionalJournalID = ''payment:P:provisional'',
               rc_FinalJournalID = ''payment:P:final'', rc_ReversalJournalIDs = []\<rparr>)]\<rparr>)"

definition settled_run :: "(payment_posting_error + ReconciliationRun) \<times> Reconciler" where
  "settled_run = reconciler_Run (\<lambda>_. ''s'') (\<lambda>_. ''l'') (\<lambda>_. ''r'') (NewReconciler settled_poster)
     ''RUN'' ''V'' ''UFT'' 40 ''ops'' 50 [settled_intent] [settled_line]"

lemma settled_run_ok: "\<exists>run rc. settled_run = (Inr run, rc)"
proof -
  have u: "recon_canonicalInteger ''7'' = Some 7" by (simp add: big_eval)
  have ev: "\<exists>ev. journal_evidence (pp_book settled_poster) [''payment:P:provisional'', ''payment:P:final''] = Some ev"
    by (simp add: settled_poster_def Let_def ledger_Get_def)
  have rec: "payment_Record settled_poster ''P'' = Some \<lparr>rc_PaymentID = ''P'',
      rc_ProvisionalJournalID = ''payment:P:provisional'', rc_FinalJournalID = ''payment:P:final'',
      rc_ReversalJournalIDs = []\<rparr>"
    by (simp add: settled_poster_def Let_def payment_Record_def)
  from ev show ?thesis
    unfolding settled_run_def reconciler_Run_def
    by (auto simp: u rec NewReconciler_def Let_def in_scope_def counted_def count_payment_def settled_intent_def
        settled_line_def simp del: journal_evidence.simps recon_canonicalInteger_Some)
qed

theorem reconciliation_exact_witness:
  "rn_Status (projr (fst settled_run)) = ReconciliationMatched"
proof -
  obtain run rc where r: "settled_run = (Inr run, rc)" using settled_run_ok by blast
  have "expected_units ''V'' ''UFT'' 40 [settled_intent] pid ref = observed_units [settled_line] pid ref" for pid ref
    by (simp add: expected_units_def observed_units_def in_scope_def counted_def settled_intent_def settled_line_def
        payment_units_def statement_units_def)
  moreover have "rn_Status run = ReconciliationMatched \<longleftrightarrow> (\<forall>pid ref.
      expected_units ''V'' ''UFT'' 40 [settled_intent] pid ref = observed_units [settled_line] pid ref)"
    by (rule reconciliation_exact[OF r[unfolded settled_run_def]])
       (simp_all add: NewReconciler_def nul_free_def settled_intent_def settled_line_def)
  ultimately show ?thesis by (simp add: r)
qed

end
