(* ===== verification/Spec2Isabelle.thy ===== *)
theory Spec2Isabelle
  imports Credit_Evidence Receipt_Evidence Payment_Desk Schedule Underwriting Message_Registry Coordinator_Store Provider_Router Coordinator_Reconciliation Recovery_Safety Recovery_Messages Syndicate_Accounting Crosschain_Accounting Crosschain_Reconciliation
    Allocation_Accounting Payment_Reconciliation
begin

text \<open>
  \<^bold>\<open>UNIFIED: a verification library for the Go services under src/services\<close>

  The repository is a lending platform. Its services are a double-entry ledger with the accounting
  services over it (\<^verbatim>\<open>foundation-ledger\<close>), the fixed-point arithmetic of interest, schedules and
  underwriting (\<^verbatim>\<open>risk-engine\<close>), payments and their allocation to obligations
  (\<^verbatim>\<open>payment-orchestrator\<close>), messages between chains and their recovery
  (\<^verbatim>\<open>cross-chain-coordinator\<close>) and the read side (\<^verbatim>\<open>chain-indexer\<close>, \<^verbatim>\<open>core-api\<close>). This library models the
  decision-making packages of these services; paths below are relative to \<^verbatim>\<open>src/services\<close>.

  \<^bold>\<open>How Go is rendered\<close>

  \<^item> A struct is a record with a short prefix on its fields, an enumeration a datatype (a string type
    with named constants has a last constructor for every other string). A method that mutates its
    receiver returns the new receiver beside its result. An error is the left side of a sum, or an
    option where the method returns nothing else, with one constructor per sentinel or message that
    callers can tell apart; a panic that an input can trigger is such an error too.
  \<^item> \<^verbatim>\<open>big.Int\<close> is \<open>int\<close>, \<^verbatim>\<open>uint64\<close> is \<open>64 word\<close> (likewise for the other widths, so that wrap-around is
    that of Go), \<^verbatim>\<open>[]byte\<close> is \<open>byte list\<close>, \<^verbatim>\<open>time.Time\<close> the integer \<open>gotime\<close> of nanoseconds whose zero is
    the zero time, a map an association list \<open>gomap\<close> with unique keys (\<open>Go_Prelude\<close>). Decimal text is
    read and written as \<^verbatim>\<open>math/big\<close> does (\<open>Big_Int\<close>).
  \<^item> Code outside the repository is a parameter: hash functions, JSON and protobuf encodings, signature
    recovery, transports, destinations, stores and handlers. What a theorem needs of it is a named
    hypothesis or the assumption of a locale, and witnesses use concrete functions that satisfy it.
    No theorem assumes that a hash is injective: where that matters the conclusion names the collision.
  \<^item> Methods that hold a mutex for their whole body are single steps; interleavings are the sequences
    of steps that \<open>reachable\<close> and the reflexive transitive closure of the step relations range over. The
    router's \<open>Deliver\<close> lets go of its mutex while a provider is called; its locked sections and submissions
    are separate steps of \<open>router_run\<close>.
    Loops are structural recursion or functions with a termination proof; nothing needs fuel.

  \<^bold>\<open>Foundations\<close>

  \<^item> \<open>Go_Prelude\<close>, \<open>Big_Int\<close>, \<open>Abi_Words\<close>: maps, errors, decimal text, big-endian bytes, ABI words.
  \<^item> \<open>Transition\<close>: the locales \<open>kept_invariant\<close> and \<open>monotone_history\<close>, which every stateful component
    interprets on its own step relation.

  \<^bold>\<open>Ledger and accounting\<close> (\<^verbatim>\<open>foundation-ledger/internal\<close>)

  \<^item> \<open>Ledger\<close> (\<^verbatim>\<open>ledger/ledger.go\<close>): \<open>Post\<close>, \<open>PostBatch\<close>, \<open>Reverse\<close>, \<open>ledger_Get\<close>, \<open>ledger_List\<close>. Every
    reachable ledger is balanced in every asset and its three indexes agree; posting refines an
    append-only log; batches are atomic and idempotent; a reversal cancels its target exactly once.
  \<^item> \<open>Accounting_Service\<close>: the locale of a service that turns an event into journals, and its laws.
    \<open>Loan_Accounting\<close>, \<open>Syndicate_Accounting\<close> and \<open>Crosschain_Accounting\<close> interpret it: receivables mirror
    lender claims, events conserve value, each canonical effect is booked at most once and only under
    finalized authority, and every account group nets to zero.
  \<^item> \<open>Crosschain_Reconciliation\<close>: the comparison of control totals with postings is exact.
  \<^item> \<open>Payment_Accounting\<close> and \<open>Payment_Reconciliation\<close> (\<^verbatim>\<open>paymentaccounting/accounting.go\<close>): the poster that
    follows the status of a payment, and the reconciler, which reports MATCHED exactly when expected
    and observed units agree for every payment and provider reference.
  \<^item> \<open>Allocation_Accounting\<close> (\<^verbatim>\<open>allocationaccounting/accounting.go\<close>): the poster of allocations and its
    agreement with the engine.

  \<^item> \<open>Credit_Evidence\<close> (\<^verbatim>\<open>creditevidence/store.go\<close>): the store of identity and credit evidence is an
    append-only log of valid records without duplicates.

  \<^bold>\<open>Arithmetic\<close> (\<^verbatim>\<open>risk-engine/internal\<close>)

  \<^item> \<open>Interest\<close>, \<open>Schedule\<close> (\<^verbatim>\<open>calculation\<close>): rounding bounds, schedules that repay the principal exactly,
    termination, and the due times modulo the 64-bit range, with the case in which they wrap.
  \<^item> \<open>Underwriting\<close> (\<^verbatim>\<open>underwriting/engine.go\<close>): decisions follow the policy on fresh evidence, and the
    evidence encoding is injective.

  \<^bold>\<open>Payments\<close> (\<^verbatim>\<open>payment-orchestrator\<close>)

  \<^item> \<open>Payment_Types\<close>, \<open>Payment_Orchestrator\<close> (\<^verbatim>\<open>payment/payment.go\<close>): intents, signed callbacks, reversals.
    \<open>Payment_Books\<close> proves their behaviour for every accounting and coordinator that meet a locale's
    laws, \<open>Payment_Desk\<close> for the composition with the real poster, the local coordinator
    (\<^verbatim>\<open>local_reversal_coordinator.go\<close>, which its comment calls a test-only adapter and not runtime wiring)
    and the mode registry: the ledger follows the payments that \<open>RestorePayment\<close> did not bring in with a
    booked status, changes are authentic, and the status moves along the transition table.
  \<^item> \<open>Allocation_Mode\<close> (\<^verbatim>\<open>allocationmode\<close>, and the two loops of \<^verbatim>\<open>settlement.NewWithStore\<close> that rehydrate the
    registry): a payment's mode claim is a latch, a confirmed claim is released by nothing but a \<open>Restore\<close>
    that says so, and a restart brings back claims, states and tombstones. \<open>Allocation\<close>
    (\<^verbatim>\<open>allocation/allocation.go\<close>): debt is conserved, release needs final settlement, and a payment whose
    booking failed is stranded once the obligation has moved on.

  \<^bold>\<open>Messages between chains\<close> (\<^verbatim>\<open>cross-chain-coordinator\<close>)

  \<^item> \<open>Message_Types\<close> (\<^verbatim>\<open>src/schemas/proto/unified/v1/crosschain.proto\<close>), \<open>Message_Digest\<close>
    (\<^verbatim>\<open>message/digest.go\<close>), \<open>Message_Identity\<close>: the encodings lose nothing, so that a message identifier
    determines the envelope up to a collision of Keccak.
  \<^item> \<open>Message_Registry\<close> (\<^verbatim>\<open>message/registry.go\<close>): lanes execute in nonce order, each message once; an expired
    message blocks its lane, also the cancellation report that the contract function would accept.
  \<^item> \<open>Coordinator_Store\<close> (\<^verbatim>\<open>store/store.go\<close>, \<open>CanTransition\<close>): the life of a message record.
  \<^item> \<open>Provider_Router\<close> (\<^verbatim>\<open>provider/provider.go\<close>): failover in the approved order with fixed bytes, for
    deliveries that run side by side.
  \<^item> \<open>Coordinator_Reconciliation\<close> (\<^verbatim>\<open>reconciliation/reconciliation.go\<close>): the comparison is exact.
  \<^item> \<open>Recovery\<close>, \<open>Recovery_Manager\<close> (\<^verbatim>\<open>recovery/recovery.go\<close>), \<open>Recovery_Economics\<close>, \<open>Recovery_Safety\<close>:
    compensations are authorized by two keys of three, follow the tombstone, pay the original value and
    are final. \<open>Recovery_Messages\<close> joins both halves: recovery reads out of a payload what the message
    encoding wrote into it.

  \<^bold>\<open>Chain evidence\<close> (\<^verbatim>\<open>chain-indexer/projection\<close>)

  \<^item> \<open>Chain_Types\<close> (\<^verbatim>\<open>indexer.go\<close>): events, blocks, receipts and the evidence other services consume.
  \<^item> \<open>Hex_Text\<close>, \<open>Evm_Rlp\<close>, \<open>Evm_Trie\<close> (\<^verbatim>\<open>gateway.go\<close>, \<^verbatim>\<open>evmproof.go\<close>): canonical hexadecimal text; the RLP decoder
    accepts exactly the canonical encodings; a trie root and a key determine the value and its proof.
  \<^item> \<open>Evm_Block\<close>, \<open>Evm_Evidence\<close>: the decoder of gateway logs, headers, receipts, authenticated blocks and
    receipt evidence. \<open>Evm_Agreement\<close>: a header hash determines the receipts and events of a block.
    \<open>Receipt_Evidence\<close>: evidence carries the log at its index, is buried by a signed path of the required
    depth, and is determined by block hash and log index. These theorems name the collision of Keccak
    on bytes of the inputs; sizes that Go keeps in an \<^verbatim>\<open>int\<close> are naturals below the limits of the code.

  \<^bold>\<open>Not modelled\<close>

  \<^item> The \<open>Indexer\<close> of \<^verbatim>\<open>chain-indexer/projection/indexer.go\<close> beyond its types, the canonical settlement
    coordinator (\<^verbatim>\<open>payment-orchestrator/settlement\<close>, apart from the two loops above) that consumes its evidence, and the accounting of
    its confirmations (\<^verbatim>\<open>foundation-ledger/internal/settlementaccounting\<close>, \<^verbatim>\<open>settlementrepository\<close>,
    \<^verbatim>\<open>settlementintegration\<close>). They are one chain of components over the evidence that \<open>Evm_Evidence\<close>
    models, and are not translated here. Neither is \<^verbatim>\<open>chain-indexer/crosschain/projector.go\<close>, whose inputs
    are evidence messages of the schema that are not translated.
  \<^item> Code that is a database or process boundary: \<^verbatim>\<open>cross-chain-coordinator/store/sql.go\<close>, the SQL store of
    \<^verbatim>\<open>allocationmode\<close>, \<^verbatim>\<open>cmd/local-worker\<close>, the servers, \<^verbatim>\<open>verify-phase8-inclusion\<close> and the HTTP handlers
    of \<^verbatim>\<open>core-api\<close>. Their behaviour is that of SQL, JSON and network peers outside the repository.
  \<^item> Generated protobuf code, test fixtures, the Solidity contracts (apart from \<^verbatim>\<open>isReportAction\<close>), the
    TypeScript packages and the scripts.
  \<^item> Goroutines inside one method do not occur; fairness, timing and memory use are outside the model.
\<close>

end
